(* ===== verification/Lyra_Prelude.thy ===== *)
theory Lyra_Prelude
  imports Main
begin

text \<open>
  Shared vocabulary of the development.

  Rust's \<^verbatim>\<open>String\<close>/\<^verbatim>\<open>&str\<close> is a sequence of UTF-8 bytes; it is modelled by Isabelle's
  \<open>string\<close>, whose characters are bytes, so that \<^verbatim>\<open>len()\<close> is \<open>length\<close>. The functions below are
  the parts of the Rust standard library the modelled code calls on strings and integers:
  ASCII classification and case mapping, \<^verbatim>\<open>trim\<close>, \<^verbatim>\<open>split\<close>, \<^verbatim>\<open>starts_with\<close>, \<^verbatim>\<open>strip_prefix\<close>,
  decimal rendering and \<^verbatim>\<open>str::parse\<close> for \<^verbatim>\<open>i64\<close> and \<^verbatim>\<open>u64\<close>. An \<^verbatim>\<open>async fn\<close> that threads a
  store and may return early with an error is a function of type \<open>('s, 'e, 'a) eff\<close>; the operator
  \<open>bindE\<close> is Rust's \<^verbatim>\<open>?\<close> on it.
\<close>

named_theorems lyra_simps \<open>rewrite rules that evaluate the shared vocabulary\<close>
named_theorems key_simps \<open>distinctness and prefix facts of kv keys\<close>

section \<open>Effects: state and early return\<close>

type_synonym ('s, 'e, 'a) eff = "'s \<Rightarrow> ('e + 'a) \<times> 's"

definition okE :: "'a \<Rightarrow> ('s, 'e, 'a) eff" where
  "okE x s = (Inr x, s)"

definition errE :: "'e \<Rightarrow> ('s, 'e, 'a) eff" where
  "errE e s = (Inl e, s)"

definition bindE :: "('s, 'e, 'a) eff \<Rightarrow> ('a \<Rightarrow> ('s, 'e, 'b) eff) \<Rightarrow> ('s, 'e, 'b) eff" where
  "bindE m f s = (case m s of (Inl e, s') \<Rightarrow> (Inl e, s') | (Inr x, s') \<Rightarrow> f x s')"

definition map_errE :: "('e \<Rightarrow> 'f) \<Rightarrow> ('s, 'e, 'a) eff \<Rightarrow> ('s, 'f, 'a) eff" where
  "map_errE g m s = (case m s of (Inl e, s') \<Rightarrow> (Inl (g e), s') | (Inr x, s') \<Rightarrow> (Inr x, s'))"

definition ofE :: "'e + 'a \<Rightarrow> ('s, 'e, 'a) eff" where
  "ofE r s = (r, s)"

text \<open>\<open>let _ = op.await;\<close> and \<open>op.await.ok()\<close>: the error is dropped, its effect is kept.\<close>

definition okOptE :: "('s, 'e, 'a) eff \<Rightarrow> ('s, 'f, 'a option) eff" where
  "okOptE m s = (case m s of (Inl e, s') \<Rightarrow> (Inr None, s') | (Inr x, s') \<Rightarrow> (Inr (Some x), s'))"

lemma okE_apply [simp]: "okE x s = (Inr x, s)"
  by (simp add: okE_def)

lemma errE_apply [simp]: "errE e s = (Inl e, s)"
  by (simp add: errE_def)

lemma ofE_apply [simp]: "ofE r s = (r, s)"
  by (simp add: ofE_def)

lemma bindE_Inr [simp]: "m s = (Inr x, s') \<Longrightarrow> bindE m f s = f x s'"
  by (simp add: bindE_def)

lemma bindE_Inl [simp]: "m s = (Inl e, s') \<Longrightarrow> bindE m f s = (Inl e, s')"
  by (simp add: bindE_def)

lemma bindE_eq_Inr:
  "bindE m f s = (Inr y, t) \<longleftrightarrow> (\<exists>x s'. m s = (Inr x, s') \<and> f x s' = (Inr y, t))"
  by (auto simp: bindE_def split: prod.splits sum.splits)

lemma bindE_InrE:
  assumes "bindE m f s = (Inr y, t)"
  obtains x s' where "m s = (Inr x, s')" and "f x s' = (Inr y, t)"
  using assms by (auto simp: bindE_eq_Inr)

lemma bindE_cases:
  assumes "bindE m f s = (res, t)"
  obtains e where "m s = (Inl e, t)" and "res = Inl e"
  | x s' where "m s = (Inr x, s')" and "f x s' = (res, t)"
  using assms by (auto simp: bindE_def split: prod.splits sum.splits)

lemma map_errE_Inr [simp]: "m s = (Inr x, s') \<Longrightarrow> map_errE g m s = (Inr x, s')"
  by (simp add: map_errE_def)

lemma map_errE_Inl [simp]: "m s = (Inl e, s') \<Longrightarrow> map_errE g m s = (Inl (g e), s')"
  by (simp add: map_errE_def)

lemma map_errE_eq_Inr [simp]: "map_errE g m s = (Inr x, t) \<longleftrightarrow> m s = (Inr x, t)"
  by (auto simp: map_errE_def split: prod.splits sum.splits)

section \<open>JSON values\<close>

text \<open>\<^verbatim>\<open>serde_json::Value\<close>; a number is its text.\<close>

datatype Json = JNull | JBool bool | JNumber string | JString string | JArray "Json list"
  | JObject "(string \<times> Json) list"

text \<open>\<^verbatim>\<open>get(k)\<close> and \<^verbatim>\<open>as_str\<close>.\<close>

fun jget :: "string \<Rightarrow> Json \<Rightarrow> Json option" where
  "jget k (JObject kvs) = map_of kvs k"
| "jget k _ = None"

fun as_str :: "Json \<Rightarrow> string option" where
  "as_str (JString s) = Some s"
| "as_str _ = None"

section \<open>Bytes and ASCII\<close>

abbreviation byte :: "char \<Rightarrow> nat" where
  "byte c \<equiv> of_char c"

definition is_ascii_digit :: "char \<Rightarrow> bool" where
  "is_ascii_digit c \<longleftrightarrow> 48 \<le> byte c \<and> byte c \<le> 57"

definition is_ascii_lowercase :: "char \<Rightarrow> bool" where
  "is_ascii_lowercase c \<longleftrightarrow> 97 \<le> byte c \<and> byte c \<le> 122"

definition is_ascii_uppercase :: "char \<Rightarrow> bool" where
  "is_ascii_uppercase c \<longleftrightarrow> 65 \<le> byte c \<and> byte c \<le> 90"

definition is_ascii_alphabetic :: "char \<Rightarrow> bool" where
  "is_ascii_alphabetic c \<longleftrightarrow> is_ascii_lowercase c \<or> is_ascii_uppercase c"

definition is_ascii_alphanumeric :: "char \<Rightarrow> bool" where
  "is_ascii_alphanumeric c \<longleftrightarrow> is_ascii_alphabetic c \<or> is_ascii_digit c"

definition ascii_lower :: "char \<Rightarrow> char" where
  "ascii_lower c = (if is_ascii_uppercase c then char_of (byte c + 32) else c)"

definition to_ascii_lowercase :: "string \<Rightarrow> string" where
  "to_ascii_lowercase = map ascii_lower"

definition is_ascii :: "string \<Rightarrow> bool" where
  "is_ascii s \<longleftrightarrow> list_all (\<lambda>c. byte c < 128) s"

text \<open>Number of Unicode scalar values of a UTF-8 byte string (\<^verbatim>\<open>chars().count()\<close>): every byte
  that is not a continuation byte \<^verbatim>\<open>10xxxxxx\<close> starts one.\<close>

definition char_count :: "string \<Rightarrow> nat" where
  "char_count s = length (filter (\<lambda>c. \<not> (128 \<le> byte c \<and> byte c < 192)) s)"

lemmas ascii_defs [lyra_simps] =
  is_ascii_digit_def is_ascii_lowercase_def is_ascii_uppercase_def is_ascii_alphabetic_def
  is_ascii_alphanumeric_def ascii_lower_def to_ascii_lowercase_def

lemma ascii_lower_idem [simp]: "ascii_lower (ascii_lower c) = ascii_lower c"
  by (auto simp: ascii_lower_def is_ascii_uppercase_def)

lemma ascii_lower_not_upper [simp]: "\<not> is_ascii_uppercase (ascii_lower c)"
  by (auto simp: ascii_lower_def is_ascii_uppercase_def)

lemma to_ascii_lowercase_idem [simp]:
  "to_ascii_lowercase (to_ascii_lowercase s) = to_ascii_lowercase s"
  by (simp add: to_ascii_lowercase_def)

lemma length_to_ascii_lowercase [simp]: "length (to_ascii_lowercase s) = length s"
  by (simp add: to_ascii_lowercase_def)

section \<open>Prefixes and separators\<close>

definition starts_with :: "string \<Rightarrow> string \<Rightarrow> bool" where
  "starts_with s p \<longleftrightarrow> take (length p) s = p"

definition ends_with :: "string \<Rightarrow> string \<Rightarrow> bool" where
  "ends_with s p \<longleftrightarrow> length p \<le> length s \<and> drop (length s - length p) s = p"

definition strip_prefix :: "string \<Rightarrow> string \<Rightarrow> string option" where
  "strip_prefix s p = (if starts_with s p then Some (drop (length p) s) else None)"

text \<open>\<^verbatim>\<open>s.contains(p)\<close> for a string pattern.\<close>

fun contains_str :: "string \<Rightarrow> string \<Rightarrow> bool" where
  "contains_str [] p = (p = [])"
| "contains_str (c # cs) p = (starts_with (c # cs) p \<or> contains_str cs p)"

text \<open>\<^verbatim>\<open>s.split(c)\<close>: \<open>n\<close> separators give \<open>n + 1\<close> parts, the empty ones kept.\<close>

fun split_on :: "char \<Rightarrow> string \<Rightarrow> string list" where
  "split_on sep [] = [[]]"
| "split_on sep (c # cs) =
     (if c = sep then [] # split_on sep cs
      else case split_on sep cs of [] \<Rightarrow> [[c]] | p # ps \<Rightarrow> (c # p) # ps)"

fun join_with :: "string \<Rightarrow> string list \<Rightarrow> string" where
  "join_with sep [] = []"
| "join_with sep [p] = p"
| "join_with sep (p # q # ps) = p @ sep @ join_with sep (q # ps)"

lemma starts_with_append [simp]: "starts_with (p @ s) p"
  by (simp add: starts_with_def)

lemma starts_with_Nil [simp]: "starts_with s []"
  by (simp add: starts_with_def)

lemma starts_with_iff: "starts_with s p \<longleftrightarrow> (\<exists>t. s = p @ t)"
  by (metis append_take_drop_id starts_with_append starts_with_def)

lemma starts_with_Cons_Cons [simp, lyra_simps]:
  "starts_with (c # cs) (d # ds) \<longleftrightarrow> c = d \<and> starts_with cs ds"
  by (auto simp: starts_with_def)

lemma starts_with_Nil_Cons [simp, lyra_simps]: "\<not> starts_with [] (d # ds)"
  by (simp add: starts_with_def)

lemma starts_with_same_append [simp]: "starts_with (p @ s) (p @ q) \<longleftrightarrow> starts_with s q"
  by (simp add: starts_with_def)

lemma ends_with_iff: "ends_with s p \<longleftrightarrow> (\<exists>t. s = t @ p)"
  by (metis append_take_drop_id diff_diff_cancel diff_le_self ends_with_def le_add2 length_append
      length_drop append_eq_conv_conj add_diff_cancel_right')

lemma strip_prefix_Some: "strip_prefix s p = Some r \<longleftrightarrow> s = p @ r"
  by (auto simp: strip_prefix_def starts_with_iff)

lemma split_on_not_Nil [simp]: "split_on sep s \<noteq> []"
  by (induction s) (auto split: list.splits)

lemma split_on_Cons_other:
  "c \<noteq> sep \<Longrightarrow> split_on sep (c # cs) = (c # hd (split_on sep cs)) # tl (split_on sep cs)"
  by (auto split: list.splits)

lemma join_with_Cons:
  "ps \<noteq> [] \<Longrightarrow> join_with sep (p # ps) = p @ sep @ join_with sep ps"
  by (cases ps) auto

lemma join_split_on: "join_with [sep] (split_on sep s) = s"
proof (induction s)
  case Nil
  then show ?case by simp
next
  case (Cons c cs)
  show ?case
  proof (cases "c = sep")
    case True
    with Cons show ?thesis by (simp add: join_with_Cons)
  next
    case False
    obtain p ps where sp: "split_on sep cs = p # ps"
      by (cases "split_on sep cs") auto
    with Cons False show ?thesis by (cases ps) auto
  qed
qed

lemma split_on_no_sep: "p \<in> set (split_on sep s) \<Longrightarrow> sep \<notin> set p"
  by (induction s arbitrary: p) (auto split: if_splits list.splits)

lemma split_on_single: "sep \<notin> set s \<Longrightarrow> split_on sep s = [s]"
  by (induction s) auto

lemma split_on_append_sep:
  "sep \<notin> set p \<Longrightarrow> split_on sep (p @ sep # s) = p # split_on sep s"
  by (induction p) auto

lemma split_on_last: "sep \<notin> set t \<Longrightarrow> last (split_on sep (s @ sep # t)) = t"
proof (induction s)
  case (Cons c s)
  then show ?case
    using join_split_on [of sep "s @ sep # t"] by (cases "split_on sep (s @ sep # t)") auto
qed (simp add: split_on_single)

section \<open>Chunks\<close>

text \<open>\<^verbatim>\<open>slice::chunks(n)\<close>.\<close>

function chunks_of :: "nat \<Rightarrow> 'a list \<Rightarrow> 'a list list" where
  "chunks_of n xs = (if n = 0 \<or> xs = [] then [] else take n xs # chunks_of n (drop n xs))"
  by pat_completeness auto

termination
  by (relation "measure (\<lambda>(n, xs). length xs)") auto

declare chunks_of.simps [simp del]

lemma chunks_of_Nil [simp]: "chunks_of n [] = []"
  by (simp add: chunks_of.simps)

lemma concat_chunks_of: "0 < n \<Longrightarrow> concat (chunks_of n xs) = xs"
  by (induction n xs rule: chunks_of.induct) (subst chunks_of.simps, simp)

lemma chunks_of_lengths: "c \<in> set (chunks_of n xs) \<Longrightarrow> c \<noteq> [] \<and> length c \<le> n"
proof (induction n xs rule: chunks_of.induct)
  case (1 n xs)
  then show ?case
    by (subst (asm) (2) chunks_of.simps) (auto split: if_splits)
qed

lemma chunks_of_short: "xs \<noteq> [] \<Longrightarrow> length xs \<le> n \<Longrightarrow> chunks_of n xs = [xs]"
  by (subst chunks_of.simps) (cases xs; auto)

section \<open>Trimming\<close>

text \<open>The UTF-8 encodings of the scalars with the property \<^verbatim>\<open>White_Space\<close>, which \<^verbatim>\<open>str::trim\<close> removes
  at both ends.\<close>

definition ws_encodings :: "string list" where
  "ws_encodings =
     [[CHR 0x09], [CHR 0x0A], [CHR 0x0B], [CHR 0x0C], [CHR 0x0D], [CHR 0x20],
      [CHR 0xC2, CHR 0x85], [CHR 0xC2, CHR 0xA0], [CHR 0xE1, CHR 0x9A, CHR 0x80],
      [CHR 0xE2, CHR 0x80, CHR 0x80], [CHR 0xE2, CHR 0x80, CHR 0x81], [CHR 0xE2, CHR 0x80, CHR 0x82],
      [CHR 0xE2, CHR 0x80, CHR 0x83], [CHR 0xE2, CHR 0x80, CHR 0x84], [CHR 0xE2, CHR 0x80, CHR 0x85],
      [CHR 0xE2, CHR 0x80, CHR 0x86], [CHR 0xE2, CHR 0x80, CHR 0x87], [CHR 0xE2, CHR 0x80, CHR 0x88],
      [CHR 0xE2, CHR 0x80, CHR 0x89], [CHR 0xE2, CHR 0x80, CHR 0x8A], [CHR 0xE2, CHR 0x80, CHR 0xA8],
      [CHR 0xE2, CHR 0x80, CHR 0xA9], [CHR 0xE2, CHR 0x80, CHR 0xAF], [CHR 0xE2, CHR 0x81, CHR 0x9F],
      [CHR 0xE3, CHR 0x80, CHR 0x80]]"

lemma ws_nonempty: "find P ws_encodings = Some w \<Longrightarrow> w \<noteq> []"
proof -
  assume "find P ws_encodings = Some w"
  then have "w \<in> set ws_encodings"
    by (auto simp: find_Some_iff)
  moreover have "[] \<notin> set ws_encodings"
    by (simp add: ws_encodings_def)
  ultimately show "w \<noteq> []" by auto
qed

function trim_start :: "string \<Rightarrow> string" where
  "trim_start s = (case find (starts_with s) ws_encodings of
     None \<Rightarrow> s | Some w \<Rightarrow> trim_start (drop (length w) s))"
  by pat_completeness auto

termination
proof (relation "measure length")
  fix s w assume *: "find (starts_with s) ws_encodings = Some w"
  then have "starts_with s w" by (auto simp: find_Some_iff)
  with ws_nonempty [OF *] show "(drop (length w) s, s) \<in> measure length"
    by (auto simp: starts_with_iff)
qed simp

function trim_end :: "string \<Rightarrow> string" where
  "trim_end s = (case find (ends_with s) ws_encodings of
     None \<Rightarrow> s | Some w \<Rightarrow> trim_end (take (length s - length w) s))"
  by pat_completeness auto

termination
proof (relation "measure length")
  fix s w assume *: "find (ends_with s) ws_encodings = Some w"
  then have "ends_with s w" by (auto simp: find_Some_iff)
  with ws_nonempty [OF *] show "(take (length s - length w) s, s) \<in> measure length"
    by (auto simp: ends_with_iff)
qed simp

declare trim_start.simps [simp del] trim_end.simps [simp del]

definition trim :: "string \<Rightarrow> string" where
  "trim s = trim_end (trim_start s)"

lemma trim_id:
  "find (starts_with s) ws_encodings = None \<Longrightarrow> find (ends_with s) ws_encodings = None \<Longrightarrow> trim s = s"
  by (simp add: trim_def trim_start.simps [of s] trim_end.simps [of s])

text \<open>Texts with printable ASCII at both ends are left alone.\<close>

definition graphic :: "char \<Rightarrow> bool" where
  "graphic c \<longleftrightarrow> 33 \<le> byte c \<and> byte c < 127"

lemma graphic_not_ws:
  assumes "graphic c" and "w \<in> set ws_encodings"
  shows "c \<noteq> hd w" and "c \<noteq> last w"
  using assms by (auto simp: ws_encodings_def graphic_def)

lemma trim_graphic:
  assumes "s \<noteq> []" and "graphic (hd s)" and "graphic (last s)"
  shows "trim s = s"
proof (rule trim_id)
  have "\<not> starts_with s w \<and> \<not> ends_with s w" if w: "w \<in> set ws_encodings" for w
  proof -
    have "w \<noteq> []" using w by (auto simp: ws_encodings_def)
    then show ?thesis
      using graphic_not_ws(1) [OF assms(2) w] graphic_not_ws(2) [OF assms(3) w] assms(1)
      by (metis starts_with_iff ends_with_iff hd_append2 last_appendR)
  qed
  then show "find (starts_with s) ws_encodings = None" "find (ends_with s) ws_encodings = None"
    by (simp_all add: find_None_iff)
qed

text \<open>\<^verbatim>\<open>trim_end_matches(c)\<close> and \<^verbatim>\<open>trim_matches(c)\<close>.\<close>

definition trim_end_char :: "char \<Rightarrow> string \<Rightarrow> string" where
  "trim_end_char c s = rev (dropWhile (\<lambda>x. x = c) (rev s))"

definition trim_char :: "char \<Rightarrow> string \<Rightarrow> string" where
  "trim_char c s = trim_end_char c (dropWhile (\<lambda>x. x = c) s)"

text \<open>\<^verbatim>\<open>rsplit_once(c)\<close>: the text before and after the last \<open>c\<close>.\<close>

definition rsplit_once :: "char \<Rightarrow> string \<Rightarrow> (string \<times> string) option" where
  "rsplit_once c s =
     (if c \<in> set s then
        Some (rev (tl (dropWhile (\<lambda>x. x \<noteq> c) (rev s))), rev (takeWhile (\<lambda>x. x \<noteq> c) (rev s)))
      else None)"

text \<open>\<^verbatim>\<open>chars().take(n)\<close> on UTF-8 bytes: continuation bytes belong to the scalar they follow.\<close>

fun take_chars :: "nat \<Rightarrow> string \<Rightarrow> string" where
  "take_chars n [] = []"
| "take_chars n (c # cs) =
     (if 128 \<le> byte c \<and> byte c < 192 then c # take_chars n cs
      else case n of 0 \<Rightarrow> [] | Suc m \<Rightarrow> c # take_chars m cs)"

section \<open>Decimal rendering and parsing\<close>

text \<open>\<^verbatim>\<open>to_string()\<close> of unsigned and signed integers.\<close>

definition digit_char :: "nat \<Rightarrow> char" where
  "digit_char d = char_of (48 + d)"

fun show_nat :: "nat \<Rightarrow> string" where
  "show_nat n = (if n < 10 then [digit_char n] else show_nat (n div 10) @ [digit_char (n mod 10)])"

declare show_nat.simps [simp del]

definition show_int :: "int \<Rightarrow> string" where
  "show_int i = (if i < 0 then CHR ''-'' # show_nat (nat (- i)) else show_nat (nat i))"

text \<open>\<^verbatim>\<open>core::num::IntErrorKind\<close> and \<^verbatim>\<open>from_str\<close>: the sign is looked at first, then the digits from
  left to right; an invalid digit is reported before an overflow at the same position.\<close>

datatype IntErrorKind = Empty | InvalidDigit | PosOverflow | NegOverflow

fun show_parse_error :: "IntErrorKind \<Rightarrow> string" where
  "show_parse_error Empty = ''cannot parse integer from empty string''"
| "show_parse_error InvalidDigit = ''invalid digit found in string''"
| "show_parse_error PosOverflow = ''number too large to fit in target type''"
| "show_parse_error NegOverflow = ''number too small to fit in target type''"

definition i64_min :: int where "i64_min = - 9223372036854775808"
definition i64_max :: int where "i64_max = 9223372036854775807"
definition u64_max :: int where "u64_max = 18446744073709551615"

fun parse_digits_up :: "int \<Rightarrow> int \<Rightarrow> string \<Rightarrow> IntErrorKind + int" where
  "parse_digits_up hi acc [] = Inr acc"
| "parse_digits_up hi acc (c # cs) =
     (if \<not> is_ascii_digit c then Inl InvalidDigit
      else if hi < acc * 10 then Inl PosOverflow
      else if hi < acc * 10 + (int (byte c) - 48) then Inl PosOverflow
      else parse_digits_up hi (acc * 10 + (int (byte c) - 48)) cs)"

fun parse_digits_down :: "int \<Rightarrow> int \<Rightarrow> string \<Rightarrow> IntErrorKind + int" where
  "parse_digits_down lo acc [] = Inr acc"
| "parse_digits_down lo acc (c # cs) =
     (if \<not> is_ascii_digit c then Inl InvalidDigit
      else if acc * 10 < lo then Inl NegOverflow
      else if acc * 10 - (int (byte c) - 48) < lo then Inl NegOverflow
      else parse_digits_down lo (acc * 10 - (int (byte c) - 48)) cs)"

fun parse_i64 :: "string \<Rightarrow> IntErrorKind + int" where
  "parse_i64 [] = Inl Empty"
| "parse_i64 (c # cs) =
     (if cs = [] \<and> (c = CHR ''+'' \<or> c = CHR ''-'') then Inl InvalidDigit
      else if c = CHR ''+'' then parse_digits_up i64_max 0 cs
      else if c = CHR ''-'' then parse_digits_down i64_min 0 cs
      else parse_digits_up i64_max 0 (c # cs))"

fun parse_u64 :: "string \<Rightarrow> IntErrorKind + int" where
  "parse_u64 [] = Inl Empty"
| "parse_u64 (c # cs) =
     (if cs = [] \<and> (c = CHR ''+'' \<or> c = CHR ''-'') then Inl InvalidDigit
      else if c = CHR ''+'' then parse_digits_up u64_max 0 cs
      else parse_digits_up u64_max 0 (c # cs))"

definition u32_max :: int where "u32_max = 4294967295"

fun parse_u32 :: "string \<Rightarrow> IntErrorKind + int" where
  "parse_u32 [] = Inl Empty"
| "parse_u32 (c # cs) =
     (if cs = [] \<and> (c = CHR ''+'' \<or> c = CHR ''-'') then Inl InvalidDigit
      else if c = CHR ''+'' then parse_digits_up u32_max 0 cs
      else parse_digits_up u32_max 0 (c # cs))"

text \<open>\<^verbatim>\<open>i64::saturating_add\<close>.\<close>

definition saturating_add_i64 :: "int \<Rightarrow> int \<Rightarrow> int" where
  "saturating_add_i64 a b = max i64_min (min i64_max (a + b))"

lemma byte_digit_char: "d < 10 \<Longrightarrow> byte (digit_char d) = 48 + d"
  by (simp add: digit_char_def)

lemma is_ascii_digit_digit_char [simp]: "d < 10 \<Longrightarrow> is_ascii_digit (digit_char d)"
  by (simp add: is_ascii_digit_def byte_digit_char)

lemma show_nat_digits: "c \<in> set (show_nat n) \<Longrightarrow> is_ascii_digit c"
proof (induction n arbitrary: c rule: show_nat.induct)
  case (1 n)
  then show ?case by (cases "n < 10") (auto simp: show_nat.simps [of n])
qed

lemma show_nat_not_Nil [simp]: "show_nat n \<noteq> []"
  by (subst show_nat.simps) simp

lemma parse_up_append:
  "parse_digits_up hi acc (xs @ ys) =
     (case parse_digits_up hi acc xs of Inl e \<Rightarrow> Inl e | Inr a \<Rightarrow> parse_digits_up hi a ys)"
  by (induction xs arbitrary: acc) auto

lemma parse_down_append:
  "parse_digits_down lo acc (xs @ ys) =
     (case parse_digits_down lo acc xs of Inl e \<Rightarrow> Inl e | Inr a \<Rightarrow> parse_digits_down lo a ys)"
  by (induction xs arbitrary: acc) auto

lemma parse_up_show_nat: "int n \<le> hi \<Longrightarrow> parse_digits_up hi 0 (show_nat n) = Inr (int n)"
proof (induction n rule: show_nat.induct)
  case (1 n)
  show ?case
  proof (cases "n < 10")
    case True
    with "1.prems" show ?thesis by (simp add: show_nat.simps [of n] byte_digit_char)
  next
    case False
    have eq: "int (n div 10) * 10 + int (n mod 10) = int n"
      by (metis div_mult_mod_eq of_nat_add of_nat_mult of_nat_numeral)
    with "1.prems" have le: "int (n div 10) \<le> hi" "int (n div 10) * 10 \<le> hi"
      by linarith+
    have "parse_digits_up hi 0 (show_nat (n div 10)) = Inr (int (n div 10))"
      using "1.IH" False le by simp
    with False "1.prems" le eq show ?thesis
      by (simp add: show_nat.simps [of n] parse_up_append byte_digit_char)
  qed
qed

lemma parse_down_show_nat:
  "lo \<le> - int n \<Longrightarrow> parse_digits_down lo 0 (show_nat n) = Inr (- int n)"
proof (induction n rule: show_nat.induct)
  case (1 n)
  show ?case
  proof (cases "n < 10")
    case True
    with "1.prems" show ?thesis by (simp add: show_nat.simps [of n] byte_digit_char)
  next
    case False
    have eq: "int (n div 10) * 10 + int (n mod 10) = int n"
      by (metis div_mult_mod_eq of_nat_add of_nat_mult of_nat_numeral)
    with "1.prems" have le: "lo \<le> - int (n div 10)" "lo \<le> - int (n div 10) * 10"
      by linarith+
    have "parse_digits_down lo 0 (show_nat (n div 10)) = Inr (- int (n div 10))"
      using "1.IH" False le by simp
    with False "1.prems" le eq show ?thesis
      by (simp add: show_nat.simps [of n] parse_down_append byte_digit_char)
  qed
qed

lemma show_nat_Cons:
  obtains c cs where "show_nat n = c # cs" and "c \<noteq> CHR ''+''" and "c \<noteq> CHR ''-''"
proof (cases "show_nat n")
  case (Cons c cs)
  have "is_ascii_digit c"
    using Cons show_nat_digits [of c n] by simp
  then have "c \<noteq> CHR ''+''" "c \<noteq> CHR ''-''"
    by (auto simp: is_ascii_digit_def)
  with Cons that show ?thesis by blast
qed simp

lemma parse_i64_show_nat: "int n \<le> i64_max \<Longrightarrow> parse_i64 (show_nat n) = Inr (int n)"
  using parse_up_show_nat [of n i64_max] show_nat_Cons [of n] by (metis parse_i64.simps(2))

lemma parse_u64_show_nat: "int n \<le> u64_max \<Longrightarrow> parse_u64 (show_nat n) = Inr (int n)"
  using parse_up_show_nat [of n u64_max] show_nat_Cons [of n] by (metis parse_u64.simps(2))

lemma parse_u32_show_nat: "int n \<le> u32_max \<Longrightarrow> parse_u32 (show_nat n) = Inr (int n)"
  using parse_up_show_nat [of n u32_max] show_nat_Cons [of n] by (metis parse_u32.simps(2))

lemma parse_i64_show_int:
  assumes "i64_min \<le> i" and "i \<le> i64_max"
  shows "parse_i64 (show_int i) = Inr i"
proof (cases "i < 0")
  case True
  with assms parse_down_show_nat [of i64_min "nat (- i)"] show ?thesis
    by (simp add: show_int_def)
next
  case False
  with assms parse_i64_show_nat [of "nat i"] show ?thesis
    by (simp add: show_int_def)
qed

lemma show_nat_inj: "show_nat m = show_nat n \<longleftrightarrow> m = n"
  by (metis (no_types) parse_up_show_nat [of m "max (int m) (int n)"]
      parse_up_show_nat [of n "max (int m) (int n)"] max.cobounded1 max.cobounded2
      of_nat_eq_iff sum.inject(2))

lemma show_int_inj: "show_int i = show_int j \<longleftrightarrow> i = j"
proof -
  have neq: "CHR ''-'' # s \<noteq> show_nat n" for s n
    by (metis list.inject show_nat_Cons)
  show ?thesis
    by (auto simp: show_int_def show_nat_inj neq neq [symmetric])
qed

lemma show_int_chars: "c \<in> set (show_int i) \<Longrightarrow> c = CHR ''-'' \<or> is_ascii_digit c"
  by (auto simp: show_int_def dest: show_nat_digits split: if_splits)

lemma colon_notin_show_int [simp]: "CHR '':'' \<notin> set (show_int i)"
  using show_int_chars [of "CHR '':''" i] by (auto simp: is_ascii_digit_def)

text \<open>Keys built with a separator: the field before the separator is determined by the key.\<close>

lemma sep_append_eq:
  assumes "c \<notin> set a" and "c \<notin> set b"
  shows "a @ c # x = b @ c # y \<longleftrightarrow> a = b \<and> x = y"
  using assms
proof (induction a arbitrary: b)
  case Nil
  then show ?case by (cases b) auto
next
  case (Cons d a)
  then show ?case by (cases b) auto
qed

end
