(* ===== verification/Lyra_Kv.thy ===== *)
theory Lyra_Kv
  imports Lyra_Prelude
begin

text \<open>
  The key-value store seam (\<^verbatim>\<open>kv/mod.rs\<close>) and its in-memory implementation (\<^verbatim>\<open>kv/memory.rs\<close>).

  A \<^verbatim>\<open>dyn KvStore\<close> is a record of its five operations over a store type \<open>'s\<close>. Instants are
  nanoseconds since a fixed origin; the instant at which an operation runs is its first argument.
  The contract of the trait is the locale \<open>kv_store\<close>, stated through the value a key shows at an
  instant; \<open>MemoryKv\<close> is an instance of it.
\<close>

section \<open>The trait\<close>

datatype KvError = KvInternal string

record 's KvStore =
  kv_get :: "nat \<Rightarrow> string \<Rightarrow> ('s, KvError, string option) eff"
  kv_set :: "nat \<Rightarrow> string \<Rightarrow> string \<Rightarrow> nat option \<Rightarrow> ('s, KvError, unit) eff"
  kv_del :: "nat \<Rightarrow> string \<Rightarrow> ('s, KvError, unit) eff"
  kv_del_prefix :: "nat \<Rightarrow> string \<Rightarrow> ('s, KvError, unit) eff"
  kv_incr :: "nat \<Rightarrow> string \<Rightarrow> int \<Rightarrow> nat option \<Rightarrow> ('s, KvError, int) eff"

definition secs :: "nat \<Rightarrow> nat" where
  "secs n = n * 1000000000"

text \<open>Whether something stored at \<open>now\<close> with an optional TTL in seconds still shows at \<open>t\<close>.\<close>

definition within_ttl :: "nat option \<Rightarrow> nat \<Rightarrow> nat \<Rightarrow> bool" where
  "within_ttl ttl now t = (case ttl of None \<Rightarrow> True | Some n \<Rightarrow> t < now + secs n)"

section \<open>MemoryKv\<close>

record Entry =
  e_value :: string
  e_expires_at :: "nat option"

type_synonym MemoryKv = "string \<rightharpoonup> Entry"

definition expired :: "nat \<Rightarrow> Entry \<Rightarrow> bool" where
  "expired now e = (case e_expires_at e of None \<Rightarrow> False | Some x \<Rightarrow> x \<le> now)"

definition deadline :: "nat \<Rightarrow> nat option \<Rightarrow> nat option" where
  "deadline now ttl = map_option (\<lambda>n. now + secs n) ttl"

definition mem_get :: "nat \<Rightarrow> string \<Rightarrow> (MemoryKv, KvError, string option) eff" where
  "mem_get now key m =
     (case m key of
        None \<Rightarrow> (Inr None, m)
      | Some e \<Rightarrow> if expired now e then (Inr None, m(key := None)) else (Inr (Some (e_value e)), m))"

definition mem_set :: "nat \<Rightarrow> string \<Rightarrow> string \<Rightarrow> nat option \<Rightarrow> (MemoryKv, KvError, unit) eff" where
  "mem_set now key v ttl m =
     (Inr (), m(key \<mapsto> \<lparr>e_value = v, e_expires_at = deadline now ttl\<rparr>))"

definition mem_del :: "nat \<Rightarrow> string \<Rightarrow> (MemoryKv, KvError, unit) eff" where
  "mem_del now key m = (Inr (), m(key := None))"

definition mem_del_prefix :: "nat \<Rightarrow> string \<Rightarrow> (MemoryKv, KvError, unit) eff" where
  "mem_del_prefix now p m = (Inr (), (\<lambda>k. if starts_with k p then None else m k))"

definition mem_incr :: "nat \<Rightarrow> string \<Rightarrow> int \<Rightarrow> nat option \<Rightarrow> (MemoryKv, KvError, int) eff" where
  "mem_incr now key delta ttl m =
     (let m' = (case m key of
                  Some e \<Rightarrow> if expired now e then m(key := None) else m
                | None \<Rightarrow> m)
      in case m' key of
           Some e \<Rightarrow>
             (case parse_i64 (e_value e) of
                Inl err \<Rightarrow> (Inl (KvInternal (show_parse_error err)), m')
              | Inr current \<Rightarrow>
                  (let nxt = saturating_add_i64 current delta
                   in (Inr nxt,
                       m'(key \<mapsto> \<lparr>e_value = show_int nxt, e_expires_at = e_expires_at e\<rparr>))))
         | None \<Rightarrow>
             (Inr delta,
              m'(key \<mapsto> \<lparr>e_value = show_int delta, e_expires_at = deadline now ttl\<rparr>)))"

definition memory_kv :: "MemoryKv KvStore" where
  "memory_kv = \<lparr>kv_get = mem_get, kv_set = mem_set, kv_del = mem_del,
                kv_del_prefix = mem_del_prefix, kv_incr = mem_incr\<rparr>"

text \<open>The value a key shows at an instant: the stored one unless it has expired by then.\<close>

definition mem_view :: "nat \<Rightarrow> MemoryKv \<Rightarrow> string \<Rightarrow> string option" where
  "mem_view t m k = (case m k of None \<Rightarrow> None | Some e \<Rightarrow> if expired t e then None else Some (e_value e))"

lemmas mem_defs =
  mem_get_def mem_set_def mem_del_def mem_del_prefix_def mem_incr_def mem_view_def expired_def
  deadline_def within_ttl_def Let_def

lemma memory_kv_simps [simp]:
  "kv_get memory_kv = mem_get" "kv_set memory_kv = mem_set" "kv_del memory_kv = mem_del"
  "kv_del_prefix memory_kv = mem_del_prefix" "kv_incr memory_kv = mem_incr"
  by (simp_all add: memory_kv_def)

section \<open>The contract\<close>

text \<open>
  What the clients rely on, when an operation reports success: \<open>get\<close> returns the value shown at
  its instant and changes nothing that shows from then on; \<open>set\<close> shows the value until the TTL is
  over; \<open>del\<close> and \<open>del_prefix\<close> hide keys; \<open>incr\<close> starts a missing counter at \<open>delta\<close> with the
  TTL, and keeps the expiry of an existing one.
\<close>

locale kv_store =
  fixes K :: "'s KvStore" and view :: "nat \<Rightarrow> 's \<Rightarrow> string \<Rightarrow> string option"
  assumes get_result: "kv_get K now k s = (Inr ov, s') \<Longrightarrow> ov = view now s k"
    and get_frame: "kv_get K now k s = (r, s') \<Longrightarrow> now \<le> t \<Longrightarrow> view t s' = view t s"
    and set_view: "kv_set K now k v ttl s = (Inr u, s') \<Longrightarrow> now \<le> t \<Longrightarrow>
      view t s' = (view t s)(k := if within_ttl ttl now t then Some v else None)"
    and del_view: "kv_del K now k s = (Inr u, s') \<Longrightarrow> now \<le> t \<Longrightarrow>
      view t s' = (view t s)(k := None)"
    and del_prefix_view: "kv_del_prefix K now p s = (Inr u, s') \<Longrightarrow> now \<le> t \<Longrightarrow>
      view t s' = (\<lambda>k. if starts_with k p then None else view t s k)"
    and incr_fresh: "kv_incr K now k d ttl s = (Inr n, s') \<Longrightarrow> view now s k = None \<Longrightarrow> now \<le> t \<Longrightarrow>
      n = d \<and> view t s' = (view t s)(k := if within_ttl ttl now t then Some (show_int d) else None)"
    and incr_existing: "kv_incr K now k d ttl s = (Inr n, s') \<Longrightarrow> view now s k = Some old \<Longrightarrow>
      now \<le> t \<Longrightarrow> \<exists>c. parse_i64 old = Inr c \<and> n = saturating_add_i64 c d \<and>
        view t s' = (view t s)(k := map_option (\<lambda>_. show_int n) (view t s k))"
    and view_antimono: "now \<le> t \<Longrightarrow> view t s k = Some v \<Longrightarrow> view now s k = Some v"

text \<open>A store whose operations do not fail, but for an \<open>incr\<close> on a value that is no integer.\<close>

locale kv_reliable = kv_store +
  assumes get_ok: "\<exists>v s'. kv_get K now k s = (Inr v, s')"
    and set_ok: "\<exists>s'. kv_set K now k v ttl s = (Inr (), s')"
    and del_ok: "\<exists>s'. kv_del K now k s = (Inr (), s')"
    and del_prefix_ok: "\<exists>s'. kv_del_prefix K now p s = (Inr (), s')"
    and incr_ok: "(\<And>old. view now s k = Some old \<Longrightarrow> \<exists>c. parse_i64 old = Inr c) \<Longrightarrow>
      \<exists>n s'. kv_incr K now k d ttl s = (Inr n, s')"

lemma mem_get_result: "mem_get now k m = (Inr v, m') \<Longrightarrow> v = mem_view now m k"
  by (auto simp: mem_get_def mem_view_def split: option.splits if_splits)

lemma expired_mono: "now \<le> t \<Longrightarrow> expired now e \<Longrightarrow> expired t e"
  by (auto simp: expired_def split: option.splits)

lemma mem_view_upd [simp]:
  "mem_view t (m(k := x)) =
     (mem_view t m)(k := (case x of None \<Rightarrow> None | Some e \<Rightarrow> if expired t e then None else Some (e_value e)))"
  by (rule ext) (simp add: mem_view_def)

lemma mem_view_None: "mem_view t m k = None \<longleftrightarrow> (\<forall>e. m k = Some e \<longrightarrow> expired t e)"
  by (auto simp: mem_view_def split: option.splits)

lemma mem_view_Some: "mem_view t m k = Some v \<longleftrightarrow> (\<exists>e. m k = Some e \<and> \<not> expired t e \<and> e_value e = v)"
  by (auto simp: mem_view_def split: option.splits)

lemma expired_deadline [simp]:
  "expired t \<lparr>e_value = v, e_expires_at = deadline now ttl\<rparr> \<longleftrightarrow> \<not> within_ttl ttl now t"
  by (auto simp: expired_def deadline_def within_ttl_def split: option.splits)

lemma mem_get_frame:
  assumes "mem_get now k m = (r, m')" and "now \<le> t"
  shows "mem_view t m' = mem_view t m"
proof (cases "\<exists>e. m k = Some e \<and> expired now e")
  case True
  then have "mem_view t m k = None"
    using assms(2) by (auto simp: mem_view_None expired_mono)
  with True assms(1) show ?thesis
    by (auto simp: mem_get_def fun_upd_idem)
next
  case False
  with assms(1) show ?thesis
    by (auto simp: mem_get_def split: option.splits)
qed

lemma mem_set_view:
  "mem_set now k v ttl m = (Inr u, m') \<Longrightarrow>
   mem_view t m' = (mem_view t m)(k := if within_ttl ttl now t then Some v else None)"
  by (auto simp: mem_set_def)

lemma mem_incr_fresh:
  assumes "mem_incr now k d ttl m = (Inr n, m')" and "mem_view now m k = None"
  shows "n = d \<and>
    mem_view t m' = (mem_view t m)(k := if within_ttl ttl now t then Some (show_int d) else None)"
  using assms by (cases "m k") (auto simp: mem_incr_def mem_view_None)

lemma mem_incr_existing:
  assumes "mem_incr now k d ttl m = (Inr n, m')" and "mem_view now m k = Some old"
  shows "\<exists>c. parse_i64 old = Inr c \<and> n = saturating_add_i64 c d \<and>
    mem_view t m' = (mem_view t m)(k := map_option (\<lambda>_. show_int n) (mem_view t m k))"
proof -
  from assms(2) obtain e where e: "m k = Some e" "\<not> expired now e" "e_value e = old"
    by (auto simp: mem_view_Some)
  with assms(1) obtain c where c: "parse_i64 old = Inr c" "n = saturating_add_i64 c d"
      "m' = m(k \<mapsto> \<lparr>e_value = show_int n, e_expires_at = e_expires_at e\<rparr>)"
    by (auto simp: mem_incr_def Let_def split: sum.splits)
  have "expired t \<lparr>e_value = w, e_expires_at = e_expires_at e\<rparr> = expired t e" for w
    by (simp add: expired_def)
  with e(1) c show ?thesis
    by (auto simp: mem_view_def)
qed

interpretation mem: kv_reliable memory_kv mem_view
proof unfold_locales
  show "kv_get memory_kv now k s = (Inr v, s') \<Longrightarrow> v = mem_view now s k" for now k s v s'
    by (simp add: mem_get_result)
  show "kv_get memory_kv now k s = (r, s') \<Longrightarrow> now \<le> t \<Longrightarrow> mem_view t s' = mem_view t s"
    for now k s r s' t
    by (simp add: mem_get_frame)
  show "kv_set memory_kv now k v ttl s = (Inr u, s') \<Longrightarrow> now \<le> t \<Longrightarrow>
      mem_view t s' = (mem_view t s)(k := if within_ttl ttl now t then Some v else None)"
    for now k v ttl s u s' t
    using mem_set_view by simp
  show "kv_del memory_kv now k s = (Inr u, s') \<Longrightarrow> now \<le> t \<Longrightarrow>
      mem_view t s' = (mem_view t s)(k := None)" for now k s u s' t
    by (auto simp: mem_del_def)
  show "kv_del_prefix memory_kv now p s = (Inr u, s') \<Longrightarrow> now \<le> t \<Longrightarrow>
      mem_view t s' = (\<lambda>k. if starts_with k p then None else mem_view t s k)" for now p s u s' t
    by (auto simp: mem_del_prefix_def mem_view_def)
  show "kv_incr memory_kv now k d ttl s = (Inr n, s') \<Longrightarrow> mem_view now s k = None \<Longrightarrow> now \<le> t \<Longrightarrow>
      n = d \<and> mem_view t s' =
        (mem_view t s)(k := if within_ttl ttl now t then Some (show_int d) else None)"
    for now k d ttl s n s' t
    using mem_incr_fresh by simp
  show "kv_incr memory_kv now k d ttl s = (Inr n, s') \<Longrightarrow> mem_view now s k = Some old \<Longrightarrow> now \<le> t \<Longrightarrow>
      \<exists>c. parse_i64 old = Inr c \<and> n = saturating_add_i64 c d \<and>
        mem_view t s' = (mem_view t s)(k := map_option (\<lambda>_. show_int n) (mem_view t s k))"
    for now k d ttl s n s' old t
    using mem_incr_existing by simp
  show "now \<le> t \<Longrightarrow> mem_view t s k = Some v \<Longrightarrow> mem_view now s k = Some v" for now t s k v
    by (auto simp: mem_view_def expired_mono split: option.splits if_splits)
  show "\<exists>v s'. kv_get memory_kv now k s = (Inr v, s')" for now k s
    by (auto simp: mem_get_def split: option.splits)
  show "\<exists>n s'. kv_incr memory_kv now k d ttl s = (Inr n, s')"
    if "\<And>old. mem_view now s k = Some old \<Longrightarrow> \<exists>c. parse_i64 old = Inr c" for now s k d ttl
    using that by (auto simp: mem_incr_def mem_view_def Let_def split: option.splits sum.splits)
qed (simp_all add: mem_set_def mem_del_def mem_del_prefix_def)

end
