(* ===== verification/Lyra_Users.thy ===== *)
theory Lyra_Users
  imports Lyra_Prelude
begin

text \<open>
  The \<^verbatim>\<open>lyra_user\<close> table and the queries of \<^verbatim>\<open>auth/db.rs\<close>.

  The table is the list of its rows. Ids are compared in the form the engine stores: text on SQLite
  and MySQL, the canonical form of the parsed UUID on Postgres; the \<^verbatim>\<open>uuid\<close> crate's parser is the
  field \<open>db_uuid_parse\<close>. \<open>db_fault\<close> says that the driver reports an error for every statement.
  The write-only stamp columns \<^verbatim>\<open>created_at\<close>/\<^verbatim>\<open>updated_at\<close> are left out.
\<close>

section \<open>Errors of the auth endpoints and of the database\<close>

datatype CryptoError =
    Encrypt | Decrypt | InvalidKeyLength | InvalidNonceLength | Base64 | MasterKeyNotInitialized
  | MissingDek | Storage

datatype AuthError =
    BadRequest string | Unauthorized string | TooManyRequests | Conflict string | InternalErr string
  | CryptoFailure CryptoError

definition invalid_credentials :: AuthError where
  "invalid_credentials = Unauthorized ''Invalid username or password''"

fun auth_error_status :: "AuthError \<Rightarrow> nat" where
  "auth_error_status (BadRequest _) = 400"
| "auth_error_status (Unauthorized _) = 401"
| "auth_error_status TooManyRequests = 429"
| "auth_error_status (Conflict _) = 409"
| "auth_error_status (InternalErr _) = 500"
| "auth_error_status (CryptoFailure _) = 500"

fun auth_error_code :: "AuthError \<Rightarrow> string option" where
  "auth_error_code (BadRequest _) = Some ''bad_request''"
| "auth_error_code (Unauthorized _) = Some ''unauthorized''"
| "auth_error_code TooManyRequests = Some ''too_many_requests''"
| "auth_error_code (Conflict _) = Some ''conflict''"
| "auth_error_code (InternalErr _) = Some ''internal_error''"
| "auth_error_code (CryptoFailure _) = Some ''internal_error''"

datatype StatusCode = NOT_FOUND | INTERNAL_SERVER_ERROR

datatype SqlxError = UniqueViolation | Protocol | Driver | Decode | Encode | RowNotFound

datatype DbBackend = Sqlite | Mysql | Postgres

record UserRow =
  u_id :: string
  u_username :: string
  u_password_hash :: string
  u_totp_secret :: "string option"
  u_totp_enabled :: bool
  u_display_name :: "string option"
  u_locale :: string
  u_mark_read_policy :: string
  u_ui_state :: "string option"
  u_sess_epoch :: int
  u_encrypted_dek :: "string option"

record UserData =
  ud_id :: string
  ud_username :: string
  ud_password_hash :: "string option"
  ud_totp_enabled :: bool
  ud_totp_secret :: "string option"
  ud_display_name :: "string option"
  ud_locale :: string
  ud_mark_read_policy :: string
  ud_ui_state :: "string option"

text \<open>The columns of \<^verbatim>\<open>mail_account\<close> that the key rotation of \<^verbatim>\<open>auth/dek.rs\<close> reads and writes.\<close>

record AccountRow =
  a_id :: string
  a_user_id :: string
  a_credential :: string

record Db =
  db_backend :: DbBackend
  db_uuid_parse :: "string \<Rightarrow> string option"
  db_fault :: bool
  db_users :: "UserRow list"
  db_accounts :: "AccountRow list"

text \<open>\<^verbatim>\<open>id_bind_value\<close>: \<open>None\<close> is \<^verbatim>\<open>InvalidIdError\<close>.\<close>

definition id_bind_value :: "Db \<Rightarrow> string \<Rightarrow> string option" where
  "id_bind_value db i =
     (case db_backend db of Postgres \<Rightarrow> db_uuid_parse db i | Mysql \<Rightarrow> Some i | Sqlite \<Rightarrow> Some i)"

definition parse_mark_read_policy :: "string \<Rightarrow> AuthError + string" where
  "parse_mark_read_policy raw =
     (if raw = ''on_open'' \<or> raw = ''on_scroll_end'' \<or> raw = ''manual'' then Inr raw
      else Inl (BadRequest ''markReadPolicy must be on_open, on_scroll_end, or manual''))"

definition parse_stored_mark_read_policy :: "string \<Rightarrow> string" where
  "parse_stored_mark_read_policy raw =
     (if raw = ''on_open'' \<or> raw = ''on_scroll_end'' \<or> raw = ''manual'' then raw else ''on_open'')"

definition user_data_from :: "UserRow \<Rightarrow> UserData" where
  "user_data_from r =
     \<lparr>ud_id = u_id r, ud_username = u_username r, ud_password_hash = Some (u_password_hash r),
      ud_totp_enabled = u_totp_enabled r, ud_totp_secret = u_totp_secret r,
      ud_display_name = u_display_name r, ud_locale = u_locale r,
      ud_mark_read_policy = parse_stored_mark_read_policy (u_mark_read_policy r),
      ud_ui_state = u_ui_state r\<rparr>"

section \<open>Queries\<close>

definition has_any_user :: "Db \<Rightarrow> StatusCode + bool" where
  "has_any_user db = (if db_fault db then Inl INTERNAL_SERVER_ERROR else Inr (0 < length (db_users db)))"

definition find_first_user_totp_enabled :: "Db \<Rightarrow> StatusCode + bool" where
  "find_first_user_totp_enabled db =
     (if db_fault db then Inl INTERNAL_SERVER_ERROR
      else Inr (case db_users db of [] \<Rightarrow> False | r # _ \<Rightarrow> u_totp_enabled r))"

text \<open>The unique constraints of the table: primary key, \<^verbatim>\<open>username\<close>, and the \<^verbatim>\<open>singleton\<close> index,
  which no second row can satisfy.\<close>

definition insert_user ::
  "string \<Rightarrow> string \<Rightarrow> string \<Rightarrow> string option \<Rightarrow> string \<Rightarrow> string \<Rightarrow> (Db, SqlxError, unit) eff" where
  "insert_user uid username password_hash display_name locale encrypted_dek db =
     (case id_bind_value db uid of
        None \<Rightarrow> (Inl Protocol, db)
      | Some i \<Rightarrow>
          if db_fault db then (Inl Protocol, db)
          else if db_users db \<noteq> [] then (Inl UniqueViolation, db)
          else (Inr (), db\<lparr>db_users :=
             [\<lparr>u_id = i, u_username = username, u_password_hash = password_hash,
               u_totp_secret = None, u_totp_enabled = False, u_display_name = display_name,
               u_locale = locale, u_mark_read_policy = ''on_open'', u_ui_state = None,
               u_sess_epoch = 0, u_encrypted_dek = Some encrypted_dek\<rparr>]\<rparr>))"

definition is_unique_violation :: "SqlxError \<Rightarrow> bool" where
  "is_unique_violation e \<longleftrightarrow> e = UniqueViolation"

definition find_user_by_username :: "Db \<Rightarrow> string \<Rightarrow> AuthError + UserData option" where
  "find_user_by_username db username =
     (if db_fault db then Inl (InternalErr ''Authentication failed'')
      else Inr (map_option user_data_from (find (\<lambda>r. u_username r = username) (db_users db))))"

definition find_user_by_id :: "Db \<Rightarrow> string \<Rightarrow> AuthError + UserData option" where
  "find_user_by_id db uid =
     (case id_bind_value db uid of
        None \<Rightarrow> Inr None
      | Some i \<Rightarrow>
          if db_fault db then Inl (InternalErr ''Failed to look up user'')
          else Inr (map_option user_data_from (find (\<lambda>r. u_id r = i) (db_users db))))"

text \<open>\<^verbatim>\<open>UPDATE lyra_user SET ... WHERE id = ?\<close>.\<close>

definition update_user :: "string \<Rightarrow> (UserRow \<Rightarrow> UserRow) \<Rightarrow> (Db, StatusCode, unit) eff" where
  "update_user uid f db =
     (case id_bind_value db uid of
        None \<Rightarrow> (Inl NOT_FOUND, db)
      | Some i \<Rightarrow>
          if db_fault db then (Inl INTERNAL_SERVER_ERROR, db)
          else (Inr (), db\<lparr>db_users := map (\<lambda>r. if u_id r = i then f r else r) (db_users db)\<rparr>))"

definition update_user_totp :: "string \<Rightarrow> string option \<Rightarrow> bool \<Rightarrow> (Db, StatusCode, unit) eff" where
  "update_user_totp uid secret enabled =
     update_user uid (\<lambda>r. r\<lparr>u_totp_secret := secret, u_totp_enabled := enabled\<rparr>)"

definition update_user_password :: "string \<Rightarrow> string \<Rightarrow> (Db, StatusCode, unit) eff" where
  "update_user_password uid hash = update_user uid (\<lambda>r. r\<lparr>u_password_hash := hash\<rparr>)"

text \<open>\<^verbatim>\<open>update_locale\<close>, \<^verbatim>\<open>update_ui_state\<close> and \<^verbatim>\<open>update_mark_read_policy\<close> of \<^verbatim>\<open>auth/handlers.rs\<close>.\<close>

definition pref_error :: "StatusCode \<Rightarrow> AuthError" where
  "pref_error e = (case e of NOT_FOUND \<Rightarrow> InternalErr ''Failed to look up user''
     | INTERNAL_SERVER_ERROR \<Rightarrow> InternalErr ''Failed to update preferences'')"

definition update_locale :: "string \<Rightarrow> string \<Rightarrow> (Db, AuthError, unit) eff" where
  "update_locale uid locale = map_errE pref_error (update_user uid (\<lambda>r. r\<lparr>u_locale := locale\<rparr>))"

definition update_ui_state :: "string \<Rightarrow> string \<Rightarrow> (Db, AuthError, unit) eff" where
  "update_ui_state uid json = map_errE pref_error (update_user uid (\<lambda>r. r\<lparr>u_ui_state := Some json\<rparr>))"

definition update_mark_read_policy :: "string \<Rightarrow> string \<Rightarrow> (Db, AuthError, unit) eff" where
  "update_mark_read_policy uid policy =
     map_errE pref_error (update_user uid (\<lambda>r. r\<lparr>u_mark_read_policy := policy\<rparr>))"

text \<open>\<^verbatim>\<open>fetch_sess_epoch\<close> and the epoch bump of \<^verbatim>\<open>invalidate_user_sessions\<close> (\<^verbatim>\<open>auth/session.rs\<close>).\<close>

definition fetch_sess_epoch :: "Db \<Rightarrow> string \<Rightarrow> StatusCode + int" where
  "fetch_sess_epoch db uid =
     (case id_bind_value db uid of
        None \<Rightarrow> Inl NOT_FOUND
      | Some i \<Rightarrow>
          if db_fault db then Inl INTERNAL_SERVER_ERROR
          else (case find (\<lambda>r. u_id r = i) (db_users db) of
                  None \<Rightarrow> Inl NOT_FOUND
                | Some r \<Rightarrow> Inr (u_sess_epoch r)))"

definition bump_sess_epoch :: "string \<Rightarrow> (Db, StatusCode, unit) eff" where
  "bump_sess_epoch uid = update_user uid (\<lambda>r. r\<lparr>u_sess_epoch := u_sess_epoch r + 1\<rparr>)"

section \<open>Invariant: at most one user, with a valid id\<close>

definition single_user :: "Db \<Rightarrow> bool" where
  "single_user db \<longleftrightarrow> length (db_users db) \<le> 1"

lemma id_bind_value_users [simp]: "id_bind_value (db\<lparr>db_users := us\<rparr>) i = id_bind_value db i"
  by (simp add: id_bind_value_def split: DbBackend.split)

lemma id_bind_value_accounts [simp]: "id_bind_value (db\<lparr>db_accounts := as\<rparr>) i = id_bind_value db i"
  by (simp add: id_bind_value_def split: DbBackend.split)

lemma insert_user_single:
  "single_user db \<Longrightarrow> insert_user uid n h d l k db = (res, db') \<Longrightarrow> single_user db'"
  by (auto simp: insert_user_def single_user_def split: option.splits if_splits)

lemma update_user_single:
  "single_user db \<Longrightarrow> update_user uid f db = (res, db') \<Longrightarrow> single_user db'"
  by (auto simp: update_user_def single_user_def split: option.splits if_splits)

lemma insert_user_second_rejected:
  "db_users db \<noteq> [] \<Longrightarrow> insert_user uid n h d l k db \<noteq> (Inr u, db')"
  by (auto simp: insert_user_def split: option.splits)

lemma find_map_update:
  assumes "\<And>r. u_id (f r) = u_id r"
  shows "find (\<lambda>r. u_id r = i) (map (\<lambda>r. if u_id r = j then f r else r) rs) =
    map_option (\<lambda>r. if u_id r = j then f r else r) (find (\<lambda>r. u_id r = i) rs)"
  using assms by (induction rs) auto

text \<open>The epoch of a user, whatever the driver's state.\<close>

definition user_epoch :: "Db \<Rightarrow> string \<Rightarrow> int option" where
  "user_epoch db uid =
     (case id_bind_value db uid of
        None \<Rightarrow> None
      | Some i \<Rightarrow> map_option u_sess_epoch (find (\<lambda>r. u_id r = i) (db_users db)))"

lemma fetch_sess_epoch_Inr:
  "fetch_sess_epoch db uid = Inr e \<longleftrightarrow> \<not> db_fault db \<and> user_epoch db uid = Some e"
  by (auto simp: fetch_sess_epoch_def user_epoch_def split: option.splits)

lemma user_epoch_update_frame:
  assumes "update_user uid f db = (res, db')"
    and "\<And>r. u_id (f r) = u_id r" and "\<And>r. u_sess_epoch (f r) = u_sess_epoch r"
  shows "user_epoch db' u = user_epoch db u"
proof -
  have "(\<lambda>r. u_sess_epoch (if u_id r = i then f r else r)) = u_sess_epoch" for i
    using assms(3) by auto
  with assms show ?thesis
    by (auto simp: update_user_def user_epoch_def find_map_update option.map_comp comp_def
        split: option.splits if_splits)
qed

lemma user_epoch_bump:
  assumes "bump_sess_epoch uid db = (Inr u, db')"
  shows "user_epoch db' v =
    (if id_bind_value db v = id_bind_value db uid then map_option (\<lambda>e. e + 1) (user_epoch db v)
     else user_epoch db v)"
proof -
  from assms obtain i where i: "id_bind_value db uid = Some i"
    and db': "db' = db\<lparr>db_users :=
      map (\<lambda>r. if u_id r = i then r\<lparr>u_sess_epoch := u_sess_epoch r + 1\<rparr> else r) (db_users db)\<rparr>"
    by (auto simp: bump_sess_epoch_def update_user_def split: option.splits if_splits)
  show ?thesis
  proof (cases "id_bind_value db v")
    case None
    with i db' show ?thesis by (simp add: user_epoch_def)
  next
    case (Some j)
    let ?find = "find (\<lambda>r. u_id r = j) (db_users db)"
    have ep: "user_epoch db v = map_option u_sess_epoch ?find"
      using Some by (simp add: user_epoch_def)
    have ep': "user_epoch db' v = map_option u_sess_epoch (map_option
        (\<lambda>r. if u_id r = i then r\<lparr>u_sess_epoch := u_sess_epoch r + 1\<rparr> else r) ?find)"
      using Some db' find_map_update [of "\<lambda>r. r\<lparr>u_sess_epoch := u_sess_epoch r + 1\<rparr>" j i "db_users db"]
      by (simp add: user_epoch_def)
    show ?thesis
    proof (cases ?find)
      case None
      with ep ep' show ?thesis by simp
    next
      case (Some r)
      then have "u_id r = j"
        by (auto simp: find_Some_iff)
      with Some ep ep' i \<open>id_bind_value db v = Some j\<close> show ?thesis by simp
    qed
  qed
qed

end
