(* ===== verification/Lyra_Crypto.thy ===== *)
theory Lyra_Crypto
  imports Lyra_Users
begin

text \<open>
  Credential encryption (\<^verbatim>\<open>crypto.rs\<close>), the key hierarchy and the rotation of secrets written
  before it (\<^verbatim>\<open>auth/dek.rs\<close>, \<^verbatim>\<open>AuthState::get_user_dek\<close> of \<^verbatim>\<open>auth/state.rs\<close>).

  AES-256-GCM, Base64, HKDF and the JSON form of a credential are third-party code: the fields of
  \<open>Primitives\<close>, with what the code relies on as the hypothesis \<open>aead_laws\<close>. Random bytes (nonces,
  keys) are arguments. The texts that third-party errors carry are left out of \<open>CryptoError\<close>.
\<close>

record EncryptedCredential =
  ciphertext :: string
  nonce :: string

record Primitives =
  aes_encrypt :: "string \<Rightarrow> string \<Rightarrow> string \<Rightarrow> string option"
  aes_decrypt :: "string \<Rightarrow> string \<Rightarrow> string \<Rightarrow> string option"
  b64_encode :: "string \<Rightarrow> string"
  b64_decode :: "string \<Rightarrow> string option"
  hkdf_expand :: "string \<Rightarrow> string \<Rightarrow> string"
  cred_to_json :: "EncryptedCredential \<Rightarrow> string"
  cred_from_json :: "string \<Rightarrow> EncryptedCredential option"
  utf8_valid :: "string \<Rightarrow> bool"
  utf8_lossy :: "string \<Rightarrow> string"

definition aead_laws :: "Primitives \<Rightarrow> bool" where
  "aead_laws P \<longleftrightarrow>
     (\<forall>k n pt ct. aes_encrypt P k n pt = Some ct \<longrightarrow> aes_decrypt P k n ct = Some pt) \<and>
     (\<forall>x. b64_decode P (b64_encode P x) = Some x) \<and>
     (\<forall>c. cred_from_json P (cred_to_json P c) = Some c)"

section \<open>crypto.rs\<close>

definition encrypt :: "Primitives \<Rightarrow> string \<Rightarrow> string \<Rightarrow> string \<Rightarrow> CryptoError + EncryptedCredential" where
  "encrypt P nonce_arr key plaintext =
     (if length key \<noteq> 32 then Inl InvalidKeyLength
      else case aes_encrypt P key nonce_arr plaintext of
             None \<Rightarrow> Inl Encrypt
           | Some ct \<Rightarrow> Inr \<lparr>ciphertext = b64_encode P ct, nonce = b64_encode P nonce_arr\<rparr>)"

definition decrypt :: "Primitives \<Rightarrow> string \<Rightarrow> EncryptedCredential \<Rightarrow> CryptoError + string" where
  "decrypt P key enc =
     (if length key \<noteq> 32 then Inl InvalidKeyLength
      else case b64_decode P (nonce enc) of
             None \<Rightarrow> Inl Base64
           | Some nonce_bytes \<Rightarrow>
               if length nonce_bytes \<noteq> 12 then Inl InvalidNonceLength
               else case b64_decode P (ciphertext enc) of
                      None \<Rightarrow> Inl Base64
                    | Some ct \<Rightarrow>
                       (case aes_decrypt P key nonce_bytes ct of
                          None \<Rightarrow> Inl Decrypt
                        | Some pt \<Rightarrow> Inr pt))"

definition KEK_INFO_PREFIX :: string where "KEK_INFO_PREFIX = ''lyra-user-kek:v1:''"

definition LEGACY_DEFAULT_MASTER_KEY :: string where
  "LEGACY_DEFAULT_MASTER_KEY = ''lyra-default-master-key-for-dev-only''"

definition pad_master_key_to_dek :: "string \<Rightarrow> string" where
  "pad_master_key_to_dek master =
     (let n = min (length master) 32 in take n master @ replicate (32 - n) (CHR 0x00))"

definition legacy_dek_candidates :: "string \<Rightarrow> string list" where
  "legacy_dek_candidates master =
     (let current = pad_master_key_to_dek master;
          default = pad_master_key_to_dek LEGACY_DEFAULT_MASTER_KEY
      in if current = default then [current] else [current, default])"

fun try_keys :: "Primitives \<Rightarrow> EncryptedCredential \<Rightarrow> string list \<Rightarrow> string option" where
  "try_keys P blob [] = None"
| "try_keys P blob (k # ks) =
     (case decrypt P k blob of Inr pt \<Rightarrow> Some pt | Inl _ \<Rightarrow> try_keys P blob ks)"

definition try_decrypt_with_legacy_keys :: "Primitives \<Rightarrow> EncryptedCredential \<Rightarrow> string \<Rightarrow> string option" where
  "try_decrypt_with_legacy_keys P blob master = try_keys P blob (legacy_dek_candidates master)"

definition derive_user_kek :: "Primitives \<Rightarrow> string \<Rightarrow> string \<Rightarrow> string" where
  "derive_user_kek P master user_id = hkdf_expand P master (KEK_INFO_PREFIX @ user_id)"

definition wrap_dek :: "Primitives \<Rightarrow> string \<Rightarrow> string \<Rightarrow> string \<Rightarrow> CryptoError + string" where
  "wrap_dek P nonce_arr kek dek =
     (case encrypt P nonce_arr kek dek of Inl e \<Rightarrow> Inl e | Inr c \<Rightarrow> Inr (cred_to_json P c))"

definition unwrap_dek :: "Primitives \<Rightarrow> string \<Rightarrow> string \<Rightarrow> CryptoError + string" where
  "unwrap_dek P kek wrapped =
     (case cred_from_json P wrapped of None \<Rightarrow> Inl Decrypt | Some c \<Rightarrow> decrypt P kek c)"

lemma length_pad [simp]: "length (pad_master_key_to_dek m) = 32"
  by (simp add: pad_master_key_to_dek_def Let_def)

lemma decrypt_encrypt:
  assumes "aead_laws P" and "length n = 12" and "encrypt P n key pt = Inr c"
  shows "decrypt P key c = Inr pt"
  using assms by (auto simp: aead_laws_def encrypt_def decrypt_def split: if_splits option.splits)

lemma unwrap_wrap_dek:
  assumes "aead_laws P" and "length n = 12" and "wrap_dek P n kek dek = Inr w"
  shows "unwrap_dek P kek w = Inr dek"
  using assms(3) decrypt_encrypt [OF assms(1,2)] assms(1)
  by (auto simp: wrap_dek_def unwrap_dek_def aead_laws_def split: sum.splits)

section \<open>TOTP secret blobs (auth/totp.rs)\<close>

definition encrypt_totp_secret :: "Primitives \<Rightarrow> string \<Rightarrow> string \<Rightarrow> string \<Rightarrow> CryptoError + string" where
  "encrypt_totp_secret P nonce_arr dek secret_base32 =
     (case encrypt P nonce_arr dek secret_base32 of Inl e \<Rightarrow> Inl e | Inr c \<Rightarrow> Inr (cred_to_json P c))"

definition decrypt_totp_secret :: "Primitives \<Rightarrow> string \<Rightarrow> string \<Rightarrow> CryptoError + string" where
  "decrypt_totp_secret P dek stored =
     (case cred_from_json P stored of
        None \<Rightarrow> Inl Decrypt
      | Some c \<Rightarrow> (case decrypt P dek c of
                    Inl e \<Rightarrow> Inl e
                  | Inr bytes \<Rightarrow> if utf8_valid P bytes then Inr bytes else Inl Decrypt))"

lemma totp_secret_roundtrip:
  assumes "aead_laws P" and "length n = 12" and "utf8_valid P s"
    and "encrypt_totp_secret P n dek s = Inr stored"
  shows "decrypt_totp_secret P dek stored = Inr s"
  using assms decrypt_encrypt [OF assms(1,2)]
  by (auto simp: encrypt_totp_secret_def decrypt_totp_secret_def aead_laws_def split: sum.splits)

section \<open>auth/dek.rs\<close>

text \<open>The \<^verbatim>\<open>OnceLock\<close> that holds the master key: the first install wins.\<close>

definition install_master_key :: "string \<Rightarrow> string option \<Rightarrow> string option" where
  "install_master_key key slot = (case slot of None \<Rightarrow> Some key | Some k \<Rightarrow> Some k)"

definition master_key :: "string option \<Rightarrow> CryptoError + string" where
  "master_key slot = (case slot of None \<Rightarrow> Inl MasterKeyNotInitialized | Some k \<Rightarrow> Inr k)"

definition fetch_encrypted_dek :: "Db \<Rightarrow> string \<Rightarrow> CryptoError + string" where
  "fetch_encrypted_dek db user_id =
     (case id_bind_value db user_id of
        None \<Rightarrow> Inl Storage
      | Some i \<Rightarrow>
          if db_fault db then Inl Storage
          else (case find (\<lambda>r. u_id r = i) (db_users db) of
                  None \<Rightarrow> Inl MissingDek
                | Some r \<Rightarrow> (case u_encrypted_dek r of None \<Rightarrow> Inl MissingDek | Some d \<Rightarrow> Inr d)))"

definition store_wrapped_dek_if_missing :: "string \<Rightarrow> string \<Rightarrow> (Db, CryptoError, nat) eff" where
  "store_wrapped_dek_if_missing user_id wrapped db =
     (case id_bind_value db user_id of
        None \<Rightarrow> (Inl Storage, db)
      | Some i \<Rightarrow>
          if db_fault db then (Inl Storage, db)
          else (Inr (length (filter (\<lambda>r. u_id r = i \<and> u_encrypted_dek r = None) (db_users db))),
                db\<lparr>db_users := map (\<lambda>r. if u_id r = i \<and> u_encrypted_dek r = None
                                       then r\<lparr>u_encrypted_dek := Some wrapped\<rparr> else r) (db_users db)\<rparr>))"

definition fetch_account_credentials :: "Db \<Rightarrow> string \<Rightarrow> CryptoError + (string \<times> string) list" where
  "fetch_account_credentials db user_id =
     (case id_bind_value db user_id of
        None \<Rightarrow> Inl Storage
      | Some i \<Rightarrow>
          if db_fault db then Inl Storage
          else Inr (map (\<lambda>a. (a_id a, a_credential a)) (filter (\<lambda>a. a_user_id a = i) (db_accounts db))))"

definition update_account_credential :: "string \<Rightarrow> string \<Rightarrow> (Db, CryptoError, unit) eff" where
  "update_account_credential account_id credential db =
     (case id_bind_value db account_id of
        None \<Rightarrow> (Inl Storage, db)
      | Some i \<Rightarrow>
          if db_fault db then (Inl Storage, db)
          else (Inr (), db\<lparr>db_accounts :=
                 map (\<lambda>a. if a_id a = i then a\<lparr>a_credential := credential\<rparr> else a) (db_accounts db)\<rparr>))"

text \<open>The loop over the accounts; the nonces are drawn one per encryption.\<close>

fun rotate_accounts ::
  "Primitives \<Rightarrow> (nat \<Rightarrow> string) \<Rightarrow> string \<Rightarrow> string \<Rightarrow> (string \<times> string) list \<Rightarrow> (Db, CryptoError, unit) eff" where
  "rotate_accounts P nonces master dek [] = okE ()"
| "rotate_accounts P nonces master dek ((account_id, credential) # rest) =
     (case cred_from_json P credential of
        None \<Rightarrow> rotate_accounts P nonces master dek rest
      | Some blob \<Rightarrow>
         (case try_decrypt_with_legacy_keys P blob master of
            None \<Rightarrow> rotate_accounts P nonces master dek rest
          | Some plaintext \<Rightarrow>
             (case encrypt P (nonces (length rest)) dek plaintext of
                Inl e \<Rightarrow> errE e
              | Inr rotated \<Rightarrow>
                  bindE (update_account_credential account_id (cred_to_json P rotated)) (\<lambda>_.
                  rotate_accounts P nonces master dek rest))))"

definition rotate_legacy_totp_secret ::
  "Primitives \<Rightarrow> string \<Rightarrow> string \<Rightarrow> string \<Rightarrow> string \<Rightarrow> (Db, CryptoError, unit) eff" where
  "rotate_legacy_totp_secret P nonce_arr user_id dek master db =
     (case id_bind_value db user_id of
        None \<Rightarrow> (Inl Storage, db)
      | Some i \<Rightarrow>
          if db_fault db then (Inl Storage, db)
          else case Option.bind (find (\<lambda>r. u_id r = i) (db_users db)) u_totp_secret of
                 None \<Rightarrow> (Inr (), db)
               | Some stored \<Rightarrow>
                  (case (case cred_from_json P stored of
                           Some blob \<Rightarrow> map_option (utf8_lossy P) (try_decrypt_with_legacy_keys P blob master)
                         | None \<Rightarrow> Some stored) of
                     None \<Rightarrow> (Inr (), db)
                   | Some plaintext \<Rightarrow>
                      (case encrypt_totp_secret P nonce_arr dek plaintext of
                         Inl e \<Rightarrow> (Inl e, db)
                       | Inr rotated \<Rightarrow>
                          (Inr (), db\<lparr>db_users :=
                             map (\<lambda>r. if u_id r = i then r\<lparr>u_totp_secret := Some rotated\<rparr> else r)
                               (db_users db)\<rparr>))))"

definition rotate_legacy_secrets ::
  "Primitives \<Rightarrow> (nat \<Rightarrow> string) \<Rightarrow> string option \<Rightarrow> string \<Rightarrow> string \<Rightarrow> (Db, CryptoError, unit) eff" where
  "rotate_legacy_secrets P nonces slot user_id dek db =
     (case master_key slot of
        Inl e \<Rightarrow> (Inl e, db)
      | Inr master \<Rightarrow>
         (case fetch_account_credentials db user_id of
            Inl e \<Rightarrow> (Inl e, db)
          | Inr accounts \<Rightarrow>
              bindE (rotate_accounts P nonces master dek accounts) (\<lambda>_.
              rotate_legacy_totp_secret P (nonces (length accounts)) user_id dek master) db))"

definition provision_and_rotate_legacy_dek ::
  "Primitives \<Rightarrow> (nat \<Rightarrow> string) \<Rightarrow> string \<Rightarrow> string \<Rightarrow> string option \<Rightarrow> string \<Rightarrow> string \<Rightarrow> (Db, CryptoError, string) eff" where
  "provision_and_rotate_legacy_dek P nonces wrap_nonce dek slot user_id kek db =
     (case wrap_dek P wrap_nonce kek dek of
        Inl e \<Rightarrow> (Inl e, db)
      | Inr wrapped \<Rightarrow>
          bindE (store_wrapped_dek_if_missing user_id wrapped) (\<lambda>wrote.
          if wrote = 0
          then (\<lambda>db'. (case fetch_encrypted_dek db' user_id of
                         Inl e \<Rightarrow> (Inl e, db')
                       | Inr existing \<Rightarrow> (unwrap_dek P kek existing, db')))
          else bindE (rotate_legacy_secrets P nonces slot user_id dek) (\<lambda>_. okE dek)) db)"

text \<open>\<^verbatim>\<open>AuthState::get_user_dek\<close>.\<close>

definition get_user_dek ::
  "Primitives \<Rightarrow> (nat \<Rightarrow> string) \<Rightarrow> string \<Rightarrow> string \<Rightarrow> string option \<Rightarrow> string \<Rightarrow> (Db, CryptoError, string) eff" where
  "get_user_dek P nonces wrap_nonce fresh_dek slot user_id db =
     (case master_key slot of
        Inl e \<Rightarrow> (Inl e, db)
      | Inr master \<Rightarrow>
         (let kek = derive_user_kek P master user_id
          in case fetch_encrypted_dek db user_id of
               Inr wrapped \<Rightarrow> (unwrap_dek P kek wrapped, db)
             | Inl MissingDek \<Rightarrow>
                 provision_and_rotate_legacy_dek P nonces wrap_nonce fresh_dek slot user_id kek db
             | Inl e \<Rightarrow> (Inl e, db)))"

section \<open>Rotation keeps the plaintexts\<close>

definition legacy_plaintext :: "Primitives \<Rightarrow> string \<Rightarrow> string \<Rightarrow> string option" where
  "legacy_plaintext P master credential =
     Option.bind (cred_from_json P credential) (\<lambda>blob. try_decrypt_with_legacy_keys P blob master)"

text \<open>\<open>a'\<close> is what the rotation may make of the account \<open>a\<close>: a credential that opens under a legacy
  key is re-encrypted under the DEK, with the same plaintext; every other one is left alone.\<close>

definition rotated_account :: "Primitives \<Rightarrow> string \<Rightarrow> string \<Rightarrow> AccountRow \<Rightarrow> AccountRow \<Rightarrow> bool" where
  "rotated_account P master dek a a' =
     (case legacy_plaintext P master (a_credential a) of
        None \<Rightarrow> a' = a
      | Some pt \<Rightarrow> (\<exists>c. a' = a\<lparr>a_credential := cred_to_json P c\<rparr> \<and> decrypt P dek c = Inr pt))"

lemma update_account_credential_Inr:
  assumes "update_account_credential aid cred db = (Inr u, db')"
    and "id_bind_value db aid = Some aid"
  shows "db' = db\<lparr>db_accounts :=
    map (\<lambda>a. if a_id a = aid then a\<lparr>a_credential := cred\<rparr> else a) (db_accounts db)\<rparr>"
  using assms by (auto simp: update_account_credential_def split: if_splits)

lemma rotate_accounts_map:
  assumes "aead_laws P" and "\<And>n. length (nonces n) = 12"
    and "rotate_accounts P nonces master dek ps db = (Inr u, db')"
    and "distinct (map fst ps)" and "\<And>i c. (i, c) \<in> set ps \<Longrightarrow> id_bind_value db i = Some i"
  shows "\<exists>g. db' = db\<lparr>db_accounts := map g (db_accounts db)\<rparr> \<and>
    (\<forall>a. case map_of ps (a_id a) of
           None \<Rightarrow> g a = a
         | Some cred \<Rightarrow> a_credential a = cred \<longrightarrow> rotated_account P master dek a (g a))"
  using assms(3-)
proof (induction ps arbitrary: db)
  case Nil
  then show ?case by (auto intro!: exI [of _ "\<lambda>a. a"])
next
  case (Cons p ps)
  obtain aid cred where p: "p = (aid, cred)" by fastforce
  have fresh: "map_of ps aid = None"
    using Cons.prems(2) p by (simp add: map_of_eq_None_iff)
  show ?case
  proof (cases "legacy_plaintext P master cred")
    case None
    then have "rotate_accounts P nonces master dek ps db = (Inr u, db')"
      using Cons.prems(1) p by (auto simp: legacy_plaintext_def split: option.splits)
    from Cons.IH [OF this] Cons.prems(2,3) p obtain g where
      g: "db' = db\<lparr>db_accounts := map g (db_accounts db)\<rparr>"
        "\<forall>a. case map_of ps (a_id a) of None \<Rightarrow> g a = a
          | Some cr \<Rightarrow> a_credential a = cr \<longrightarrow> rotated_account P master dek a (g a)"
      by auto
    have "case map_of (p # ps) (a_id a) of None \<Rightarrow> g a = a
        | Some cr \<Rightarrow> a_credential a = cr \<longrightarrow> rotated_account P master dek a (g a)" for a
      using g(2) [rule_format, of a] fresh None p by (auto simp: rotated_account_def)
    with g(1) show ?thesis by blast
  next
    case (Some pt)
    then obtain blob where blob: "cred_from_json P cred = Some blob"
        "try_decrypt_with_legacy_keys P blob master = Some pt"
      by (auto simp: legacy_plaintext_def split: option.splits Option.bind_splits)
    obtain c db1 where c: "encrypt P (nonces (length ps)) dek pt = Inr c"
      and up: "update_account_credential aid (cred_to_json P c) db = (Inr (), db1)"
      and rest: "rotate_accounts P nonces master dek ps db1 = (Inr u, db')"
      using Cons.prems(1) p blob by (auto split: sum.splits elim!: bindE_InrE)
    have db1: "db1 = db\<lparr>db_accounts :=
        map (\<lambda>a. if a_id a = aid then a\<lparr>a_credential := cred_to_json P c\<rparr> else a) (db_accounts db)\<rparr>"
      using update_account_credential_Inr [OF up] Cons.prems(3) p by auto
    obtain g where g: "db' = db1\<lparr>db_accounts := map g (db_accounts db1)\<rparr>"
        "\<forall>a. case map_of ps (a_id a) of None \<Rightarrow> g a = a
          | Some cr \<Rightarrow> a_credential a = cr \<longrightarrow> rotated_account P master dek a (g a)"
      using Cons.IH [OF rest] Cons.prems(2,3) p db1 by auto
    let ?h = "\<lambda>a. g (if a_id a = aid then a\<lparr>a_credential := cred_to_json P c\<rparr> else a)"
    have dec: "decrypt P dek c = Inr pt"
      using decrypt_encrypt [OF assms(1) assms(2) c] .
    have "case map_of (p # ps) (a_id a) of None \<Rightarrow> ?h a = a
        | Some cr \<Rightarrow> a_credential a = cr \<longrightarrow> rotated_account P master dek a (?h a)" for a
    proof (cases "a_id a = aid")
      case True
      then have "?h a = a\<lparr>a_credential := cred_to_json P c\<rparr>"
        using g(2) [rule_format, of "a\<lparr>a_credential := cred_to_json P c\<rparr>"] fresh by simp
      with True dec Some p show ?thesis by (auto simp: rotated_account_def)
    next
      case False
      with g(2) [rule_format, of a] p show ?thesis by auto
    qed
    moreover have "db' = db\<lparr>db_accounts := map ?h (db_accounts db)\<rparr>"
      using g(1) db1 by (simp add: comp_def)
    ultimately show ?thesis by blast
  qed
qed

lemma map_of_user_accounts:
  assumes "distinct (map a_id as)" and "a \<in> set as"
  shows "map_of (map (\<lambda>a. (a_id a, a_credential a)) (filter (\<lambda>a. a_user_id a = i) as)) (a_id a) =
    (if a_user_id a = i then Some (a_credential a) else None)"
proof (cases "a_user_id a = i")
  case True
  have "distinct (map a_id (filter (\<lambda>a. a_user_id a = i) as))"
    using assms(1) by (induction as) auto
  with True assms(2) show ?thesis
    by (auto intro!: map_of_is_SomeI simp: comp_def)
next
  case False
  have "a' = a" if "a' \<in> set as" "a_id a' = a_id a" for a'
    using that assms by (metis distinct_map inj_on_def)
  with False show ?thesis
    by (auto simp: map_of_eq_None_iff)
qed

lemma rotate_totp_frame:
  assumes "rotate_legacy_totp_secret P n user_id dek master db = (res, db')"
  obtains f where "db' = db\<lparr>db_users := map f (db_users db)\<rparr>"
    and "\<And>r. u_id (f r) = u_id r" and "\<And>r. u_encrypted_dek (f r) = u_encrypted_dek r"
proof -
  have id: "db = db\<lparr>db_users := map (\<lambda>r. r) (db_users db)\<rparr>" by simp
  show ?thesis
  proof (cases "db' = db")
    case True
    with id show ?thesis by (intro that [of "\<lambda>r. r"]) auto
  next
    case False
    with assms obtain i sec where
      "db' = db\<lparr>db_users := map (\<lambda>r. if u_id r = i then r\<lparr>u_totp_secret := Some sec\<rparr> else r) (db_users db)\<rparr>"
      by (auto simp: rotate_legacy_totp_secret_def split: option.splits if_splits sum.splits)
    then show ?thesis by (rule that) auto
  qed
qed

text \<open>Every account of the user is rotated, every account of another user is kept.\<close>

lemma rotate_legacy_secrets_accounts:
  assumes "aead_laws P" and "\<And>n. length (nonces n) = 12"
    and "rotate_legacy_secrets P nonces (Some master) user_id dek db = (Inr u, db')"
    and "id_bind_value db user_id = Some i"
    and "distinct (map a_id (db_accounts db))"
    and "\<forall>a\<in>set (db_accounts db). id_bind_value db (a_id a) = Some (a_id a)"
  shows "\<exists>g. db_accounts db' = map g (db_accounts db) \<and>
    (\<forall>a\<in>set (db_accounts db).
       if a_user_id a = i then rotated_account P master dek a (g a) else g a = a)"
proof -
  let ?ps = "map (\<lambda>a. (a_id a, a_credential a)) (filter (\<lambda>a. a_user_id a = i) (db_accounts db))"
  obtain db1 where r1: "rotate_accounts P nonces master dek ?ps db = (Inr (), db1)"
    and r2: "rotate_legacy_totp_secret P (nonces (length ?ps)) user_id dek master db1 = (Inr u, db')"
    using assms(3,4)
    by (auto simp: rotate_legacy_secrets_def master_key_def fetch_account_credentials_def
        split: if_splits elim!: bindE_InrE)
  have dist: "distinct (map fst ?ps)"
    using assms(5) by (induction "db_accounts db") (auto simp: comp_def distinct_map_filter)
  obtain g where g: "db1 = db\<lparr>db_accounts := map g (db_accounts db)\<rparr>"
    "\<forall>a. case map_of ?ps (a_id a) of None \<Rightarrow> g a = a
       | Some cred \<Rightarrow> a_credential a = cred \<longrightarrow> rotated_account P master dek a (g a)"
    using rotate_accounts_map [OF assms(1,2) r1 dist] assms(6) by auto
  have "db_accounts db' = map g (db_accounts db)"
    using rotate_totp_frame [OF r2] g(1) by (metis Db.select_convs(5) Db.surjective Db.update_convs(4,5))
  moreover have "if a_user_id a = i then rotated_account P master dek a (g a) else g a = a"
    if "a \<in> set (db_accounts db)" for a
    using g(2) [rule_format, of a] map_of_user_accounts [OF assms(5) that, of i] by (auto split: if_splits)
  ultimately show ?thesis by blast
qed

section \<open>The DEK of a user is minted once\<close>

lemma find_map_same_id:
  assumes "\<And>r. u_id (f r) = u_id r"
  shows "find (\<lambda>r. u_id r = i) (map f rs) = map_option f (find (\<lambda>r. u_id r = i) rs)"
  using assms by (induction rs) auto

lemma fetch_dek_users_frame:
  assumes "\<And>r. u_id (f r) = u_id r" and "\<And>r. u_encrypted_dek (f r) = u_encrypted_dek r"
  shows "fetch_encrypted_dek (db\<lparr>db_users := map f (db_users db)\<rparr>) u = fetch_encrypted_dek db u"
  by (simp add: fetch_encrypted_dek_def find_map_same_id [OF assms(1)] assms(2) split: option.split)

lemma fetch_dek_accounts_frame [simp]:
  "fetch_encrypted_dek (db\<lparr>db_accounts := as\<rparr>) u = fetch_encrypted_dek db u"
  by (simp add: fetch_encrypted_dek_def split: option.split)

lemma rotate_accounts_frame:
  "rotate_accounts P nonces master dek ps db = (res, db') \<Longrightarrow>
   fetch_encrypted_dek db' u = fetch_encrypted_dek db u"
proof (induction ps arbitrary: db)
  case (Cons p ps)
  obtain aid cred where p: "p = (aid, cred)" by fastforce
  have up: "fetch_encrypted_dek db1 u = fetch_encrypted_dek db u"
    if "update_account_credential aid c db = (r1, db1)" for c r1 db1
    using that by (auto simp: update_account_credential_def split: option.splits if_splits)
  from Cons p up show ?case
    by (fastforce simp: bindE_def split: option.splits sum.splits prod.splits)
qed simp

lemma rotate_legacy_secrets_frame:
  assumes "rotate_legacy_secrets P nonces slot user_id dek db = (res, db')"
  shows "fetch_encrypted_dek db' u = fetch_encrypted_dek db u"
proof -
  have totp: "fetch_encrypted_dek d' u = fetch_encrypted_dek d u"
    if "rotate_legacy_totp_secret P n user_id dek master d = (r, d')" for n master d r d'
    using rotate_totp_frame [OF that] fetch_dek_users_frame by metis
  show ?thesis
    using assms
    by (auto simp: rotate_legacy_secrets_def bindE_def split: sum.splits prod.splits)
      (metis rotate_accounts_frame totp)+
qed

lemma store_wrapped_dek_fetch:
  assumes "store_wrapped_dek_if_missing user_id wrapped db = (Inr n, db')"
    and "fetch_encrypted_dek db user_id = Inl MissingDek"
  shows "if n = 0 then fetch_encrypted_dek db' user_id = Inl MissingDek
    else fetch_encrypted_dek db' user_id = Inr wrapped"
proof -
  from assms obtain i where i: "id_bind_value db user_id = Some i" "\<not> db_fault db"
    and n: "n = length (filter (\<lambda>r. u_id r = i \<and> u_encrypted_dek r = None) (db_users db))"
    and db': "db' = db\<lparr>db_users := map (\<lambda>r. if u_id r = i \<and> u_encrypted_dek r = None
      then r\<lparr>u_encrypted_dek := Some wrapped\<rparr> else r) (db_users db)\<rparr>"
    by (auto simp: store_wrapped_dek_if_missing_def split: option.splits if_splits)
  let ?f = "\<lambda>r. if u_id r = i \<and> u_encrypted_dek r = None then r\<lparr>u_encrypted_dek := Some wrapped\<rparr> else r"
  have fnd: "find (\<lambda>r. u_id r = i) (map ?f (db_users db)) = map_option ?f (find (\<lambda>r. u_id r = i) (db_users db))"
    by (rule find_map_same_id) simp
  show ?thesis
  proof (cases "find (\<lambda>r. u_id r = i) (db_users db)")
    case None
    then have "\<forall>r\<in>set (db_users db). u_id r \<noteq> i"
      by (auto simp: find_None_iff)
    then have "n = 0" using n by simp
    with None i db' fnd show ?thesis by (simp add: fetch_encrypted_dek_def)
  next
    case (Some r)
    then have r: "u_id r = i" "r \<in> set (db_users db)"
      by (auto simp: find_Some_iff)
    have "u_encrypted_dek r = None"
      using assms(2) i Some by (auto simp: fetch_encrypted_dek_def split: option.splits)
    moreover from this r have "n \<noteq> 0"
      using n by (auto simp: filter_empty_conv)
    ultimately show ?thesis
      using Some i db' fnd r by (simp add: fetch_encrypted_dek_def)
  qed
qed

lemma provision_Inr:
  assumes "provision_and_rotate_legacy_dek P nonces wn dek slot user_id kek db = (Inr d, db')"
    and "fetch_encrypted_dek db user_id = Inl MissingDek"
  shows "d = dek \<and> (\<exists>wrapped. wrap_dek P wn kek dek = Inr wrapped \<and>
    fetch_encrypted_dek db' user_id = Inr wrapped)"
proof -
  obtain wrapped n db1 where w: "wrap_dek P wn kek dek = Inr wrapped"
    and st: "store_wrapped_dek_if_missing user_id wrapped db = (Inr n, db1)"
    and rest: "(if n = 0
          then (\<lambda>db'. (case fetch_encrypted_dek db' user_id of
                         Inl e \<Rightarrow> (Inl e, db')
                       | Inr existing \<Rightarrow> (unwrap_dek P kek existing, db')))
          else bindE (rotate_legacy_secrets P nonces slot user_id dek) (\<lambda>_. okE dek)) db1 = (Inr d, db')"
    using assms(1)
    by (auto simp: provision_and_rotate_legacy_dek_def split: sum.splits elim!: bindE_InrE)
  have "n \<noteq> 0"
    using rest store_wrapped_dek_fetch [OF st assms(2)] by (auto split: if_splits)
  with rest have "d = dek" and "\<exists>r. rotate_legacy_secrets P nonces slot user_id dek db1 = (r, db')"
    by (auto elim!: bindE_InrE)
  with rotate_legacy_secrets_frame store_wrapped_dek_fetch [OF st assms(2)] \<open>n \<noteq> 0\<close> w
  show ?thesis by metis
qed

section \<open>Concrete primitives for the witnesses\<close>

text \<open>A cipher that prepends key and nonce, the identity in place of Base64, and a credential text
  that starts with the length of the ciphertext in unary.\<close>

definition demo_prims :: Primitives where
  "demo_prims =
     \<lparr>aes_encrypt = (\<lambda>k n pt. Some (k @ n @ pt)),
      aes_decrypt = (\<lambda>k n ct. if take (length k) ct = k \<and> take (length n) (drop (length k) ct) = n
                              then Some (drop (length k + length n) ct) else None),
      b64_encode = (\<lambda>x. x), b64_decode = Some,
      hkdf_expand = (\<lambda>m info. take 32 (info @ m @ replicate 32 (CHR ''k''))),
      cred_to_json = (\<lambda>c. replicate (length (ciphertext c)) (CHR ''x'') @ CHR ''|'' # ciphertext c @ nonce c),
      cred_from_json = (\<lambda>s. let n = length (takeWhile (\<lambda>ch. ch = CHR ''x'') s) in
         if take 1 (drop n s) = ''|''
         then Some \<lparr>ciphertext = take n (drop (n + 1) s), nonce = drop (n + 1 + n) s\<rparr> else None),
      utf8_valid = (\<lambda>_. True), utf8_lossy = (\<lambda>s. s)\<rparr>"

lemma takeWhile_replicate_sep:
  "takeWhile (\<lambda>ch. ch = x) (replicate n x @ y # zs) = replicate n x" if "x \<noteq> y"
  using that by (induction n) auto

lemma demo_prims_laws: "aead_laws demo_prims"
  by (auto simp: aead_laws_def demo_prims_def Let_def takeWhile_replicate_sep)

section \<open>Properties\<close>

text \<open>AES-GCM key wrapping round trip: unwrapping, under the same KEK, the JSON blob that
  \<^verbatim>\<open>wrap_dek\<close> stored gives back exactly the DEK that was wrapped.\<close>

theorem wrap_unwrap_dek_roundtrip:
  assumes "aead_laws P" and "length nonce_arr = 12" and "wrap_dek P nonce_arr kek dek = Inr stored"
  shows "unwrap_dek P kek stored = Inr dek"
  using assms by (rule unwrap_wrap_dek)

theorem wrap_unwrap_dek_roundtrip_witness:
  "unwrap_dek demo_prims (replicate 32 (CHR ''k''))
     (projr (wrap_dek demo_prims (replicate 12 (CHR ''n'')) (replicate 32 (CHR ''k'')) ''dek'')) = Inr ''dek''"
proof -
  have "wrap_dek demo_prims (replicate 12 (CHR ''n'')) (replicate 32 (CHR ''k'')) ''dek'' =
    Inr (projr (wrap_dek demo_prims (replicate 12 (CHR ''n'')) (replicate 32 (CHR ''k'')) ''dek''))"
    by (simp add: wrap_dek_def encrypt_def demo_prims_def)
  from wrap_unwrap_dek_roundtrip [OF demo_prims_laws _ this] show ?thesis by simp
qed


definition demo_user :: UserRow where
  "demo_user = \<lparr>u_id = ''u1'', u_username = ''ann'', u_password_hash = ''h'', u_totp_secret = None,
     u_totp_enabled = False, u_display_name = None, u_locale = ''en'',
     u_mark_read_policy = ''on_open'', u_ui_state = None, u_sess_epoch = 0, u_encrypted_dek = None\<rparr>"

definition demo_db :: Db where
  "demo_db = \<lparr>db_backend = Sqlite, db_uuid_parse = (\<lambda>_. None), db_fault = False,
     db_users = [demo_user], db_accounts = []\<rparr>"


text \<open>C22: rotating the secrets of a user who predates the DEK hierarchy keeps every plaintext: a
  stored account credential that opened under the padded master key (or the old default key) now
  opens under the DEK to the same password, and every other credential, of this user or of any
  other, is left as it was.\<close>

theorem rotation_keeps_credentials:
  assumes "aead_laws P" and "\<And>n. length (nonces n) = 12"
    and "rotate_legacy_secrets P nonces (Some master) user_id dek db = (Inr u, db')"
    and "id_bind_value db user_id = Some i"
    and "distinct (map a_id (db_accounts db))"
    and "\<forall>a\<in>set (db_accounts db). id_bind_value db (a_id a) = Some (a_id a)"
  shows "\<exists>g. db_accounts db' = map g (db_accounts db) \<and>
    (\<forall>a\<in>set (db_accounts db).
       if a_user_id a = i then rotated_account P master dek a (g a) else g a = a)"
  using assms by (rule rotate_legacy_secrets_accounts)

definition demo_legacy_cred :: EncryptedCredential where
  "demo_legacy_cred = \<lparr>ciphertext = pad_master_key_to_dek ''master'' @ replicate 12 (CHR ''n'') @ ''pw'',
     nonce = replicate 12 (CHR ''n'')\<rparr>"

definition demo_legacy_db :: Db where
  "demo_legacy_db = demo_db\<lparr>db_accounts :=
     [\<lparr>a_id = ''a1'', a_user_id = ''u1'', a_credential = cred_to_json demo_prims demo_legacy_cred\<rparr>]\<rparr>"

lemma demo_cred_roundtrip: "cred_from_json demo_prims (cred_to_json demo_prims c) = Some c"
  using demo_prims_laws by (simp add: aead_laws_def)

lemma demo_legacy_plaintext:
  "legacy_plaintext demo_prims ''master'' (cred_to_json demo_prims demo_legacy_cred) = Some ''pw''"
proof -
  have "decrypt demo_prims (pad_master_key_to_dek ''master'') demo_legacy_cred = Inr ''pw''"
    by (simp add: decrypt_def demo_legacy_cred_def demo_prims_def)
  then show ?thesis
    by (auto simp: legacy_plaintext_def demo_cred_roundtrip try_decrypt_with_legacy_keys_def
        legacy_dek_candidates_def Let_def)
qed

theorem rotation_keeps_credentials_witness:
  "\<exists>db' c. rotate_legacy_secrets demo_prims (\<lambda>_. replicate 12 (CHR ''n'')) (Some ''master'') ''u1''
      (replicate 32 (CHR ''d'')) demo_legacy_db = (Inr (), db') \<and>
    map a_credential (db_accounts db') = [cred_to_json demo_prims c] \<and>
    decrypt demo_prims (replicate 32 (CHR ''d'')) c = Inr ''pw''"
proof -
  let ?rot = "rotate_legacy_secrets demo_prims (\<lambda>_. replicate 12 (CHR ''n'')) (Some ''master'') ''u1''
      (replicate 32 (CHR ''d''))"
  have opens: "try_decrypt_with_legacy_keys demo_prims demo_legacy_cred ''master'' = Some ''pw''"
    using demo_legacy_plaintext by (simp add: legacy_plaintext_def demo_cred_roundtrip)
  have enc: "\<exists>c. encrypt demo_prims n (replicate 32 (CHR ''d'')) pt = Inr c" for n pt
    by (simp add: encrypt_def demo_prims_def)
  obtain db' where r: "?rot demo_legacy_db = (Inr (), db')"
    using opens enc [of "replicate 12 (CHR ''n'')" "''pw''"]
    by (auto simp: rotate_legacy_secrets_def master_key_def fetch_account_credentials_def
        id_bind_value_def demo_legacy_db_def demo_db_def demo_user_def demo_cred_roundtrip
        update_account_credential_def rotate_legacy_totp_secret_def bindE_def)
  have acc: "db_accounts demo_legacy_db =
      [\<lparr>a_id = ''a1'', a_user_id = ''u1'', a_credential = cred_to_json demo_prims demo_legacy_cred\<rparr>]"
    by (simp add: demo_legacy_db_def)
  have bind: "id_bind_value demo_legacy_db x = Some x" for x
    by (simp add: id_bind_value_def demo_legacy_db_def demo_db_def)
  obtain g where "db_accounts db' = map g (db_accounts demo_legacy_db)"
    "\<forall>a\<in>set (db_accounts demo_legacy_db). if a_user_id a = ''u1''
       then rotated_account demo_prims ''master'' (replicate 32 (CHR ''d'')) a (g a) else g a = a"
    using rotation_keeps_credentials [OF demo_prims_laws _ r bind] acc bind by auto
  with acc demo_legacy_plaintext r show ?thesis
    by (auto simp: rotated_account_def)
qed

end
