(* ===== verification/Lyra_Sessions.thy ===== *)
theory Lyra_Sessions
  imports Lyra_Kv Lyra_Crypto
begin

text \<open>
  Session storage, sliding renewal, rate limiting and invalidation (\<^verbatim>\<open>auth/session.rs\<close>), over any
  \<open>KvStore\<close>. The operations take the instant at which they run and, where the code draws a random
  token, that token. The lemmas are proved once for every store that meets the contract of
  \<open>Lyra_Kv\<close>; the properties at the end of the theory are their instances for \<open>MemoryKv\<close>.
\<close>

section \<open>Keys and constants\<close>

definition SESSION_TTL_SECS :: nat where "SESSION_TTL_SECS = 30 * 24 * 60 * 60"
definition PENDING_TTL_SECS :: nat where "PENDING_TTL_SECS = 5 * 60"
definition RATE_LIMIT_MAX_ATTEMPTS :: int where "RATE_LIMIT_MAX_ATTEMPTS = 5"
definition RATE_LIMIT_WINDOW_SECS :: nat where "RATE_LIMIT_WINDOW_SECS = 15 * 60"

definition sess_prefix :: "int \<Rightarrow> string" where
  "sess_prefix epoch = ''sess:'' @ show_int epoch @ '':''"

definition sess_key :: "int \<Rightarrow> string \<Rightarrow> string" where
  "sess_key epoch token = ''sess:'' @ show_int epoch @ '':'' @ token"

definition tok_key :: "string \<Rightarrow> string" where
  "tok_key token = ''tok:'' @ token"

definition pending_key :: "string \<Rightarrow> string" where
  "pending_key token = ''pending:'' @ token"

definition refresh_key :: "string \<Rightarrow> string" where
  "refresh_key token = ''sess-refresh:'' @ token"

definition login_rl_key :: "string \<Rightarrow> string" where
  "login_rl_key username = ''rl:login:'' @ username"

definition totp_rl_key :: "string \<Rightarrow> string" where
  "totp_rl_key user_id = ''rl:totp:'' @ user_id"

definition pwd_rl_key :: "string \<Rightarrow> string" where
  "pwd_rl_key user_id = ''rl:pwd:'' @ user_id"

definition totp_step_key :: "string \<Rightarrow> string" where
  "totp_step_key user_id = ''totp_last_step:'' @ user_id"

lemmas key_defs =
  sess_key_def sess_prefix_def tok_key_def pending_key_def refresh_key_def login_rl_key_def
  totp_rl_key_def pwd_rl_key_def totp_step_key_def

lemma sess_key_inj [simp, key_simps]: "sess_key e t = sess_key e' t' \<longleftrightarrow> e = e' \<and> t = t'"
  using sep_append_eq [of "CHR '':''" "show_int e" "show_int e'" t t']
  by (simp add: sess_key_def show_int_inj)

lemma tok_key_inj [simp, key_simps]: "tok_key t = tok_key t' \<longleftrightarrow> t = t'"
  by (simp add: tok_key_def)

lemma refresh_key_inj [simp, key_simps]: "refresh_key t = refresh_key t' \<longleftrightarrow> t = t'"
  by (simp add: refresh_key_def)

lemma pending_key_inj [simp, key_simps]: "pending_key t = pending_key t' \<longleftrightarrow> t = t'"
  by (simp add: pending_key_def)

lemma keys_distinct [simp, key_simps]:
  "sess_key e t \<noteq> tok_key t'" "tok_key t' \<noteq> sess_key e t"
  "sess_key e t \<noteq> refresh_key t'" "refresh_key t' \<noteq> sess_key e t"
  "tok_key t \<noteq> refresh_key t'" "refresh_key t' \<noteq> tok_key t"
  "sess_key e t \<noteq> pending_key t'" "pending_key t' \<noteq> sess_key e t"
  "tok_key t \<noteq> pending_key t'" "pending_key t' \<noteq> tok_key t"
  "refresh_key t \<noteq> pending_key t'" "pending_key t' \<noteq> refresh_key t"
  by (simp_all add: key_defs)

lemma sess_key_not_other [simp, key_simps]:
  "sess_key e t \<noteq> login_rl_key u" "sess_key e t \<noteq> totp_rl_key u" "sess_key e t \<noteq> pwd_rl_key u"
  "sess_key e t \<noteq> totp_step_key u"
  by (simp_all add: key_defs)

text \<open>The prefix that an invalidation purges covers the keys of that epoch and no other key.\<close>

lemma starts_with_sess_prefix [simp, key_simps]:
  "starts_with (sess_key e t) (sess_prefix e') \<longleftrightarrow> e = e'"
proof
  assume "starts_with (sess_key e t) (sess_prefix e')"
  then obtain r where "sess_key e t = sess_prefix e' @ r"
    by (auto simp: starts_with_iff)
  then have "sess_key e t = sess_key e' r"
    by (simp add: sess_key_def sess_prefix_def)
  then show "e = e'" by simp
qed (simp add: sess_key_def sess_prefix_def starts_with_iff)

lemma sess_prefix_other [simp, key_simps]:
  "\<not> starts_with (tok_key t) (sess_prefix e)" "\<not> starts_with (refresh_key t) (sess_prefix e)"
  "\<not> starts_with (pending_key t) (sess_prefix e)"
  by (simp_all add: key_defs)

section \<open>The store and the database together\<close>

record 's World =
  w_kv :: 's
  w_db :: Db

definition liftkv :: "('s, 'e, 'a) eff \<Rightarrow> ('s World, 'e, 'a) eff" where
  "liftkv f w = (let (r, s) = f (w_kv w) in (r, w\<lparr>w_kv := s\<rparr>))"

definition liftdb :: "(Db, 'e, 'a) eff \<Rightarrow> ('s World, 'e, 'a) eff" where
  "liftdb f w = (let (r, d) = f (w_db w) in (r, w\<lparr>w_db := d\<rparr>))"

definition readdb :: "(Db \<Rightarrow> 'e + 'a) \<Rightarrow> ('s World, 'e, 'a) eff" where
  "readdb q w = (q (w_db w), w)"

text \<open>\<open>kv.get(k).await.ok().flatten()\<close> and \<open>let _ = kv.set(..).await\<close>.\<close>

definition get_flat :: "'s KvStore \<Rightarrow> nat \<Rightarrow> string \<Rightarrow> 's World \<Rightarrow> string option \<times> 's World" where
  "get_flat K now k w =
     (case liftkv (kv_get K now k) w of (Inr v, w') \<Rightarrow> (v, w') | (Inl _, w') \<Rightarrow> (None, w'))"

definition set_ignore ::
  "'s KvStore \<Rightarrow> nat \<Rightarrow> string \<Rightarrow> string \<Rightarrow> nat option \<Rightarrow> 's World \<Rightarrow> 's World" where
  "set_ignore K now k v ttl w = snd (liftkv (kv_set K now k v ttl) w)"

definition del_ignore :: "'s KvStore \<Rightarrow> nat \<Rightarrow> string \<Rightarrow> 's World \<Rightarrow> 's World" where
  "del_ignore K now k w = snd (liftkv (kv_del K now k) w)"

section \<open>SessionStore\<close>

definition create_session :: "'s KvStore \<Rightarrow> nat \<Rightarrow> string \<Rightarrow> string \<Rightarrow> ('s World, StatusCode, string) eff" where
  "create_session K now token user_id =
     bindE (readdb (\<lambda>db. fetch_sess_epoch db user_id)) (\<lambda>epoch.
     bindE (map_errE (\<lambda>_. INTERNAL_SERVER_ERROR)
              (liftkv (kv_set K now (sess_key epoch token) user_id (Some SESSION_TTL_SECS)))) (\<lambda>_.
     bindE (map_errE (\<lambda>_. INTERNAL_SERVER_ERROR)
              (liftkv (kv_set K now (tok_key token) user_id (Some SESSION_TTL_SECS)))) (\<lambda>_.
     bindE (map_errE (\<lambda>_. INTERNAL_SERVER_ERROR)
              (liftkv (kv_set K now (refresh_key token) user_id (Some (SESSION_TTL_SECS div 2))))) (\<lambda>_.
     okE token))))"

definition create_pending_session ::
  "'s KvStore \<Rightarrow> nat \<Rightarrow> string \<Rightarrow> string \<Rightarrow> ('s World, StatusCode, string) eff" where
  "create_pending_session K now token user_id =
     bindE (map_errE (\<lambda>_. INTERNAL_SERVER_ERROR)
              (liftkv (kv_set K now (pending_key token) user_id (Some PENDING_TTL_SECS)))) (\<lambda>_.
     okE token)"

definition get_session :: "'s KvStore \<Rightarrow> nat \<Rightarrow> string \<Rightarrow> 's World \<Rightarrow> string option \<times> 's World" where
  "get_session K now token w =
     (case get_flat K now (tok_key token) w of
        (None, w1) \<Rightarrow> (None, w1)
      | (Some user_id, w1) \<Rightarrow>
         (case fetch_sess_epoch (w_db w1) user_id of
            Inl _ \<Rightarrow> (None, w1)
          | Inr epoch \<Rightarrow>
             (case get_flat K now (sess_key epoch token) w1 of
                (None, w2) \<Rightarrow> (None, w2)
              | (Some stored, w2) \<Rightarrow>
                  if stored \<noteq> user_id then (None, w2)
                  else (case get_flat K now (refresh_key token) w2 of
                          (Some _, w3) \<Rightarrow> (Some user_id, w3)
                        | (None, w3) \<Rightarrow>
                            (Some user_id,
                             set_ignore K now (refresh_key token) user_id (Some (SESSION_TTL_SECS div 2))
                              (set_ignore K now (sess_key epoch token) user_id (Some SESSION_TTL_SECS)
                                (set_ignore K now (tok_key token) user_id (Some SESSION_TTL_SECS) w3)))))))"

definition get_pending_session :: "'s KvStore \<Rightarrow> nat \<Rightarrow> string \<Rightarrow> 's World \<Rightarrow> string option \<times> 's World" where
  "get_pending_session K now token = get_flat K now (pending_key token)"

definition promote_pending_session ::
  "'s KvStore \<Rightarrow> nat \<Rightarrow> string \<Rightarrow> string \<Rightarrow> ('s World, StatusCode, string option) eff" where
  "promote_pending_session K now pending_token new_token w =
     (case get_pending_session K now pending_token w of
        (None, w1) \<Rightarrow> (Inr None, w1)
      | (Some user_id, w1) \<Rightarrow>
          bindE (map_errE (\<lambda>_. INTERNAL_SERVER_ERROR)
                   (liftkv (kv_del K now (pending_key pending_token)))) (\<lambda>_.
          bindE (create_session K now new_token user_id) (\<lambda>token.
          okE (Some token))) w1)"

definition remove_session :: "'s KvStore \<Rightarrow> nat \<Rightarrow> string \<Rightarrow> 's World \<Rightarrow> 's World" where
  "remove_session K now token w =
     (let (ou, w1) = get_flat K now (tok_key token) w;
          w2 = (case ou of
                  None \<Rightarrow> w1
                | Some user_id \<Rightarrow>
                   (case fetch_sess_epoch (w_db w1) user_id of
                      Inl _ \<Rightarrow> w1
                    | Inr epoch \<Rightarrow> del_ignore K now (sess_key epoch token) w1))
      in del_ignore K now (refresh_key token) (del_ignore K now (tok_key token) w2))"

definition invalidate_user_sessions :: "'s KvStore \<Rightarrow> nat \<Rightarrow> string \<Rightarrow> ('s World, StatusCode, unit) eff" where
  "invalidate_user_sessions K now user_id =
     bindE (readdb (\<lambda>db. fetch_sess_epoch db user_id)) (\<lambda>old_epoch.
     bindE (liftdb (bump_sess_epoch user_id)) (\<lambda>_.
     map_errE (\<lambda>_. INTERNAL_SERVER_ERROR)
       (liftkv (kv_del_prefix K now (sess_prefix old_epoch)))))"

section \<open>Behaviour over any reliable store\<close>

text \<open>Who a token belongs to, read off the values shown by the store and the user table.\<close>

definition session_user :: "(string \<Rightarrow> string option) \<Rightarrow> Db \<Rightarrow> string \<Rightarrow> string option" where
  "session_user shown db token =
     (case shown (tok_key token) of
        None \<Rightarrow> None
      | Some u \<Rightarrow>
         (case fetch_sess_epoch db u of
            Inl _ \<Rightarrow> None
          | Inr e \<Rightarrow> if shown (sess_key e token) = Some u then Some u else None))"

lemma w_db_set_ignore [simp]: "w_db (set_ignore K now k v ttl w) = w_db w"
  by (simp add: set_ignore_def liftkv_def split: prod.split)

lemma w_db_del_ignore [simp]: "w_db (del_ignore K now k w) = w_db w"
  by (simp add: del_ignore_def liftkv_def split: prod.split)

lemma w_db_get_flat [simp]: "w_db (snd (get_flat K now k w)) = w_db w"
  by (simp add: get_flat_def liftkv_def split: prod.split sum.split)

lemma w_db_get_flat': "get_flat K now k w = (v, w') \<Longrightarrow> w_db w' = w_db w"
  using w_db_get_flat [of K now k w] by simp

lemma w_db_get_session [simp]: "w_db (snd (get_session K now token w)) = w_db w"
  by (auto simp: get_session_def split: prod.splits option.splits sum.splits dest!: w_db_get_flat')

text \<open>What a lookup changes: nothing, unless it succeeds while the throttle marker is gone; then the
  three keys of the token start a new window.\<close>

definition renewed :: "nat \<Rightarrow> string \<Rightarrow> string \<Rightarrow> int \<Rightarrow> nat \<Rightarrow> (string \<Rightarrow> string option) \<Rightarrow> string \<Rightarrow> string option" where
  "renewed now token u e t shown = shown
     (tok_key token := if within_ttl (Some SESSION_TTL_SECS) now t then Some u else None,
      sess_key e token := if within_ttl (Some SESSION_TTL_SECS) now t then Some u else None,
      refresh_key token := if within_ttl (Some (SESSION_TTL_SECS div 2)) now t then Some u else None)"

context kv_reliable
begin

lemma liftkv_set:
  obtains w' where "liftkv (kv_set K now k v ttl) w = (Inr (), w')" and "w_db w' = w_db w"
    and "\<And>t. now \<le> t \<Longrightarrow>
      view t (w_kv w') = (view t (w_kv w))(k := if within_ttl ttl now t then Some v else None)"
proof -
  obtain s' where s': "kv_set K now k v ttl (w_kv w) = (Inr (), s')"
    using set_ok by blast
  show ?thesis
    by (rule that [of "w\<lparr>w_kv := s'\<rparr>"]) (use s' set_view [OF s'] in \<open>simp_all add: liftkv_def\<close>)
qed

lemma liftkv_del:
  obtains w' where "liftkv (kv_del K now k) w = (Inr (), w')" and "w_db w' = w_db w"
    and "\<And>t. now \<le> t \<Longrightarrow> view t (w_kv w') = (view t (w_kv w))(k := None)"
proof -
  obtain s' where s': "kv_del K now k (w_kv w) = (Inr (), s')"
    using del_ok by blast
  show ?thesis
    by (rule that [of "w\<lparr>w_kv := s'\<rparr>"]) (use s' del_view [OF s'] in \<open>simp_all add: liftkv_def\<close>)
qed

lemma get_flat_fst [simp]: "fst (get_flat K now k w) = view now (w_kv w) k"
proof -
  obtain v s' where g: "kv_get K now k (w_kv w) = (Inr v, s')"
    using get_ok by blast
  from get_result [OF g] g show ?thesis
    by (simp add: get_flat_def liftkv_def)
qed

lemma get_flat_view [simp]:
  assumes "now \<le> t"
  shows "view t (w_kv (snd (get_flat K now k w))) = view t (w_kv w)"
proof -
  obtain v s' where g: "kv_get K now k (w_kv w) = (Inr v, s')"
    using get_ok by blast
  from get_frame [OF g assms] g show ?thesis
    by (simp add: get_flat_def liftkv_def)
qed

lemma case_get_flat [simp]:
  "(case get_flat K now k w of (a, b) \<Rightarrow> f a b) = f (view now (w_kv w) k) (snd (get_flat K now k w))"
  by (simp add: split_beta)

lemma set_ignore_view [simp]:
  "now \<le> t \<Longrightarrow> view t (w_kv (set_ignore K now k v ttl w)) =
     (view t (w_kv w))(k := if within_ttl ttl now t then Some v else None)"
  by (rule liftkv_set [of now k v ttl w]) (simp add: set_ignore_def)

lemma del_ignore_view [simp]:
  "now \<le> t \<Longrightarrow> view t (w_kv (del_ignore K now k w)) = (view t (w_kv w))(k := None)"
  by (rule liftkv_del [of now k w]) (simp add: del_ignore_def)

lemma get_session_fst [simp]:
  "fst (get_session K now token w) = session_user (view now (w_kv w)) (w_db w) token"
  by (simp add: get_session_def session_user_def split: option.split sum.split)

lemma get_session_view:
  assumes "now \<le> t"
  shows "view t (w_kv (snd (get_session K now token w))) =
    (case session_user (view now (w_kv w)) (w_db w) token of
       None \<Rightarrow> view t (w_kv w)
     | Some u \<Rightarrow>
        (case fetch_sess_epoch (w_db w) u of
           Inl _ \<Rightarrow> view t (w_kv w)
         | Inr e \<Rightarrow>
            if view now (w_kv w) (refresh_key token) = None
            then renewed now token u e t (view t (w_kv w)) else view t (w_kv w)))"
  using assms
  by (simp add: get_session_def session_user_def renewed_def split: option.split sum.split)

lemma create_session_view:
  assumes "create_session K now token u w = (Inr tk, w')"
  obtains e where "fetch_sess_epoch (w_db w) u = Inr e" and "tk = token" and "w_db w' = w_db w"
    and "\<And>t. now \<le> t \<Longrightarrow> view t (w_kv w') = renewed now token u e t (view t (w_kv w))"
proof -
  from assms obtain e where e: "fetch_sess_epoch (w_db w) u = Inr e"
    by (auto simp: create_session_def readdb_def elim!: bindE_InrE)
  obtain w1 where w1: "liftkv (kv_set K now (sess_key e token) u (Some SESSION_TTL_SECS)) w = (Inr (), w1)"
      "w_db w1 = w_db w" and v1: "\<And>t. now \<le> t \<Longrightarrow> view t (w_kv w1) =
        (view t (w_kv w))(sess_key e token := if within_ttl (Some SESSION_TTL_SECS) now t then Some u else None)"
    using liftkv_set by blast
  obtain w2 where w2: "liftkv (kv_set K now (tok_key token) u (Some SESSION_TTL_SECS)) w1 = (Inr (), w2)"
      "w_db w2 = w_db w1" and v2: "\<And>t. now \<le> t \<Longrightarrow> view t (w_kv w2) =
        (view t (w_kv w1))(tok_key token := if within_ttl (Some SESSION_TTL_SECS) now t then Some u else None)"
    using liftkv_set by blast
  obtain w3 where w3: "liftkv (kv_set K now (refresh_key token) u (Some (SESSION_TTL_SECS div 2))) w2 = (Inr (), w3)"
      "w_db w3 = w_db w2" and v3: "\<And>t. now \<le> t \<Longrightarrow> view t (w_kv w3) =
        (view t (w_kv w2))(refresh_key token :=
           if within_ttl (Some (SESSION_TTL_SECS div 2)) now t then Some u else None)"
    using liftkv_set by blast
  have "create_session K now token u w = (Inr token, w3)"
    using e w1(1) w2(1) w3(1) by (simp add: create_session_def readdb_def bindE_def map_errE_def)
  with assms have eq: "tk = token" "w' = w3"
    by auto
  have "view t (w_kv w') = renewed now token u e t (view t (w_kv w))" if "now \<le> t" for t
    using that v1 v2 v3 by (simp add: eq renewed_def fun_upd_twist)
  with e eq w1(2) w2(2) w3(2) show ?thesis
    by (intro that) simp_all
qed

lemma create_session_error:
  assumes "create_session K now token u w = (Inl err, w')"
  shows "w' = w"
proof (cases "fetch_sess_epoch (w_db w) u")
  case (Inl err)
  with assms show ?thesis by (simp add: create_session_def readdb_def bindE_def)
next
  case (Inr e)
  obtain w1 where "liftkv (kv_set K now (sess_key e token) u (Some SESSION_TTL_SECS)) w = (Inr (), w1)"
    using liftkv_set by blast
  moreover obtain w2 where "liftkv (kv_set K now (tok_key token) u (Some SESSION_TTL_SECS)) w1 = (Inr (), w2)"
    using liftkv_set by blast
  moreover obtain w3 where
    "liftkv (kv_set K now (refresh_key token) u (Some (SESSION_TTL_SECS div 2))) w2 = (Inr (), w3)"
    using liftkv_set by blast
  ultimately show ?thesis
    using assms Inr by (simp add: create_session_def readdb_def bindE_def map_errE_def)
qed

end

section \<open>Lifetime of a session\<close>

text \<open>A token whose window was last opened at \<open>r\<close>, as seen from the instant \<open>a\<close> on.\<close>

definition session_window ::
  "(nat \<Rightarrow> string \<Rightarrow> string option) \<Rightarrow> Db \<Rightarrow> string \<Rightarrow> string \<Rightarrow> nat \<Rightarrow> nat \<Rightarrow> bool" where
  "session_window shown db token u r a \<longleftrightarrow>
     (\<exists>e. fetch_sess_epoch db u = Inr e \<and>
        (\<forall>t\<ge>a. shown t (tok_key token) = (if t < r + secs SESSION_TTL_SECS then Some u else None) \<and>
              shown t (sess_key e token) = (if t < r + secs SESSION_TTL_SECS then Some u else None) \<and>
              shown t (refresh_key token) =
                (if t < r + secs (SESSION_TTL_SECS div 2) then Some u else None)))"

fun access_all :: "'s KvStore \<Rightarrow> string \<Rightarrow> nat list \<Rightarrow> 's World \<Rightarrow> string option list \<times> 's World" where
  "access_all K token [] w = ([], w)"
| "access_all K token (t # ts) w =
     (let (u, w1) = get_session K t token w; (us, w2) = access_all K token ts w1 in (u # us, w2))"

fun gaps_within :: "nat \<Rightarrow> nat \<Rightarrow> nat list \<Rightarrow> bool" where
  "gaps_within d a [] = True"
| "gaps_within d a (t # ts) = (a \<le> t \<and> t \<le> a + d \<and> gaps_within d t ts)"

lemma half_window: "2 * secs (SESSION_TTL_SECS div 2) = secs SESSION_TTL_SECS"
  by (simp add: secs_def SESSION_TTL_SECS_def)

lemma session_window_user:
  assumes "session_window shown db token u r a" and "a \<le> now"
  shows "session_user (shown now) db token = (if now < r + secs SESSION_TTL_SECS then Some u else None)"
  using assms by (auto simp: session_window_def session_user_def)

context kv_reliable
begin

lemma create_session_window:
  assumes "create_session K now token u w = (Inr tk, w')"
  shows "session_window (\<lambda>t. view t (w_kv w')) (w_db w') tk u now now"
  using assms
  by (rule create_session_view) (auto simp: session_window_def renewed_def within_ttl_def)

lemma get_session_window:
  assumes win: "session_window (\<lambda>t. view t (w_kv w)) (w_db w) token u r a"
    and "a \<le> now" and live: "now < r + secs SESSION_TTL_SECS" and "r \<le> now"
    and get: "get_session K now token w = (res, w')"
  shows "res = Some u \<and> (\<exists>r'. r' \<le> now \<and> now < r' + secs (SESSION_TTL_SECS div 2) \<and>
    session_window (\<lambda>t. view t (w_kv w')) (w_db w') token u r' now)"
proof -
  from win obtain e where e: "fetch_sess_epoch (w_db w) u = Inr e"
    by (auto simp: session_window_def)
  have su: "session_user (view now (w_kv w)) (w_db w) token = Some u"
    using session_window_user [OF win \<open>a \<le> now\<close>] live by simp
  have res: "res = Some u"
    using get get_session_fst [of now token w] su by simp
  have db: "w_db w' = w_db w"
    using get w_db_get_session [of K now token w] by simp
  have vw: "view t (w_kv w') =
      (if view now (w_kv w) (refresh_key token) = None then renewed now token u e t (view t (w_kv w))
       else view t (w_kv w))" if "now \<le> t" for t
    using get_session_view [OF that, of token w] get su e by simp
  have marker: "view now (w_kv w) (refresh_key token) =
      (if now < r + secs (SESSION_TTL_SECS div 2) then Some u else None)"
    using win \<open>a \<le> now\<close> by (auto simp: session_window_def)
  show ?thesis
  proof (cases "now < r + secs (SESSION_TTL_SECS div 2)")
    case True
    with vw marker have "view t (w_kv w') = view t (w_kv w)" if "now \<le> t" for t
      using that by simp
    then have "session_window (\<lambda>t. view t (w_kv w')) (w_db w') token u r now"
      using win db \<open>a \<le> now\<close> by (auto simp: session_window_def)
    with True res \<open>r \<le> now\<close> show ?thesis by blast
  next
    case False
    with vw marker have "view t (w_kv w') = renewed now token u e t (view t (w_kv w))" if "now \<le> t" for t
      using that by simp
    then have "session_window (\<lambda>t. view t (w_kv w')) (w_db w') token u now now"
      using e db by (auto simp: session_window_def renewed_def within_ttl_def)
    moreover have "0 < secs (SESSION_TTL_SECS div 2)"
      by (simp add: secs_def SESSION_TTL_SECS_def)
    ultimately show ?thesis using res by (intro conjI exI [of _ now]) simp_all
  qed
qed

lemma access_all_active:
  assumes "session_window (\<lambda>t. view t (w_kv w)) (w_db w) token u r a"
    and "r \<le> a" and "a < r + secs (SESSION_TTL_SECS div 2)"
    and "gaps_within (secs (SESSION_TTL_SECS div 2)) a ts"
  shows "\<exists>w' r'. access_all K token ts w = (replicate (length ts) (Some u), w') \<and>
    r' \<le> last (a # ts) \<and>
    session_window (\<lambda>t. view t (w_kv w')) (w_db w') token u r' (last (a # ts))"
  using assms
proof (induction ts arbitrary: w a r)
  case Nil
  then show ?case by auto
next
  case (Cons t ts)
  obtain res w1 where get: "get_session K t token w = (res, w1)"
    by fastforce
  have "t < r + secs SESSION_TTL_SECS"
    using Cons.prems half_window by auto
  with get_session_window [OF Cons.prems(1) _ _ _ get] Cons.prems obtain r1 where
    r1: "res = Some u" "r1 \<le> t" "t < r1 + secs (SESSION_TTL_SECS div 2)"
      "session_window (\<lambda>t. view t (w_kv w1)) (w_db w1) token u r1 t"
    by auto
  from Cons.IH [OF r1(4) r1(2) r1(3)] Cons.prems(4) obtain w2 r2 where
    "access_all K token ts w1 = (replicate (length ts) (Some u), w2)"
    "r2 \<le> last (t # ts)" "session_window (\<lambda>t. view t (w_kv w2)) (w_db w2) token u r2 (last (t # ts))"
    by auto
  with get r1(1) show ?case by auto
qed

lemma active_session:
  assumes "create_session K t0 token u w = (Inr tk, w0)"
    and "gaps_within (secs (SESSION_TTL_SECS div 2)) t0 ts"
  obtains w' r' where "access_all K tk ts w0 = (replicate (length ts) (Some u), w')"
    and "r' \<le> last (t0 # ts)"
    and "session_window (\<lambda>t. view t (w_kv w')) (w_db w') tk u r' (last (t0 # ts))"
proof -
  have "t0 < t0 + secs (SESSION_TTL_SECS div 2)"
    by (simp add: secs_def SESSION_TTL_SECS_def)
  with access_all_active [OF create_session_window [OF assms(1)] order_refl _ assms(2)] that
  show ?thesis by blast
qed

lemma abandoned_session:
  assumes "create_session K t0 token u w = (Inr tk, w0)"
    and "gaps_within (secs (SESSION_TTL_SECS div 2)) t0 ts"
    and "last (t0 # ts) + secs SESSION_TTL_SECS \<le> t"
  shows "fst (get_session K t tk (snd (access_all K tk ts w0))) = None"
proof -
  obtain w' r' where a: "access_all K tk ts w0 = (replicate (length ts) (Some u), w')"
    and r': "r' \<le> last (t0 # ts)"
    and win: "session_window (\<lambda>t. view t (w_kv w')) (w_db w') tk u r' (last (t0 # ts))"
    using active_session [OF assms(1,2)] by blast
  from assms(3) r' have "last (t0 # ts) \<le> t" "\<not> t < r' + secs SESSION_TTL_SECS"
    by auto
  with session_window_user [OF win] a show ?thesis by simp
qed

end

section \<open>Invalidation\<close>

text \<open>
  The steps that touch session keys or epochs, in any order and number, with time passing in
  between. Other parts of the program write kv keys outside the session namespace, delete any key,
  and change user rows without touching the epoch.
\<close>

inductive sess_step :: "'s KvStore \<Rightarrow> nat \<times> 's World \<Rightarrow> nat \<times> 's World \<Rightarrow> bool" for K where
  tick: "now \<le> now' \<Longrightarrow> sess_step K (now, w) (now', w)"
| create: "create_session K now token u w = (res, w') \<Longrightarrow> sess_step K (now, w) (now, w')"
| pending: "create_pending_session K now token u w = (res, w') \<Longrightarrow> sess_step K (now, w) (now, w')"
| lookup: "get_session K now token w = (ou, w') \<Longrightarrow> sess_step K (now, w) (now, w')"
| lookup_pending: "get_pending_session K now token w = (ou, w') \<Longrightarrow> sess_step K (now, w) (now, w')"
| promote: "promote_pending_session K now ptoken token w = (resp, w') \<Longrightarrow> sess_step K (now, w) (now, w')"
| logout: "sess_step K (now, w) (now, remove_session K now token w)"
| invalidate: "invalidate_user_sessions K now u w = (resi, w') \<Longrightarrow> sess_step K (now, w) (now, w')"
| other_set: "\<not> starts_with k ''sess:'' \<Longrightarrow> liftkv (kv_set K now k v ttl) w = (rset, w') \<Longrightarrow>
    sess_step K (now, w) (now, w')"
| other_del: "sess_step K (now, w) (now, del_ignore K now k w)"
| other_db: "user_epoch db' = user_epoch (w_db w) \<Longrightarrow> sess_step K (now, w) (now, w\<lparr>w_db := db'\<rparr>)"

inductive sess_reach :: "'s KvStore \<Rightarrow> 's \<Rightarrow> nat \<times> 's World \<Rightarrow> bool" for K s0 where
  start: "sess_reach K s0 (now, \<lparr>w_kv = s0, w_db = db\<rparr>)"
| step: "sess_reach K s0 x \<Longrightarrow> sess_step K x y \<Longrightarrow> sess_reach K s0 y"

text \<open>The invariant: no session key that can still be shown carries an epoch above the current
  epoch of the user it names.\<close>

definition epochs_bounded :: "(nat \<Rightarrow> 's \<Rightarrow> string \<Rightarrow> string option) \<Rightarrow> nat \<times> 's World \<Rightarrow> bool" where
  "epochs_bounded view x \<longleftrightarrow>
     (\<forall>t e token u. fst x \<le> t \<longrightarrow> view t (w_kv (snd x)) (sess_key e token) = Some u \<longrightarrow>
        (\<exists>e'. user_epoch (w_db (snd x)) u = Some e' \<and> e \<le> e'))"

lemma epochs_boundedD:
  assumes "epochs_bounded view (now, w)" and "now \<le> t"
    and "view t (w_kv w) (sess_key e token) = Some u"
  obtains e' where "user_epoch (w_db w) u = Some e'" and "e \<le> e'"
  using assms unfolding epochs_bounded_def fst_conv snd_conv by blast

lemma epochs_boundedI:
  assumes "epochs_bounded view (now, w)"
    and "\<And>t e token u. now' \<le> t \<Longrightarrow> view t (w_kv w') (sess_key e token) = Some u \<Longrightarrow>
      now \<le> t \<and> (view t (w_kv w) (sess_key e token) = Some u \<or> user_epoch (w_db w) u = Some e)"
    and "\<And>u e. user_epoch (w_db w) u = Some e \<Longrightarrow> \<exists>e'. user_epoch (w_db w') u = Some e' \<and> e \<le> e'"
  shows "epochs_bounded view (now', w')"
  unfolding epochs_bounded_def fst_conv snd_conv
proof (intro allI impI)
  fix t e token u
  assume "now' \<le> t" and "view t (w_kv w') (sess_key e token) = Some u"
  with assms(2) have "now \<le> t"
    and or: "view t (w_kv w) (sess_key e token) = Some u \<or> user_epoch (w_db w) u = Some e"
    by blast+
  from or obtain e1 where "user_epoch (w_db w) u = Some e1" "e \<le> e1"
    using epochs_boundedD [OF assms(1) \<open>now \<le> t\<close>] by (metis order_refl)
  with assms(3) show "\<exists>e'. user_epoch (w_db w') u = Some e' \<and> e \<le> e'"
    by (meson order_trans)
qed

context kv_reliable
begin

lemma create_session_bounded:
  assumes "epochs_bounded view (now, w)" and "create_session K now token u w = (res, w')"
  shows "epochs_bounded view (now, w')"
proof (cases res)
  case (Inl err)
  with assms show ?thesis using create_session_error by blast
next
  case (Inr tk)
  with assms(2) have "create_session K now token u w = (Inr tk, w')"
    by simp
  then obtain e where e: "fetch_sess_epoch (w_db w) u = Inr e" and db: "w_db w' = w_db w"
    and v: "\<And>t. now \<le> t \<Longrightarrow> view t (w_kv w') = renewed now token u e t (view t (w_kv w))"
    by (rule create_session_view) blast
  show ?thesis
    using e db by (intro epochs_boundedI [OF assms(1)])
      (auto simp: v renewed_def fetch_sess_epoch_Inr split: if_splits)
qed

lemma get_session_bounded:
  assumes "epochs_bounded view (now, w)" and "get_session K now token w = (ou, w')"
  shows "epochs_bounded view (now, w')"
proof -
  have db: "w_db w' = w_db w"
    using assms(2) w_db_get_session [of K now token w] by simp
  have v: "view t (w_kv w') = view t (w_kv (snd (get_session K now token w)))" for t
    using assms(2) by simp
  show ?thesis
    using db
    by (intro epochs_boundedI [OF assms(1)])
      (auto simp: v get_session_view renewed_def fetch_sess_epoch_Inr
        split: option.splits sum.splits if_splits)
qed

text \<open>Steps that only hide session keys, or write keys of another kind, keep the invariant.\<close>

lemma bounded_frame:
  assumes "epochs_bounded view (now, w)" and "w_db w' = w_db w"
    and "\<And>t e token. now \<le> t \<Longrightarrow> view t (w_kv w') (sess_key e token) = view t (w_kv w) (sess_key e token)
           \<or> view t (w_kv w') (sess_key e token) = None"
  shows "epochs_bounded view (now, w')"
  using assms(2,3) by (intro epochs_boundedI [OF assms(1)]) (simp_all, metis option.distinct(1))

lemma get_flat_bounded:
  assumes "epochs_bounded view (now, w)" and "get_flat K now k w = (ou, w')"
  shows "epochs_bounded view (now, w')"
proof -
  have "w' = snd (get_flat K now k w)"
    using assms(2) by simp
  then show ?thesis
    by (intro bounded_frame [OF assms(1)]) simp_all
qed

lemma del_ignore_bounded:
  "epochs_bounded view (now, w) \<Longrightarrow> epochs_bounded view (now, del_ignore K now k w)"
  by (rule bounded_frame) auto

lemma set_other_bounded:
  assumes "epochs_bounded view (now, w)" and "\<not> starts_with k ''sess:''"
    and "liftkv (kv_set K now k v ttl) w = (res, w')"
  shows "epochs_bounded view (now, w')"
proof -
  have ne: "sess_key e token \<noteq> k" for e token
    using assms(2) by (auto simp: sess_key_def)
  show ?thesis
    by (rule liftkv_set [of now k v ttl w])
      (use assms(3) ne in \<open>intro bounded_frame [OF assms(1)], simp_all\<close>)
qed

lemma promote_bounded:
  assumes "epochs_bounded view (now, w)"
    and "promote_pending_session K now ptoken token w = (res, w')"
  shows "epochs_bounded view (now, w')"
proof -
  obtain ou w1 where g: "get_flat K now (pending_key ptoken) w = (ou, w1)"
    by fastforce
  have b1: "epochs_bounded view (now, w1)"
    using get_flat_bounded [OF assms(1) g] .
  obtain w2 where d: "liftkv (kv_del K now (pending_key ptoken)) w1 = (Inr (), w2)"
      "w_db w2 = w_db w1" "\<And>t. now \<le> t \<Longrightarrow> view t (w_kv w2) = (view t (w_kv w1))(pending_key ptoken := None)"
    using liftkv_del by blast
  have b2: "epochs_bounded view (now, w2)"
    using d by (intro bounded_frame [OF b1]) simp_all
  show ?thesis
  proof (cases ou)
    case None
    with g assms(2) b1 show ?thesis
      by (simp add: promote_pending_session_def get_pending_session_def del: case_get_flat)
  next
    case (Some u)
    obtain res2 w3 where c: "create_session K now token u w2 = (res2, w3)"
      by fastforce
    have "w' = w3"
      using g d c Some assms(2)
      by (auto simp: promote_pending_session_def get_pending_session_def bindE_def map_errE_def
          simp del: case_get_flat split: sum.splits)
    with create_session_bounded [OF b2 c] show ?thesis by simp
  qed
qed

lemma invalidate_result:
  assumes "invalidate_user_sessions K now u w = (res, w')" and "fetch_sess_epoch (w_db w) u = Inr e"
  obtains "res = Inr ()" and "bump_sess_epoch u (w_db w) = (Inr (), w_db w')"
    and "\<And>t k. now \<le> t \<Longrightarrow> view t (w_kv w') k =
      (if starts_with k (sess_prefix e) then None else view t (w_kv w) k)"
proof -
  have nf: "\<not> db_fault (w_db w)" and "user_epoch (w_db w) u = Some e"
    using assms(2) by (simp_all add: fetch_sess_epoch_Inr)
  then obtain i where "id_bind_value (w_db w) u = Some i"
    by (auto simp: user_epoch_def split: option.splits)
  with nf obtain db' where db': "bump_sess_epoch u (w_db w) = (Inr (), db')"
    by (auto simp: bump_sess_epoch_def update_user_def)
  obtain s' where s': "kv_del_prefix K now (sess_prefix e) (w_kv w) = (Inr (), s')"
    using del_prefix_ok by blast
  have "invalidate_user_sessions K now u w = (Inr (), \<lparr>w_kv = s', w_db = db'\<rparr>)"
    using assms(2) db' s'
    by (simp add: invalidate_user_sessions_def bindE_def map_errE_def readdb_def liftdb_def liftkv_def)
  with assms(1) have eq: "res = Inr ()" "w' = \<lparr>w_kv = s', w_db = db'\<rparr>"
    by auto
  show ?thesis
    by (rule that) (simp_all add: eq db' del_prefix_view [OF s'])
qed

lemma invalidate_error:
  assumes "invalidate_user_sessions K now u w = (res, w')" and "fetch_sess_epoch (w_db w) u = Inl err"
  shows "res = Inl err \<and> w' = w"
  using assms by (simp add: invalidate_user_sessions_def bindE_def readdb_def)

lemma invalidate_bounded:
  assumes "epochs_bounded view (now, w)" and "invalidate_user_sessions K now u w = (res, w')"
  shows "epochs_bounded view (now, w')"
proof (cases "fetch_sess_epoch (w_db w) u")
  case (Inl err)
  with assms invalidate_error show ?thesis by blast
next
  case (Inr e)
  obtain "bump_sess_epoch u (w_db w) = (Inr (), w_db w')"
    and "\<And>t k. now \<le> t \<Longrightarrow> view t (w_kv w') k =
      (if starts_with k (sess_prefix e) then None else view t (w_kv w) k)"
    using invalidate_result [OF assms(2) Inr] by blast
  then show ?thesis
    by (intro epochs_boundedI [OF assms(1)])
      (auto simp: user_epoch_bump split: if_splits)
qed

lemma remove_session_bounded:
  "epochs_bounded view (now, w) \<Longrightarrow> epochs_bounded view (now, remove_session K now token w)"
  by (simp add: remove_session_def Let_def del_ignore_bounded get_flat_bounded [of now w _ _ "snd _"]
      split: option.split sum.split)
    (metis del_ignore_bounded get_flat_bounded prod.collapse)

lemma pending_bounded:
  assumes "epochs_bounded view (now, w)" and "create_pending_session K now token u w = (res, w')"
  shows "epochs_bounded view (now, w')"
proof -
  obtain r1 w1 where "liftkv (kv_set K now (pending_key token) u (Some PENDING_TTL_SECS)) w = (r1, w1)"
    by fastforce
  moreover from this assms(2) have "w' = w1"
    by (auto simp: create_pending_session_def bindE_def map_errE_def split: sum.splits)
  ultimately show ?thesis
    using set_other_bounded [OF assms(1), of "pending_key token"] by (simp add: pending_key_def)
qed

lemma sess_step_bounded: "sess_step K x y \<Longrightarrow> epochs_bounded view x \<Longrightarrow> epochs_bounded view y"
proof (induction rule: sess_step.induct)
  case (tick now now' w)
  then show ?case unfolding epochs_bounded_def fst_conv snd_conv by (meson order_trans)
next
  case (other_db db' w now)
  then show ?case by (simp add: epochs_bounded_def)
next
  case (lookup_pending now token w ou w')
  then show ?case using get_flat_bounded unfolding get_pending_session_def by blast
qed (blast intro: create_session_bounded pending_bounded get_session_bounded promote_bounded
    remove_session_bounded invalidate_bounded set_other_bounded del_ignore_bounded)+

lemma sess_reach_bounded:
  assumes "sess_reach K s0 x" and "\<And>t e token. view t s0 (sess_key e token) = None"
  shows "epochs_bounded view x"
  using assms(1)
proof (induction rule: sess_reach.induct)
  case (start now db)
  with assms(2) show ?case by (simp add: epochs_bounded_def)
next
  case (step x y)
  then show ?case using sess_step_bounded by blast
qed

text \<open>After an invalidation no token is accepted for that user any more.\<close>

lemma invalidate_kicks:
  assumes "epochs_bounded view (now, w)" and "invalidate_user_sessions K now u w = (Inr x, w')"
    and "now \<le> t"
  shows "fst (get_session K t token w') \<noteq> Some u"
proof
  assume "fst (get_session K t token w') = Some u"
  then have su: "session_user (view t (w_kv w')) (w_db w') token = Some u"
    by simp
  obtain e where e: "fetch_sess_epoch (w_db w) u = Inr e"
    using invalidate_error [OF assms(2)] by (cases "fetch_sess_epoch (w_db w) u") auto
  obtain "bump_sess_epoch u (w_db w) = (Inr (), w_db w')"
    and v: "\<And>t k. now \<le> t \<Longrightarrow> view t (w_kv w') k =
      (if starts_with k (sess_prefix e) then None else view t (w_kv w) k)"
    using invalidate_result [OF assms(2) e] by blast
  with e have "user_epoch (w_db w') u = Some (e + 1)"
    by (simp add: user_epoch_bump fetch_sess_epoch_Inr)
  with su have "view t (w_kv w') (sess_key (e + 1) token) = Some u"
    by (auto simp: session_user_def fetch_sess_epoch_Inr split: option.splits sum.splits if_splits)
  with v [OF assms(3)] have "view t (w_kv w) (sess_key (e + 1) token) = Some u"
    by (simp split: if_splits)
  then obtain e' where "user_epoch (w_db w) u = Some e'" "e + 1 \<le> e'"
    using epochs_boundedD [OF assms(1,3)] by blast
  with e show False by (simp add: fetch_sess_epoch_Inr)
qed

end

section \<open>Rate limiting\<close>

definition attempts_of :: "string option \<Rightarrow> int" where
  "attempts_of v = (case v of None \<Rightarrow> 0 | Some s \<Rightarrow> (case parse_i64 s of Inr n \<Rightarrow> n | Inl _ \<Rightarrow> 0))"

definition is_rate_limited :: "'s KvStore \<Rightarrow> nat \<Rightarrow> string \<Rightarrow> int \<Rightarrow> ('s World, StatusCode, bool) eff" where
  "is_rate_limited K now key max_attempts =
     bindE (map_errE (\<lambda>_. INTERNAL_SERVER_ERROR) (liftkv (kv_get K now key))) (\<lambda>v.
     okE (max_attempts \<le> attempts_of v))"

definition record_failed_attempt :: "'s KvStore \<Rightarrow> nat \<Rightarrow> string \<Rightarrow> nat \<Rightarrow> ('s World, StatusCode, int) eff" where
  "record_failed_attempt K now key window_secs =
     map_errE (\<lambda>_. INTERNAL_SERVER_ERROR) (liftkv (kv_incr K now key 1 (Some window_secs)))"

definition clear_failed_attempts :: "'s KvStore \<Rightarrow> nat \<Rightarrow> string \<Rightarrow> 's World \<Rightarrow> 's World" where
  "clear_failed_attempts K now key = del_ignore K now key"

definition ensure_not_rate_limited :: "'s KvStore \<Rightarrow> nat \<Rightarrow> string \<Rightarrow> string \<Rightarrow> ('s World, AuthError, unit) eff" where
  "ensure_not_rate_limited K now key op =
     bindE (map_errE (\<lambda>_. InternalErr op) (is_rate_limited K now key RATE_LIMIT_MAX_ATTEMPTS)) (\<lambda>limited.
     if limited then errE TooManyRequests else okE ())"

definition note_failed_attempt :: "'s KvStore \<Rightarrow> nat \<Rightarrow> string \<Rightarrow> string \<Rightarrow> ('s World, AuthError, unit) eff" where
  "note_failed_attempt K now key op =
     bindE (map_errE (\<lambda>_. InternalErr op) (record_failed_attempt K now key RATE_LIMIT_WINDOW_SECS)) (\<lambda>_.
     okE ())"

fun note_all :: "'s KvStore \<Rightarrow> string \<Rightarrow> string \<Rightarrow> nat list \<Rightarrow> ('s World, AuthError, unit) eff" where
  "note_all K key op [] = okE ()"
| "note_all K key op (t # ts) = bindE (note_failed_attempt K t key op) (\<lambda>_. note_all K key op ts)"

text \<open>A counter that has counted \<open>n\<close> failures in the window opened at \<open>t1\<close>, seen from \<open>a\<close> on.\<close>

definition counter_at :: "(nat \<Rightarrow> string \<Rightarrow> string option) \<Rightarrow> string \<Rightarrow> nat \<Rightarrow> nat \<Rightarrow> nat \<Rightarrow> bool" where
  "counter_at shown key n t1 a \<longleftrightarrow>
     (\<forall>t\<ge>a. shown t key =
        (if t < t1 + secs RATE_LIMIT_WINDOW_SECS then Some (show_int (min i64_max (int n))) else None))"

lemma attempts_of_count: "0 \<le> n \<Longrightarrow> n \<le> i64_max \<Longrightarrow> attempts_of (Some (show_int n)) = n"
  by (simp add: attempts_of_def parse_i64_show_int i64_min_def)

lemma parse_count: "parse_i64 (show_int (min i64_max (int n))) = Inr (min i64_max (int n))"
  by (rule parse_i64_show_int) (simp_all add: i64_min_def i64_max_def)

lemma count_saturates: "saturating_add_i64 (min i64_max (int n)) 1 = min i64_max (int (Suc n))"
  by (simp add: saturating_add_i64_def i64_min_def i64_max_def)

context kv_reliable
begin

lemma ensure_not_rate_limited_result:
  "fst (ensure_not_rate_limited K now key op w) =
     (if RATE_LIMIT_MAX_ATTEMPTS \<le> attempts_of (view now (w_kv w) key) then Inl TooManyRequests else Inr ())"
proof -
  obtain v s' where g: "kv_get K now key (w_kv w) = (Inr v, s')"
    using get_ok by blast
  from get_result [OF g] g show ?thesis
    by (simp add: ensure_not_rate_limited_def is_rate_limited_def bindE_def map_errE_def liftkv_def)
qed

lemma ensure_not_rate_limited_frame:
  assumes "ensure_not_rate_limited K now key op w = (res, w')"
  shows "w_db w' = w_db w \<and> (\<forall>t\<ge>now. view t (w_kv w') = view t (w_kv w))"
proof -
  obtain v s' where g: "kv_get K now key (w_kv w) = (Inr v, s')"
    using get_ok by blast
  with assms have "w' = w\<lparr>w_kv := s'\<rparr>"
    by (auto simp: ensure_not_rate_limited_def is_rate_limited_def bindE_def map_errE_def liftkv_def
        split: if_splits)
  with get_frame [OF g] show ?thesis by simp
qed

lemma note_first:
  assumes "view now (w_kv w) key = None"
  obtains w' where "note_failed_attempt K now key op w = (Inr (), w')" and "w_db w' = w_db w"
    and "counter_at (\<lambda>t. view t (w_kv w')) key 1 now now"
proof -
  obtain n s' where i: "kv_incr K now key 1 (Some RATE_LIMIT_WINDOW_SECS) (w_kv w) = (Inr n, s')"
    using incr_ok [of now "w_kv w" key 1 "Some RATE_LIMIT_WINDOW_SECS"] assms by auto
  have "view t s' key = (if t < now + secs RATE_LIMIT_WINDOW_SECS then Some (show_int 1) else None)"
    if "now \<le> t" for t
    using incr_fresh [OF i assms that] by (simp add: within_ttl_def)
  then have "counter_at (\<lambda>t. view t s') key 1 now now"
    by (simp add: counter_at_def i64_max_def)
  with i show ?thesis
    by (intro that [of "w\<lparr>w_kv := s'\<rparr>"])
      (simp_all add: note_failed_attempt_def record_failed_attempt_def bindE_def map_errE_def liftkv_def)
qed

lemma note_next:
  assumes "counter_at (\<lambda>t. view t (w_kv w)) key n t1 a" and "a \<le> now"
    and "now < t1 + secs RATE_LIMIT_WINDOW_SECS"
  obtains w' where "note_failed_attempt K now key op w = (Inr (), w')" and "w_db w' = w_db w"
    and "counter_at (\<lambda>t. view t (w_kv w')) key (Suc n) t1 now"
proof -
  have old: "view now (w_kv w) key = Some (show_int (min i64_max (int n)))"
    using assms by (simp add: counter_at_def)
  obtain m s' where i: "kv_incr K now key 1 (Some RATE_LIMIT_WINDOW_SECS) (w_kv w) = (Inr m, s')"
    using incr_ok [of now "w_kv w" key 1 "Some RATE_LIMIT_WINDOW_SECS"] old parse_count by auto
  have "view t s' key = map_option (\<lambda>_. show_int (min i64_max (int (Suc n)))) (view t (w_kv w) key)"
    if "now \<le> t" for t
    using incr_existing [OF i old that] parse_count [of n] count_saturates [of n] by auto
  then have "counter_at (\<lambda>t. view t s') key (Suc n) t1 now"
    using assms(1,2) by (auto simp: counter_at_def)
  with i show ?thesis
    by (intro that [of "w\<lparr>w_kv := s'\<rparr>"])
      (simp_all add: note_failed_attempt_def record_failed_attempt_def bindE_def map_errE_def liftkv_def)
qed

lemma note_all_counter:
  assumes "counter_at (\<lambda>t. view t (w_kv w)) key n t1 a" and "sorted (a # ts)"
    and "\<forall>t\<in>set ts. t < t1 + secs RATE_LIMIT_WINDOW_SECS"
  shows "\<exists>w'. note_all K key op ts w = (Inr (), w') \<and>
    counter_at (\<lambda>t. view t (w_kv w')) key (n + length ts) t1 (last (a # ts))"
  using assms
proof (induction ts arbitrary: w n a)
  case (Cons t ts)
  have "a \<le> t" "t < t1 + secs RATE_LIMIT_WINDOW_SECS"
    using Cons.prems(2,3) by auto
  then obtain w1 where w1: "note_failed_attempt K t key op w = (Inr (), w1)"
    "counter_at (\<lambda>t. view t (w_kv w1)) key (Suc n) t1 t"
    using note_next [OF Cons.prems(1)] by blast
  from Cons.IH [OF w1(2)] Cons.prems(2,3) obtain w' where
    "note_all K key op ts w1 = (Inr (), w')"
    "counter_at (\<lambda>t. view t (w_kv w')) key (Suc n + length ts) t1 (last (t # ts))"
    by auto
  with w1(1) show ?case by (simp add: bindE_def)
qed simp

text \<open>The limiter as a whole: failures at \<open>t1 # ts\<close>, all within the window that the first one opens.\<close>

lemma rate_limit_window:
  assumes "view t1 (w_kv w) key = None" and "sorted (t1 # ts)"
    and "\<forall>t\<in>set ts. t < t1 + secs RATE_LIMIT_WINDOW_SECS" and "last (t1 # ts) \<le> t"
  shows "\<exists>w'. note_all K key op (t1 # ts) w = (Inr (), w') \<and>
    fst (ensure_not_rate_limited K t key op w') =
      (if 5 \<le> length (t1 # ts) \<and> t < t1 + secs RATE_LIMIT_WINDOW_SECS
       then Inl TooManyRequests else Inr ())"
proof -
  obtain w1 where w1: "note_failed_attempt K t1 key op w = (Inr (), w1)"
    "counter_at (\<lambda>t. view t (w_kv w1)) key 1 t1 t1"
    using note_first [OF assms(1)] by blast
  from note_all_counter [OF w1(2) assms(2,3)] obtain w' where
    w': "note_all K key op ts w1 = (Inr (), w')"
      "counter_at (\<lambda>t. view t (w_kv w')) key (1 + length ts) t1 (last (t1 # ts))"
    by blast
  have "view t (w_kv w') key = (if t < t1 + secs RATE_LIMIT_WINDOW_SECS
      then Some (show_int (min i64_max (int (1 + length ts)))) else None)"
    using w'(2) assms(4) by (simp add: counter_at_def)
  then have "attempts_of (view t (w_kv w') key) =
      (if t < t1 + secs RATE_LIMIT_WINDOW_SECS then min i64_max (int (1 + length ts)) else 0)"
    using parse_count [of "1 + length ts"] by (simp add: attempts_of_def)
  with w1(1) w'(1) show ?thesis
    by (simp add: ensure_not_rate_limited_result RATE_LIMIT_MAX_ATTEMPTS_def i64_max_def bindE_def)
qed

end

section \<open>Properties\<close>

text \<open>C23: active use never logs out. After \<^verbatim>\<open>create_session\<close>, any sequence of authenticated
  requests in which each comes at most half a session window (15 days) after the one before it, the
  creation included, is accepted as a whole, however long it runs.\<close>

theorem active_session_never_expires:
  assumes "create_session memory_kv t0 token u w = (Inr tk, w0)"
    and "gaps_within (secs (SESSION_TTL_SECS div 2)) t0 ts"
  shows "fst (access_all memory_kv tk ts w0) = replicate (length ts) (Some u)"
  using mem.active_session [OF assms] by (metis fst_conv)

definition demo_world :: "MemoryKv World" where
  "demo_world = \<lparr>w_kv = Map.empty, w_db = demo_db\<rparr>"

lemma demo_create:
  "\<exists>w'. create_session memory_kv t token ''u1'' demo_world = (Inr token, w')"
  by (simp add: create_session_def bindE_def map_errE_def readdb_def liftkv_def mem_set_def
      fetch_sess_epoch_def id_bind_value_def demo_world_def demo_db_def demo_user_def)

theorem active_session_never_expires_witness:
  "\<exists>w'. create_session memory_kv 0 ''tk'' ''u1'' demo_world = (Inr ''tk'', w') \<and>
    fst (access_all memory_kv ''tk'' [secs 1296000, secs 2592000, secs 3888000] w') =
      [Some ''u1'', Some ''u1'', Some ''u1'']"
proof -
  obtain w' where c: "create_session memory_kv 0 ''tk'' ''u1'' demo_world = (Inr ''tk'', w')"
    using demo_create by blast
  have "gaps_within (secs (SESSION_TTL_SECS div 2)) 0 [secs 1296000, secs 2592000, secs 3888000]"
    by (simp add: secs_def SESSION_TTL_SECS_def)
  from active_session_never_expires [OF c this] c show ?thesis by simp
qed

text \<open>An abandoned session dies. After the last accepted request (or the creation, if there was
  none), the token is refused from the end of one full session window (30 days) on.\<close>

theorem abandoned_session_dies:
  assumes "create_session memory_kv t0 token u w = (Inr tk, w0)"
    and "gaps_within (secs (SESSION_TTL_SECS div 2)) t0 ts"
    and "last (t0 # ts) + secs SESSION_TTL_SECS \<le> t"
  shows "fst (get_session memory_kv t tk (snd (access_all memory_kv tk ts w0))) = None"
  using assms by (rule mem.abandoned_session)

theorem abandoned_session_dies_witness:
  "\<exists>w'. create_session memory_kv 0 ''tk'' ''u1'' demo_world = (Inr ''tk'', w') \<and>
    fst (get_session memory_kv (secs 2592007) ''tk'' (snd (access_all memory_kv ''tk'' [secs 7] w'))) = None"
proof -
  obtain w' where c: "create_session memory_kv 0 ''tk'' ''u1'' demo_world = (Inr ''tk'', w')"
    using demo_create by blast
  have "gaps_within (secs (SESSION_TTL_SECS div 2)) 0 [secs 7]"
    and "last [0, secs 7] + secs SESSION_TTL_SECS \<le> secs 2592007"
    by (simp_all add: secs_def SESSION_TTL_SECS_def)
  from abandoned_session_dies [OF c this] c show ?thesis by blast
qed

text \<open>C16: \<^verbatim>\<open>invalidate_user_sessions\<close> kicks every session of the user. In every state reachable
  from an empty store by any interleaving of session operations, other kv writes and user updates,
  once the call has succeeded no token at all, old or future instant, is accepted for that user.\<close>

theorem invalidate_kicks_every_session:
  assumes "sess_reach memory_kv Map.empty (now, w)"
    and "invalidate_user_sessions memory_kv now u w = (Inr x, w')" and "now \<le> t"
  shows "fst (get_session memory_kv t token w') \<noteq> Some u"
proof -
  have "epochs_bounded mem_view (now, w)"
    using assms(1) by (rule mem.sess_reach_bounded) (simp add: mem_view_def)
  then show ?thesis using assms(2,3) by (rule mem.invalidate_kicks)
qed

theorem invalidate_kicks_every_session_witness:
  "\<exists>w w'. sess_reach memory_kv Map.empty (5, w) \<and> fst (get_session memory_kv 5 ''tk'' w) = Some ''u1'' \<and>
    invalidate_user_sessions memory_kv 5 ''u1'' w = (Inr (), w') \<and>
    fst (get_session memory_kv 6 ''tk'' w') \<noteq> Some ''u1''"
proof -
  obtain w where c: "create_session memory_kv 5 ''tk'' ''u1'' demo_world = (Inr ''tk'', w)"
    using demo_create by blast
  have r: "sess_reach memory_kv Map.empty (5, w)"
    by (rule sess_reach.step [OF _ sess_step.create [OF c]])
      (simp add: demo_world_def sess_reach.start)
  have "gaps_within (secs (SESSION_TTL_SECS div 2)) 5 [5]"
    by simp
  then obtain w2 where "access_all memory_kv ''tk'' [5] w = (replicate (length [5::nat]) (Some ''u1''), w2)"
    using mem.active_session [OF c] by blast
  then have g: "fst (get_session memory_kv 5 ''tk'' w) = Some ''u1''"
    by (simp del: mem.get_session_fst split: prod.splits)
  have "w_db w = demo_db"
    using mem.create_session_view [OF c] by (metis World.select_convs(2) demo_world_def)
  then obtain e where e: "fetch_sess_epoch (w_db w) ''u1'' = Inr e"
    by (simp add: fetch_sess_epoch_def id_bind_value_def demo_db_def demo_user_def)
  obtain res w' where i: "invalidate_user_sessions memory_kv 5 ''u1'' w = (res, w')"
    by fastforce
  with mem.invalidate_result [OF i e] have i': "invalidate_user_sessions memory_kv 5 ''u1'' w = (Inr (), w')"
    by auto
  from invalidate_kicks_every_session [OF r i', of 6 "''tk''"] r g i' show ?thesis by auto
qed

text \<open>C26: the failed-attempt limiter is exact. If the counter is not running and failures are
  recorded at \<open>t1 \<le> ... \<close> within the 15-minute window that the first one opens, then a later check
  answers 429 exactly when at least 5 failures were recorded and that window is not over yet: never
  earlier, and never after the window, however many failures there were.\<close>

theorem rate_limit_exact:
  assumes "mem_view t1 (w_kv w) key = None" and "sorted (t1 # ts)"
    and "\<forall>t\<in>set ts. t < t1 + secs RATE_LIMIT_WINDOW_SECS" and "last (t1 # ts) \<le> t"
  shows "\<exists>w'. note_all memory_kv key op (t1 # ts) w = (Inr (), w') \<and>
    fst (ensure_not_rate_limited memory_kv t key op w') =
      (if 5 \<le> length (t1 # ts) \<and> t < t1 + secs RATE_LIMIT_WINDOW_SECS
       then Inl TooManyRequests else Inr ())"
  using assms by (rule mem.rate_limit_window)

theorem rate_limit_exact_witness:
  "\<exists>w'. note_all memory_kv ''rl:login:ann'' ''op'' [0, 1, 2, 3, 4] demo_world = (Inr (), w') \<and>
    fst (ensure_not_rate_limited memory_kv 9 ''rl:login:ann'' ''op'' w') = Inl TooManyRequests"
  using rate_limit_exact [of 0 demo_world "''rl:login:ann''" "[1, 2, 3, 4]" 9 "''op''"]
  by (simp add: demo_world_def mem_view_def secs_def RATE_LIMIT_WINDOW_SECS_def)

end
