(* ===== verification/Lyra_Kernel.thy ===== *)
theory Lyra_Kernel
  imports Lyra_Crypto
begin

text \<open>
  The plugin kernel (\<^verbatim>\<open>kernel/app.rs\<close>, \<^verbatim>\<open>kernel/events.rs\<close>, \<^verbatim>\<open>kernel/plugin.rs\<close>,
  \<^verbatim>\<open>protocol/mod.rs\<close>) and the error types that cross it (\<^verbatim>\<open>sync/types.rs\<close>, \<^verbatim>\<open>smtp.rs\<close>,
  \<^verbatim>\<open>imap.rs\<close>, \<^verbatim>\<open>sync/jmap_client.rs\<close>, \<^verbatim>\<open>api_error.rs\<close>).

  A plugin is a record of its trait methods; what a protocol plugin answers is a function of its
  arguments, chosen freely. The event bus is the list of the events emitted so far. Third-party
  error values are represented by their text.
\<close>

section \<open>Errors\<close>

datatype SmtpError =
    SmtpTransient string | SmtpPermanent string | SmtpTransport string | SmtpMessageBuild string
  | SmtpAddress string | SmtpCrypto CryptoError | SmtpCredential string | SmtpConfigErr string

fun is_retryable :: "SmtpError \<Rightarrow> bool" where
  "is_retryable (SmtpTransient _) = True"
| "is_retryable _ = False"

fun job_category :: "SmtpError \<Rightarrow> string" where
  "job_category (SmtpTransient _) = ''SMTP transient''"
| "job_category (SmtpPermanent _) = ''SMTP permanent''"
| "job_category (SmtpCredential _) = ''SMTP error''"
| "job_category (SmtpConfigErr _) = ''SMTP error''"
| "job_category (SmtpTransport _) = ''SMTP error''"
| "job_category (SmtpMessageBuild _) = ''SMTP error''"
| "job_category (SmtpAddress _) = ''SMTP error''"
| "job_category (SmtpCrypto _) = ''SMTP error''"

text \<open>\<^verbatim>\<open>lettre\<close>'s transport error: its three predicates and its text.\<close>

record LettreError =
  le_transient :: bool
  le_timeout :: bool
  le_permanent :: bool
  le_text :: string

definition classify_transport_error :: "LettreError \<Rightarrow> SmtpError" where
  "classify_transport_error err =
     (if le_transient err \<or> le_timeout err then SmtpTransient (le_text err)
      else if le_permanent err then SmtpPermanent (le_text err)
      else SmtpTransport (le_text err))"

datatype ImapError =
    ImapConnection string | ImapTls string | ImapLogin string | ImapProtocol string | ImapTimeout
  | ImapCrypto CryptoError | ImapImap string

text \<open>\<^verbatim>\<open>jmap_client::Error\<close> with the method and set errors the program tells apart.\<close>

datatype MethodErrorType =
    AccountReadOnly | CannotCalculateChanges | ServerUnavailable | ServerPartialFail | TooManyChanges
  | OtherMethod string

datatype SetErrorType = RateLimit | OverQuota | OtherSet string

datatype JmapClientError =
    Transport string | Server string | Problem "nat option" | Method MethodErrorType
  | SetError SetErrorType | OtherClient string

datatype JmapError =
    JmapHttp string | JmapSessionDiscovery string | JmapAuthentication string
  | JmapCrypto CryptoError | JmapInvalidResponse string | JmapInvalidServerUrl string
  | JmapCrossOrigin string | JmapClient JmapClientError

fun jmap_error_from :: "JmapClientError \<Rightarrow> JmapError" where
  "jmap_error_from err =
     (if (case err of Problem st \<Rightarrow> st = Some 401 | Server s \<Rightarrow> starts_with s ''401'' | _ \<Rightarrow> False)
      then JmapAuthentication ''JMAP server rejected credentials (HTTP 401)''
      else JmapClient err)"

fun is_read_only :: "JmapError \<Rightarrow> bool" where
  "is_read_only (JmapClient (Method m)) = (m = AccountReadOnly)"
| "is_read_only _ = False"

fun is_stale_query_state :: "JmapError \<Rightarrow> bool" where
  "is_stale_query_state (JmapClient (Method m)) = (m = CannotCalculateChanges)"
| "is_stale_query_state _ = False"

fun is_transient :: "JmapError \<Rightarrow> bool" where
  "is_transient (JmapHttp e) = True"
| "is_transient (JmapClient (Transport e)) = True"
| "is_transient (JmapClient (Server status)) = (starts_with status ''429'' \<or> starts_with status ''5'')"
| "is_transient (JmapClient (Problem st)) = (case st of Some s \<Rightarrow> s = 429 \<or> 500 \<le> s | None \<Rightarrow> False)"
| "is_transient (JmapClient (Method m)) = (m \<in> {ServerUnavailable, ServerPartialFail, TooManyChanges})"
| "is_transient (JmapClient (SetError e)) = (e \<in> {RateLimit, OverQuota})"
| "is_transient _ = False"

fun is_auth :: "JmapError \<Rightarrow> bool" where
  "is_auth (JmapAuthentication e) = True"
| "is_auth (JmapClient (Problem st)) = (st \<in> {Some 401, Some 403})"
| "is_auth (JmapClient (Server s)) = (starts_with s ''401'' \<or> starts_with s ''403'')"
| "is_auth _ = False"

datatype SyncError =
    AccountNotFound | MessageNotFound | AccountDisabled | DatabaseErr SqlxError | ImapErr ImapError
  | JmapErr JmapError | SmtpErr SmtpError | CryptoErr string | InvalidInput string
  | Internal string | ProtocolErr string

text \<open>\<^verbatim>\<open>code_for_status\<close> of \<^verbatim>\<open>api_error.rs\<close>; a status is its number.\<close>

definition code_for_status :: "nat \<Rightarrow> string option" where
  "code_for_status status =
     (if status = 400 then Some ''bad_request''
      else if status = 401 then Some ''unauthorized''
      else if status = 403 then Some ''forbidden''
      else if status = 404 then Some ''not_found''
      else if status = 409 then Some ''conflict''
      else if status = 429 then Some ''too_many_requests''
      else if status = 500 then Some ''internal_error''
      else if status = 502 then Some ''bad_gateway''
      else if status = 503 then Some ''service_unavailable''
      else None)"

text \<open>\<^verbatim>\<open>IntoResponse for SyncError\<close>: status, message and code. The \<^verbatim>\<open>Display\<close> of the masked variants
  never reaches the answer, so only the descriptive ones are needed here.\<close>

fun sync_error_response :: "SyncError \<Rightarrow> nat \<times> string \<times> string option" where
  "sync_error_response AccountNotFound = (404, ''account not found'', Some ''not_found'')"
| "sync_error_response MessageNotFound = (404, ''message not found'', Some ''not_found'')"
| "sync_error_response AccountDisabled =
     (400, ''account not active or sync disabled'', Some ''bad_request'')"
| "sync_error_response (InvalidInput m) = (400, ''invalid input: '' @ m, Some ''bad_request'')"
| "sync_error_response (CryptoErr m) = (500, ''crypto error: '' @ m, Some ''internal_error'')"
| "sync_error_response (Internal m) = (500, ''internal error'', Some ''internal_error'')"
| "sync_error_response (JmapErr e) =
     (if is_read_only e
      then (403, ''mail account is read-only; check the token's access level'', Some ''account_read_only'')
      else (502, ''internal error'', code_for_status 502))"
| "sync_error_response (DatabaseErr e) = (500, ''internal error'', code_for_status 500)"
| "sync_error_response (ImapErr e) = (502, ''internal error'', code_for_status 502)"
| "sync_error_response (SmtpErr e) = (502, ''internal error'', code_for_status 502)"
| "sync_error_response (ProtocolErr m) = (502, ''internal error'', code_for_status 502)"

section \<open>Plugins, the kernel and its event bus\<close>

record SyncCtx =
  ctx_account_id :: string
  ctx_user_id :: string

record SyncOutcome =
  folders_synced :: nat
  messages_synced :: nat

record ReceivePlugin =
  rp_id :: string
  rp_sync_account :: "SyncCtx \<Rightarrow> SyncError + SyncOutcome"

record SendPlugin =
  sp_id :: string
  sp_send :: "string \<Rightarrow> string \<Rightarrow> string + unit"

datatype AppEvent = SyncStarted string | SyncComplete string | SyncErrorEvent string string

record App =
  app_provided :: "string set"
  app_receive :: "string \<rightharpoonup> ReceivePlugin"
  app_send :: "string \<rightharpoonup> SendPlugin"
  app_events :: "AppEvent list"

record Plugin =
  pl_name :: string
  pl_inject :: "string list"
  pl_register :: "App \<Rightarrow> App"

datatype KernelError = UnknownReceive string | UnknownSend string | MissingInject string string

fun show_kernel_error :: "KernelError \<Rightarrow> string" where
  "show_kernel_error (UnknownReceive p) = ''unknown receive protocol '' @ [CHR 0x27] @ p @ [CHR 0x27]"
| "show_kernel_error (UnknownSend p) = ''unknown send protocol '' @ [CHR 0x27] @ p @ [CHR 0x27]"
| "show_kernel_error (MissingInject p s) =
     ''plugin '' @ [CHR 0x27] @ p @ [CHR 0x27] @ '' injects '' @ [CHR 0x27] @ s @ [CHR 0x27] @
     '' which is not provided''"

definition app_new :: App where
  "app_new = \<lparr>app_provided = {}, app_receive = Map.empty, app_send = Map.empty, app_events = []\<rparr>"

definition provide :: "string \<Rightarrow> App \<Rightarrow> App" where
  "provide name app = app\<lparr>app_provided := insert name (app_provided app)\<rparr>"

definition register_receive :: "ReceivePlugin \<Rightarrow> App \<Rightarrow> App" where
  "register_receive p app = app\<lparr>app_receive := (app_receive app)(rp_id p \<mapsto> p)\<rparr>"

definition register_send :: "SendPlugin \<Rightarrow> App \<Rightarrow> App" where
  "register_send p app = app\<lparr>app_send := (app_send app)(sp_id p \<mapsto> p)\<rparr>"

text \<open>The loop over \<^verbatim>\<open>plugin.inject()\<close> stops at the first service that is not provided.\<close>

definition register_plugin :: "Plugin \<Rightarrow> (App, KernelError, unit) eff" where
  "register_plugin p app =
     (case find (\<lambda>s. s \<notin> app_provided app) (pl_inject p) of
        Some s \<Rightarrow> (Inl (MissingInject (pl_name p) s), app)
      | None \<Rightarrow> (Inr (), pl_register p app))"

definition receive :: "App \<Rightarrow> string \<Rightarrow> KernelError + ReceivePlugin" where
  "receive app i = (case app_receive app i of None \<Rightarrow> Inl (UnknownReceive i) | Some p \<Rightarrow> Inr p)"

definition send :: "App \<Rightarrow> string \<Rightarrow> KernelError + SendPlugin" where
  "send app i = (case app_send app i of None \<Rightarrow> Inl (UnknownSend i) | Some p \<Rightarrow> Inr p)"

definition emit :: "AppEvent \<Rightarrow> App \<Rightarrow> App" where
  "emit e app = app\<lparr>app_events := app_events app @ [e]\<rparr>"

lemma emit_fields [simp]:
  "app_receive (emit e app) = app_receive app" "app_send (emit e app) = app_send app"
  "app_events (emit e app) = app_events app @ [e]" "receive (emit e app) = receive app"
  "send (emit e app) = send app"
  by (simp_all add: emit_def receive_def send_def fun_eq_iff)

lemma register_plugin_Inr_iff:
  "register_plugin p app = (Inr (), app') \<longleftrightarrow>
     set (pl_inject p) \<subseteq> app_provided app \<and> app' = pl_register p app"
  by (auto simp: register_plugin_def find_None_iff find_Some_iff subset_iff in_set_conv_nth
      split: option.splits)

lemma register_receive_lookup:
  "receive (register_receive p app) i = (if i = rp_id p then Inr p else receive app i)"
  by (simp add: receive_def register_receive_def)

lemma register_send_lookup:
  "send (register_send p app) i = (if i = sp_id p then Inr p else send app i)"
  by (simp add: send_def register_send_def)

text \<open>What an answer may say: the text of an upstream or database failure never reaches the client.\<close>

definition masked :: "SyncError \<Rightarrow> bool" where
  "masked e = (case e of DatabaseErr _ \<Rightarrow> True | ImapErr _ \<Rightarrow> True | SmtpErr _ \<Rightarrow> True
     | ProtocolErr _ \<Rightarrow> True | Internal _ \<Rightarrow> True | JmapErr j \<Rightarrow> \<not> is_read_only j | _ \<Rightarrow> False)"

lemma sync_error_response_masks:
  "masked e \<Longrightarrow> fst (snd (sync_error_response e)) = ''internal error'' \<and> 500 \<le> fst (sync_error_response e)"
  by (cases e) (auto simp: masked_def)

end
