(* ===== verification/Lyra_Jobs.thy ===== *)
theory Lyra_Jobs
  imports Lyra_Kv Lyra_Kernel "HOL-Library.Char_ord" "HOL-Library.List_Lexorder"
    "HOL-Library.Product_Lexorder"
begin

text \<open>
  The durable job queue of \<^verbatim>\<open>jobs.rs\<close>: the table, every query on it, and the dispatch of a
  claimed job (\<^verbatim>\<open>process_job\<close> and the handlers it calls), with \<^verbatim>\<open>run_account_sync\<close> of
  \<^verbatim>\<open>sync/mod.rs\<close>.

  The tables are lists of rows in insertion order. Timestamps are texts, compared byte by byte as
  the \<^verbatim>\<open>TEXT\<close> columns are. Every statement first consults the fault script \<open>jd_faults\<close>: a head
  \<open>True\<close> makes that one statement fail in the driver without effect, an empty script means no
  more faults; a theorem for every script covers every pattern of database errors. The stamp and
  the fresh id of a statement are arguments. JSON, regexes and the text of third-party errors are
  fields of \<open>JobEnv\<close>; so are the bodies of the backup runs and of the spam pass, which are not
  modelled and of which only the outcome is used.
\<close>

section \<open>Data\<close>

datatype JobPayload =
    SyncAccount string string
  | UnsnoozeMessage string
  | SendMessage string Json
  | ExportBackup string string string
  | ImportBackup string string string

record JobRow =
  j_id :: string
  j_kind :: string
  j_run_at :: string
  j_payload :: string
  j_status :: string
  j_attempts :: int
  j_last_error :: "string option"
  j_last_error_detail :: "string option"
  j_created_at :: string
  j_updated_at :: string

record MailAccount =
  ma_id :: string
  ma_user_id :: string
  ma_send_protocol :: "string option"
  ma_receive_protocol :: "string option"
  ma_protocol :: string
  ma_is_active :: bool
  ma_sync_enabled :: bool
  ma_last_sync_at :: "string option"

record MessageRow =
  msg_id :: string
  msg_snoozed_until :: "string option"
  msg_folder :: string

record JobDb =
  jd_backend :: DbBackend
  jd_uuid_parse :: "string \<Rightarrow> string option"
  jd_faults :: "bool list"
  jd_jobs :: "JobRow list"
  jd_accounts :: "MailAccount list"
  jd_messages :: "MessageRow list"

record ClaimedJob =
  cj_id :: string
  cj_status :: string
  cj_payload :: JobPayload

datatype BackupError =
    BkInvalidPassword | BkCorruptArchive | BkUnsupportedFormat | BkUploadIncomplete
  | BkCrypto string | BkIo string | BkDb SqlxError | BkZip string | BkJson string | BkInternal string

record JobEnv =
  je_to_json :: "JobPayload \<Rightarrow> string option"
  je_from_json :: "string \<Rightarrow> JobPayload option"
  je_value_to_json :: "Json \<Rightarrow> string option"
  je_error_chain :: "SyncError \<Rightarrow> string"
  je_scrub :: "string \<Rightarrow> string"
  je_show_backup :: "BackupError \<Rightarrow> string"
  je_show_crypto :: "CryptoError \<Rightarrow> string"
  je_json_error :: "string \<Rightarrow> string"
  je_utf8_error :: "string \<Rightarrow> string"
  je_report :: "string \<Rightarrow> string"
  je_rfc3339 :: "string \<Rightarrow> string option"
  je_naive :: "string \<Rightarrow> string \<Rightarrow> string option"
  je_spam_pass :: "string \<Rightarrow> MessageRow list \<Rightarrow> MessageRow list"
  je_export_run :: "string \<Rightarrow> string \<Rightarrow> string \<Rightarrow> string \<Rightarrow> BackupError + unit"
  je_import_run :: "string \<Rightarrow> string \<Rightarrow> string \<Rightarrow> string \<Rightarrow> BackupError + unit"

section \<open>Statements\<close>

definition sql :: "(JobDb \<Rightarrow> (SqlxError + 'a) \<times> JobDb) \<Rightarrow> (JobDb, SqlxError, 'a) eff" where
  "sql f db =
     (case jd_faults db of
        [] \<Rightarrow> f db
      | b # bs \<Rightarrow> if b then (Inl Driver, db\<lparr>jd_faults := bs\<rparr>) else f (db\<lparr>jd_faults := bs\<rparr>))"

definition select_jobs :: "(JobRow list \<Rightarrow> 'a) \<Rightarrow> (JobDb, SqlxError, 'a) eff" where
  "select_jobs q = sql (\<lambda>db. (Inr (q (jd_jobs db)), db))"

definition update_jobs :: "(JobRow \<Rightarrow> bool) \<Rightarrow> (JobRow \<Rightarrow> JobRow) \<Rightarrow> (JobDb, SqlxError, nat) eff" where
  "update_jobs P f = sql (\<lambda>db. (Inr (length (filter P (jd_jobs db))),
     db\<lparr>jd_jobs := map (\<lambda>r. if P r then f r else r) (jd_jobs db)\<rparr>))"

text \<open>\<^verbatim>\<open>fk_id_value\<close> / \<^verbatim>\<open>id_param\<close>: text ids, UUIDs on Postgres.\<close>

definition fk_id_value :: "JobDb \<Rightarrow> string \<Rightarrow> SqlxError + string" where
  "fk_id_value db i =
     (case jd_backend db of
        Postgres \<Rightarrow> (case jd_uuid_parse db i of None \<Rightarrow> Inl Protocol | Some u \<Rightarrow> Inr u)
      | Mysql \<Rightarrow> Inr i
      | Sqlite \<Rightarrow> Inr i)"

section \<open>The queue\<close>

fun payload_kind :: "JobPayload \<Rightarrow> string" where
  "payload_kind (SyncAccount _ _) = ''sync_account''"
| "payload_kind (UnsnoozeMessage _) = ''unsnooze_message''"
| "payload_kind (SendMessage _ _) = ''send_message''"
| "payload_kind (ExportBackup _ _ _) = ''export_backup''"
| "payload_kind (ImportBackup _ _ _) = ''import_backup''"

fun kind_name :: "JobPayload \<Rightarrow> string" where
  "kind_name (SyncAccount _ _) = ''sync_account''"
| "kind_name (UnsnoozeMessage _) = ''unsnooze_message''"
| "kind_name (SendMessage _ _) = ''send_message''"
| "kind_name (ExportBackup _ _ _) = ''export_backup''"
| "kind_name (ImportBackup _ _ _) = ''import_backup''"

text \<open>\<open>i\<close> is the drawn UUIDv7 and \<open>stamp\<close> the default of the two timestamp columns.\<close>

definition enqueue ::
  "JobEnv \<Rightarrow> string \<Rightarrow> string \<Rightarrow> JobPayload \<Rightarrow> string \<Rightarrow> (JobDb, SqlxError, string) eff" where
  "enqueue E i stamp payload run_at =
     (case je_to_json E payload of
        None \<Rightarrow> errE Encode
      | Some json \<Rightarrow> sql (\<lambda>db.
          if i \<in> j_id ` set (jd_jobs db) then (Inl UniqueViolation, db)
          else (Inr i, db\<lparr>jd_jobs := jd_jobs db @
            [\<lparr>j_id = i, j_kind = payload_kind payload, j_run_at = run_at, j_payload = json,
              j_status = ''pending'', j_attempts = 0, j_last_error = None,
              j_last_error_detail = None, j_created_at = stamp, j_updated_at = stamp\<rparr>]\<rparr>)))"

record JobStatus =
  js_status :: string
  js_last_error :: "string option"
  js_payload :: "JobPayload option"

definition job_status :: "JobEnv \<Rightarrow> string \<Rightarrow> (JobDb, SqlxError, JobStatus option) eff" where
  "job_status E i = select_jobs (\<lambda>js. map_option (\<lambda>r.
     \<lparr>js_status = j_status r, js_last_error = j_last_error r,
      js_payload = je_from_json E (j_payload r)\<rparr>) (find (\<lambda>r. j_id r = i) js))"

text \<open>\<^verbatim>\<open>WHERE status = 'pending' AND run_at <= now ORDER BY run_at, created_at\<close>.\<close>

definition due :: "string \<Rightarrow> JobRow \<Rightarrow> bool" where
  "due now r \<longleftrightarrow> j_status r = ''pending'' \<and> j_run_at r \<le> now"

definition claim_key :: "JobRow \<Rightarrow> string \<times> string" where
  "claim_key r = (j_run_at r, j_created_at r)"

definition due_rows :: "string \<Rightarrow> JobRow list \<Rightarrow> JobRow list" where
  "due_rows now js = sort_key claim_key (filter (due now) js)"

definition set_running :: "string \<Rightarrow> JobRow \<Rightarrow> JobRow" where
  "set_running stamp r = r\<lparr>j_status := ''running'', j_updated_at := stamp\<rparr>"

definition claimed_from_row :: "JobEnv \<Rightarrow> JobRow \<Rightarrow> SqlxError + ClaimedJob" where
  "claimed_from_row E r =
     (case je_from_json E (j_payload r) of
        None \<Rightarrow> Inl Decode
      | Some p \<Rightarrow> Inr \<lparr>cj_id = j_id r, cj_status = j_status r, cj_payload = p\<rparr>)"

definition claim_due ::
  "JobEnv \<Rightarrow> string \<Rightarrow> string \<Rightarrow> (JobDb, SqlxError, ClaimedJob option) eff" where
  "claim_due E stamp now db =
     (if jd_backend db = Mysql then (Inl Protocol, db)
      else sql (\<lambda>db. case due_rows now (jd_jobs db) of
          [] \<Rightarrow> (Inr None, db)
        | r # _ \<Rightarrow>
           (map_sum id Some (claimed_from_row E (set_running stamp r)),
            db\<lparr>jd_jobs := map (\<lambda>q. if j_id q = j_id r then set_running stamp q else q) (jd_jobs db)\<rparr>))
        db)"

text \<open>One iteration of the loop of \<^verbatim>\<open>claim_next\<close>: \<open>scan_row\<close> is what is decided without the
  database (\<open>None\<close>: \<^verbatim>\<open>continue\<close>), \<open>cas_claim\<close> the compare-and-set.\<close>

definition scan_row :: "JobEnv \<Rightarrow> string set \<Rightarrow> string \<Rightarrow> JobPayload option" where
  "scan_row E inflight payload_json =
     (case je_from_json E payload_json of
        None \<Rightarrow> None
      | Some (SyncAccount a u) \<Rightarrow> if a \<in> inflight then None else Some (SyncAccount a u)
      | Some p \<Rightarrow> Some p)"

definition cas_claim :: "string \<Rightarrow> string \<Rightarrow> (JobDb, SqlxError, nat) eff" where
  "cas_claim stamp i = update_jobs (\<lambda>r. j_id r = i \<and> j_status r = ''pending'') (set_running stamp)"

fun claim_scan ::
  "JobEnv \<Rightarrow> string set \<Rightarrow> string \<Rightarrow> (string \<times> string) list \<Rightarrow> (JobDb, SqlxError, ClaimedJob option) eff" where
  "claim_scan E inflight stamp [] = okE None"
| "claim_scan E inflight stamp ((i, payload_json) # rows) =
     (case scan_row E inflight payload_json of
        None \<Rightarrow> claim_scan E inflight stamp rows
      | Some p \<Rightarrow> bindE (cas_claim stamp i) (\<lambda>n.
          if n = 1 then okE (Some \<lparr>cj_id = i, cj_status = ''running'', cj_payload = p\<rparr>)
          else claim_scan E inflight stamp rows))"

definition select_due :: "string \<Rightarrow> (JobDb, SqlxError, (string \<times> string) list) eff" where
  "select_due now = select_jobs (\<lambda>js. map (\<lambda>r. (j_id r, j_payload r)) (due_rows now js))"

definition claim_next ::
  "JobEnv \<Rightarrow> string \<Rightarrow> string \<Rightarrow> string set \<Rightarrow> (JobDb, SqlxError, ClaimedJob option) eff" where
  "claim_next E stamp now inflight = bindE (select_due now) (claim_scan E inflight stamp)"

definition reclaim_stale_running :: "string \<Rightarrow> (JobDb, SqlxError, nat) eff" where
  "reclaim_stale_running stamp =
     update_jobs (\<lambda>r. j_status r = ''running'') (\<lambda>r. r\<lparr>j_status := ''pending'', j_updated_at := stamp\<rparr>)"

text \<open>The permit is held when a job is returned, and dropped otherwise.\<close>

definition try_claim_with_permit ::
  "JobEnv \<Rightarrow> string \<Rightarrow> string \<Rightarrow> string set \<Rightarrow> (JobDb \<times> nat, SqlxError, ClaimedJob option) eff" where
  "try_claim_with_permit E stamp now inflight w =
     (case w of (db, permits) \<Rightarrow>
        if permits = 0 then (Inr None, w)
        else case claim_next E stamp now inflight db of
            (Inl e, db') \<Rightarrow> (Inl e, (db', permits))
          | (Inr None, db') \<Rightarrow> (Inr None, (db', permits))
          | (Inr (Some j), db') \<Rightarrow> (Inr (Some j), (db', permits - 1)))"

section \<open>Outcomes\<close>

fun sanitize_error :: "SyncError \<Rightarrow> string" where
  "sanitize_error (ImapErr (ImapLogin _)) = ''auth error''"
| "sanitize_error (ImapErr ImapTimeout) = ''IMAP timeout''"
| "sanitize_error (ImapErr _) = ''IMAP error''"
| "sanitize_error (JmapErr (JmapAuthentication _)) = ''auth error''"
| "sanitize_error (JmapErr _) = ''JMAP error''"
| "sanitize_error (SmtpErr e) = job_category e"
| "sanitize_error (DatabaseErr _) = ''database error''"
| "sanitize_error (ProtocolErr _) = ''protocol error''"
| "sanitize_error (CryptoErr _) = ''credential error''"
| "sanitize_error _ = ''sync failed''"

definition ERROR_DETAIL_CAP :: nat where "ERROR_DETAIL_CAP = 2048"

definition ellipsis :: string where "ellipsis = [CHR 0xE2, CHR 0x80, CHR 0xA6]"

definition scrub_error_detail :: "JobEnv \<Rightarrow> string \<Rightarrow> string" where
  "scrub_error_detail E raw =
     (let s = je_scrub E raw
      in if ERROR_DETAIL_CAP < char_count s then take_chars ERROR_DETAIL_CAP s @ ellipsis else s)"

definition mark_completed :: "string \<Rightarrow> string \<Rightarrow> (JobDb, SqlxError, nat) eff" where
  "mark_completed stamp i = update_jobs (\<lambda>r. j_id r = i)
     (\<lambda>r. r\<lparr>j_status := ''completed'', j_last_error := None, j_last_error_detail := None,
            j_updated_at := stamp\<rparr>)"

definition mark_failed :: "string \<Rightarrow> string \<Rightarrow> string \<Rightarrow> string option \<Rightarrow> (JobDb, SqlxError, nat) eff" where
  "mark_failed stamp i last_error detail = update_jobs (\<lambda>r. j_id r = i)
     (\<lambda>r. r\<lparr>j_status := ''failed'', j_last_error := Some last_error, j_last_error_detail := detail,
            j_attempts := j_attempts r + 1, j_updated_at := stamp\<rparr>)"

text \<open>\<open>after d\<close> is the RFC3339 text of the instant \<open>d\<close> seconds from now.\<close>

definition reschedule_transient ::
  "string \<Rightarrow> (int \<Rightarrow> string) \<Rightarrow> string \<Rightarrow> string \<Rightarrow> int \<Rightarrow> (JobDb, SqlxError, nat) eff" where
  "reschedule_transient stamp after i last_error delay_secs = update_jobs (\<lambda>r. j_id r = i)
     (\<lambda>r. r\<lparr>j_status := ''pending'', j_last_error := Some last_error,
            j_attempts := j_attempts r + 1, j_run_at := after delay_secs, j_updated_at := stamp\<rparr>)"

definition SMTP_TRANSIENT_MAX_ATTEMPTS :: int where "SMTP_TRANSIENT_MAX_ATTEMPTS = 3"

definition revert_pending :: "string \<Rightarrow> string \<Rightarrow> (JobDb, SqlxError, nat) eff" where
  "revert_pending stamp i = update_jobs (\<lambda>r. j_id r = i)
     (\<lambda>r. r\<lparr>j_status := ''pending'', j_updated_at := stamp\<rparr>)"

definition finalize_backup_job ::
  "JobEnv \<Rightarrow> string \<Rightarrow> string \<Rightarrow> BackupError + unit \<Rightarrow> (JobDb, SqlxError, nat) eff" where
  "finalize_backup_job E stamp i result =
     (case result of
        Inr _ \<Rightarrow> mark_completed stamp i
      | Inl err \<Rightarrow> mark_failed stamp i ''backup job failed''
          (Some (scrub_error_detail E (je_show_backup E err))))"

section \<open>Dispatch\<close>

text \<open>\<^verbatim>\<open>run_account_sync\<close> of \<^verbatim>\<open>sync/mod.rs\<close>.\<close>

definition bind_id :: "JobDb \<Rightarrow> string \<Rightarrow> SyncError + string" where
  "bind_id db i = map_sum (\<lambda>_. InvalidInput ''invalid id'') id (fk_id_value db i)"

definition run_account_sync ::
  "JobEnv \<Rightarrow> App \<Rightarrow> string \<Rightarrow> string \<Rightarrow> string \<Rightarrow> (JobDb, SyncError, SyncOutcome) eff" where
  "run_account_sync E app stamp user_id account_id db =
     (case (bind_id db account_id, bind_id db user_id) of
        (Inl e, _) \<Rightarrow> (Inl e, db)
      | (_, Inl e) \<Rightarrow> (Inl e, db)
      | (Inr a, Inr u) \<Rightarrow>
         bindE (map_errE DatabaseErr (sql (\<lambda>db.
           (Inr (find (\<lambda>m. ma_id m = a \<and> ma_user_id m = u) (jd_accounts db)), db)))) (\<lambda>row.
         case row of
           None \<Rightarrow> errE AccountNotFound
         | Some m \<Rightarrow>
             if \<not> ma_is_active m \<or> \<not> ma_sync_enabled m then errE AccountDisabled
             else (let receive_id = (case ma_receive_protocol m of
                                       Some p \<Rightarrow> if p = [] then ma_protocol m else p
                                     | None \<Rightarrow> ma_protocol m)
                   in case receive app receive_id of
                        Inl e \<Rightarrow> errE (InvalidInput (show_kernel_error e))
                      | Inr plugin \<Rightarrow>
                          (case rp_sync_account plugin
                                  \<lparr>ctx_account_id = account_id, ctx_user_id = user_id\<rparr> of
                             Inl e \<Rightarrow> errE e
                           | Inr outcome \<Rightarrow>
                               bindE (map_errE DatabaseErr (sql (\<lambda>db. (Inr (),
                                 db\<lparr>jd_accounts := map (\<lambda>m. if ma_id m = a
                                       then m\<lparr>ma_last_sync_at := Some stamp\<rparr> else m) (jd_accounts db)\<rparr>))))
                               (\<lambda>_ db. (Inr outcome,
                                  db\<lparr>jd_messages := je_spam_pass E user_id (jd_messages db)\<rparr>))))) db)"

text \<open>The error arm of \<^verbatim>\<open>handle_send_message\<close>.\<close>

definition send_failure ::
  "string \<Rightarrow> (int \<Rightarrow> string) \<Rightarrow> string \<Rightarrow> string \<Rightarrow> (JobDb, SqlxError, nat) eff" where
  "send_failure stamp after i err_cat =
     bindE (select_jobs (\<lambda>js. case find (\<lambda>r. j_id r = i) js of None \<Rightarrow> 0 | Some r \<Rightarrow> j_attempts r)) (\<lambda>attempts.
     if (err_cat = ''SMTP transient'' \<or> err_cat = ''JMAP transient'') \<and>
        attempts + 1 < SMTP_TRANSIENT_MAX_ATTEMPTS
     then reschedule_transient stamp after i err_cat (30 * 2 ^ nat (min attempts 4))
     else mark_failed stamp i
            (if starts_with err_cat ''SMTP '' \<or> starts_with err_cat ''JMAP ''
             then err_cat else ''send error'') None)"

definition handle_send_message ::
  "JobEnv \<Rightarrow> App \<Rightarrow> string \<Rightarrow> (int \<Rightarrow> string) \<Rightarrow> string \<Rightarrow> string \<Rightarrow> Json \<Rightarrow> (JobDb, SqlxError, nat) eff" where
  "handle_send_message E app stamp after i account_id outbound =
     (case je_value_to_json E outbound of
        None \<Rightarrow> mark_failed stamp i ''invalid outbound payload'' None
      | Some raw \<Rightarrow> (\<lambda>db.
          (case fk_id_value db account_id of
             Inl e \<Rightarrow> errE e
           | Inr a \<Rightarrow>
              bindE (sql (\<lambda>db. (Inr (Option.bind (find (\<lambda>m. ma_id m = a) (jd_accounts db))
                ma_send_protocol), db))) (\<lambda>protocol.
              case protocol of
                None \<Rightarrow> mark_failed stamp i ''send protocol not configured'' None
              | Some p \<Rightarrow>
                  if p = [] then mark_failed stamp i ''send protocol not configured'' None
                  else (case send app p of
                      Inl _ \<Rightarrow> mark_failed stamp i ''unknown send protocol'' None
                    | Inr plugin \<Rightarrow>
                       (case sp_send plugin account_id raw of
                          Inr _ \<Rightarrow> mark_completed stamp i
                        | Inl err_cat \<Rightarrow>
                            send_failure stamp after i err_cat)))) db))"


text \<open>What a worker sees: the database, the user table and the kv store behind \<^verbatim>\<open>AuthState\<close>, the
  in-flight set and the kernel.\<close>

record 's JobWorld =
  jw_db :: JobDb
  jw_users :: Db
  jw_kv :: 's
  jw_inflight :: "string set"
  jw_app :: App

definition onjobs :: "(JobDb, 'e, 'a) eff \<Rightarrow> ('s JobWorld, 'e, 'a) eff" where
  "onjobs m w = (case m (jw_db w) of (r, db) \<Rightarrow> (r, w\<lparr>jw_db := db\<rparr>))"

text \<open>\<^verbatim>\<open>InFlight\<close>.\<close>

definition try_begin :: "string \<Rightarrow> 's JobWorld \<Rightarrow> bool \<times> 's JobWorld" where
  "try_begin a w = (a \<notin> jw_inflight w, w\<lparr>jw_inflight := insert a (jw_inflight w)\<rparr>)"

definition finish :: "string \<Rightarrow> 's JobWorld \<Rightarrow> 's JobWorld" where
  "finish a w = w\<lparr>jw_inflight := jw_inflight w - {a}\<rparr>"

definition contains :: "'s JobWorld \<Rightarrow> string \<Rightarrow> bool" where
  "contains w a \<longleftrightarrow> a \<in> jw_inflight w"

definition emit_event :: "AppEvent \<Rightarrow> 's JobWorld \<Rightarrow> 's JobWorld" where
  "emit_event e w = w\<lparr>jw_app := emit e (jw_app w)\<rparr>"

text \<open>The draws of one dispatch: random bytes for a lazily provisioned DEK, the installed master
  key, the instant of kv writes and the stamps.\<close>

record Draws =
  dr_nonces :: "nat \<Rightarrow> string"
  dr_wrap_nonce :: string
  dr_fresh_dek :: string
  dr_master :: "string option"
  dr_now :: nat
  dr_stamp :: string
  dr_after :: "int \<Rightarrow> string"

definition unwrap_backup_password ::
  "Primitives \<Rightarrow> JobEnv \<Rightarrow> Draws \<Rightarrow> string \<Rightarrow> string \<Rightarrow> (Db, BackupError, string) eff" where
  "unwrap_backup_password P E D user_id password_wrapped =
     bindE (map_errE (\<lambda>e. BkCrypto (je_show_crypto E e))
       (get_user_dek P (dr_nonces D) (dr_wrap_nonce D) (dr_fresh_dek D) (dr_master D) user_id)) (\<lambda>dek.
     case cred_from_json P password_wrapped of
       None \<Rightarrow> errE (BkJson (je_json_error E password_wrapped))
     | Some envelope \<Rightarrow>
        (case decrypt P dek envelope of
           Inl e \<Rightarrow> errE (BkCrypto (je_show_crypto E e))
         | Inr bytes \<Rightarrow> if utf8_valid P bytes then okE bytes
             else errE (BkCrypto (je_utf8_error E bytes))))"

definition write_backup_failure_report ::
  "'s KvStore \<Rightarrow> JobEnv \<Rightarrow> nat \<Rightarrow> string \<Rightarrow> BackupError \<Rightarrow> 's JobWorld \<Rightarrow> 's JobWorld" where
  "write_backup_failure_report K E now i err w =
     w\<lparr>jw_kv := snd (kv_set K now (''backup:report:'' @ i)
       (je_report E (scrub_error_detail E (je_show_backup E err))) None (jw_kv w))\<rparr>"

definition run_backup ::
  "Primitives \<Rightarrow> 's KvStore \<Rightarrow> JobEnv \<Rightarrow> Draws \<Rightarrow> string \<Rightarrow> string \<Rightarrow> string \<Rightarrow> (string \<Rightarrow> BackupError + unit)
    \<Rightarrow> ('s JobWorld, SqlxError, nat) eff" where
  "run_backup P K E D i user_id password_wrapped body w =
     (case unwrap_backup_password P E D user_id password_wrapped (jw_users w) of
        (Inr password, us) \<Rightarrow>
          onjobs (finalize_backup_job E (dr_stamp D) i (body password)) (w\<lparr>jw_users := us\<rparr>)
      | (Inl err, us) \<Rightarrow>
          onjobs (finalize_backup_job E (dr_stamp D) i (Inl err))
            (write_backup_failure_report K E (dr_now D) i err (w\<lparr>jw_users := us\<rparr>)))"

text \<open>The arm of a sync job, cut where other tasks may run in between: the start, the sync itself up
  to \<^verbatim>\<open>inflight.finish\<close>, and the report.\<close>

definition sync_run ::
  "JobEnv \<Rightarrow> string \<Rightarrow> string \<Rightarrow> string \<Rightarrow> 's JobWorld \<Rightarrow> (SyncError + SyncOutcome) \<times> 's JobWorld" where
  "sync_run E stamp user_id account_id w =
     (case onjobs (run_account_sync E (jw_app w) stamp user_id account_id) w of
        (result, w') \<Rightarrow> (result, finish account_id w'))"

definition sync_report ::
  "JobEnv \<Rightarrow> string \<Rightarrow> string \<Rightarrow> string \<Rightarrow> SyncError + SyncOutcome \<Rightarrow> ('s JobWorld, SqlxError, nat) eff" where
  "sync_report E stamp i account_id result w =
     (case result of
        Inr _ \<Rightarrow> onjobs (mark_completed stamp i) (emit_event (SyncComplete account_id) w)
      | Inl err \<Rightarrow>
          onjobs (mark_failed stamp i (sanitize_error err)
              (Some (scrub_error_detail E (je_error_chain E err))))
            (emit_event (SyncErrorEvent account_id (sanitize_error err)) w))"

definition unsnooze :: "string \<Rightarrow> string \<Rightarrow> string \<Rightarrow> (JobDb, SqlxError, nat) eff" where
  "unsnooze stamp i message_id db =
     (case fk_id_value db message_id of
        Inl e \<Rightarrow> (Inl e, db)
      | Inr m \<Rightarrow>
          bindE (sql (\<lambda>db. (Inr (), db\<lparr>jd_messages := map (\<lambda>r. if msg_id r = m
              then r\<lparr>msg_snoozed_until := None\<rparr> else r) (jd_messages db)\<rparr>)))
            (\<lambda>_. mark_completed stamp i) db)"

definition process_job ::
  "Primitives \<Rightarrow> 's KvStore \<Rightarrow> JobEnv \<Rightarrow> Draws \<Rightarrow> ClaimedJob \<Rightarrow> ('s JobWorld, SqlxError, nat) eff" where
  "process_job P K E D job w =
     (case cj_payload job of
        SyncAccount account_id user_id \<Rightarrow>
          (case try_begin account_id w of
             (False, w1) \<Rightarrow> onjobs (revert_pending (dr_stamp D) (cj_id job)) w1
           | (True, w1) \<Rightarrow>
               (case sync_run E (dr_stamp D) user_id account_id
                       (emit_event (SyncStarted account_id) w1) of
                  (result, w2) \<Rightarrow> sync_report E (dr_stamp D) (cj_id job) account_id result w2))
      | UnsnoozeMessage message_id \<Rightarrow> onjobs (unsnooze (dr_stamp D) (cj_id job) message_id) w
      | SendMessage account_id outbound \<Rightarrow>
          onjobs (handle_send_message E (jw_app w) (dr_stamp D) (dr_after D) (cj_id job)
            account_id outbound) w
      | ExportBackup user_id artifact_id password_wrapped \<Rightarrow>
          run_backup P K E D (cj_id job) user_id password_wrapped
            (je_export_run E user_id (cj_id job) artifact_id) w
      | ImportBackup user_id upload_id password_wrapped \<Rightarrow>
          run_backup P K E D (cj_id job) user_id password_wrapped
            (je_import_run E user_id (cj_id job) upload_id) w)"

section \<open>The error log\<close>

record SyncErrorLogItem =
  el_id :: string
  el_at :: string
  el_category :: string
  el_detail :: "string option"
  el_attempts :: int

text \<open>\<open>je_rfc3339\<close> and \<open>je_naive\<close> are chrono's parsers followed by its RFC3339 rendering in UTC.\<close>

definition job_stamp_to_rfc3339 :: "JobEnv \<Rightarrow> string \<Rightarrow> string" where
  "job_stamp_to_rfc3339 E raw =
     (case je_rfc3339 E raw of
        Some t \<Rightarrow> t
      | None \<Rightarrow>
         (case je_naive E ''%Y-%m-%d %H:%M:%S%.f'' raw of
            Some t \<Rightarrow> t
          | None \<Rightarrow> (case je_naive E ''%Y-%m-%d %H:%M:%S'' raw of Some t \<Rightarrow> t | None \<Rightarrow> raw)))"

fun collect_errors ::
  "JobEnv \<Rightarrow> string \<Rightarrow> string \<Rightarrow> nat \<Rightarrow> JobRow list \<Rightarrow> SyncErrorLogItem list \<Rightarrow> SyncErrorLogItem list" where
  "collect_errors E account_id user_id limit [] items = items"
| "collect_errors E account_id user_id limit (r # rs) items =
     (case je_from_json E (j_payload r) of
        Some (SyncAccount aid uid) \<Rightarrow>
          if aid \<noteq> account_id \<or> uid \<noteq> user_id then collect_errors E account_id user_id limit rs items
          else (case j_last_error r of
              None \<Rightarrow> collect_errors E account_id user_id limit rs items
            | Some category \<Rightarrow>
               (let items' = items @ [\<lparr>el_id = j_id r, el_at = job_stamp_to_rfc3339 E (j_updated_at r),
                      el_category = category, el_detail = j_last_error_detail r,
                      el_attempts = j_attempts r\<rparr>]
                in if limit \<le> length items' then items'
                   else collect_errors E account_id user_id limit rs items'))
      | _ \<Rightarrow> collect_errors E account_id user_id limit rs items)"

definition list_sync_account_errors ::
  "JobEnv \<Rightarrow> string \<Rightarrow> string \<Rightarrow> nat \<Rightarrow> (JobDb, SqlxError, SyncErrorLogItem list) eff" where
  "list_sync_account_errors E account_id user_id limit =
     bindE (select_jobs (\<lambda>js. take 200 (rev (sort_key j_updated_at
        (filter (\<lambda>r. j_status r = ''failed'' \<and> j_kind r = ''sync_account'') js))))) (\<lambda>rows.
     okE (collect_errors E account_id user_id (max 1 (min limit 50)) rows []))"


section \<open>What the statements do\<close>

lemma sql_cases:
  assumes "sql f db = (res, db')"
  obtains bs where "res = Inl Driver" and "db' = db\<lparr>jd_faults := bs\<rparr>"
  | bs where "f (db\<lparr>jd_faults := bs\<rparr>) = (res, db')"
  using assms by (cases "jd_faults db"; cases db) (auto simp: sql_def split: if_splits)

lemma sql_no_fault [simp]: "jd_faults db = [] \<Longrightarrow> sql f db = f db"
  by (simp add: sql_def)

text \<open>A statement that only reads, or only writes other tables, keeps the jobs.\<close>

definition keeps_jobs :: "(JobDb, 'e, 'a) eff \<Rightarrow> bool" where
  "keeps_jobs m \<longleftrightarrow> (\<forall>db. jd_jobs (snd (m db)) = jd_jobs db)"

named_theorems keeps \<open>operations that do not touch the jobs table\<close>

lemma keeps_sql [keeps]: "(\<And>db. jd_jobs (snd (f db)) = jd_jobs db) \<Longrightarrow> keeps_jobs (sql f)"
  by (auto simp: keeps_jobs_def sql_def split: list.splits)

lemma keeps_bind [keeps]: "keeps_jobs m \<Longrightarrow> (\<And>x. keeps_jobs (f x)) \<Longrightarrow> keeps_jobs (bindE m f)"
  by (simp add: keeps_jobs_def bindE_def split: prod.splits sum.splits) (metis snd_conv)

lemma keeps_map_err [keeps]: "keeps_jobs m \<Longrightarrow> keeps_jobs (map_errE g m)"
  by (simp add: keeps_jobs_def map_errE_def split: prod.splits sum.splits) (metis snd_conv)

lemma keeps_ret [keeps]: "keeps_jobs (okE x)" "keeps_jobs (errE e)"
  by (simp_all add: keeps_jobs_def)

lemma keeps_select [keeps]: "keeps_jobs (select_jobs q)"
  unfolding select_jobs_def by (rule keeps_sql) simp

lemma keeps_jobsD: "keeps_jobs m \<Longrightarrow> m db = (r, db') \<Longrightarrow> jd_jobs db' = jd_jobs db"
  by (metis keeps_jobs_def snd_conv)

lemma keeps_run_account_sync [keeps]: "keeps_jobs (run_account_sync E app stamp u a)"
  unfolding keeps_jobs_def run_account_sync_def
  by (auto simp: bindE_def map_errE_def sql_def Let_def
      split: prod.splits sum.splits option.splits list.splits if_splits)

section \<open>One write per dispatch\<close>

definition safe_categories :: "string list" where
  "safe_categories = [''auth error'', ''IMAP timeout'', ''IMAP error'', ''JMAP error'', ''database error'',
     ''protocol error'', ''credential error'', ''sync failed'', ''backup job failed'',
     ''invalid outbound payload'', ''send protocol not configured'', ''unknown send protocol'',
     ''send error'']"

definition safe_category :: "string \<Rightarrow> bool" where
  "safe_category c \<longleftrightarrow>
     c \<in> set safe_categories \<or> starts_with c ''SMTP '' \<or> starts_with c ''JMAP ''"

lemma sanitize_error_safe: "safe_category (sanitize_error e)"
proof -
  have "safe_category (job_category s)" for s
    by (cases s) (simp_all add: safe_category_def)
  then show ?thesis
    by (cases e rule: sanitize_error.cases) (simp_all add: safe_category_def safe_categories_def)
qed

text \<open>What a worker may write to the row of its job.\<close>

definition worker_write :: "JobRow \<Rightarrow> JobRow \<Rightarrow> bool" where
  "worker_write r r' \<longleftrightarrow>
     j_id r' = j_id r \<and> j_kind r' = j_kind r \<and> j_payload r' = j_payload r \<and>
     j_created_at r' = j_created_at r \<and>
     (j_status r' = ''completed'' \<and> j_attempts r' = j_attempts r \<and> j_last_error r' = None \<or>
      j_status r' = ''failed'' \<and> j_attempts r' = j_attempts r + 1 \<and>
        (\<exists>c. j_last_error r' = Some c \<and> safe_category c) \<or>
      j_status r' = ''pending'' \<and> j_attempts r' = j_attempts r \<and> j_last_error r' = j_last_error r \<or>
      j_status r' = ''pending'' \<and> j_attempts r' = j_attempts r + 1 \<and> j_attempts r' < 3 \<and>
        (\<exists>c. j_last_error r' = Some c \<and> safe_category c))"

definition touches :: "string \<Rightarrow> JobRow list \<Rightarrow> JobRow list \<Rightarrow> bool" where
  "touches i js js' \<longleftrightarrow>
     js' = js \<or> list_all2 (\<lambda>r r'. if j_id r = i then worker_write r r' else r' = r) js js'"

lemma touches_refl [simp]: "touches i js js"
  by (simp add: touches_def)

lemma update_by_id_touches:
  assumes "update_jobs (\<lambda>r. j_id r = i) f db = (res, db')"
    and "\<And>r. r \<in> set (jd_jobs db) \<Longrightarrow> j_id r = i \<Longrightarrow> worker_write r (f r)"
  shows "touches i (jd_jobs db) (jd_jobs db')"
  using assms unfolding update_jobs_def
  by (elim sql_cases) (auto simp: touches_def list_all2_map2 intro!: list_all2_all_nthI)

lemma mark_completed_touches:
  "mark_completed stamp i db = (res, db') \<Longrightarrow> touches i (jd_jobs db) (jd_jobs db')"
  unfolding mark_completed_def by (erule update_by_id_touches) (simp add: worker_write_def)

lemma mark_failed_touches:
  "mark_failed stamp i c d db = (res, db') \<Longrightarrow> safe_category c \<Longrightarrow> touches i (jd_jobs db) (jd_jobs db')"
  unfolding mark_failed_def by (erule update_by_id_touches) (simp add: worker_write_def)

lemma revert_pending_touches:
  "revert_pending stamp i db = (res, db') \<Longrightarrow> touches i (jd_jobs db) (jd_jobs db')"
  unfolding revert_pending_def by (erule update_by_id_touches) (simp add: worker_write_def)

lemma finalize_backup_job_touches:
  "finalize_backup_job E stamp i result db = (res, db') \<Longrightarrow> touches i (jd_jobs db) (jd_jobs db')"
  by (auto simp: finalize_backup_job_def safe_category_def safe_categories_def
      split: sum.splits elim: mark_completed_touches mark_failed_touches)

lemma distinct_find:
  "distinct (map j_id js) \<Longrightarrow> r \<in> set js \<Longrightarrow> find (\<lambda>q. j_id q = j_id r) js = Some r"
  by (induction js) auto

lemma reschedule_touches:
  assumes "reschedule_transient stamp after i c d db = (res, db')"
    and "distinct (map j_id (jd_jobs db))" and "safe_category c"
    and "(case find (\<lambda>r. j_id r = i) (jd_jobs db) of None \<Rightarrow> 0 | Some r \<Rightarrow> j_attempts r) + 1
          < SMTP_TRANSIENT_MAX_ATTEMPTS"
  shows "touches i (jd_jobs db) (jd_jobs db')"
  using assms(1) unfolding reschedule_transient_def
proof (rule update_by_id_touches)
  fix r assume r: "r \<in> set (jd_jobs db)" "j_id r = i"
  with assms(2) have "find (\<lambda>q. j_id q = i) (jd_jobs db) = Some r"
    using distinct_find by blast
  with assms(3,4) show "worker_write r (r\<lparr>j_status := ''pending'', j_last_error := Some c,
      j_attempts := j_attempts r + 1, j_run_at := after d, j_updated_at := stamp\<rparr>)"
    by (simp add: worker_write_def SMTP_TRANSIENT_MAX_ATTEMPTS_def)
qed

lemma select_jobs_cases:
  assumes "select_jobs q db = (res, db')"
  obtains "jd_jobs db' = jd_jobs db" and "res = Inl Driver"
  | "jd_jobs db' = jd_jobs db" and "res = Inr (q (jd_jobs db))"
  using assms unfolding select_jobs_def by (elim sql_cases) auto

lemma safe_prefix: "starts_with c ''SMTP '' \<or> starts_with c ''JMAP '' \<Longrightarrow> safe_category c"
  by (simp add: safe_category_def)

lemma safe_static: "c \<in> set safe_categories \<Longrightarrow> safe_category c"
  by (simp add: safe_category_def)

lemma safe_send_categories:
  "safe_category ''invalid outbound payload''" "safe_category ''send protocol not configured''"
  "safe_category ''unknown send protocol''" "safe_category ''send error''"
  by (rule safe_static, simp add: safe_categories_def)+

lemma safe_kept_category:
  "safe_category (if starts_with c ''SMTP '' \<or> starts_with c ''JMAP '' then c else ''send error'')"
  using safe_prefix safe_send_categories(4) by presburger

lemma safe_transient: "c = ''SMTP transient'' \<or> c = ''JMAP transient'' \<Longrightarrow> safe_category c"
  by (erule disjE) (simp_all add: safe_category_def)

lemma send_failure_touches:
  assumes "send_failure stamp after i c db = (res, db')" and "distinct (map j_id (jd_jobs db))"
  shows "touches i (jd_jobs db) (jd_jobs db')"
  using assms(1) unfolding send_failure_def
proof (cases rule: bindE_cases)
  case (1 e)
  then show ?thesis by (auto elim: select_jobs_cases)
next
  case (2 attempts db1)
  from 2(1) have same: "jd_jobs db1 = jd_jobs db"
    and att: "attempts = (case find (\<lambda>r. j_id r = i) (jd_jobs db) of None \<Rightarrow> 0 | Some r \<Rightarrow> j_attempts r)"
    by (auto elim: select_jobs_cases)
  show ?thesis
  proof (cases "(c = ''SMTP transient'' \<or> c = ''JMAP transient'') \<and> attempts + 1 < SMTP_TRANSIENT_MAX_ATTEMPTS")
    case True
    with 2(2) have "reschedule_transient stamp after i c (30 * 2 ^ nat (min attempts 4)) db1 = (res, db')"
      by presburger
    from reschedule_touches [OF this] True assms(2) safe_transient [of c] show ?thesis
      unfolding same att by blast
  next
    case False
    have "mark_failed stamp i (if starts_with c ''SMTP '' \<or> starts_with c ''JMAP ''
                then c else ''send error'') None db1 = (res, db')"
      using 2(2) unfolding if_not_P [OF False] .
    from mark_failed_touches [OF this safe_kept_category] same show ?thesis by simp
  qed
qed

lemma handle_send_message_touches:
  assumes "handle_send_message E app stamp after i account_id outbound db = (res, db')"
    and dist: "distinct (map j_id (jd_jobs db))"
  shows "touches i (jd_jobs db) (jd_jobs db')"
proof (cases "je_value_to_json E outbound")
  case None
  with assms(1) show ?thesis
    by (auto simp: handle_send_message_def elim: mark_failed_touches [OF _ safe_send_categories(1)])
next
  case (Some raw)
  show ?thesis
  proof (cases "fk_id_value db account_id")
    case (Inl e)
    with Some assms(1) show ?thesis by (simp add: handle_send_message_def)
  next
    case (Inr a)
    with Some assms(1) dist show ?thesis
      by (auto simp: handle_send_message_def elim!: bindE_cases sql_cases
          split: option.splits if_splits sum.splits
          dest!: mark_failed_touches [OF _ safe_send_categories(2)]
            mark_failed_touches [OF _ safe_send_categories(3)] mark_completed_touches
            send_failure_touches)
  qed
qed

lemma onjobs_eq:
  "onjobs m w = (res, w') \<Longrightarrow> \<exists>db'. m (jw_db w) = (res, db') \<and> w' = w\<lparr>jw_db := db'\<rparr>"
  by (auto simp: onjobs_def split: prod.splits)

lemma unsnooze_touches:
  "unsnooze stamp i m db = (res, db') \<Longrightarrow> touches i (jd_jobs db) (jd_jobs db')"
  by (auto simp: unsnooze_def elim!: bindE_cases sql_cases split: sum.splits
      dest!: mark_completed_touches)

lemma sync_run_jobs:
  "sync_run E stamp u a w = (res, w') \<Longrightarrow> jd_jobs (jw_db w') = jd_jobs (jw_db w)"
  using keeps_jobsD [OF keeps_run_account_sync]
  by (auto simp: sync_run_def finish_def split: prod.splits dest!: onjobs_eq)

lemma sync_run_inflight:
  "sync_run E stamp u a w = (res, w') \<Longrightarrow> jw_inflight w' = jw_inflight w - {a}"
  by (auto simp: sync_run_def finish_def split: prod.splits dest!: onjobs_eq)

lemma sync_report_touches:
  "sync_report E stamp i a result w = (res, w') \<Longrightarrow>
     touches i (jd_jobs (jw_db w)) (jd_jobs (jw_db w')) \<and> jw_inflight w' = jw_inflight w"
  using mark_failed_touches [OF _ sanitize_error_safe] mark_completed_touches
  by (fastforce simp: sync_report_def emit_event_def split: sum.splits dest!: onjobs_eq)

lemma run_backup_touches:
  "run_backup P K E D i u pw body w = (res, w') \<Longrightarrow>
     touches i (jd_jobs (jw_db w)) (jd_jobs (jw_db w')) \<and> jw_inflight w' = jw_inflight w"
  using finalize_backup_job_touches
  by (fastforce simp: run_backup_def write_backup_failure_report_def
      split: prod.splits sum.splits dest!: onjobs_eq)

text \<open>Every dispatch writes at most the row of its own job, in one of four ways.\<close>

lemma process_job_touches:
  assumes "process_job P K E D job w = (res, w')" and "distinct (map j_id (jd_jobs (jw_db w)))"
  shows "touches (cj_id job) (jd_jobs (jw_db w)) (jd_jobs (jw_db w'))"
proof (cases "cj_payload job")
  case (SyncAccount a u)
  show ?thesis
  proof (cases "a \<in> jw_inflight w")
    case True
    with SyncAccount assms(1) revert_pending_touches show ?thesis
      by (fastforce simp: process_job_def try_begin_def dest!: onjobs_eq)
  next
    case False
    obtain r w2 where run: "sync_run E (dr_stamp D) u a
        (emit_event (SyncStarted a) (snd (try_begin a w))) = (r, w2)"
      by fastforce
    with SyncAccount False assms(1)
    have "sync_report E (dr_stamp D) (cj_id job) a r w2 = (res, w')"
      by (simp add: process_job_def try_begin_def)
    with sync_report_touches sync_run_jobs [OF run] show ?thesis
      by (fastforce simp: emit_event_def try_begin_def)
  qed
next
  case (UnsnoozeMessage m)
  with assms(1) unsnooze_touches show ?thesis
    by (fastforce simp: process_job_def dest!: onjobs_eq)
next
  case (SendMessage a out)
  with assms handle_send_message_touches show ?thesis
    by (fastforce simp: process_job_def dest!: onjobs_eq)
next
  case (ExportBackup u a pw)
  with assms(1) run_backup_touches show ?thesis by (fastforce simp: process_job_def)
next
  case (ImportBackup u a pw)
  with assms(1) run_backup_touches show ?thesis by (fastforce simp: process_job_def)
qed

section \<open>Claiming\<close>

definition eligible :: "JobEnv \<Rightarrow> string set \<Rightarrow> JobRow \<Rightarrow> bool" where
  "eligible E inflight r \<longleftrightarrow> scan_row E inflight (j_payload r) \<noteq> None"

lemma filter_id_pending:
  assumes "distinct (map j_id js)" and "r \<in> set js" and "j_status r = ''pending''"
  shows "filter (\<lambda>q. j_id q = j_id r \<and> j_status q = ''pending'') js = [r]"
  using assms by (induction js) (auto simp: filter_empty_conv image_iff)

lemma claim_scan_find:
  assumes "jd_faults db = []" and "distinct (map j_id (jd_jobs db))"
    and "\<And>r. r \<in> set rs \<Longrightarrow> r \<in> set (jd_jobs db) \<and> j_status r = ''pending''"
  shows "claim_scan E inflight stamp (map (\<lambda>r. (j_id r, j_payload r)) rs) db =
    (case find (eligible E inflight) rs of
       None \<Rightarrow> (Inr None, db)
     | Some r \<Rightarrow>
        (Inr (Some \<lparr>cj_id = j_id r, cj_status = ''running'',
           cj_payload = the (scan_row E inflight (j_payload r))\<rparr>),
         db\<lparr>jd_jobs := map (\<lambda>q. if j_id q = j_id r \<and> j_status q = ''pending''
              then set_running stamp q else q) (jd_jobs db)\<rparr>))"
  using assms(3)
proof (induction rs)
  case Nil
  then show ?case by simp
next
  case (Cons r rs)
  show ?case
  proof (cases "scan_row E inflight (j_payload r)")
    case None
    with Cons show ?thesis by (simp add: eligible_def)
  next
    case (Some p)
    have "filter (\<lambda>q. j_id q = j_id r \<and> j_status q = ''pending'') (jd_jobs db) = [r]"
      using Cons.prems by (intro filter_id_pending assms(2)) auto
    with assms(1) have "cas_claim stamp (j_id r) db = (Inr 1, db\<lparr>jd_jobs :=
        map (\<lambda>q. if j_id q = j_id r \<and> j_status q = ''pending'' then set_running stamp q else q) (jd_jobs db)\<rparr>)"
      by (simp add: cas_claim_def update_jobs_def)
    with Some show ?thesis by (simp add: eligible_def)
  qed
qed

lemma claim_next_eq:
  assumes "jd_faults db = []" and "distinct (map j_id (jd_jobs db))"
  shows "claim_next E stamp now inflight db =
    (case find (eligible E inflight) (due_rows now (jd_jobs db)) of
       None \<Rightarrow> (Inr None, db)
     | Some r \<Rightarrow>
        (Inr (Some \<lparr>cj_id = j_id r, cj_status = ''running'',
           cj_payload = the (scan_row E inflight (j_payload r))\<rparr>),
         db\<lparr>jd_jobs := map (\<lambda>q. if j_id q = j_id r \<and> j_status q = ''pending''
              then set_running stamp q else q) (jd_jobs db)\<rparr>))"
proof -
  have "select_due now db = (Inr (map (\<lambda>r. (j_id r, j_payload r)) (due_rows now (jd_jobs db))), db)"
    using assms(1) by (simp add: select_due_def select_jobs_def)
  moreover have "r \<in> set (jd_jobs db) \<and> j_status r = ''pending''"
    if "r \<in> set (due_rows now (jd_jobs db))" for r
    using that by (simp add: due_rows_def due_def)
  ultimately show ?thesis
    using claim_scan_find [OF assms] by (simp add: claim_next_def)
qed

lemma find_sorted_least:
  assumes "sorted (map k xs)" and "find P xs = Some x"
  shows "x \<in> set xs \<and> P x \<and> (\<forall>y\<in>set xs. P y \<longrightarrow> k x \<le> k y)"
  using assms by (induction xs) (auto split: if_splits)

lemma find_due_least:
  assumes "find (eligible E inflight) (due_rows now js) = Some r"
  shows "r \<in> set js \<and> due now r \<and> eligible E inflight r \<and>
    (\<forall>q\<in>set js. due now q \<and> eligible E inflight q \<longrightarrow> claim_key r \<le> claim_key q)"
proof -
  have "sorted (map claim_key (due_rows now js))"
    by (simp add: due_rows_def)
  from find_sorted_least [OF this assms] show ?thesis
    by (auto simp: due_rows_def)
qed


text \<open>A concrete environment: payloads are encoded by a kind letter and their fields.\<close>

definition demo_to_json :: "JobPayload \<Rightarrow> string option" where
  "demo_to_json p = (case p of
     SyncAccount a u \<Rightarrow>
       if CHR 0x00 \<in> set a \<or> CHR 0x00 \<in> set u then None else Some (''Y'' @ a @ [CHR 0x00] @ u)
   | UnsnoozeMessage m \<Rightarrow> Some (''U'' @ m)
   | SendMessage a v \<Rightarrow> if v = JNull then Some (''S'' @ a) else None
   | ExportBackup u a w \<Rightarrow> None
   | ImportBackup u a w \<Rightarrow> None)"

definition demo_from_json :: "string \<Rightarrow> JobPayload option" where
  "demo_from_json s = (case s of
     [] \<Rightarrow> None
   | c # cs \<Rightarrow>
      if c = CHR ''Y'' then (case split_on (CHR 0x00) cs of [a, u] \<Rightarrow> Some (SyncAccount a u) | _ \<Rightarrow> None)
      else if c = CHR ''U'' then Some (UnsnoozeMessage cs)
      else if c = CHR ''S'' then Some (SendMessage cs JNull)
      else None)"

definition demo_env :: JobEnv where
  "demo_env = \<lparr>je_to_json = demo_to_json, je_from_json = demo_from_json,
     je_value_to_json = (\<lambda>_. Some ''null''), je_error_chain = (\<lambda>_. ''boom''), je_scrub = (\<lambda>s. s),
     je_show_backup = (\<lambda>_. ''backup''), je_show_crypto = (\<lambda>_. ''crypto''), je_json_error = (\<lambda>_. ''json''),
     je_utf8_error = (\<lambda>_. ''utf8''), je_report = (\<lambda>s. s), je_rfc3339 = (\<lambda>_. None),
     je_naive = (\<lambda>_ _. None), je_spam_pass = (\<lambda>_ ms. ms),
     je_export_run = (\<lambda>_ _ _ _. Inr ()), je_import_run = (\<lambda>_ _ _ _. Inr ())\<rparr>"

definition demo_row :: "string \<Rightarrow> string \<Rightarrow> string \<Rightarrow> JobRow" where
  "demo_row i run_at payload = \<lparr>j_id = i, j_kind = ''sync_account'', j_run_at = run_at,
     j_payload = payload, j_status = ''pending'', j_attempts = 0, j_last_error = None,
     j_last_error_detail = None, j_created_at = ''c'', j_updated_at = ''c''\<rparr>"

definition demo_jobdb :: "JobRow list \<Rightarrow> JobDb" where
  "demo_jobdb js = \<lparr>jd_backend = Sqlite, jd_uuid_parse = (\<lambda>_. None), jd_faults = [], jd_jobs = js,
     jd_accounts = [\<lparr>ma_id = ''a1'', ma_user_id = ''u1'', ma_send_protocol = Some ''smtp'',
       ma_receive_protocol = None, ma_protocol = ''imap'', ma_is_active = True,
       ma_sync_enabled = True, ma_last_sync_at = None\<rparr>], jd_messages = []\<rparr>"

lemmas demo_job_simps =
  demo_to_json_def demo_from_json_def demo_env_def demo_row_def demo_jobdb_def

lemma demo_claim:
  "claim_next demo_env ''t'' ''5'' {}
     (demo_jobdb [demo_row ''j1'' ''9'' ''Um1'', demo_row ''j2'' ''4'' ''Um2'', demo_row ''j3'' ''3'' ''?'']) =
   (Inr (Some \<lparr>cj_id = ''j2'', cj_status = ''running'', cj_payload = UnsnoozeMessage ''m2''\<rparr>),
    demo_jobdb [demo_row ''j1'' ''9'' ''Um1'', set_running ''t'' (demo_row ''j2'' ''4'' ''Um2''),
      demo_row ''j3'' ''3'' ''?''])"
  by (subst claim_next_eq)
     (simp_all add: demo_job_simps due_rows_def due_def claim_key_def eligible_def scan_row_def
       set_running_def)


section \<open>A dispatch settles its job\<close>

definition settles :: "string \<Rightarrow> (JobDb, SqlxError, nat) eff \<Rightarrow> JobDb \<Rightarrow> bool" where
  "settles i m db \<longleftrightarrow>
     (\<exists>n db'. m db = (Inr n, db') \<and> (\<forall>r\<in>set (jd_jobs db'). j_id r = i \<longrightarrow> j_status r \<noteq> ''running''))"

lemma update_settles:
  assumes "jd_faults db = []" and "\<And>r. j_id (f r) = j_id r" and "\<And>r. j_status (f r) \<noteq> ''running''"
  shows "settles i (update_jobs (\<lambda>r. j_id r = i) f) db"
  using assms by (auto simp: settles_def update_jobs_def)

lemma writes_settle:
  assumes "jd_faults db = []"
  shows "settles i (mark_completed stamp i) db" "settles i (mark_failed stamp i c d) db"
    "settles i (reschedule_transient stamp after i c n) db" "settles i (revert_pending stamp i) db"
    "settles i (finalize_backup_job E stamp i result) db"
  unfolding mark_completed_def mark_failed_def reschedule_transient_def revert_pending_def
    finalize_backup_job_def
  by (auto intro!: update_settles assms split: sum.split)

lemma settles_sql_read:
  assumes "jd_faults db = []" and "settles i (f (q db)) db"
  shows "settles i (bindE (sql (\<lambda>db. (Inr (q db), db))) f) db"
  using assms by (simp add: settles_def)

lemma send_failure_settles:
  assumes "jd_faults db = []"
  shows "settles i (send_failure stamp after i c) db"
  unfolding send_failure_def select_jobs_def
  by (rule settles_sql_read [OF assms]) (simp only: writes_settle [OF assms] split: if_split, simp)

definition bindable :: "JobDb \<Rightarrow> JobPayload \<Rightarrow> bool" where
  "bindable db p = (case p of
     UnsnoozeMessage m \<Rightarrow> fk_id_value db m \<noteq> Inl Protocol
   | SendMessage a _ \<Rightarrow> fk_id_value db a \<noteq> Inl Protocol
   | _ \<Rightarrow> True)"

lemma fk_id_value_ok: "fk_id_value db a \<noteq> Inl Protocol \<Longrightarrow> \<exists>b. fk_id_value db a = Inr b"
  by (auto simp: fk_id_value_def split: DbBackend.splits option.splits)

lemma handle_send_message_settles:
  assumes "jd_faults db = []" and "fk_id_value db a \<noteq> Inl Protocol"
  shows "settles i (handle_send_message E app stamp after i a out) db"
proof -
  obtain b where b: "fk_id_value db a = Inr b"
    using fk_id_value_ok [OF assms(2)] by blast
  show ?thesis
  proof (cases "je_value_to_json E out")
    case None
    with writes_settle [OF assms(1)] show ?thesis
      by (simp add: handle_send_message_def)
  next
    case (Some raw)
    have "handle_send_message E app stamp after i a out db =
      bindE (sql (\<lambda>db. (Inr (Option.bind (find (\<lambda>m. ma_id m = b) (jd_accounts db)) ma_send_protocol), db)))
       (\<lambda>protocol. case protocol of
          None \<Rightarrow> mark_failed stamp i ''send protocol not configured'' None
        | Some p \<Rightarrow> if p = [] then mark_failed stamp i ''send protocol not configured'' None
            else (case send app p of
                Inl _ \<Rightarrow> mark_failed stamp i ''unknown send protocol'' None
              | Inr plugin \<Rightarrow> (case sp_send plugin a raw of
                    Inr _ \<Rightarrow> mark_completed stamp i
                  | Inl c \<Rightarrow> send_failure stamp after i c))) db"
      using Some b by (simp add: handle_send_message_def)
    moreover have "settles i (bindE (sql (\<lambda>db. (Inr (Option.bind (find (\<lambda>m. ma_id m = b) (jd_accounts db)) ma_send_protocol), db)))
       (\<lambda>protocol. case protocol of
          None \<Rightarrow> mark_failed stamp i ''send protocol not configured'' None
        | Some p \<Rightarrow> if p = [] then mark_failed stamp i ''send protocol not configured'' None
            else (case send app p of
                Inl _ \<Rightarrow> mark_failed stamp i ''unknown send protocol'' None
              | Inr plugin \<Rightarrow> (case sp_send plugin a raw of
                    Inr _ \<Rightarrow> mark_completed stamp i
                  | Inl c \<Rightarrow> send_failure stamp after i c)))) db"
      by (rule settles_sql_read [OF assms(1)])
         (auto simp: writes_settle [OF assms(1)] send_failure_settles [OF assms(1)]
           split: option.split sum.split)
    ultimately show ?thesis by (simp add: settles_def)
  qed
qed

lemma unsnooze_settles:
  assumes "jd_faults db = []" and "fk_id_value db m \<noteq> Inl Protocol"
  shows "settles i (unsnooze stamp i m) db"
proof -
  obtain b where b: "fk_id_value db m = Inr b"
    using fk_id_value_ok [OF assms(2)] by blast
  have "settles i (mark_completed stamp i) d" if "jd_faults d = []" for d
    using writes_settle(1) [OF that] .
  with assms(1) b show ?thesis by (simp add: settles_def unsnooze_def)
qed

lemma run_account_sync_faults:
  "jd_faults db = [] \<Longrightarrow> jd_faults (snd (run_account_sync E app stamp u a db)) = []"
  unfolding run_account_sync_def
  by (auto simp: bindE_def map_errE_def Let_def split: prod.splits sum.splits option.splits if_splits)

lemma sync_run_faults:
  "sync_run E stamp u a w = (r, w') \<Longrightarrow> jd_faults (jw_db w) = [] \<Longrightarrow> jd_faults (jw_db w') = []"
  using run_account_sync_faults [of "jw_db w" E "jw_app w" stamp u a]
  by (auto simp: sync_run_def finish_def onjobs_def split: prod.splits)

lemma onjobs_settles:
  "settles i m (jw_db w) \<Longrightarrow> \<exists>n w'. onjobs m w = (Inr n, w') \<and>
     (\<forall>r\<in>set (jd_jobs (jw_db w')). j_id r = i \<longrightarrow> j_status r \<noteq> ''running'')"
  by (auto simp: settles_def onjobs_def)

lemma sync_report_settles:
  assumes "jd_faults (jw_db w) = []"
  shows "\<exists>n w'. sync_report E stamp i a result w = (Inr n, w') \<and>
     (\<forall>r\<in>set (jd_jobs (jw_db w')). j_id r = i \<longrightarrow> j_status r \<noteq> ''running'')"
  unfolding sync_report_def
  by (cases result) (auto intro!: onjobs_settles writes_settle simp: emit_event_def assms)

lemma run_backup_settles:
  assumes "jd_faults (jw_db w) = []"
  shows "\<exists>n w'. run_backup P K E D i u pw body w = (Inr n, w') \<and>
     (\<forall>r\<in>set (jd_jobs (jw_db w')). j_id r = i \<longrightarrow> j_status r \<noteq> ''running'')"
proof -
  obtain res us where "unwrap_backup_password P E D u pw (jw_users w) = (res, us)"
    by fastforce
  then show ?thesis
    unfolding run_backup_def
    by (cases res) (auto intro!: onjobs_settles writes_settle
        simp: write_backup_failure_report_def assms)
qed


definition demo_draws :: Draws where
  "demo_draws = \<lparr>dr_nonces = (\<lambda>_. []), dr_wrap_nonce = [], dr_fresh_dek = [], dr_master = None,
     dr_now = 0, dr_stamp = ''t'', dr_after = show_int\<rparr>"

definition demo_smtp :: "string + unit \<Rightarrow> App" where
  "demo_smtp answer = register_send \<lparr>sp_id = ''smtp'', sp_send = (\<lambda>_ _. answer)\<rparr> app_new"

definition demo_jobworld :: "JobRow list \<Rightarrow> string + unit \<Rightarrow> MemoryKv JobWorld" where
  "demo_jobworld js answer = \<lparr>jw_db = demo_jobdb js, jw_users = demo_db, jw_kv = Map.empty,
     jw_inflight = {}, jw_app = demo_smtp answer\<rparr>"

definition demo_send_job :: ClaimedJob where
  "demo_send_job = \<lparr>cj_id = ''j1'', cj_status = ''running'', cj_payload = SendMessage ''a1'' JNull\<rparr>"


lemma update_one:
  assumes "jd_faults db = []" and "distinct (map j_id (jd_jobs db))" and "r \<in> set (jd_jobs db)"
  shows "update_jobs (\<lambda>q. j_id q = j_id r) f db =
    (Inr 1, db\<lparr>jd_jobs := map (\<lambda>q. if q = r then f r else q) (jd_jobs db)\<rparr>)"
proof -
  have same: "j_id q = j_id r \<longleftrightarrow> q = r" if "q \<in> set (jd_jobs db)" for q
    using assms(2,3) that by (auto simp: distinct_map inj_on_def)
  have "filter (\<lambda>q. j_id q = j_id r) js = [r]" if "distinct (map j_id js)" "r \<in> set js" for js
    using that by (induction js) (auto simp: filter_empty_conv image_iff)
  with assms same show ?thesis
    by (simp add: update_jobs_def cong: map_cong)
qed

text \<open>The row a failed send leaves behind.\<close>

definition failed_send_row :: "string \<Rightarrow> (int \<Rightarrow> string) \<Rightarrow> string \<Rightarrow> JobRow \<Rightarrow> JobRow" where
  "failed_send_row stamp after c r =
     (if c \<in> {''SMTP transient'', ''JMAP transient''} \<and> j_attempts r < 2
      then r\<lparr>j_status := ''pending'', j_last_error := Some c, j_attempts := j_attempts r + 1,
             j_run_at := after (if j_attempts r = 0 then 30 else 60), j_updated_at := stamp\<rparr>
      else r\<lparr>j_status := ''failed'',
             j_last_error := Some (if starts_with c ''SMTP '' \<or> starts_with c ''JMAP ''
                                   then c else ''send error''),
             j_last_error_detail := None, j_attempts := j_attempts r + 1, j_updated_at := stamp\<rparr>)"



end
