(* ===== verification/Lyra_Pool.thy ===== *)
theory Lyra_Pool
  imports Lyra_Jobs
begin

text \<open>
  The worker pool of \<^verbatim>\<open>jobs.rs\<close>: the poll loop of \<^verbatim>\<open>spawn_workers\<close> with the semaphore of
  \<^verbatim>\<open>try_claim_with_permit\<close>, the tasks it spawns, HTTP handlers that enqueue, and restarts.

  A task may be suspended at each \<^verbatim>\<open>await\<close>. The poll loop is cut between the snapshot, the check
  of one row and its compare-and-set; a sync job between \<^verbatim>\<open>try_begin\<close>, the sync and the report.
  The other jobs read and write only their own row and are one step. Plugin answers, database
  faults, the user table and the kv store change freely between the steps.
\<close>

datatype Phase = Claimed | Reverting | Syncing | Synced "SyncError + SyncOutcome"

record Worker =
  wk_job :: ClaimedJob
  wk_phase :: Phase

datatype PollState = Polling | Scanning "(string \<times> string) list"
  | Claiming string JobPayload "(string \<times> string) list"

record 's Pool =
  p_world :: "'s JobWorld"
  p_permits :: nat
  p_poll :: PollState
  p_workers :: "Worker list"

section \<open>Steps of the poll loop\<close>

text \<open>\<^verbatim>\<open>try_acquire_owned\<close> and the select of \<^verbatim>\<open>claim_next\<close>.\<close>

definition poll_begin :: "string \<Rightarrow> 's Pool \<Rightarrow> 's Pool" where
  "poll_begin now s =
     (if p_permits s = 0 then s
      else case onjobs (select_due now) (p_world s) of
          (Inl e, w) \<Rightarrow> s\<lparr>p_world := w\<rparr>
        | (Inr rows, w) \<Rightarrow> s\<lparr>p_world := w, p_permits := p_permits s - 1, p_poll := Scanning rows\<rparr>)"

definition poll_check :: "JobEnv \<Rightarrow> (string \<times> string) list \<Rightarrow> 's Pool \<Rightarrow> 's Pool" where
  "poll_check E rows s =
     (case rows of
        [] \<Rightarrow> s\<lparr>p_permits := p_permits s + 1, p_poll := Polling\<rparr>
      | (i, json) # rest \<Rightarrow>
         (case scan_row E (jw_inflight (p_world s)) json of
            None \<Rightarrow> s\<lparr>p_poll := Scanning rest\<rparr>
          | Some p \<Rightarrow> s\<lparr>p_poll := Claiming i p rest\<rparr>))"

definition poll_claim :: "string \<Rightarrow> string \<Rightarrow> JobPayload \<Rightarrow> (string \<times> string) list \<Rightarrow> 's Pool \<Rightarrow> 's Pool" where
  "poll_claim stamp i p rest s =
     (case onjobs (cas_claim stamp i) (p_world s) of
        (Inl e, w) \<Rightarrow> s\<lparr>p_world := w, p_permits := p_permits s + 1, p_poll := Polling\<rparr>
      | (Inr n, w) \<Rightarrow>
          if n = 1 then s\<lparr>p_world := w, p_poll := Polling,
            p_workers := p_workers s @ [\<lparr>wk_job = \<lparr>cj_id = i, cj_status = ''running'', cj_payload = p\<rparr>,
              wk_phase = Claimed\<rparr>]\<rparr>
          else s\<lparr>p_world := w, p_poll := Scanning rest\<rparr>)"

section \<open>Steps of a worker\<close>

text \<open>A worker is given with its neighbours in the list. When its future ends, by a value or by an
  error, the permit is released.\<close>

definition worker_done :: "Worker list \<Rightarrow> Worker list \<Rightarrow> 's JobWorld \<Rightarrow> 's Pool \<Rightarrow> 's Pool" where
  "worker_done xs ys w s = s\<lparr>p_world := w, p_permits := p_permits s + 1, p_workers := xs @ ys\<rparr>"

definition worker_start :: "Worker list \<Rightarrow> Worker \<Rightarrow> Worker list \<Rightarrow> string \<Rightarrow> 's Pool \<Rightarrow> 's Pool" where
  "worker_start xs wk ys account_id s =
     (case try_begin account_id (p_world s) of
        (False, w) \<Rightarrow> s\<lparr>p_world := w, p_workers := xs @ wk\<lparr>wk_phase := Reverting\<rparr> # ys\<rparr>
      | (True, w) \<Rightarrow> s\<lparr>p_world := emit_event (SyncStarted account_id) w,
                       p_workers := xs @ wk\<lparr>wk_phase := Syncing\<rparr> # ys\<rparr>)"

definition worker_revert :: "string \<Rightarrow> Worker list \<Rightarrow> Worker \<Rightarrow> Worker list \<Rightarrow> 's Pool \<Rightarrow> 's Pool" where
  "worker_revert stamp xs wk ys s =
     worker_done xs ys (snd (onjobs (revert_pending stamp (cj_id (wk_job wk))) (p_world s))) s"

definition worker_sync ::
  "JobEnv \<Rightarrow> string \<Rightarrow> Worker list \<Rightarrow> Worker \<Rightarrow> Worker list \<Rightarrow> string \<Rightarrow> string \<Rightarrow> 's Pool \<Rightarrow> 's Pool" where
  "worker_sync E stamp xs wk ys account_id user_id s =
     (case sync_run E stamp user_id account_id (p_world s) of
        (result, w) \<Rightarrow> s\<lparr>p_world := w, p_workers := xs @ wk\<lparr>wk_phase := Synced result\<rparr> # ys\<rparr>)"

definition worker_report ::
  "JobEnv \<Rightarrow> string \<Rightarrow> Worker list \<Rightarrow> Worker \<Rightarrow> Worker list \<Rightarrow> string \<Rightarrow> SyncError + SyncOutcome \<Rightarrow> 's Pool \<Rightarrow> 's Pool" where
  "worker_report E stamp xs wk ys account_id result s =
     worker_done xs ys (snd (sync_report E stamp (cj_id (wk_job wk)) account_id result (p_world s))) s"

definition worker_run ::
  "Primitives \<Rightarrow> 's KvStore \<Rightarrow> JobEnv \<Rightarrow> Draws \<Rightarrow> Worker list \<Rightarrow> Worker \<Rightarrow> Worker list \<Rightarrow> 's Pool \<Rightarrow> 's Pool" where
  "worker_run P K E D xs wk ys s =
     worker_done xs ys (snd (process_job P K E D (wk_job wk) (p_world s))) s"

section \<open>The pool as a step relation\<close>

definition is_sync :: "JobPayload \<Rightarrow> bool" where
  "is_sync p = (case p of SyncAccount _ _ \<Rightarrow> True | _ \<Rightarrow> False)"

definition set_db :: "JobDb \<Rightarrow> 's Pool \<Rightarrow> 's Pool" where
  "set_db db s = s\<lparr>p_world := (p_world s)\<lparr>jw_db := db\<rparr>\<rparr>"

text \<open>A process start with \<open>max_concurrent\<close> workers: nothing of the old process but the database
  survives, and \<^verbatim>\<open>reclaim_stale_running\<close> runs first (its error is only logged).\<close>

definition spawn_workers :: "nat \<Rightarrow> string \<Rightarrow> 's JobWorld \<Rightarrow> 's Pool" where
  "spawn_workers max_concurrent stamp w =
     \<lparr>p_world = w\<lparr>jw_db := snd (reclaim_stale_running stamp (jw_db w)), jw_inflight := {}\<rparr>,
      p_permits = max max_concurrent 1, p_poll = Polling, p_workers = []\<rparr>"

inductive pool_step ::
  "Primitives \<Rightarrow> 's KvStore \<Rightarrow> JobEnv \<Rightarrow> nat \<Rightarrow> 's Pool \<Rightarrow> 's Pool \<Rightarrow> bool"
  for P K E mx where
  begin_poll: "p_poll s = Polling \<Longrightarrow> pool_step P K E mx s (poll_begin now s)"
| check: "p_poll s = Scanning rows \<Longrightarrow> pool_step P K E mx s (poll_check E rows s)"
| claim: "p_poll s = Claiming i p rest \<Longrightarrow> pool_step P K E mx s (poll_claim stamp i p rest s)"
| start: "p_workers s = xs @ wk # ys \<Longrightarrow> wk_phase wk = Claimed \<Longrightarrow>
    cj_payload (wk_job wk) = SyncAccount a u \<Longrightarrow> pool_step P K E mx s (worker_start xs wk ys a s)"
| revert: "p_workers s = xs @ wk # ys \<Longrightarrow> wk_phase wk = Reverting \<Longrightarrow>
    pool_step P K E mx s (worker_revert stamp xs wk ys s)"
| sync: "p_workers s = xs @ wk # ys \<Longrightarrow> wk_phase wk = Syncing \<Longrightarrow>
    cj_payload (wk_job wk) = SyncAccount a u \<Longrightarrow>
    pool_step P K E mx s (worker_sync E stamp xs wk ys a u s)"
| report: "p_workers s = xs @ wk # ys \<Longrightarrow> wk_phase wk = Synced result \<Longrightarrow>
    cj_payload (wk_job wk) = SyncAccount a u \<Longrightarrow>
    pool_step P K E mx s (worker_report E stamp xs wk ys a result s)"
| run: "p_workers s = xs @ wk # ys \<Longrightarrow> wk_phase wk = Claimed \<Longrightarrow> \<not> is_sync (cj_payload (wk_job wk)) \<Longrightarrow>
    pool_step P K E mx s (worker_run P K E D xs wk ys s)"
| enqueue_job: "pool_step P K E mx s (set_db (snd (enqueue E i stamp p run_at (jw_db (p_world s)))) s)"
| environment: "pool_step P K E mx s (s\<lparr>p_world := (p_world s)\<lparr>jw_app := app, jw_users := us,
    jw_kv := kv, jw_db := (jw_db (p_world s))\<lparr>jd_faults := faults, jd_accounts := accs,
      jd_messages := msgs\<rparr>\<rparr>\<rparr>)"
| restart: "pool_step P K E mx s (spawn_workers mx stamp (p_world s))"

inductive pool_reach ::
  "Primitives \<Rightarrow> 's KvStore \<Rightarrow> JobEnv \<Rightarrow> nat \<Rightarrow> 's Pool \<Rightarrow> 's Pool \<Rightarrow> bool"
  for P K E mx s where
  init: "pool_reach P K E mx s s"
| step: "pool_reach P K E mx s t \<Longrightarrow> pool_step P K E mx t u \<Longrightarrow> pool_reach P K E mx s u"

section \<open>Invariant\<close>

definition syncing_account :: "Worker \<Rightarrow> string option" where
  "syncing_account wk =
     (if wk_phase wk = Syncing
      then (case cj_payload (wk_job wk) of SyncAccount a _ \<Rightarrow> Some a | _ \<Rightarrow> None) else None)"

definition busy_accounts :: "Worker list \<Rightarrow> string list" where
  "busy_accounts ws = List.map_filter syncing_account ws"

definition owned :: "JobRow list \<Rightarrow> Worker \<Rightarrow> bool" where
  "owned js wk \<longleftrightarrow> (\<exists>r\<in>set js. j_id r = cj_id (wk_job wk) \<and> j_status r = ''running'')"

abbreviation jobs_of :: "'s Pool \<Rightarrow> JobRow list" where
  "jobs_of s \<equiv> jd_jobs (jw_db (p_world s))"

abbreviation worker_ids :: "'s Pool \<Rightarrow> string list" where
  "worker_ids s \<equiv> map (\<lambda>wk. cj_id (wk_job wk)) (p_workers s)"

definition pool_inv :: "nat \<Rightarrow> 's Pool \<Rightarrow> bool" where
  "pool_inv mx s \<longleftrightarrow>
     p_permits s + (if p_poll s = Polling then 0 else 1) + length (p_workers s) = max mx 1 \<and>
     distinct (map j_id (jobs_of s)) \<and>
     distinct (worker_ids s) \<and>
     list_all (owned (jobs_of s)) (p_workers s) \<and>
     jw_inflight (p_world s) = set (busy_accounts (p_workers s)) \<and>
     distinct (busy_accounts (p_workers s))"

lemma busy_accounts_simps [simp]:
  "busy_accounts [] = []"
  "busy_accounts (wk # ws) =
     (case syncing_account wk of None \<Rightarrow> busy_accounts ws | Some a \<Rightarrow> a # busy_accounts ws)"
  "busy_accounts (xs @ ys) = busy_accounts xs @ busy_accounts ys"
  by (simp_all add: busy_accounts_def List.map_filter_def split: option.split)

lemma not_syncing: "wk_phase wk \<noteq> Syncing \<Longrightarrow> syncing_account wk = None"
  by (simp add: syncing_account_def)

text \<open>A change of the table is good when it keeps the ids and every running row outside \<open>I\<close>.\<close>

definition keeps_running :: "string set \<Rightarrow> JobRow list \<Rightarrow> JobRow list \<Rightarrow> bool" where
  "keeps_running I js js' \<longleftrightarrow> map j_id js' = map j_id js \<and>
     (\<forall>r\<in>set js. j_status r = ''running'' \<and> j_id r \<notin> I \<longrightarrow> r \<in> set js')"

lemma keeps_running_refl [simp]: "keeps_running I js js"
  by (simp add: keeps_running_def)

lemma keeps_running_owned:
  "keeps_running I js js' \<Longrightarrow> owned js wk \<Longrightarrow> cj_id (wk_job wk) \<notin> I \<Longrightarrow> owned js' wk"
  by (auto simp: keeps_running_def owned_def)

lemma touches_keeps_running: "touches i js js' \<Longrightarrow> keeps_running {i} js js'"
  unfolding touches_def
proof (elim disjE)
  assume all: "list_all2 (\<lambda>r r'. if j_id r = i then worker_write r r' else r' = r) js js'"
  have "map j_id js' = map j_id js"
    using all by (induction rule: list_all2_induct) (auto simp: worker_write_def split: if_splits)
  moreover have "r \<in> set js'" if "r \<in> set js" "j_id r \<noteq> i" for r
    using all that by (induction rule: list_all2_induct) auto
  ultimately show ?thesis
    by (simp add: keeps_running_def)
qed simp

lemma cas_keeps_running:
  "cas_claim stamp i db = (res, db') \<Longrightarrow> keeps_running {} (jd_jobs db) (jd_jobs db')"
  unfolding cas_claim_def update_jobs_def
  by (elim sql_cases) (auto simp: keeps_running_def set_running_def comp_def image_iff)

lemma cas_success:
  assumes "cas_claim stamp i db = (Inr n, db')" and "n = 1" and "distinct (map j_id (jd_jobs db))"
  shows "(\<exists>r\<in>set (jd_jobs db'). j_id r = i \<and> j_status r = ''running'') \<and>
    (\<forall>r\<in>set (jd_jobs db). j_id r = i \<longrightarrow> j_status r \<noteq> ''running'')"
  using assms(1) unfolding cas_claim_def update_jobs_def
proof (cases rule: sql_cases)
  case (2 bs)
  with assms(2) have n: "length (filter (\<lambda>r. j_id r = i \<and> j_status r = ''pending'') (jd_jobs db)) = 1"
    and db': "jd_jobs db' = map (\<lambda>r. if j_id r = i \<and> j_status r = ''pending'' then set_running stamp r
      else r) (jd_jobs db)"
    by auto
  from n obtain r where "r \<in> set (filter (\<lambda>r. j_id r = i \<and> j_status r = ''pending'') (jd_jobs db))"
    by (cases "filter (\<lambda>r. j_id r = i \<and> j_status r = ''pending'') (jd_jobs db)") auto
  then have r: "r \<in> set (jd_jobs db)" "j_id r = i" "j_status r = ''pending''"
    by auto
  have "j_status q \<noteq> ''running''" if q: "q \<in> set (jd_jobs db)" "j_id q = i" for q
  proof -
    have "q = r"
      using assms(3) r q by (simp add: distinct_map inj_on_def)
    with r show ?thesis by simp
  qed
  moreover have "set_running stamp r \<in> set (jd_jobs db')"
    using r unfolding db' set_map by (intro image_eqI [of _ _ r]) simp_all
  ultimately show ?thesis
    using r by (intro conjI ballI impI bexI [of _ "set_running stamp r"]) (simp_all add: set_running_def)
qed simp

lemma enqueue_cases:
  assumes "enqueue E i stamp p run_at db = (res, db')"
  obtains "jd_jobs db' = jd_jobs db"
  | r where "jd_jobs db' = jd_jobs db @ [r]" and "j_id r \<notin> set (map j_id (jd_jobs db))"
      and "j_status r = ''pending''" and "j_attempts r = 0" and "j_last_error r = None"
  using assms by (auto simp: enqueue_def sql_def split: option.splits list.splits if_splits)

text \<open>The frame of the invariant: a world with the same in-flight set whose table kept the running
  rows of the remaining workers.\<close>

lemma owned_frame:
  assumes "keeps_running I js js'" and "list_all (owned js) ws"
    and "\<And>wk. wk \<in> set ws \<Longrightarrow> cj_id (wk_job wk) \<notin> I"
  shows "list_all (owned js') ws"
  using assms by (auto simp: list_all_iff intro: keeps_running_owned)

lemma worker_done_inv:
  assumes inv: "pool_inv mx s" and ws: "p_workers s = xs @ wk # ys" and ph: "wk_phase wk \<noteq> Syncing"
    and t: "touches (cj_id (wk_job wk)) (jobs_of s) (jd_jobs (jw_db w))"
    and fl: "jw_inflight w = jw_inflight (p_world s)"
  shows "pool_inv mx (worker_done xs ys w s)"
proof -
  note k = touches_keeps_running [OF t]
  have ids: "distinct (map j_id (jd_jobs (jw_db w)))"
    using k inv by (simp add: keeps_running_def pool_inv_def)
  have "list_all (owned (jobs_of s)) (xs @ ys)"
    and "wk' \<in> set (xs @ ys) \<Longrightarrow> cj_id (wk_job wk') \<notin> {cj_id (wk_job wk)}" for wk'
    using inv ws by (auto simp: pool_inv_def image_iff)
  then have "list_all (owned (jd_jobs (jw_db w))) (xs @ ys)"
    by (rule owned_frame [OF k])
  with inv ws ids fl not_syncing [OF ph] show ?thesis
    by (auto simp: pool_inv_def worker_done_def)
qed

lemma poll_begin_inv: "pool_inv mx s \<Longrightarrow> p_poll s = Polling \<Longrightarrow> pool_inv mx (poll_begin now s)"
proof -
  assume *: "pool_inv mx s" "p_poll s = Polling"
  obtain res db' where sel: "select_due now (jw_db (p_world s)) = (res, db')"
    by fastforce
  then have "jd_jobs db' = jobs_of s"
    unfolding select_due_def by (auto elim: select_jobs_cases)
  with * sel show ?thesis
    by (cases res) (simp_all add: poll_begin_def pool_inv_def onjobs_def)
qed

lemma poll_check_inv: "pool_inv mx s \<Longrightarrow> p_poll s = Scanning rows \<Longrightarrow> pool_inv mx (poll_check E rows s)"
  by (auto simp: poll_check_def pool_inv_def split: list.splits option.splits)

lemma poll_claim_inv:
  assumes inv: "pool_inv mx s" and poll: "p_poll s = Claiming i p rest"
  shows "pool_inv mx (poll_claim stamp i p rest s)"
proof -
  obtain res db' where cas: "cas_claim stamp i (jw_db (p_world s)) = (res, db')"
    by fastforce
  note k = cas_keeps_running [OF cas]
  have ids: "distinct (map j_id (jd_jobs db'))"
    using k inv by (simp add: keeps_running_def pool_inv_def)
  have own: "list_all (owned (jd_jobs db')) (p_workers s)"
    using inv by (intro owned_frame [OF k]) (auto simp: pool_inv_def)
  show ?thesis
  proof (cases "res = Inr 1")
    case True
    have succ: "(\<exists>r\<in>set (jd_jobs db'). j_id r = i \<and> j_status r = ''running'') \<and>
        (\<forall>r\<in>set (jobs_of s). j_id r = i \<longrightarrow> j_status r \<noteq> ''running'')"
      using cas_success cas True inv unfolding pool_inv_def by blast
    then have "i \<notin> set (worker_ids s)"
      using inv by (auto simp: pool_inv_def list_all_iff owned_def)
    with succ inv poll True cas ids own show ?thesis
      by (simp add: poll_claim_def onjobs_def pool_inv_def owned_def syncing_account_def)
  next
    case False
    with inv poll cas ids own show ?thesis
      by (cases res) (auto simp: poll_claim_def onjobs_def pool_inv_def)
  qed
qed

lemma worker_start_inv:
  assumes "pool_inv mx s" and "p_workers s = xs @ wk # ys" and "wk_phase wk = Claimed"
    and "cj_payload (wk_job wk) = SyncAccount a u"
  shows "pool_inv mx (worker_start xs wk ys a s)"
proof (cases "a \<in> jw_inflight (p_world s)")
  case True
  have "syncing_account (wk\<lparr>wk_phase := Reverting\<rparr>) = None" "syncing_account wk = None"
    using assms(3) by (simp_all add: syncing_account_def)
  with assms(1,2) True show ?thesis
    by (auto simp: pool_inv_def worker_start_def try_begin_def owned_def)
next
  case False
  have "syncing_account (wk\<lparr>wk_phase := Syncing\<rparr>) = Some a" "syncing_account wk = None"
    using assms(3,4) by (simp_all add: syncing_account_def)
  with assms(1,2) False show ?thesis
    by (auto simp: pool_inv_def worker_start_def try_begin_def owned_def emit_event_def)
qed

lemma worker_sync_inv:
  assumes inv: "pool_inv mx s" and ws: "p_workers s = xs @ wk # ys" and ph: "wk_phase wk = Syncing"
    and p: "cj_payload (wk_job wk) = SyncAccount a u"
  shows "pool_inv mx (worker_sync E stamp xs wk ys a u s)"
proof -
  obtain result w where run: "sync_run E stamp u a (p_world s) = (result, w)"
    by fastforce
  have acc: "syncing_account (wk\<lparr>wk_phase := Synced result\<rparr>) = None" "syncing_account wk = Some a"
    using ph p by (simp_all add: syncing_account_def)
  have "jw_inflight w = set (busy_accounts (xs @ wk\<lparr>wk_phase := Synced result\<rparr> # ys))"
    using sync_run_inflight [OF run] inv ws acc by (auto simp: pool_inv_def)
  with run inv ws acc sync_run_jobs [OF run] show ?thesis
    by (auto simp: pool_inv_def worker_sync_def owned_def)
qed

lemma onjobs_snd: "snd (onjobs m w) = w\<lparr>jw_db := snd (m (jw_db w))\<rparr>"
  by (simp add: onjobs_def split: prod.splits)

lemma touches_snd:
  "touches i (jd_jobs db) (jd_jobs (snd (revert_pending stamp i db)))"
  "touches i (jd_jobs (jw_db w)) (jd_jobs (jw_db (snd (sync_report E stamp i a result w))))"
  "jw_inflight (snd (sync_report E stamp i a result w)) = jw_inflight w"
  "jw_inflight (snd (run_backup P K E D i u pw body w)) = jw_inflight w"
  by (metis prod.collapse revert_pending_touches sync_report_touches run_backup_touches)+

lemma process_job_touches_snd:
  "distinct (map j_id (jd_jobs (jw_db w))) \<Longrightarrow>
     touches (cj_id job) (jd_jobs (jw_db w)) (jd_jobs (jw_db (snd (process_job P K E D job w))))"
  by (metis prod.collapse process_job_touches)

lemma process_job_inflight:
  "\<not> is_sync (cj_payload job) \<Longrightarrow> jw_inflight (snd (process_job P K E D job w)) = jw_inflight w"
  by (cases "cj_payload job") (simp_all add: process_job_def is_sync_def onjobs_snd touches_snd)

lemma worker_run_inv:
  assumes "pool_inv mx s" and "p_workers s = xs @ wk # ys" and "wk_phase wk = Claimed"
    and "\<not> is_sync (cj_payload (wk_job wk))"
  shows "pool_inv mx (worker_run P K E D xs wk ys s)"
  unfolding worker_run_def
proof (rule worker_done_inv [OF assms(1,2)])
  show "touches (cj_id (wk_job wk)) (jobs_of s)
      (jd_jobs (jw_db (snd (process_job P K E D (wk_job wk) (p_world s)))))"
    using assms(1) by (intro process_job_touches_snd) (simp add: pool_inv_def)
qed (simp_all add: assms process_job_inflight)

lemma worker_revert_inv:
  assumes "pool_inv mx s" and "p_workers s = xs @ wk # ys" and "wk_phase wk = Reverting"
  shows "pool_inv mx (worker_revert stamp xs wk ys s)"
  unfolding worker_revert_def
  by (rule worker_done_inv [OF assms(1,2)]) (simp_all add: assms(3) onjobs_snd touches_snd)

lemma worker_report_inv:
  assumes "pool_inv mx s" and "p_workers s = xs @ wk # ys" and "wk_phase wk = Synced result"
  shows "pool_inv mx (worker_report E stamp xs wk ys a result s)"
  unfolding worker_report_def
  by (rule worker_done_inv [OF assms(1,2)]) (simp_all add: assms(3) touches_snd)

lemma enqueue_inv:
  assumes "pool_inv mx s"
  shows "pool_inv mx (set_db (snd (enqueue E i stamp p run_at (jw_db (p_world s)))) s)"
proof -
  obtain res db' where "enqueue E i stamp p run_at (jw_db (p_world s)) = (res, db')"
    by fastforce
  with assms show ?thesis
    by (auto elim!: enqueue_cases simp: pool_inv_def set_db_def list_all_iff owned_def)
qed

lemma spawn_workers_inv:
  assumes "distinct (map j_id (jd_jobs (jw_db w)))"
  shows "pool_inv mx (spawn_workers mx stamp w)"
proof -
  have "map j_id (jd_jobs (snd (reclaim_stale_running stamp db))) = map j_id (jd_jobs db)" for db
    by (auto simp: reclaim_stale_running_def update_jobs_def sql_def split: list.splits)
  with assms show ?thesis by (simp add: pool_inv_def spawn_workers_def)
qed

lemma pool_step_inv: "pool_step P K E mx s t \<Longrightarrow> pool_inv mx s \<Longrightarrow> pool_inv mx t"
proof (induction rule: pool_step.induct)
  case environment
  then show ?case by (simp add: pool_inv_def)
next
  case (restart s stamp)
  then show ?case by (intro spawn_workers_inv) (simp add: pool_inv_def)
qed (blast intro: poll_begin_inv poll_check_inv poll_claim_inv worker_start_inv worker_revert_inv
      worker_sync_inv worker_report_inv worker_run_inv enqueue_inv)+

lemma pool_reach_inv: "pool_reach P K E mx s t \<Longrightarrow> pool_inv mx s \<Longrightarrow> pool_inv mx t"
  by (induction rule: pool_reach.induct) (auto intro: pool_step_inv)

section \<open>The history of a row\<close>

definition terminal :: "JobRow \<Rightarrow> bool" where
  "terminal r \<longleftrightarrow> j_status r = ''completed'' \<or> j_status r = ''failed''"

definition same_job :: "JobRow \<Rightarrow> JobRow \<Rightarrow> bool" where
  "same_job r r' \<longleftrightarrow> j_id r' = j_id r \<and> j_kind r' = j_kind r \<and> j_payload r' = j_payload r \<and>
     j_created_at r' = j_created_at r"

definition row_ok :: "JobRow \<Rightarrow> bool" where
  "row_ok r \<longleftrightarrow> 0 \<le> j_attempts r \<and> j_attempts r \<le> (if terminal r then 3 else 2) \<and>
     (\<forall>c. j_last_error r = Some c \<longrightarrow> safe_category c)"

text \<open>One legal change of the table: rows are only added, a terminal row never changes, the others
  keep their identity; what was in order stays in order.\<close>

definition evolves :: "JobRow list \<Rightarrow> JobRow list \<Rightarrow> bool" where
  "evolves js js' \<longleftrightarrow>
     (\<forall>r\<in>set js. \<exists>r'\<in>set js'. same_job r r' \<and> (terminal r \<longrightarrow> r' = r)) \<and>
     (list_all row_ok js \<longrightarrow> list_all row_ok js')"

lemma evolves_refl [simp]: "evolves js js"
  by (auto simp: evolves_def same_job_def)

lemma evolves_trans: "evolves a b \<Longrightarrow> evolves b c \<Longrightarrow> evolves a c"
  unfolding evolves_def same_job_def by (metis (no_types, opaque_lifting))

lemma evolves_map:
  assumes "\<And>r. r \<in> set js \<Longrightarrow> same_job r (f r) \<and> (terminal r \<longrightarrow> f r = r) \<and> (row_ok r \<longrightarrow> row_ok (f r))"
  shows "evolves js (map f js)"
  using assms by (auto simp: evolves_def list_all_iff)

lemma list_all2_left: "list_all2 R xs ys \<Longrightarrow> x \<in> set xs \<Longrightarrow> \<exists>y\<in>set ys. R x y"
  by (induction rule: list_all2_induct) auto

lemma list_all2_right: "list_all2 R xs ys \<Longrightarrow> y \<in> set ys \<Longrightarrow> \<exists>x\<in>set xs. R x y"
  by (induction rule: list_all2_induct) auto

lemma touches_evolves:
  assumes t: "touches i js js'" and run: "\<And>r. r \<in> set js \<Longrightarrow> j_id r = i \<Longrightarrow> j_status r = ''running''"
  shows "evolves js js'"
  using t unfolding touches_def
proof (elim disjE)
  assume all: "list_all2 (\<lambda>r r'. if j_id r = i then worker_write r r' else r' = r) js js'"
  have change: "same_job r r' \<and> (terminal r \<longrightarrow> r' = r) \<and> (row_ok r \<longrightarrow> row_ok r')"
    if "r \<in> set js" "if j_id r = i then worker_write r r' else r' = r" for r r'
  proof (cases "j_id r = i")
    case True
    with that run have ww: "worker_write r r'" and st: "j_status r = ''running''" by auto
    then have "\<not> terminal r" by (simp add: terminal_def)
    moreover from ww have "same_job r r'" by (simp add: worker_write_def same_job_def)
    moreover have "row_ok r'" if "row_ok r"
      using ww that \<open>\<not> terminal r\<close> unfolding worker_write_def row_ok_def terminal_def by auto
    ultimately show ?thesis by simp
  next
    case False
    with that show ?thesis by (simp add: same_job_def)
  qed
  have "\<exists>r'\<in>set js'. same_job r r' \<and> (terminal r \<longrightarrow> r' = r)" if "r \<in> set js" for r
    using list_all2_left [OF all that] change [OF that] by blast
  moreover have "row_ok r'" if "r' \<in> set js'" "list_all row_ok js" for r'
    using list_all2_right [OF all that(1)] that(2) change unfolding list_all_iff by blast
  ultimately show ?thesis
    by (auto simp: evolves_def list_all_iff)
qed simp

lemma owned_running:
  assumes "pool_inv mx s" and "p_workers s = xs @ wk # ys"
    and "r \<in> set (jobs_of s)" and "j_id r = cj_id (wk_job wk)"
  shows "j_status r = ''running''"
proof -
  from assms(1,2) obtain q where "q \<in> set (jobs_of s)" "j_id q = cj_id (wk_job wk)"
    and q: "j_status q = ''running''"
    by (auto simp: pool_inv_def owned_def)
  with assms have "q = r"
    by (simp add: pool_inv_def distinct_map inj_on_def)
  with q show ?thesis by simp
qed

lemma cas_evolves: "cas_claim stamp i db = (res, db') \<Longrightarrow> evolves (jd_jobs db) (jd_jobs db')"
  unfolding cas_claim_def update_jobs_def
  by (elim sql_cases) (auto intro!: evolves_map
      simp: same_job_def row_ok_def terminal_def set_running_def)

lemma reclaim_evolves: "reclaim_stale_running stamp db = (res, db') \<Longrightarrow> evolves (jd_jobs db) (jd_jobs db')"
  unfolding reclaim_stale_running_def update_jobs_def
  by (elim sql_cases) (auto intro!: evolves_map simp: same_job_def row_ok_def terminal_def)

lemma enqueue_evolves: "enqueue E i stamp p run_at db = (res, db') \<Longrightarrow> evolves (jd_jobs db) (jd_jobs db')"
  by (elim enqueue_cases) (auto simp: evolves_def same_job_def row_ok_def terminal_def)

lemma worker_done_evolves:
  assumes "pool_inv mx s" and "p_workers s = xs @ wk # ys"
    and "touches (cj_id (wk_job wk)) (jobs_of s) (jd_jobs (jw_db w))"
  shows "evolves (jobs_of s) (jobs_of (worker_done xs ys w s))"
  using touches_evolves [OF assms(3)] owned_running [OF assms(1,2)] by (simp add: worker_done_def)

lemma poll_evolves:
  "evolves (jobs_of s) (jobs_of (poll_begin now s))"
  "evolves (jobs_of s) (jobs_of (poll_check E rows s))"
  "evolves (jobs_of s) (jobs_of (poll_claim stamp i p rest s))"
proof -
  have "jobs_of (poll_begin now s) = jobs_of s"
    using keeps_jobsD [OF keeps_select]
    by (auto simp: poll_begin_def select_due_def onjobs_def split: prod.splits sum.splits)
  then show "evolves (jobs_of s) (jobs_of (poll_begin now s))" by simp
  show "evolves (jobs_of s) (jobs_of (poll_check E rows s))"
    by (simp add: poll_check_def split: list.split option.split)
  obtain res db' where "cas_claim stamp i (jw_db (p_world s)) = (res, db')"
    by fastforce
  with cas_evolves [OF this] show "evolves (jobs_of s) (jobs_of (poll_claim stamp i p rest s))"
    by (cases res) (simp_all add: poll_claim_def onjobs_def)
qed

lemma sync_evolves:
  "evolves (jobs_of s) (jobs_of (worker_start xs wk ys a s))"
  "evolves (jobs_of s) (jobs_of (worker_sync E stamp xs wk ys a u s))"
proof -
  show "evolves (jobs_of s) (jobs_of (worker_start xs wk ys a s))"
    by (simp add: worker_start_def try_begin_def emit_event_def split: bool.split)
  obtain res w where "sync_run E stamp u a (p_world s) = (res, w)"
    by fastforce
  with sync_run_jobs [OF this] show "evolves (jobs_of s) (jobs_of (worker_sync E stamp xs wk ys a u s))"
    by (simp add: worker_sync_def)
qed

lemma pool_step_evolves:
  "pool_step P K E mx s t \<Longrightarrow> pool_inv mx s \<Longrightarrow> evolves (jobs_of s) (jobs_of t)"
proof (induction rule: pool_step.induct)
  case (revert s xs wk ys stamp)
  then show ?case
    unfolding worker_revert_def
    by (auto intro!: worker_done_evolves touches_snd(1) simp: onjobs_snd)
next
  case (report s xs wk ys result a u stamp)
  then show ?case
    unfolding worker_report_def by (auto intro!: worker_done_evolves touches_snd(2))
next
  case (run s xs wk ys D)
  then show ?case
    unfolding worker_run_def
    by (intro worker_done_evolves [OF run.prems run.hyps(1)] process_job_touches_snd)
       (simp add: pool_inv_def)
next
  case (enqueue_job s i stamp p run_at)
  show ?case
    using enqueue_evolves [OF prod.collapse [symmetric]] by (simp add: set_db_def)
next
  case (restart s stamp)
  show ?case
    using reclaim_evolves [OF prod.collapse [symmetric]] by (simp add: spawn_workers_def)
qed (simp_all add: poll_evolves sync_evolves)

lemma pool_reach_evolves:
  "pool_reach P K E mx s t \<Longrightarrow> pool_inv mx s \<Longrightarrow> evolves (jobs_of s) (jobs_of t)"
  by (induction rule: pool_reach.induct)
     (auto intro: evolves_trans pool_step_evolves pool_reach_inv)

text \<open>C1: However polls, claims, workers, handlers that enqueue, database faults and restarts
  interleave, at most \<^verbatim>\<open>SYNC_MAX_CONCURRENT\<close> jobs run at once, no job is run by two workers and
  every worker's row is \<^verbatim>\<open>running\<close>, and no account is synced by two workers: the in-flight set is
  exactly the set of the accounts being synced.\<close>

theorem pool_exclusion:
  assumes "distinct (map j_id (jd_jobs (jw_db w)))"
    and "pool_reach P K E mx (spawn_workers mx stamp w) t"
  shows "length (p_workers t) \<le> max mx 1 \<and> distinct (worker_ids t) \<and>
    (\<forall>wk\<in>set (p_workers t). \<exists>r\<in>set (jobs_of t). j_id r = cj_id (wk_job wk) \<and> j_status r = ''running'') \<and>
    distinct (busy_accounts (p_workers t)) \<and>
    jw_inflight (p_world t) = set (busy_accounts (p_workers t))"
proof -
  have "pool_inv mx t"
    using pool_reach_inv [OF assms(2) spawn_workers_inv [OF assms(1)]] .
  then show ?thesis
    by (auto simp: pool_inv_def list_all_iff owned_def)
qed


text \<open>A restart on a database that answers puts every job the old process left \<^verbatim>\<open>running\<close> back to
  \<^verbatim>\<open>pending\<close>, with its attempts and payload, and changes no other row.\<close>

theorem restart_reclaims:
  assumes "jd_faults (jw_db w) = []"
  shows "jobs_of (spawn_workers mx stamp w) =
    map (\<lambda>r. if j_status r = ''running'' then r\<lparr>j_status := ''pending'', j_updated_at := stamp\<rparr> else r)
      (jd_jobs (jw_db w)) \<and>
    (\<forall>r\<in>set (jobs_of (spawn_workers mx stamp w)). j_status r \<noteq> ''running'')"
  using assms by (auto simp: spawn_workers_def reclaim_stale_running_def update_jobs_def)

text \<open>A concrete run: one sync job is claimed and its sync started.\<close>

definition demo_start :: "MemoryKv JobWorld" where
  "demo_start = demo_jobworld [demo_row ''j1'' ''0'' (''Ya1'' @ [CHR 0x00] @ ''u1'')] (Inr ())"

definition demo_pool :: "nat \<Rightarrow> MemoryKv Pool" where
  "demo_pool n = (let
     s0 = spawn_workers 1 ''t'' demo_start;
     s1 = poll_begin ''5'' s0;
     s2 = poll_check demo_env [(''j1'', ''Ya1'' @ [CHR 0x00] @ ''u1'')] s1;
     s3 = poll_claim ''t'' ''j1'' (SyncAccount ''a1'' ''u1'') [] s2;
     s4 = worker_start [] (hd (p_workers s3)) [] ''a1'' s3
   in [s0, s1, s2, s3, s4] ! n)"

lemmas demo_pool_simps =
  demo_pool_def demo_start_def demo_jobworld_def demo_job_simps spawn_workers_def
  reclaim_stale_running_def update_jobs_def poll_begin_def onjobs_def select_due_def
  select_jobs_def due_rows_def due_def claim_key_def poll_check_def scan_row_def poll_claim_def
  cas_claim_def set_running_def worker_start_def try_begin_def emit_event_def

lemma demo_pool_start: "demo_pool 0 = spawn_workers 1 ''t'' demo_start"
  by (simp add: demo_pool_def Let_def)

lemma demo_pool_steps:
  "p_poll (demo_pool 0) = Polling"
  "demo_pool 1 = poll_begin ''5'' (demo_pool 0)"
  "p_poll (demo_pool 1) = Scanning [(''j1'', ''Ya1'' @ [CHR 0x00] @ ''u1'')]"
  "demo_pool 2 = poll_check demo_env [(''j1'', ''Ya1'' @ [CHR 0x00] @ ''u1'')] (demo_pool 1)"
  "p_poll (demo_pool 2) = Claiming ''j1'' (SyncAccount ''a1'' ''u1'') []"
  "demo_pool 3 = poll_claim ''t'' ''j1'' (SyncAccount ''a1'' ''u1'') [] (demo_pool 2)"
  by (simp_all add: demo_pool_simps numeral_eq_Suc)

lemma demo_pool_worker:
  "p_workers (demo_pool 3) = [] @ \<lparr>wk_job = \<lparr>cj_id = ''j1'', cj_status = ''running'',
      cj_payload = SyncAccount ''a1'' ''u1''\<rparr>, wk_phase = Claimed\<rparr> # []"
  "demo_pool 4 = worker_start [] \<lparr>wk_job = \<lparr>cj_id = ''j1'', cj_status = ''running'',
      cj_payload = SyncAccount ''a1'' ''u1''\<rparr>, wk_phase = Claimed\<rparr> [] ''a1'' (demo_pool 3)"
  "p_workers (demo_pool 4) = [\<lparr>wk_job = \<lparr>cj_id = ''j1'', cj_status = ''running'',
      cj_payload = SyncAccount ''a1'' ''u1''\<rparr>, wk_phase = Syncing\<rparr>]"
  by (simp_all add: demo_pool_simps numeral_eq_Suc)

lemma demo_pool_reach: "pool_reach P K demo_env 1 (demo_pool 0) (demo_pool 4)"
proof -
  have "pool_step P K demo_env 1 (demo_pool 3) (demo_pool 4)"
    unfolding demo_pool_worker(2) by (rule pool_step.start [OF demo_pool_worker(1)]) simp_all
  moreover have "pool_step P K demo_env 1 (demo_pool 2) (demo_pool 3)"
    unfolding demo_pool_steps(6) by (rule pool_step.claim [OF demo_pool_steps(5)])
  moreover have "pool_step P K demo_env 1 (demo_pool 1) (demo_pool 2)"
    unfolding demo_pool_steps(4) by (rule pool_step.check [OF demo_pool_steps(3)])
  moreover have "pool_step P K demo_env 1 (demo_pool 0) (demo_pool 1)"
    unfolding demo_pool_steps(2) by (rule pool_step.begin_poll [OF demo_pool_steps(1)])
  ultimately show ?thesis
    by (meson pool_reach.intros)
qed

lemma demo_start_ids: "distinct (map j_id (jd_jobs (jw_db demo_start)))"
  by (simp add: demo_start_def demo_jobworld_def demo_job_simps)

theorem pool_exclusion_witness:
  "length (p_workers (demo_pool 4)) = 1 \<and> jw_inflight (p_world (demo_pool 4)) = {''a1''}"
  using pool_exclusion [OF demo_start_ids demo_pool_reach [unfolded demo_pool_start, of demo_prims memory_kv]]
  by (simp add: demo_pool_worker(3) syncing_account_def)


theorem restart_reclaims_witness:
  "map j_status (jobs_of (spawn_workers 2 ''t''
     (demo_jobworld [set_running ''t'' (demo_row ''j1'' ''0'' ''Um1'')] (Inr ())))) = [''pending'']"
  using restart_reclaims [of "demo_jobworld [set_running ''t'' (demo_row ''j1'' ''0'' ''Um1'')] (Inr ())" 2 "''t''"]
  by (simp add: demo_jobworld_def demo_job_simps set_running_def)

end
