(* ===== verification/Lyra_Scheduler.thy ===== *)
theory Lyra_Scheduler
  imports Lyra_Jobs
begin

text \<open>
  The poll scheduler of \<^verbatim>\<open>scheduler.rs\<close>: the per-account backoff and one poll pass over the active
  accounts, and \<^verbatim>\<open>enqueue_sync_if_idle\<close> of \<^verbatim>\<open>imap_idle.rs\<close>.

  Durations and instants are in nanoseconds. \<^verbatim>\<open>Instant::now()\<close> is read once at the start of a pass
  (\<open>now\<close>) and again for each account when an outcome is observed and when a job is enqueued
  (\<open>obs a\<close>, \<open>enq a\<close>). \<^verbatim>\<open>Duration::saturating_mul\<close> followed by the cap is plain multiplication
  followed by the cap, the cap being far below \<^verbatim>\<open>Duration::MAX\<close>.
\<close>

definition BASE_POLL_SECS :: nat where "BASE_POLL_SECS = 300"
definition MAX_BACKOFF_SECS :: nat where "MAX_BACKOFF_SECS = 3600"

record Backoff =
  bo_delays :: "string \<rightharpoonup> nat"
  bo_next_due :: "string \<rightharpoonup> nat"
  bo_applied_job :: "string \<rightharpoonup> string"
  bo_base :: nat
  bo_max :: nat

definition with_base_secs :: "nat \<Rightarrow> Backoff" where
  "with_base_secs base_secs = \<lparr>bo_delays = Map.empty, bo_next_due = Map.empty,
     bo_applied_job = Map.empty, bo_base = secs (max base_secs 1), bo_max = secs MAX_BACKOFF_SECS\<rparr>"

definition backoff_default :: Backoff where
  "backoff_default = with_base_secs BASE_POLL_SECS"

definition delay :: "Backoff \<Rightarrow> string \<Rightarrow> nat" where
  "delay b a = (case bo_delays b a of None \<Rightarrow> bo_base b | Some d \<Rightarrow> d)"

definition fail :: "string \<Rightarrow> Backoff \<Rightarrow> Backoff" where
  "fail a b = b\<lparr>bo_delays := (bo_delays b)(a \<mapsto> min (delay b a * 2) (bo_max b))\<rparr>"

definition ok :: "string \<Rightarrow> Backoff \<Rightarrow> Backoff" where
  "ok a b = b\<lparr>bo_delays := (bo_delays b)(a := None)\<rparr>"

definition observe_outcome :: "nat \<Rightarrow> string \<Rightarrow> string \<Rightarrow> string \<Rightarrow> Backoff \<Rightarrow> Backoff" where
  "observe_outcome instant a job_id status b =
     (if bo_applied_job b a = Some job_id then b
      else (let b = b\<lparr>bo_applied_job := (bo_applied_job b)(a \<mapsto> job_id)\<rparr>
            in if status = ''failed'' then
                 (let b = fail a b in b\<lparr>bo_next_due := (bo_next_due b)(a \<mapsto> instant + delay b a)\<rparr>)
               else if status = ''completed'' then ok a b
               else b))"

definition is_due :: "Backoff \<Rightarrow> string \<Rightarrow> nat \<Rightarrow> bool" where
  "is_due b a now = (case bo_next_due b a of None \<Rightarrow> True | Some t \<Rightarrow> t \<le> now)"

definition mark_enqueued :: "nat \<Rightarrow> string \<Rightarrow> Backoff \<Rightarrow> Backoff" where
  "mark_enqueued instant a b = b\<lparr>bo_next_due := (bo_next_due b)(a \<mapsto> instant + delay b a)\<rparr>"

section \<open>Queries\<close>

record ActiveAccount =
  aa_id :: string
  aa_user_id :: string

definition list_active_accounts :: "(JobDb, SqlxError, ActiveAccount list) eff" where
  "list_active_accounts = sql (\<lambda>db. (Inr (map (\<lambda>m. \<lparr>aa_id = ma_id m, aa_user_id = ma_user_id m\<rparr>)
     (filter (\<lambda>m. ma_is_active m \<and> ma_sync_enabled m) (jd_accounts db))), db))"

definition sync_row_of :: "JobEnv \<Rightarrow> string \<Rightarrow> JobRow \<Rightarrow> bool" where
  "sync_row_of E a r \<longleftrightarrow>
     (case je_from_json E (j_payload r) of Some (SyncAccount aid _) \<Rightarrow> aid = a | _ \<Rightarrow> False)"

definition pending_or_running_sync_job_id :: "JobEnv \<Rightarrow> string \<Rightarrow> (JobDb, SqlxError, string option) eff" where
  "pending_or_running_sync_job_id E a = select_jobs (\<lambda>js.
     map_option j_id (find (sync_row_of E a) (sort_key claim_key
       (filter (\<lambda>r. j_kind r = ''sync_account'' \<and> j_status r \<in> {''pending'', ''running''}) js))))"

definition has_pending_or_running_sync :: "JobEnv \<Rightarrow> string \<Rightarrow> (JobDb, SqlxError, bool) eff" where
  "has_pending_or_running_sync E a =
     bindE (pending_or_running_sync_job_id E a) (\<lambda>i. okE (i \<noteq> None))"

definition latest_terminal_sync :: "JobEnv \<Rightarrow> string \<Rightarrow> (JobDb, SqlxError, (string \<times> string) option) eff" where
  "latest_terminal_sync E a = select_jobs (\<lambda>js.
     map_option (\<lambda>r. (j_id r, j_status r)) (find (sync_row_of E a)
       (rev (sort_key (\<lambda>r. (j_updated_at r, j_created_at r))
         (filter (\<lambda>r. j_kind r = ''sync_account'' \<and> j_status r \<in> {''completed'', ''failed''}) js)))))"

section \<open>One poll pass\<close>

text \<open>The instants, ids and stamps a pass draws.\<close>

record PollDraws =
  pd_now :: nat
  pd_obs :: "string \<Rightarrow> nat"
  pd_enq :: "string \<Rightarrow> nat"
  pd_run_at :: string
  pd_stamp :: string
  pd_id :: "string \<Rightarrow> string"

definition ondb :: "(JobDb, 'e, 'a) eff \<Rightarrow> (JobDb \<times> Backoff, 'e, 'a) eff" where
  "ondb m s = (case m (fst s) of (r, db) \<Rightarrow> (r, (db, snd s)))"

definition onbackoff :: "(Backoff \<Rightarrow> Backoff) \<Rightarrow> (JobDb \<times> Backoff, 'e, unit) eff" where
  "onbackoff f s = (Inr (), (fst s, f (snd s)))"

text \<open>The body of the loop: the outcome of the last sync is applied to the backoff, then the account
  is skipped or enqueued; the result says whether a job was enqueued.\<close>

definition observe_latest :: "JobEnv \<Rightarrow> PollDraws \<Rightarrow> string \<Rightarrow> (JobDb \<times> Backoff, SqlxError, unit) eff" where
  "observe_latest E D a =
     bindE (ondb (latest_terminal_sync E a)) (\<lambda>latest.
     onbackoff (case latest of
                  None \<Rightarrow> (\<lambda>b. b)
                | Some (job_id, status) \<Rightarrow> observe_outcome (pd_obs D a) a job_id status))"

definition enqueue_poll :: "JobEnv \<Rightarrow> PollDraws \<Rightarrow> ActiveAccount \<Rightarrow> (JobDb \<times> Backoff, SqlxError, bool) eff" where
  "enqueue_poll E D acc =
     bindE (ondb (has_pending_or_running_sync E (aa_id acc))) (\<lambda>busy.
     if busy then okE False
     else bindE (ondb (enqueue E (pd_id D (aa_id acc)) (pd_stamp D)
            (SyncAccount (aa_id acc) (aa_user_id acc)) (pd_run_at D))) (\<lambda>_.
          bindE (onbackoff (mark_enqueued (pd_enq D (aa_id acc)) (aa_id acc))) (\<lambda>_.
          okE True)))"

definition poll_account :: "JobEnv \<Rightarrow> PollDraws \<Rightarrow> ActiveAccount \<Rightarrow> (JobDb \<times> Backoff, SqlxError, bool) eff" where
  "poll_account E D acc =
     bindE (observe_latest E D (aa_id acc)) (\<lambda>_ s.
     if is_due (snd s) (aa_id acc) (pd_now D) then enqueue_poll E D acc s else (Inr False, s))"

fun poll_accounts :: "JobEnv \<Rightarrow> PollDraws \<Rightarrow> ActiveAccount list \<Rightarrow> (JobDb \<times> Backoff, SqlxError, nat) eff" where
  "poll_accounts E D [] = okE 0"
| "poll_accounts E D (acc # accs) =
     bindE (poll_account E D acc) (\<lambda>enqueued.
     bindE (poll_accounts E D accs) (\<lambda>n. okE (if enqueued then Suc n else n)))"

definition poll_tick :: "JobEnv \<Rightarrow> PollDraws \<Rightarrow> (JobDb \<times> Backoff, SqlxError, nat) eff" where
  "poll_tick E D = bindE (ondb list_active_accounts) (poll_accounts E D)"

text \<open>\<^verbatim>\<open>enqueue_sync_if_idle\<close> of \<^verbatim>\<open>imap_idle.rs\<close>.\<close>

definition enqueue_sync_if_idle ::
  "JobEnv \<Rightarrow> string \<Rightarrow> string \<Rightarrow> string \<Rightarrow> string \<Rightarrow> string \<Rightarrow> (JobDb, SqlxError, unit) eff" where
  "enqueue_sync_if_idle E i stamp run_at account_id user_id =
     bindE (has_pending_or_running_sync E account_id) (\<lambda>busy.
     if busy then okE ()
     else bindE (enqueue E i stamp (SyncAccount account_id user_id) run_at) (\<lambda>_. okE ()))"

section \<open>Backoff\<close>

lemma backoff_fields [simp]:
  "bo_base (fail a b) = bo_base b" "bo_max (fail a b) = bo_max b"
  "bo_base (ok a b) = bo_base b" "bo_max (ok a b) = bo_max b"
  "bo_next_due (fail a b) = bo_next_due b" "bo_next_due (ok a b) = bo_next_due b"
  by (simp_all add: fail_def ok_def)

lemma delay_fail: "delay (fail a b) c = (if c = a then min (delay b a * 2) (bo_max b) else delay b c)"
  by (simp add: delay_def fail_def split: option.split)

lemma delay_ok: "delay (ok a b) c = (if c = a then bo_base b else delay b c)"
  by (simp add: delay_def ok_def split: option.split)

lemma delay_iterated_fail:
  "delay ((fail a ^^ n) (ok a b)) a = (if n = 0 then bo_base b else min (bo_base b * 2 ^ n) (bo_max b))"
proof (induction n)
  case 0
  then show ?case by (simp add: delay_ok)
next
  case (Suc n)
  have mx: "bo_max ((fail a ^^ m) (ok a b)) = bo_max b" for m
    by (induction m) simp_all
  show ?case
    using Suc by (cases n) (auto simp: delay_fail mx min_def)
qed

lemma observe_outcome_idem:
  "observe_outcome t' a i st' (observe_outcome t a i st b) = observe_outcome t a i st b"
  by (auto simp: observe_outcome_def Let_def fail_def ok_def)



section \<open>Polling never queues a second sync\<close>

text \<open>The sync jobs of an account that have not ended.\<close>

definition active_sync :: "JobEnv \<Rightarrow> string \<Rightarrow> JobRow \<Rightarrow> bool" where
  "active_sync E a r \<longleftrightarrow>
     j_kind r = ''sync_account'' \<and> j_status r \<in> {''pending'', ''running''} \<and> sync_row_of E a r"

definition active_syncs :: "JobEnv \<Rightarrow> string \<Rightarrow> JobRow list \<Rightarrow> JobRow list" where
  "active_syncs E a js = filter (active_sync E a) js"

definition json_laws :: "JobEnv \<Rightarrow> bool" where
  "json_laws E \<longleftrightarrow> (\<forall>p s. je_to_json E p = Some s \<longrightarrow> je_from_json E s = Some p)"

lemma pending_or_running_cases:
  assumes "has_pending_or_running_sync E a db = (Inr busy, db')"
  shows "jd_jobs db' = jd_jobs db \<and> busy = (active_syncs E a (jd_jobs db) \<noteq> [])"
proof -
  let ?rows = "sort_key claim_key (filter (\<lambda>r. j_kind r = ''sync_account'' \<and>
      j_status r \<in> {''pending'', ''running''}) (jd_jobs db))"
  from assms have jobs: "jd_jobs db' = jd_jobs db"
    and busy: "busy = (find (sync_row_of E a) ?rows \<noteq> None)"
    unfolding has_pending_or_running_sync_def pending_or_running_sync_job_id_def
    by (auto elim!: bindE_cases select_jobs_cases)
  have "find (sync_row_of E a) ?rows \<noteq> None \<longleftrightarrow> active_syncs E a (jd_jobs db) \<noteq> []"
    by (auto simp: find_None_iff active_syncs_def active_sync_def filter_empty_conv)
  with jobs busy show ?thesis by blast
qed

text \<open>What one enqueued sync does to the active jobs.\<close>

lemma enqueue_active:
  assumes "enqueue E i stamp (SyncAccount a u) run_at db = (Inr k, db')" and "json_laws E"
  shows "active_syncs E c (jd_jobs db') = active_syncs E c (jd_jobs db) \<or>
    c = a \<and> (\<exists>r. active_syncs E c (jd_jobs db') = active_syncs E c (jd_jobs db) @ [r] \<and>
       j_id r = i \<and> j_run_at r = run_at)"
  using assms
  by (auto simp: enqueue_def sql_def active_syncs_def active_sync_def sync_row_of_def json_laws_def
      split: option.splits list.splits if_splits)

lemma enqueue_error: "enqueue E i stamp p run_at db = (Inl e, db') \<Longrightarrow> jd_jobs db' = jd_jobs db"
  by (auto simp: enqueue_def sql_def split: option.splits list.splits if_splits)

definition single_flight :: "JobEnv \<Rightarrow> JobRow list \<Rightarrow> bool" where
  "single_flight E js \<longleftrightarrow> (\<forall>a. length (active_syncs E a js) \<le> 1)"

lemma enqueue_single_flight:
  assumes "enqueue E i stamp (SyncAccount a u) run_at db = (res, db')" and "json_laws E"
    and "single_flight E (jd_jobs db)" and "active_syncs E a (jd_jobs db) = []"
  shows "single_flight E (jd_jobs db')"
proof (cases res)
  case (Inl e)
  with assms enqueue_error show ?thesis by metis
next
  case (Inr k)
  show ?thesis
    unfolding single_flight_def
  proof
    fix c
    from enqueue_active [OF assms(1) [unfolded Inr] assms(2), of c] assms(3,4)
    show "length (active_syncs E c (jd_jobs db')) \<le> 1"
      by (auto simp: single_flight_def)
  qed
qed

lemma ondb_eq: "ondb m s = (r, s') \<Longrightarrow> m (fst s) = (r, fst s') \<and> snd s' = snd s"
  by (auto simp: ondb_def split: prod.splits)

lemma keeps_latest: "latest_terminal_sync E a db = (r, db') \<Longrightarrow> jd_jobs db' = jd_jobs db"
  unfolding latest_terminal_sync_def by (auto elim: select_jobs_cases)

lemma keeps_busy: "has_pending_or_running_sync E a db = (r, db') \<Longrightarrow> jd_jobs db' = jd_jobs db"
  unfolding has_pending_or_running_sync_def pending_or_running_sync_job_id_def
  by (auto elim!: bindE_cases select_jobs_cases)

lemma list_active_jobs: "list_active_accounts db = (r, db') \<Longrightarrow> jd_jobs db' = jd_jobs db"
  unfolding list_active_accounts_def by (erule sql_cases) auto

text \<open>The ways through the loop body.\<close>

lemma observe_latest_jobs:
  "observe_latest E D a s = (res, s') \<Longrightarrow> jd_jobs (fst s') = jd_jobs (fst s)"
  using keeps_latest
  by (auto simp: observe_latest_def onbackoff_def elim!: bindE_cases dest!: ondb_eq)

lemma enqueue_result: "enqueue E i stamp p run_at db = (Inr k, db') \<Longrightarrow> k = i"
  by (auto simp: enqueue_def sql_def split: option.splits list.splits if_splits)

lemma enqueue_poll_cases:
  assumes "enqueue_poll E D acc s = (res, s')"
  obtains (skip) "jd_jobs (fst s') = jd_jobs (fst s)" and "res \<noteq> Inr True"
  | (enq) db r where "jd_jobs db = jd_jobs (fst s)" and "active_syncs E (aa_id acc) (jd_jobs db) = []"
      and "enqueue E (pd_id D (aa_id acc)) (pd_stamp D) (SyncAccount (aa_id acc) (aa_user_id acc))
             (pd_run_at D) db = (r, fst s')" and "res = Inr True \<longleftrightarrow> r = Inr (pd_id D (aa_id acc))"
  using assms unfolding enqueue_poll_def
proof (cases rule: bindE_cases)
  case (1 e)
  with keeps_busy skip show thesis by (auto dest!: ondb_eq)
next
  case (2 busy s1)
  have "has_pending_or_running_sync E (aa_id acc) (fst s) = (Inr busy, fst s1)"
    using ondb_eq [OF 2(1)] by simp
  note act = pending_or_running_cases [OF this]
  show thesis
  proof (cases busy)
    case True
    with 2(2) act skip show thesis by auto
  next
    case False
    with 2(2) obtain r where r: "enqueue E (pd_id D (aa_id acc)) (pd_stamp D)
        (SyncAccount (aa_id acc) (aa_user_id acc)) (pd_run_at D) (fst s1) = (r, fst s')"
      and res: "res = Inr True \<longleftrightarrow> (\<exists>k. r = Inr k)"
      by (auto simp: onbackoff_def elim!: bindE_cases dest!: ondb_eq)
    have "res = Inr True \<longleftrightarrow> r = Inr (pd_id D (aa_id acc))"
      using res enqueue_result r by blast
    with enq [of "fst s1" r] r False act show thesis by auto
  qed
qed

lemma poll_account_single_flight:
  assumes "poll_account E D acc s = (res, s')" and "json_laws E" and "single_flight E (jd_jobs (fst s))"
  shows "single_flight E (jd_jobs (fst s'))"
  using assms(1) unfolding poll_account_def
proof (cases rule: bindE_cases)
  case (1 e)
  with observe_latest_jobs assms(3) show ?thesis by metis
next
  case (2 u s1)
  have s1: "single_flight E (jd_jobs (fst s1))"
    using observe_latest_jobs [OF 2(1)] assms(3) by simp
  show ?thesis
  proof (cases "is_due (snd s1) (aa_id acc) (pd_now D)")
    case True
    with 2(2) have "enqueue_poll E D acc s1 = (res, s')" by simp
    then show ?thesis
    proof (cases rule: enqueue_poll_cases)
      case skip
      with s1 show ?thesis by simp
    next
      case (enq db r)
      with s1 enqueue_single_flight [OF enq(3) assms(2)] show ?thesis by simp
    qed
  next
    case False
    with 2(2) s1 show ?thesis by simp
  qed
qed

lemma poll_accounts_single_flight:
  "poll_accounts E D accs s = (res, s') \<Longrightarrow> json_laws E \<Longrightarrow> single_flight E (jd_jobs (fst s)) \<Longrightarrow>
     single_flight E (jd_jobs (fst s'))"
proof (induction accs arbitrary: s res s')
  case Nil
  then show ?case by simp
next
  case (Cons acc accs)
  from Cons.prems(1) show ?case
    unfolding poll_accounts.simps
  proof (cases rule: bindE_cases)
    case (1 e)
    with poll_account_single_flight Cons.prems show ?thesis by blast
  next
    case (2 b s1)
    have "single_flight E (jd_jobs (fst s1))"
      using poll_account_single_flight 2(1) Cons.prems by blast
    moreover obtain r where "poll_accounts E D accs s1 = (r, s')"
      using 2(2) by (auto elim!: bindE_cases)
    ultimately show ?thesis
      using Cons.IH Cons.prems(2) by blast
  qed
qed


lemma demo_env_laws: "json_laws demo_env"
  by (auto simp: json_laws_def demo_env_def demo_to_json_def demo_from_json_def split_on_append_sep
      split_on_single split: JobPayload.splits if_splits)

definition demo_poll :: PollDraws where
  "demo_poll = \<lparr>pd_now = secs 10, pd_obs = (\<lambda>_. secs 11), pd_enq = (\<lambda>_. secs 12), pd_run_at = ''5'',
     pd_stamp = ''s'', pd_id = (\<lambda>a. ''j-'' @ a)\<rparr>"

definition demo_polled :: "(SqlxError + nat) \<times> JobDb \<times> Backoff" where
  "demo_polled = poll_tick demo_env demo_poll (demo_jobdb [], backoff_default)"


section \<open>Polls are spaced by the delay\<close>

definition positive_delays :: "Backoff \<Rightarrow> bool" where
  "positive_delays b \<longleftrightarrow> 0 < bo_base b \<and> 0 < bo_max b \<and> (\<forall>a. 0 < delay b a)"

lemma with_base_positive: "positive_delays (with_base_secs s)"
  by (simp add: positive_delays_def with_base_secs_def secs_def MAX_BACKOFF_SECS_def delay_def)

lemma delay_fields:
  "delay (b\<lparr>bo_next_due := m\<rparr>) = delay b" "delay (b\<lparr>bo_applied_job := m2\<rparr>) = delay b"
  by (simp_all add: delay_def fun_eq_iff split: option.split)

lemma observe_positive: "positive_delays b \<Longrightarrow> positive_delays (observe_outcome t a i st b)"
  by (auto simp: observe_outcome_def Let_def positive_delays_def delay_fail delay_ok delay_fields)

lemma observe_next_due:
  assumes "positive_delays b"
  shows "bo_next_due (observe_outcome t a i st b) a = bo_next_due b a \<or>
    (\<exists>x>t. bo_next_due (observe_outcome t a i st b) a = Some x)"
  using assms by (auto simp: observe_outcome_def Let_def positive_delays_def delay_fail delay_fields)

lemma observe_latest_backoff:
  assumes "observe_latest E D a s = (Inr u, s')"
  shows "snd s' = snd s \<or> (\<exists>i st. snd s' = observe_outcome (pd_obs D a) a i st (snd s))"
proof -
  obtain latest where "snd s' = (case latest of None \<Rightarrow> (\<lambda>b. b)
      | Some (job_id, status) \<Rightarrow> observe_outcome (pd_obs D a) a job_id status) (snd s)"
    using assms by (auto simp: observe_latest_def onbackoff_def elim!: bindE_cases dest!: ondb_eq)
  then show ?thesis
    by (cases latest) (auto simp: split_beta)
qed

lemma poll_account_enqueued:
  assumes "poll_account E D acc s = (Inr True, s')"
  shows "bo_next_due (snd s') (aa_id acc) = Some (pd_enq D (aa_id acc) + delay (snd s') (aa_id acc))"
  using assms
  by (auto simp: poll_account_def enqueue_poll_def onbackoff_def mark_enqueued_def delay_fields
      elim!: bindE_cases dest!: ondb_eq split: if_splits)


definition demo_poll_body :: "PollDraws \<Rightarrow> JobDb \<times> Backoff \<Rightarrow> (SqlxError + bool) \<times> JobDb \<times> Backoff" where
  "demo_poll_body D s = poll_account demo_env D \<lparr>aa_id = ''a1'', aa_user_id = ''u1''\<rparr> s"

lemma demo_poll_first:
  "\<exists>db1 b1. demo_poll_body demo_poll (demo_jobdb [], backoff_default) = (Inr True, (db1, b1)) \<and>
     positive_delays b1 \<and> delay b1 ''a1'' = secs 300"
  by (simp add: demo_poll_body_def demo_poll_def poll_account_def observe_latest_def enqueue_poll_def
      latest_terminal_sync_def has_pending_or_running_sync_def pending_or_running_sync_job_id_def
      select_jobs_def ondb_def bindE_def onbackoff_def enqueue_def demo_job_simps is_due_def
      backoff_default_def with_base_secs_def mark_enqueued_def positive_delays_def delay_def
      secs_def BASE_POLL_SECS_def MAX_BACKOFF_SECS_def)


end
