(* ===== verification/Lyra_Captcha.thy ===== *)
theory Lyra_Captcha
  imports Complex_Main Lyra_Sessions
begin

text \<open>
  Captcha settings and verification (\<^verbatim>\<open>auth/captcha.rs\<close>, \<^verbatim>\<open>CaptchaConfig\<close> of \<^verbatim>\<open>config.rs\<close>).

  The settings live in the kv store as JSON with the provider secrets encrypted; JSON and the HTTP
  call to the provider are the fields of \<open>CaptchaEnv\<close>. A provider map is a map: its order only
  shows in the order of a JSON object. The texts of errors, which are only logged, are left out.
\<close>

datatype CaptchaConfig =
    CaptchaNone | Turnstile string string | HCaptcha string string | Recaptcha string string
  | RecaptchaV3 string string

fun provider_name :: "CaptchaConfig \<Rightarrow> string" where
  "provider_name CaptchaNone = ''none''"
| "provider_name (Turnstile _ _) = ''turnstile''"
| "provider_name (HCaptcha _ _) = ''hcaptcha''"
| "provider_name (Recaptcha _ _) = ''recaptcha''"
| "provider_name (RecaptchaV3 _ _) = ''recaptcha-v3''"

fun credentials :: "CaptchaConfig \<Rightarrow> string option \<times> string option" where
  "credentials CaptchaNone = (None, None)"
| "credentials (Turnstile k s) = (Some k, Some s)"
| "credentials (HCaptcha k s) = (Some k, Some s)"
| "credentials (Recaptcha k s) = (Some k, Some s)"
| "credentials (RecaptchaV3 k s) = (Some k, Some s)"

text \<open>\<^verbatim>\<open>CaptchaConfig::public\<close>: provider and site key.\<close>

fun public_config :: "CaptchaConfig \<Rightarrow> (string \<times> string) option" where
  "public_config CaptchaNone = None"
| "public_config (Turnstile k _) = Some (''turnstile'', k)"
| "public_config (HCaptcha k _) = Some (''hcaptcha'', k)"
| "public_config (Recaptcha k _) = Some (''recaptcha'', k)"
| "public_config (RecaptchaV3 k _) = Some (''recaptcha-v3'', k)"

datatype CaptchaError = CaptchaInvalid | CaptchaUnavailable

record StoredPair =
  sp_site_key :: string
  sp_secret_encrypted :: "EncryptedCredential option"

record StoredSettings =
  ss_active :: string
  ss_providers :: "string \<rightharpoonup> StoredPair"
  ss_provider :: "string option"
  ss_site_key :: "string option"
  ss_secret_encrypted :: "EncryptedCredential option"

text \<open>The answer of a siteverify request: none when it could not be sent, whether the status is a
  success, the body when it parses.\<close>

record SiteverifyResponse =
  sv_success :: bool
  sv_score :: "rat option"

record CaptchaEnv =
  ce_settings_to_json :: "StoredSettings \<Rightarrow> string option"
  ce_settings_from_json :: "string \<Rightarrow> StoredSettings option"
  ce_post :: "string \<Rightarrow> string \<Rightarrow> string \<Rightarrow> (bool \<times> SiteverifyResponse option) option"

section \<open>Verification\<close>

definition TURNSTILE_SITEVERIFY_URL :: string where
  "TURNSTILE_SITEVERIFY_URL = ''https://challenges.cloudflare.com/turnstile/v0/siteverify''"
definition HCAPTCHA_SITEVERIFY_URL :: string where
  "HCAPTCHA_SITEVERIFY_URL = ''https://api.hcaptcha.com/siteverify''"
definition RECAPTCHA_SITEVERIFY_URL :: string where
  "RECAPTCHA_SITEVERIFY_URL = ''https://www.google.com/recaptcha/api/siteverify''"
definition RECAPTCHA_V3_MIN_SCORE :: rat where "RECAPTCHA_V3_MIN_SCORE = 1 / 2"

definition verify_at :: "CaptchaEnv \<Rightarrow> string \<Rightarrow> string \<Rightarrow> string \<Rightarrow> CaptchaError + SiteverifyResponse" where
  "verify_at V url secret token =
     (case ce_post V url secret token of
        None \<Rightarrow> Inl CaptchaUnavailable
      | Some (ok_status, body) \<Rightarrow>
          if \<not> ok_status then Inl CaptchaUnavailable
          else (case body of
                  None \<Rightarrow> Inl CaptchaUnavailable
                | Some b \<Rightarrow> if sv_success b then Inr b else Inl CaptchaInvalid))"

definition verify_captcha :: "CaptchaEnv \<Rightarrow> CaptchaConfig \<Rightarrow> string \<Rightarrow> CaptchaError + unit" where
  "verify_captcha V captcha token =
     (case captcha of
        CaptchaNone \<Rightarrow> Inr ()
      | Turnstile _ secret \<Rightarrow> map_sum id (\<lambda>_. ()) (verify_at V TURNSTILE_SITEVERIFY_URL secret token)
      | HCaptcha _ secret \<Rightarrow> map_sum id (\<lambda>_. ()) (verify_at V HCAPTCHA_SITEVERIFY_URL secret token)
      | Recaptcha _ secret \<Rightarrow> map_sum id (\<lambda>_. ()) (verify_at V RECAPTCHA_SITEVERIFY_URL secret token)
      | RecaptchaV3 _ secret \<Rightarrow>
         (case verify_at V RECAPTCHA_SITEVERIFY_URL secret token of
            Inl e \<Rightarrow> Inl e
          | Inr body \<Rightarrow>
             (case sv_score body of
                Some score \<Rightarrow> if RECAPTCHA_V3_MIN_SCORE \<le> score then Inr () else Inl CaptchaInvalid
              | None \<Rightarrow> Inl CaptchaInvalid)))"

section \<open>Settings\<close>

definition SETTINGS_KV_KEY :: string where "SETTINGS_KV_KEY = ''server:captcha-settings''"

definition fold_legacy :: "StoredSettings \<Rightarrow> string \<Rightarrow> StoredSettings" where
  "fold_legacy s legacy =
     (let s = (if ss_active s = [] then s\<lparr>ss_active := legacy\<rparr> else s);
          has_pair = ((case ss_site_key s of Some k \<Rightarrow> k \<noteq> [] | None \<Rightarrow> False) \<or>
                      ss_secret_encrypted s \<noteq> None)
      in if legacy \<noteq> ''none'' \<and> has_pair \<and> ss_providers s legacy = None
         then s\<lparr>ss_providers := (ss_providers s)(legacy \<mapsto>
                \<lparr>sp_site_key = (case ss_site_key s of Some k \<Rightarrow> k | None \<Rightarrow> []),
                 sp_secret_encrypted = ss_secret_encrypted s\<rparr>)\<rparr>
         else s)"

definition normalize :: "StoredSettings \<Rightarrow> StoredSettings" where
  "normalize s =
     (let s = (case ss_provider s of None \<Rightarrow> s | Some legacy \<Rightarrow> fold_legacy (s\<lparr>ss_provider := None\<rparr>) legacy);
          s = s\<lparr>ss_site_key := None, ss_secret_encrypted := None\<rparr>
      in if ss_active s = [] then s\<lparr>ss_active := ''none''\<rparr> else s)"

definition parse_provider :: "string \<Rightarrow> string option" where
  "parse_provider provider =
     (let p = to_ascii_lowercase (trim provider)
      in if p \<in> {''none'', ''turnstile'', ''hcaptcha'', ''recaptcha''} then Some p
         else if p \<in> {''recaptcha-v3'', ''recaptcha_v3''} then Some ''recaptcha-v3''
         else None)"

datatype SettingsError = KvUnavailable | CorruptSettings | PairUnreadable | BadProvider | EncodeFailed

definition config_from_parts :: "string \<Rightarrow> string \<Rightarrow> string option \<Rightarrow> SettingsError + CaptchaConfig" where
  "config_from_parts provider site_key secret =
     (if provider = ''none'' then Inr CaptchaNone
      else if provider \<in> {''turnstile'', ''hcaptcha'', ''recaptcha'', ''recaptcha-v3''} then
        (case secret of
           None \<Rightarrow> Inl BadProvider
         | Some s \<Rightarrow> Inr
            (if provider = ''turnstile'' then Turnstile site_key s
             else if provider = ''hcaptcha'' then HCaptcha site_key s
             else if provider = ''recaptcha'' then Recaptcha site_key s
             else RecaptchaV3 site_key s))
      else Inl BadProvider)"

definition settings_key :: "Primitives \<Rightarrow> string option \<Rightarrow> CryptoError + string" where
  "settings_key P slot =
     (case master_key slot of
        Inl e \<Rightarrow> Inl e
      | Inr m \<Rightarrow> Inr (derive_user_kek P m ''server:captcha-settings''))"

definition decrypt_pair ::
  "Primitives \<Rightarrow> string option \<Rightarrow> StoredPair \<Rightarrow> SettingsError + (string \<times> string option)" where
  "decrypt_pair P slot pair =
     (case sp_secret_encrypted pair of
        None \<Rightarrow> Inr (sp_site_key pair, None)
      | Some enc \<Rightarrow>
         (case settings_key P slot of
            Inl _ \<Rightarrow> Inl PairUnreadable
          | Inr k \<Rightarrow>
             (case decrypt P k enc of
                Inl _ \<Rightarrow> Inl PairUnreadable
              | Inr bytes \<Rightarrow>
                  if utf8_valid P bytes then Inr (sp_site_key pair, Some bytes)
                  else Inl PairUnreadable)))"

definition read_blob ::
  "'s KvStore \<Rightarrow> CaptchaEnv \<Rightarrow> nat \<Rightarrow> ('s, SettingsError, StoredSettings option) eff" where
  "read_blob K V now =
     bindE (map_errE (\<lambda>_. KvUnavailable) (kv_get K now SETTINGS_KV_KEY)) (\<lambda>raw.
     case raw of
       None \<Rightarrow> okE None
     | Some json \<Rightarrow>
        (case ce_settings_from_json V json of
           None \<Rightarrow> errE CorruptSettings
         | Some stored \<Rightarrow> okE (Some (normalize stored))))"

definition stored_config :: "Primitives \<Rightarrow> string option \<Rightarrow> StoredSettings \<Rightarrow> SettingsError + CaptchaConfig" where
  "stored_config P slot stored =
     (if ss_active stored = ''none'' then Inr CaptchaNone
      else case ss_providers stored (ss_active stored) of
          None \<Rightarrow> Inr CaptchaNone
        | Some pair \<Rightarrow>
           (case decrypt_pair P slot pair of
              Inl e \<Rightarrow> Inl e
            | Inr (site_key, secret) \<Rightarrow>
                if site_key = [] \<or> secret = None then Inr CaptchaNone
                else config_from_parts (ss_active stored) site_key secret))"

definition load_stored ::
  "Primitives \<Rightarrow> 's KvStore \<Rightarrow> CaptchaEnv \<Rightarrow> string option \<Rightarrow> nat
    \<Rightarrow> ('s, SettingsError, CaptchaConfig option) eff" where
  "load_stored P K V slot now =
     bindE (read_blob K V now) (\<lambda>blob.
     case blob of
       None \<Rightarrow> okE None
     | Some stored \<Rightarrow>
        (case stored_config P slot stored of Inl e \<Rightarrow> errE e | Inr c \<Rightarrow> okE (Some c)))"

text \<open>\<^verbatim>\<open>matches!(env_config.credentials(), (Some(_), Some(_)))\<close>.\<close>

definition complete_env :: "CaptchaConfig \<Rightarrow> bool" where
  "complete_env env = (case credentials env of (Some _, Some _) \<Rightarrow> True | _ \<Rightarrow> False)"

text \<open>\<^verbatim>\<open>load_effective\<close>: the configuration and where it came from.\<close>

definition load_effective ::
  "Primitives \<Rightarrow> 's KvStore \<Rightarrow> CaptchaEnv \<Rightarrow> string option \<Rightarrow> nat \<Rightarrow> CaptchaConfig
    \<Rightarrow> 's \<Rightarrow> (CaptchaConfig \<times> string) \<times> 's" where
  "load_effective P K V slot now env s =
     (case load_stored P K V slot now s of
        (Inl _, s1) \<Rightarrow> ((env, ''env''), s1)
      | (Inr None, s1) \<Rightarrow> ((env, ''env''), s1)
      | (Inr (Some config), s1) \<Rightarrow>
          if config \<noteq> CaptchaNone then ((config, ''settings''), s1)
          else (case read_blob K V now s1 of
              (Inr (Some stored), s2) \<Rightarrow>
                if ss_active stored \<noteq> ''none'' \<and> provider_name env = ss_active stored \<and>
                   complete_env env
                then ((env, ''settings''), s2) else ((config, ''settings''), s2)
            | (_, s2) \<Rightarrow> ((config, ''settings''), s2)))"

record PairView =
  pv_site_key :: string
  pv_has_secret :: bool

record SettingsView =
  sv_active :: string
  sv_providers :: "string \<rightharpoonup> PairView"
  sv_source :: string

definition env_pair :: "CaptchaConfig \<Rightarrow> (string \<times> PairView) option" where
  "env_pair env =
     (case credentials env of
        (None, _) \<Rightarrow> None
      | (Some k, secret) \<Rightarrow> Some (provider_name env, \<lparr>pv_site_key = k, pv_has_secret = (secret \<noteq> None)\<rparr>))"

definition load_view ::
  "Primitives \<Rightarrow> 's KvStore \<Rightarrow> CaptchaEnv \<Rightarrow> string option \<Rightarrow> nat \<Rightarrow> CaptchaConfig \<Rightarrow> 's \<Rightarrow> SettingsView \<times> 's" where
  "load_view P K V slot now env s =
     (case read_blob K V now s of
        (Inr (Some stored), s1) \<Rightarrow>
          (let views = (\<lambda>name. Option.bind (ss_providers stored name) (\<lambda>pair.
                 case decrypt_pair P slot pair of
                   Inl _ \<Rightarrow> None
                 | Inr (k, secret) \<Rightarrow> Some \<lparr>pv_site_key = k, pv_has_secret = (secret \<noteq> None)\<rparr>));
               merged = (case env_pair env of
                           None \<Rightarrow> views
                         | Some (name, v) \<Rightarrow> if views name = None then views(name \<mapsto> v) else views)
           in (\<lparr>sv_active = ss_active stored, sv_providers = merged, sv_source = ''settings''\<rparr>, s1))
      | (_, s1) \<Rightarrow>
          (\<lparr>sv_active = provider_name env,
            sv_providers = (case env_pair env of None \<Rightarrow> Map.empty | Some (name, v) \<Rightarrow> [name \<mapsto> v]),
            sv_source = ''env''\<rparr>, s1))"

record PairUpdate =
  pu_site_key :: "string option"
  pu_secret :: "string option"

datatype SaveSettingsError = IncompleteActive | Store SettingsError

definition empty_settings :: StoredSettings where
  "empty_settings = \<lparr>ss_active = [], ss_providers = Map.empty, ss_provider = None, ss_site_key = None,
     ss_secret_encrypted = None\<rparr>"

text \<open>One entry of \<^verbatim>\<open>updates\<close>; \<open>nonce\<close> is drawn by the encryption.\<close>

definition apply_update ::
  "Primitives \<Rightarrow> string option \<Rightarrow> (string \<Rightarrow> string) \<Rightarrow> string \<times> PairUpdate option \<Rightarrow> StoredSettings
    \<Rightarrow> SaveSettingsError + StoredSettings" where
  "apply_update P slot nonces u stored =
     (case u of
        (provider, None) \<Rightarrow> Inr (stored\<lparr>ss_providers := (ss_providers stored)(provider := None)\<rparr>)
      | (provider, Some up) \<Rightarrow>
         (let pair = (case ss_providers stored provider of
                        Some p \<Rightarrow> p | None \<Rightarrow> \<lparr>sp_site_key = [], sp_secret_encrypted = None\<rparr>);
              pair = (case pu_site_key up of None \<Rightarrow> pair | Some k \<Rightarrow> pair\<lparr>sp_site_key := trim k\<rparr>);
              put = (\<lambda>p. stored\<lparr>ss_providers := (ss_providers stored)(provider \<mapsto> p)\<rparr>)
          in case map_option trim (pu_secret up) of
               None \<Rightarrow> Inr (put pair)
             | Some secret \<Rightarrow>
                 if secret = [] then Inr (put pair)
                 else (case settings_key P slot of
                         Inl _ \<Rightarrow> Inl (Store PairUnreadable)
                       | Inr k \<Rightarrow>
                          (case encrypt P (nonces provider) k secret of
                             Inl _ \<Rightarrow> Inl (Store PairUnreadable)
                           | Inr enc \<Rightarrow> Inr (put (pair\<lparr>sp_secret_encrypted := Some enc\<rparr>))))))"

fun apply_updates ::
  "Primitives \<Rightarrow> string option \<Rightarrow> (string \<Rightarrow> string) \<Rightarrow> (string \<times> PairUpdate option) list \<Rightarrow> StoredSettings
    \<Rightarrow> SaveSettingsError + StoredSettings" where
  "apply_updates P slot nonces [] stored = Inr stored"
| "apply_updates P slot nonces (u # us) stored =
     (case apply_update P slot nonces u stored of
        Inl e \<Rightarrow> Inl e
      | Inr stored' \<Rightarrow> apply_updates P slot nonces us stored')"

definition complete_active ::
  "Primitives \<Rightarrow> string option \<Rightarrow> CaptchaConfig \<Rightarrow> string \<Rightarrow> StoredSettings \<Rightarrow> SaveSettingsError + unit" where
  "complete_active P slot env active stored =
     (if active = ''none'' then Inr ()
      else
       (let complete_in_env = (provider_name env = active \<and> complete_env env)
        in case ss_providers stored active of
             None \<Rightarrow> if complete_in_env then Inr () else Inl IncompleteActive
           | Some pair \<Rightarrow>
              (case decrypt_pair P slot pair of
                 Inl e \<Rightarrow> Inl (Store e)
               | Inr (site_key, secret) \<Rightarrow>
                   if (site_key \<noteq> [] \<and> secret \<noteq> None) \<or> complete_in_env then Inr ()
                   else Inl IncompleteActive)))"

definition save_settings ::
  "Primitives \<Rightarrow> 's KvStore \<Rightarrow> CaptchaEnv \<Rightarrow> string option \<Rightarrow> (string \<Rightarrow> string) \<Rightarrow> nat \<Rightarrow> CaptchaConfig
    \<Rightarrow> string \<Rightarrow> (string \<times> PairUpdate option) list \<Rightarrow> ('s, SaveSettingsError, unit) eff" where
  "save_settings P K V slot nonces now env active updates =
     bindE (map_errE Store (read_blob K V now)) (\<lambda>blob.
     let stored = (case blob of None \<Rightarrow> empty_settings | Some s \<Rightarrow> s)\<lparr>ss_active := active\<rparr>
     in case apply_updates P slot nonces updates stored of
          Inl e \<Rightarrow> errE e
        | Inr stored' \<Rightarrow>
           (case complete_active P slot env active stored' of
              Inl e \<Rightarrow> errE e
            | Inr _ \<Rightarrow>
               (case ce_settings_to_json V stored' of
                  None \<Rightarrow> errE (Store EncodeFailed)
                | Some json \<Rightarrow> map_errE (\<lambda>_. Store KvUnavailable) (kv_set K now SETTINGS_KV_KEY json None))))"

section \<open>A saved provider protects the login\<close>

text \<open>What serde does with the settings: a saved value is read back, without the legacy fields, which
  are never written.\<close>

definition settings_json_laws :: "CaptchaEnv \<Rightarrow> bool" where
  "settings_json_laws V \<longleftrightarrow> (\<forall>s j. ce_settings_to_json V s = Some j \<longrightarrow>
     ce_settings_from_json V j =
       Some (s\<lparr>ss_provider := None, ss_site_key := None, ss_secret_encrypted := None\<rparr>))"

lemma normalize_new:
  "ss_active s \<noteq> [] \<Longrightarrow>
   normalize (s\<lparr>ss_provider := None, ss_site_key := None, ss_secret_encrypted := None\<rparr>) =
     s\<lparr>ss_provider := None, ss_site_key := None, ss_secret_encrypted := None\<rparr>"
  by (simp add: normalize_def)

definition known_provider :: "string \<Rightarrow> bool" where
  "known_provider p \<longleftrightarrow> p \<in> {''none'', ''turnstile'', ''hcaptcha'', ''recaptcha'', ''recaptcha-v3''}"

lemma parse_provider_known: "parse_provider raw = Some p \<Longrightarrow> known_provider p"
  by (auto simp: parse_provider_def known_provider_def Let_def split: if_splits)

lemma config_from_parts_name:
  "config_from_parts p k x = Inr c \<Longrightarrow> provider_name c = p"
  by (auto simp: config_from_parts_def split: if_splits option.splits)

lemma config_from_parts_known:
  "known_provider p \<Longrightarrow> p \<noteq> ''none'' \<Longrightarrow> \<exists>c. config_from_parts p k (Some x) = Inr c"
  by (auto simp: config_from_parts_def known_provider_def)

lemma complete_env_not_none: "complete_env env \<Longrightarrow> env \<noteq> CaptchaNone"
  by (auto simp: complete_env_def)

lemma provider_none: "provider_name c = ''none'' \<longleftrightarrow> c = CaptchaNone"
  by (cases c) simp_all

text \<open>The stored settings resolve to the active provider, or the environment covers it.\<close>

lemma stored_config_complete:
  assumes "complete_active P slot env (ss_active s) s = Inr u" and "known_provider (ss_active s)"
    and "ss_active s \<noteq> ''none''"
  shows "(\<exists>c. stored_config P slot s = Inr c \<and> provider_name c = ss_active s) \<or>
    stored_config P slot s = Inr CaptchaNone \<and> provider_name env = ss_active s \<and> complete_env env"
proof (cases "ss_providers s (ss_active s)")
  case None
  with assms show ?thesis
    by (simp add: complete_active_def stored_config_def Let_def split: if_splits)
next
  case (Some pair)
  with assms(1,3) obtain k x where d: "decrypt_pair P slot pair = Inr (k, x)"
    by (cases "decrypt_pair P slot pair") (auto simp: complete_active_def Let_def)
  show ?thesis
  proof (cases "k \<noteq> [] \<and> x \<noteq> None")
    case True
    then obtain c where "config_from_parts (ss_active s) k x = Inr c"
      using config_from_parts_known assms(2,3) by fastforce
    with True Some d assms(3) config_from_parts_name [of "ss_active s" k x c] show ?thesis
      by (auto simp: stored_config_def)
  next
    case False
    with Some d assms show ?thesis
      by (auto simp: complete_active_def stored_config_def Let_def split: if_splits)
  qed
qed

lemma apply_update_active: "apply_update P slot nonces u s = Inr s' \<Longrightarrow> ss_active s' = ss_active s"
  by (auto simp: apply_update_def Let_def split: prod.splits option.splits sum.splits if_splits)

lemma apply_updates_active:
  "apply_updates P slot nonces us s = Inr s' \<Longrightarrow> ss_active s' = ss_active s"
  by (induction us arbitrary: s) (auto split: sum.splits dest: apply_update_active)

lemma stored_config_legacy [simp]:
  "stored_config P slot (s\<lparr>ss_provider := a, ss_site_key := b, ss_secret_encrypted := c\<rparr>) = stored_config P slot s"
  by (simp add: stored_config_def split: option.split sum.split prod.split)

lemma save_settings_Inr:
  assumes "save_settings P K V slot nonces now env active updates s = (Inr (), s')"
  obtains stored json s1 where "ss_active stored = active" and "complete_active P slot env active stored = Inr ()"
    and "ce_settings_to_json V stored = Some json"
    and "kv_set K now SETTINGS_KV_KEY json None s1 = (Inr (), s')"
proof -
  from assms obtain blob s1 where
    rest: "(let stored = (case blob of None \<Rightarrow> empty_settings | Some s \<Rightarrow> s)\<lparr>ss_active := active\<rparr>
     in case apply_updates P slot nonces updates stored of
          Inl e \<Rightarrow> errE e
        | Inr stored' \<Rightarrow>
           (case complete_active P slot env active stored' of
              Inl e \<Rightarrow> errE e
            | Inr _ \<Rightarrow>
               (case ce_settings_to_json V stored' of
                  None \<Rightarrow> errE (Store EncodeFailed)
                | Some json \<Rightarrow> map_errE (\<lambda>_. Store KvUnavailable) (kv_set K now SETTINGS_KV_KEY json None)))) s1
       = (Inr (), s')"
    unfolding save_settings_def by (rule bindE_InrE)
  then obtain stored' json where "apply_updates P slot nonces updates
      ((case blob of None \<Rightarrow> empty_settings | Some s \<Rightarrow> s)\<lparr>ss_active := active\<rparr>) = Inr stored'"
    and "complete_active P slot env active stored' = Inr ()"
    and "ce_settings_to_json V stored' = Some json"
    and "kv_set K now SETTINGS_KV_KEY json None s1 = (Inr (), s')"
    by (auto simp: Let_def split: sum.splits option.splits)
  with that apply_updates_active show thesis by fastforce
qed

context kv_reliable
begin

lemma read_blob_at:
  assumes "view t s SETTINGS_KV_KEY = Some json" and "ce_settings_from_json V json = Some stored"
  obtains s' where "read_blob K V t s = (Inr (Some (normalize stored)), s')" and "view t s' = view t s"
proof -
  obtain v s' where g: "kv_get K t SETTINGS_KV_KEY s = (Inr v, s')"
    using get_ok by blast
  have "v = Some json"
    using get_result [OF g] assms(1) by simp
  with g assms(2) get_frame [OF g] show ?thesis
    by (intro that [of s']) (simp_all add: read_blob_def)
qed

lemma saved_effective:
  assumes laws: "settings_json_laws V" and act: "known_provider active"
    and save: "save_settings P K V slot nonces now env active updates s = (Inr (), s')"
    and later: "now \<le> t"
  shows "\<exists>c. fst (load_effective P K V slot t env s') = (c, ''settings'') \<and> provider_name c = active"
proof -
  obtain stored json s1 where st: "ss_active stored = active"
    and comp: "complete_active P slot env active stored = Inr ()"
    and json: "ce_settings_to_json V stored = Some json"
    and set: "kv_set K now SETTINGS_KV_KEY json None s1 = (Inr (), s')"
    using save_settings_Inr [OF save] by blast
  let ?st = "stored\<lparr>ss_provider := None, ss_site_key := None, ss_secret_encrypted := None\<rparr>"
  have nonempty: "active \<noteq> []" using act by (auto simp: known_provider_def)
  have from_json: "ce_settings_from_json V json = Some ?st"
    using laws json by (simp add: settings_json_laws_def)
  have norm: "normalize ?st = ?st"
    using normalize_new nonempty st by blast
  have v: "view t s' SETTINGS_KV_KEY = Some json"
    using set_view [OF set later] by (simp add: within_ttl_def)
  obtain s2 where r1: "read_blob K V t s' = (Inr (Some ?st), s2)" and v2: "view t s2 = view t s'"
    using read_blob_at [OF v from_json] norm by metis
  obtain s3 where r2: "read_blob K V t s2 = (Inr (Some ?st), s3)"
    using read_blob_at [of t s2 json V ?st] v v2 from_json norm by metis
  have load: "load_stored P K V slot t s' =
      (case stored_config P slot stored of Inl e \<Rightarrow> (Inl e, s2) | Inr c \<Rightarrow> (Inr (Some c), s2))"
    using r1 by (simp add: load_stored_def split: sum.split)
  show ?thesis
  proof (cases "active = ''none''")
    case True
    with st have "stored_config P slot stored = Inr CaptchaNone"
      by (simp add: stored_config_def)
    with load r2 True st show ?thesis by (simp add: load_effective_def)
  next
    case False
    have "(\<exists>c. stored_config P slot stored = Inr c \<and> provider_name c = active) \<or>
        stored_config P slot stored = Inr CaptchaNone \<and> provider_name env = active \<and> complete_env env"
      using stored_config_complete [of P slot env stored "()"] comp act False st by simp
    then show ?thesis
    proof (elim disjE exE conjE)
      fix c assume c: "stored_config P slot stored = Inr c" "provider_name c = active"
      with False have "c \<noteq> CaptchaNone" by auto
      with c load show ?thesis by (simp add: load_effective_def)
    next
      assume "stored_config P slot stored = Inr CaptchaNone" "provider_name env = active" "complete_env env"
      with load r2 False st show ?thesis by (simp add: load_effective_def)
    qed
  qed
qed

end


text \<open>A concrete encoding that covers settings without stored pairs.\<close>

definition demo_captcha_env :: CaptchaEnv where
  "demo_captcha_env = \<lparr>ce_settings_to_json = (\<lambda>s. if ss_providers s = Map.empty then Some (ss_active s) else None),
     ce_settings_from_json = (\<lambda>j. Some (empty_settings\<lparr>ss_active := j\<rparr>)),
     ce_post = (\<lambda>_ _ _. Some (True, Some \<lparr>sv_success = True, sv_score = None\<rparr>))\<rparr>"

lemma demo_captcha_laws: "settings_json_laws demo_captcha_env"
  unfolding settings_json_laws_def
proof (intro allI impI)
  fix s j assume "ce_settings_to_json demo_captcha_env s = Some j"
  then show "ce_settings_from_json demo_captcha_env j =
      Some (s\<lparr>ss_provider := None, ss_site_key := None, ss_secret_encrypted := None\<rparr>)"
    by (cases s) (auto simp: demo_captcha_env_def empty_settings_def split: if_splits)
qed

lemma demo_parse_provider: "parse_provider ''turnstile'' = Some ''turnstile''"
  by (simp add: parse_provider_def trim_def trim_start.simps trim_end.simps ws_encodings_def
      ends_with_def to_ascii_lowercase_def ascii_lower_def is_ascii_uppercase_def)

lemma demo_save_captcha:
  "save_settings demo_prims memory_kv demo_captcha_env None (\<lambda>_. []) 0 (Turnstile ''k'' ''x'')
     ''turnstile'' [] Map.empty = (Inr (), [SETTINGS_KV_KEY \<mapsto> \<lparr>e_value = ''turnstile'', e_expires_at = None\<rparr>])"
  by (simp add: save_settings_def read_blob_def mem_get_def complete_active_def empty_settings_def
      demo_captcha_env_def complete_env_def mem_set_def deadline_def)


end
