(* ===== verification/Lyra_Unlock.thy ===== *)
theory Lyra_Unlock
  imports Lyra_Kv
begin

text \<open>
  The in-memory unlock ring for OpenGPG passphrases (\<^verbatim>\<open>opengpg/session.rs\<close>): one map of cached
  passphrases per session token. Every operation takes the instant at which it runs, in
  nanoseconds; zeroing memory is not modelled.
\<close>

datatype CacheMode = Once | Timed | Session

definition parse_cache_mode :: "string \<Rightarrow> string + CacheMode" where
  "parse_cache_mode s =
     (let m = to_ascii_lowercase (trim s)
      in if m = ''once'' then Inr Once
         else if m = ''timed'' then Inr Timed
         else if m = ''session'' then Inr Session
         else Inl (''cache must be once, timed, or session (got '' @ [CHR 0x27] @ m @ [CHR 0x27, CHR '')'']))"

fun cache_mode_str :: "CacheMode \<Rightarrow> string" where
  "cache_mode_str Once = ''once''"
| "cache_mode_str Timed = ''timed''"
| "cache_mode_str Session = ''session''"

definition DEFAULT_TTL_MINUTES :: nat where "DEFAULT_TTL_MINUTES = 10"
definition MAX_TTL_MINUTES :: nat where "MAX_TTL_MINUTES = 120"
definition IDLE_TIMEOUT :: nat where "IDLE_TIMEOUT = secs (10 * 60)"

record CachedUnlock =
  cu_passphrase :: string
  cu_mode :: CacheMode
  cu_expires_at :: "nat option"
  cu_last_used :: nat

type_synonym UnlockRing = "string \<rightharpoonup> (string \<rightharpoonup> CachedUnlock)"

definition entry_alive :: "CachedUnlock \<Rightarrow> nat \<Rightarrow> bool" where
  "entry_alive e now =
     (if IDLE_TIMEOUT < now - cu_last_used e then False
      else \<not> (case cu_expires_at e of Some limit \<Rightarrow> limit \<le> now | None \<Rightarrow> False))"

definition ring_put ::
  "nat \<Rightarrow> string \<Rightarrow> string \<Rightarrow> string \<Rightarrow> CacheMode \<Rightarrow> nat \<Rightarrow> UnlockRing \<Rightarrow> UnlockRing" where
  "ring_put now token key_id passphrase mode ttl_minutes rings =
     (if mode = Once then rings
      else (let ttl = max 1 (min ttl_minutes MAX_TTL_MINUTES);
                entry = \<lparr>cu_passphrase = passphrase, cu_mode = mode,
                         cu_expires_at = (case mode of Timed \<Rightarrow> Some (now + secs (ttl * 60)) | _ \<Rightarrow> None),
                         cu_last_used = now\<rparr>;
                ring = (case rings token of None \<Rightarrow> Map.empty | Some r \<Rightarrow> r)
            in rings(token \<mapsto> ring(key_id \<mapsto> entry))))"

text \<open>\<^verbatim>\<open>ring.retain(..)\<close>.\<close>

definition retain_alive :: "nat \<Rightarrow> (string \<rightharpoonup> CachedUnlock) \<Rightarrow> (string \<rightharpoonup> CachedUnlock)" where
  "retain_alive now ring = (\<lambda>k. case ring k of None \<Rightarrow> None | Some e \<Rightarrow> if entry_alive e now then Some e else None)"

definition ring_get :: "nat \<Rightarrow> string \<Rightarrow> string \<Rightarrow> UnlockRing \<Rightarrow> string option \<times> UnlockRing" where
  "ring_get now token key_id rings =
     (case rings token of
        None \<Rightarrow> (None, rings)
      | Some ring \<Rightarrow>
         (let ring = retain_alive now ring
          in case ring key_id of
               None \<Rightarrow> (None, rings(token \<mapsto> ring))
             | Some e \<Rightarrow> (Some (cu_passphrase e),
                 rings(token \<mapsto> ring(key_id \<mapsto> e\<lparr>cu_last_used := now\<rparr>)))))"

definition is_unlocked :: "nat \<Rightarrow> string \<Rightarrow> string \<Rightarrow> UnlockRing \<Rightarrow> bool \<times> UnlockRing" where
  "is_unlocked now token key_id rings =
     (case ring_get now token key_id rings of (p, r) \<Rightarrow> (p \<noteq> None, r))"

definition ring_lock :: "string \<Rightarrow> string option \<Rightarrow> UnlockRing \<Rightarrow> UnlockRing" where
  "ring_lock token key_id rings =
     (case key_id of
        None \<Rightarrow> rings(token := None)
      | Some k \<Rightarrow>
         (case rings token of
            None \<Rightarrow> rings
          | Some ring \<Rightarrow> if ring(k := None) = Map.empty then rings(token := None)
                         else rings(token \<mapsto> ring(k := None))))"

definition unlocked_ids :: "nat \<Rightarrow> string \<Rightarrow> UnlockRing \<Rightarrow> string set \<times> UnlockRing" where
  "unlocked_ids now token rings =
     (case rings token of
        None \<Rightarrow> ({}, rings)
      | Some ring \<Rightarrow> (dom (retain_alive now ring), rings(token \<mapsto> retain_alive now ring)))"

section \<open>Life of an unlock\<close>

definition entry_of :: "UnlockRing \<Rightarrow> string \<Rightarrow> string \<Rightarrow> CachedUnlock option" where
  "entry_of rings token key_id = Option.bind (rings token) (\<lambda>ring. ring key_id)"

lemma ring_get_fst:
  "fst (ring_get now token key_id rings) =
     (case entry_of rings token key_id of
        None \<Rightarrow> None | Some e \<Rightarrow> if entry_alive e now then Some (cu_passphrase e) else None)"
  by (simp add: ring_get_def entry_of_def retain_alive_def Let_def split: option.split)

lemma entry_of_put:
  "entry_of (ring_put now tok k p mode ttl rings) t i =
     (if mode \<noteq> Once \<and> t = tok \<and> i = k
      then Some \<lparr>cu_passphrase = p, cu_mode = mode,
        cu_expires_at = (case mode of Timed \<Rightarrow> Some (now + secs (max 1 (min ttl MAX_TTL_MINUTES) * 60)) | _ \<Rightarrow> None),
        cu_last_used = now\<rparr>
      else entry_of rings t i)"
  by (cases mode) (auto simp: ring_put_def entry_of_def Let_def split: option.split)

lemma entry_of_lock:
  "entry_of (ring_lock tok key rings) t i =
     (if t = tok \<and> (key = None \<or> key = Some i) then None else entry_of rings t i)"
proof (cases key)
  case None
  then show ?thesis by (simp add: ring_lock_def entry_of_def)
next
  case (Some k)
  show ?thesis
  proof (cases "rings tok")
    case None
    with Some show ?thesis by (auto simp: ring_lock_def entry_of_def)
  next
    case (Some ring)
    have "ring(k := None) = Map.empty \<Longrightarrow> i \<noteq> k \<Longrightarrow> ring i = None"
      by (metis fun_upd_other)
    with Some \<open>key = Some k\<close> show ?thesis
      by (auto simp: ring_lock_def entry_of_def)
  qed
qed

lemma entry_of_get:
  assumes "entry_of (snd (ring_get now tok k rings)) t i = Some e'"
  shows "\<exists>e. entry_of rings t i = Some e \<and> cu_expires_at e' = cu_expires_at e \<and> cu_passphrase e' = cu_passphrase e"
  using assms
  by (auto simp: ring_get_def entry_of_def retain_alive_def Let_def split: option.splits if_splits)

lemma entry_of_unlocked_ids:
  "entry_of (snd (unlocked_ids now tok rings)) t i = Some e \<Longrightarrow> entry_of rings t i = Some e"
  by (auto simp: unlocked_ids_def entry_of_def retain_alive_def split: option.splits if_splits)

text \<open>Everything that may happen to the ring except a new unlock of the key \<open>i\<close> in the session \<open>t\<close>.\<close>

inductive ring_step :: "string \<Rightarrow> string \<Rightarrow> UnlockRing \<Rightarrow> UnlockRing \<Rightarrow> bool" for t i where
  get: "ring_step t i rings (snd (ring_get now tok k rings))"
| ids: "ring_step t i rings (snd (unlocked_ids now tok rings))"
| lock: "ring_step t i rings (ring_lock tok key rings)"
| put: "(tok, k) \<noteq> (t, i) \<Longrightarrow> ring_step t i rings (ring_put now tok k p mode ttl rings)"

inductive ring_reach :: "string \<Rightarrow> string \<Rightarrow> UnlockRing \<Rightarrow> UnlockRing \<Rightarrow> bool" for t i rings where
  here: "ring_reach t i rings rings"
| step: "ring_reach t i rings r \<Longrightarrow> ring_step t i r r' \<Longrightarrow> ring_reach t i rings r'"

lemma ring_step_entry:
  assumes "ring_step t i r r'" and "entry_of r' t i = Some e'"
  shows "\<exists>e. entry_of r t i = Some e \<and> cu_expires_at e' = cu_expires_at e \<and> cu_passphrase e' = cu_passphrase e"
  using assms
proof (cases rule: ring_step.cases)
  case (get now tok k)
  with assms(2) entry_of_get show ?thesis by blast
next
  case (ids now tok)
  with assms(2) entry_of_unlocked_ids show ?thesis by blast
next
  case (lock tok key)
  with assms(2) show ?thesis by (auto simp: entry_of_lock split: if_splits)
next
  case (put tok k now p mode ttl)
  with assms(2) show ?thesis by (auto simp: entry_of_put split: if_splits)
qed

lemma ring_reach_entry:
  assumes "ring_reach t i r r'" and "entry_of r' t i = Some e'"
  shows "\<exists>e. entry_of r t i = Some e \<and> cu_expires_at e' = cu_expires_at e \<and> cu_passphrase e' = cu_passphrase e"
  using assms
proof (induction arbitrary: e' rule: ring_reach.induct)
  case here
  then show ?case by blast
next
  case (step r1 r2)
  then show ?case using ring_step_entry by metis
qed

text \<open>C31: A timed unlock never outlives its TTL, at most two hours, however often the passphrase is used
  and whatever happens to other keys and sessions; and once a session is locked, as logout does,
  none of its keys is available until it is unlocked again.\<close>

theorem unlock_expires:
  assumes "ring_reach t i (ring_put t0 t i p Timed ttl rings) r"
    and "t0 + secs (max 1 (min ttl 120) * 60) \<le> now"
    and "ring_reach t i (ring_lock t None rings2) r2"
  shows "fst (ring_get now t i r) = None \<and> fst (ring_get now2 t i r2) = None"
proof
  show "fst (ring_get now t i r) = None"
  proof (cases "entry_of r t i")
    case (Some e')
    then have "cu_expires_at e' = Some (t0 + secs (max 1 (min ttl MAX_TTL_MINUTES) * 60))"
      using ring_reach_entry [OF assms(1)] by (auto simp: entry_of_put)
    with assms(2) have "\<not> entry_alive e' now"
      by (simp add: entry_alive_def MAX_TTL_MINUTES_def)
    with Some show ?thesis by (simp add: ring_get_fst)
  qed (simp add: ring_get_fst)
  show "fst (ring_get now2 t i r2) = None"
    using ring_reach_entry [OF assms(3)] by (cases "entry_of r2 t i") (auto simp: entry_of_lock ring_get_fst)
qed

theorem unlock_expires_witness:
  "fst (ring_get (secs 600) ''s'' ''k'' (snd (ring_get (secs 599) ''s'' ''k''
      (ring_put 0 ''s'' ''k'' ''pw'' Timed 10 Map.empty)))) = None \<and>
   fst (ring_get (secs 599) ''s'' ''k'' (ring_put 0 ''s'' ''k'' ''pw'' Timed 10 Map.empty)) = Some ''pw''"
  using unlock_expires [OF ring_reach.step [OF ring_reach.here ring_step.get
        [of "''s''" "''k''" "ring_put 0 ''s'' ''k'' ''pw'' Timed 10 Map.empty" "secs 599" "''s''" "''k''"]]
      _ ring_reach.here, of "secs 600"]
  by (simp add: secs_def ring_get_fst entry_of_put entry_alive_def MAX_TTL_MINUTES_def IDLE_TIMEOUT_def)

end
