(* ===== verification/Lyra_Auth.thy ===== *)
theory Lyra_Auth
  imports Lyra_Captcha Lyra_Unlock
begin

text \<open>
  The HTTP handlers of \<^verbatim>\<open>auth/handlers.rs\<close>, with \<^verbatim>\<open>auth/password.rs\<close>, \<^verbatim>\<open>auth/totp.rs\<close> and the
  extractors of \<^verbatim>\<open>auth/mod.rs\<close>.

  A handler is a function on the \<open>World\<close> (kv store and database) that returns a response or an
  \<open>AuthError\<close>. \<open>AuthEnv\<close> holds the configuration, Argon2, base32, the TOTP generator and JSON
  parsing; \<open>AuthDraws\<close> what one request draws: its instant, the bearer of the clock for both the kv
  store (nanoseconds) and TOTP (whole seconds), and its random values.
\<close>

text \<open>A \<^verbatim>\<open>TOTP\<close>: SHA-1, 6 digits, skew 1, step 30, issuer Lyra, with the secret bytes and the account
  name.\<close>

record TOTP =
  tp_secret :: string
  tp_account :: string

record AuthEnv =
  ae_prims :: Primitives
  ae_captcha_env :: CaptchaEnv
  ae_captcha :: CaptchaConfig
  ae_master :: "string option"
  ae_min_password_length :: nat
  ae_hash :: "string \<Rightarrow> string \<Rightarrow> string option"
  ae_verify :: "string \<Rightarrow> string \<Rightarrow> bool option"
  ae_b32_encode :: "string \<Rightarrow> string"
  ae_b32_decode :: "string \<Rightarrow> string option"
  ae_totp_valid :: "string \<Rightarrow> string \<Rightarrow> bool"
  ae_totp_generate :: "TOTP \<Rightarrow> nat \<Rightarrow> string"
  ae_totp_url :: "TOTP \<Rightarrow> string"
  ae_json_parse :: "string \<Rightarrow> Json option"
  ae_json_show :: "Json \<Rightarrow> string option"

record AuthDraws =
  ad_now :: nat
  ad_token :: string
  ad_user_id :: string
  ad_salt :: string
  ad_dek :: string
  ad_nonce :: string
  ad_nonces :: "nat \<Rightarrow> string"
  ad_settings_nonces :: "string \<Rightarrow> string"
  ad_secret_bytes :: "string option"

definition TOTP_LAST_STEP_TTL_SECS :: nat where "TOTP_LAST_STEP_TTL_SECS = 120"
definition MAX_PASSWORD_LENGTH :: nat where "MAX_PASSWORD_LENGTH = 1024"
definition MAX_UI_STATE_BYTES :: nat where "MAX_UI_STATE_BYTES = 16 * 1024"
definition BOOTSTRAP_TAKEN :: string where
  "BOOTSTRAP_TAKEN = ''A user already exists. Bootstrap is only available for first-time setup.''"

section \<open>Passwords\<close>

definition hash_password :: "AuthEnv \<Rightarrow> string \<Rightarrow> string \<Rightarrow> AuthError + string" where
  "hash_password A salt password =
     (case ae_hash A salt password of None \<Rightarrow> Inl (InternalErr ''Failed to hash password'') | Some h \<Rightarrow> Inr h)"

definition verify_password :: "AuthEnv \<Rightarrow> string \<Rightarrow> string \<Rightarrow> StatusCode + bool" where
  "verify_password A password hash =
     (case ae_verify A password hash of None \<Rightarrow> Inl INTERNAL_SERVER_ERROR | Some b \<Rightarrow> Inr b)"

definition validate_password :: "string \<Rightarrow> nat \<Rightarrow> string + unit" where
  "validate_password password min_length =
     (if MAX_PASSWORD_LENGTH < length password
      then Inl (''Password must be at most '' @ show_nat MAX_PASSWORD_LENGTH @ '' characters'')
      else if char_count password < min_length
      then Inl (''Password must be at least '' @ show_nat min_length @ '' characters'')
      else
       (let classes = length (filter id
              [list_ex is_ascii_uppercase password, list_ex is_ascii_lowercase password,
               list_ex is_ascii_digit password, list_ex (\<lambda>c. \<not> is_ascii_alphanumeric c) password])
        in if classes < 3 \<and> char_count password < 20
           then Inl (''Password must combine at least 3 of uppercase, lowercase, digits, symbols '' @
                     [CHR 0xE2, CHR 0x80, CHR 0x94] @ '' or be at least 20 characters (passphrase)'')
           else Inr ()))"

section \<open>TOTP\<close>

text \<open>\<^verbatim>\<open>TOTP::new\<close> refuses short secrets and some account names: \<open>ae_totp_valid\<close> tells.\<close>

definition build_totp_from_raw :: "AuthEnv \<Rightarrow> string \<Rightarrow> string \<Rightarrow> AuthError + TOTP" where
  "build_totp_from_raw A secret_bytes username =
     (if ae_totp_valid A secret_bytes username then Inr \<lparr>tp_secret = secret_bytes, tp_account = username\<rparr>
      else Inl (InternalErr ''Failed to build TOTP''))"

definition build_totp :: "AuthEnv \<Rightarrow> string \<Rightarrow> string \<Rightarrow> AuthError + TOTP" where
  "build_totp A secret_base32 username =
     (case ae_b32_decode A secret_base32 of
        None \<Rightarrow> Inl (InternalErr ''Failed to build TOTP'')
      | Some bytes \<Rightarrow> build_totp_from_raw A bytes username)"

definition unix_secs :: "nat \<Rightarrow> nat" where
  "unix_secs now = now div 1000000000"

definition matched_totp_step :: "AuthEnv \<Rightarrow> TOTP \<Rightarrow> nat \<Rightarrow> string \<Rightarrow> nat option" where
  "matched_totp_step A totp now code =
     (let current = unix_secs now div 30
      in find (\<lambda>s. ae_totp_generate A totp (s * 30) = code) [current - 1 ..< current + 2])"

text \<open>\<^verbatim>\<open>check_current\<close> of \<^verbatim>\<open>totp_rs\<close> accepts the same three steps.\<close>

definition check_current :: "AuthEnv \<Rightarrow> TOTP \<Rightarrow> nat \<Rightarrow> string \<Rightarrow> bool" where
  "check_current A totp now code \<longleftrightarrow> matched_totp_step A totp now code \<noteq> None"

section \<open>Captcha\<close>

definition effective_captcha ::
  "'s KvStore \<Rightarrow> AuthEnv \<Rightarrow> nat \<Rightarrow> 's World \<Rightarrow> CaptchaConfig \<times> 's World" where
  "effective_captcha K A now w =
     (case load_effective (ae_prims A) K (ae_captcha_env A) (ae_master A) now (ae_captcha A) (w_kv w) of
        ((c, _), s) \<Rightarrow> (c, w\<lparr>w_kv := s\<rparr>))"

definition ensure_captcha ::
  "'s KvStore \<Rightarrow> AuthEnv \<Rightarrow> nat \<Rightarrow> string option \<Rightarrow> ('s World, AuthError, unit) eff" where
  "ensure_captcha K A now token w =
     (case effective_captcha K A now w of
        (captcha, w1) \<Rightarrow>
          if captcha = CaptchaNone then (Inr (), w1)
          else (case token of
              None \<Rightarrow> (Inl (BadRequest ''Captcha verification required''), w1)
            | Some t \<Rightarrow>
                if trim t = [] then (Inl (BadRequest ''Captcha verification required''), w1)
                else (case verify_captcha (ae_captcha_env A) captcha t of
                    Inl _ \<Rightarrow> (Inl (BadRequest ''Captcha verification failed''), w1)
                  | Inr _ \<Rightarrow> (Inr (), w1))))"

definition get_captcha_settings :: "'s KvStore \<Rightarrow> AuthEnv \<Rightarrow> nat \<Rightarrow> 's World \<Rightarrow> SettingsView \<times> 's World" where
  "get_captcha_settings K A now w =
     (case load_view (ae_prims A) K (ae_captcha_env A) (ae_master A) now (ae_captcha A) (w_kv w) of
        (v, s) \<Rightarrow> (v, w\<lparr>w_kv := s\<rparr>))"

fun parse_updates ::
  "(string \<times> PairUpdate option) list \<Rightarrow> AuthError + (string \<times> PairUpdate option) list" where
  "parse_updates [] = Inr []"
| "parse_updates ((provider, pair) # rest) =
     (case parse_provider provider of
        None \<Rightarrow> Inl (BadRequest ''providers keys must be turnstile, hcaptcha, recaptcha, or recaptcha-v3'')
      | Some p \<Rightarrow>
          if p = ''none''
          then Inl (BadRequest ''providers keys must be turnstile, hcaptcha, recaptcha, or recaptcha-v3'')
          else (case parse_updates rest of Inl e \<Rightarrow> Inl e | Inr us \<Rightarrow> Inr ((p, pair) # us)))"

definition put_captcha_settings ::
  "'s KvStore \<Rightarrow> AuthEnv \<Rightarrow> AuthDraws \<Rightarrow> string \<Rightarrow> (string \<times> PairUpdate option) list
    \<Rightarrow> ('s World, AuthError, SettingsView) eff" where
  "put_captcha_settings K A D raw_active raw_providers =
     (case parse_provider raw_active of
        None \<Rightarrow> errE (BadRequest ''active must be none, turnstile, hcaptcha, recaptcha, or recaptcha-v3'')
      | Some active \<Rightarrow>
         (case parse_updates raw_providers of
            Inl e \<Rightarrow> errE e
          | Inr updates \<Rightarrow>
              bindE (map_errE (\<lambda>e. case e of
                  IncompleteActive \<Rightarrow> BadRequest ''the active provider needs a site key and secret''
                | Store _ \<Rightarrow> InternalErr ''Failed to save captcha settings'')
                (liftkv (save_settings (ae_prims A) K (ae_captcha_env A) (ae_master A)
                   (ad_settings_nonces D) (ad_now D) (ae_captcha A) active updates))) (\<lambda>_ w.
              (case get_captcha_settings K A (ad_now D) w of (v, w') \<Rightarrow> (Inr v, w')))))"

section \<open>Responses\<close>

record UserInfo =
  ui_id :: string
  ui_username :: string
  ui_display_name :: "string option"
  ui_locale :: string
  ui_totp_enabled :: bool
  ui_mark_read_policy :: string
  ui_ui_state :: "Json option"

record LoginResponse =
  lr_token :: string
  lr_user :: UserInfo
  lr_requires_totp :: bool

record AuthStatus =
  as_has_user :: bool
  as_totp_enabled :: bool
  as_captcha :: "(string \<times> string) option"

definition user_info_from :: "AuthEnv \<Rightarrow> UserData \<Rightarrow> UserInfo" where
  "user_info_from A user =
     \<lparr>ui_id = ud_id user, ui_username = ud_username user, ui_display_name = ud_display_name user,
      ui_locale = ud_locale user, ui_totp_enabled = ud_totp_enabled user,
      ui_mark_read_policy = ud_mark_read_policy user,
      ui_ui_state = Option.bind (ud_ui_state user) (ae_json_parse A)\<rparr>"

section \<open>Handlers\<close>

definition auth_status :: "'s KvStore \<Rightarrow> AuthEnv \<Rightarrow> AuthDraws \<Rightarrow> 's World \<Rightarrow> AuthStatus \<times> 's World" where
  "auth_status K A D w =
     (let has_user = (has_any_user (w_db w) = Inr True);
          totp = (has_user \<and> find_first_user_totp_enabled (w_db w) = Inr True)
      in case effective_captcha K A (ad_now D) w of
           (c, w') \<Rightarrow> (\<lparr>as_has_user = has_user, as_totp_enabled = totp, as_captcha = public_config c\<rparr>, w'))"

record BootstrapRequest =
  br_username :: string
  br_password :: string
  br_display_name :: "string option"
  br_locale :: "string option"
  br_captcha_token :: "string option"

definition ofsum :: "'e + 'a \<Rightarrow> ('s, 'e, 'a) eff" where
  "ofsum r s = (r, s)"

text \<open>\<^verbatim>\<open>derive_user_kek(master_key()?, &user_id)\<close> and \<^verbatim>\<open>wrap_dek\<close>.\<close>

definition wrap_new_dek :: "AuthEnv \<Rightarrow> AuthDraws \<Rightarrow> AuthError + string" where
  "wrap_new_dek A D =
     (case master_key (ae_master A) of
        Inl e \<Rightarrow> Inl (CryptoFailure e)
      | Inr m \<Rightarrow> map_sum CryptoFailure id
          (wrap_dek (ae_prims A) (ad_nonce D) (derive_user_kek (ae_prims A) m (ad_user_id D)) (ad_dek D)))"

definition auth_bootstrap ::
  "'s KvStore \<Rightarrow> AuthEnv \<Rightarrow> AuthDraws \<Rightarrow> BootstrapRequest \<Rightarrow> ('s World, AuthError, LoginResponse) eff" where
  "auth_bootstrap K A D req w =
     (if has_any_user (w_db w) = Inr True then (Inl (Conflict BOOTSTRAP_TAKEN), w)
      else
        bindE (ensure_captcha K A (ad_now D) (br_captcha_token req)) (\<lambda>_.
        if br_username req = [] \<or> 64 < length (br_username req)
        then errE (BadRequest ''Username must be between 1 and 64 characters'')
        else case validate_password (br_password req) (ae_min_password_length A) of
            Inl msg \<Rightarrow> errE (BadRequest msg)
          | Inr _ \<Rightarrow>
             bindE (ofsum (hash_password A (ad_salt D) (br_password req))) (\<lambda>password_hash.
             bindE (ofsum (wrap_new_dek A D)) (\<lambda>wrapped_dek.
             let locale = (case br_locale req of None \<Rightarrow> ''en'' | Some l \<Rightarrow> l)
             in bindE (map_errE (\<lambda>e. if is_unique_violation e then Conflict BOOTSTRAP_TAKEN
                                     else InternalErr ''Failed to create user'')
                  (liftdb (insert_user (ad_user_id D) (br_username req) password_hash
                     (br_display_name req) locale wrapped_dek))) (\<lambda>_.
                bindE (map_errE (\<lambda>_. InternalErr ''Failed to create session'')
                  (create_session K (ad_now D) (ad_token D) (ad_user_id D))) (\<lambda>token.
                okE \<lparr>lr_token = token,
                     lr_user = \<lparr>ui_id = ad_user_id D, ui_username = br_username req,
                       ui_display_name = br_display_name req, ui_locale = locale,
                       ui_totp_enabled = False, ui_mark_read_policy = ''on_open'',
                       ui_ui_state = None\<rparr>,
                     lr_requires_totp = False\<rparr>))))) w)"

text \<open>The password check shared by the handlers: \<open>op\<close> is the message of an internal failure.\<close>

definition check_password ::
  "AuthEnv \<Rightarrow> string \<Rightarrow> UserData \<Rightarrow> string \<Rightarrow> AuthError + bool" where
  "check_password A op user password =
     (case ud_password_hash user of
        None \<Rightarrow> Inl (InternalErr ''Password hash not available'')
      | Some h \<Rightarrow> (case verify_password A password h of Inl _ \<Rightarrow> Inl (InternalErr op) | Inr b \<Rightarrow> Inr b))"

record LoginRequest =
  lq_username :: string
  lq_password :: string
  lq_captcha_token :: "string option"

text \<open>The rest of \<^verbatim>\<open>auth_login\<close> once the password is right.\<close>

definition login_success ::
  "'s KvStore \<Rightarrow> AuthEnv \<Rightarrow> AuthDraws \<Rightarrow> UserData \<Rightarrow> ('s World, AuthError, LoginResponse) eff" where
  "login_success K A D user =
     (if ud_totp_enabled user then
        bindE (map_errE (\<lambda>_. InternalErr ''Failed to create pending session'')
          (create_pending_session K (ad_now D) (ad_token D) (ud_id user))) (\<lambda>token.
        okE \<lparr>lr_token = token, lr_user = user_info_from A user, lr_requires_totp = True\<rparr>)
      else
        bindE (map_errE (\<lambda>_. InternalErr ''Failed to create session'')
          (create_session K (ad_now D) (ad_token D) (ud_id user))) (\<lambda>token.
        okE \<lparr>lr_token = token, lr_user = user_info_from A user, lr_requires_totp = False\<rparr>))"

definition auth_login ::
  "'s KvStore \<Rightarrow> AuthEnv \<Rightarrow> AuthDraws \<Rightarrow> LoginRequest \<Rightarrow> ('s World, AuthError, LoginResponse) eff" where
  "auth_login K A D req =
     (let rl_key = login_rl_key (lq_username req) in
      bindE (ensure_not_rate_limited K (ad_now D) rl_key ''Authentication failed'') (\<lambda>_.
      bindE (ensure_captcha K A (ad_now D) (lq_captcha_token req)) (\<lambda>_.
      bindE (readdb (\<lambda>db. find_user_by_username db (lq_username req))) (\<lambda>found.
      case found of
        None \<Rightarrow>
          bindE (note_failed_attempt K (ad_now D) rl_key ''Authentication failed'') (\<lambda>_.
          errE invalid_credentials)
      | Some user \<Rightarrow>
          bindE (ofsum (check_password A ''Authentication failed'' user (lq_password req))) (\<lambda>valid.
          if \<not> valid then
            bindE (note_failed_attempt K (ad_now D) rl_key ''Authentication failed'') (\<lambda>_.
            errE invalid_credentials)
          else (\<lambda>w. login_success K A D user (clear_failed_attempts K (ad_now D) rl_key w)))))))"

text \<open>\<^verbatim>\<open>AuthState::get_user_dek\<close> as the handlers call it.\<close>

definition user_dek :: "AuthEnv \<Rightarrow> AuthDraws \<Rightarrow> string \<Rightarrow> ('s World, AuthError, string) eff" where
  "user_dek A D user_id =
     map_errE CryptoFailure
       (liftdb (get_user_dek (ae_prims A) (ad_nonces D) (ad_nonce D) (ad_dek D) (ae_master A) user_id))"

definition find_user_or_fail :: "string \<Rightarrow> ('s World, AuthError, UserData) eff" where
  "find_user_or_fail user_id =
     bindE (readdb (\<lambda>db. find_user_by_id db user_id)) (\<lambda>found.
     case found of None \<Rightarrow> errE (InternalErr ''User not found'') | Some u \<Rightarrow> okE u)"

text \<open>The replay guard and the end of \<^verbatim>\<open>verify_totp_code\<close>, once the code matched \<open>step\<close>.\<close>

definition accept_totp_step ::
  "'s KvStore \<Rightarrow> nat \<Rightarrow> string \<Rightarrow> string \<Rightarrow> nat \<Rightarrow> ('s World, AuthError, unit) eff" where
  "accept_totp_step K now rl_key user_id step w =
     (let (raw, w1) = get_flat K now (totp_step_key user_id) w;
          last_step = (case raw of None \<Rightarrow> None
                       | Some v \<Rightarrow> (case parse_u64 v of Inl _ \<Rightarrow> None | Inr s \<Rightarrow> Some s))
      in (if (case last_step of None \<Rightarrow> False | Some s \<Rightarrow> int step \<le> s) then
            bindE (note_failed_attempt K now rl_key ''Verification failed'') (\<lambda>_.
            errE (Unauthorized ''TOTP code already used''))
          else
            bindE (map_errE (\<lambda>_. InternalErr ''Verification failed'')
              (liftkv (kv_set K now (totp_step_key user_id) (show_nat step) (Some TOTP_LAST_STEP_TTL_SECS)))) (\<lambda>_ w.
            (Inr (), clear_failed_attempts K now rl_key w))) w1)"

definition resolve_totp ::
  "AuthEnv \<Rightarrow> AuthDraws \<Rightarrow> string \<Rightarrow> string \<Rightarrow> string \<Rightarrow> ('s World, AuthError, TOTP) eff" where
  "resolve_totp A D user_id username stored_secret =
     bindE (user_dek A D user_id) (\<lambda>dek.
     bindE (ofsum (map_sum CryptoFailure id (decrypt_totp_secret (ae_prims A) dek stored_secret))) (\<lambda>secret.
     ofsum (build_totp A secret username)))"

definition verify_totp_code ::
  "'s KvStore \<Rightarrow> AuthEnv \<Rightarrow> AuthDraws \<Rightarrow> string \<Rightarrow> string \<Rightarrow> UserData \<Rightarrow> string \<Rightarrow> ('s World, AuthError, unit) eff" where
  "verify_totp_code K A D rl_key user_id user code =
     (case ud_totp_secret user of
        None \<Rightarrow> errE (InternalErr ''TOTP not configured'')
      | Some stored_secret \<Rightarrow>
          bindE (resolve_totp A D user_id (ud_username user) stored_secret) (\<lambda>totp.
          case matched_totp_step A totp (ad_now D) code of
            None \<Rightarrow>
              bindE (note_failed_attempt K (ad_now D) rl_key ''Verification failed'') (\<lambda>_.
              errE (Unauthorized ''Invalid TOTP code''))
          | Some step \<Rightarrow> accept_totp_step K (ad_now D) rl_key user_id step))"

definition totp_verify ::
  "'s KvStore \<Rightarrow> AuthEnv \<Rightarrow> AuthDraws \<Rightarrow> string \<Rightarrow> string \<Rightarrow> ('s World, AuthError, LoginResponse) eff" where
  "totp_verify K A D pending_token code w =
     (case get_pending_session K (ad_now D) pending_token w of
        (None, w1) \<Rightarrow> (Inl (Unauthorized ''Invalid or expired pending session''), w1)
      | (Some user_id, w1) \<Rightarrow>
         bindE (ensure_not_rate_limited K (ad_now D) (totp_rl_key user_id) ''Verification failed'') (\<lambda>_.
         bindE (find_user_or_fail user_id) (\<lambda>user.
         bindE (verify_totp_code K A D (totp_rl_key user_id) user_id user code) (\<lambda>_.
         bindE (map_errE (\<lambda>_. InternalErr ''Failed to promote session'')
           (promote_pending_session K (ad_now D) pending_token (ad_token D))) (\<lambda>promoted.
         case promoted of
           None \<Rightarrow> errE (Unauthorized ''Invalid or expired pending session'')
         | Some token \<Rightarrow>
             okE \<lparr>lr_token = token, lr_user = user_info_from A user, lr_requires_totp = False\<rparr>)))) w1)"

text \<open>\<^verbatim>\<open>totp_enroll\<close> returns the secret and the provisioning URL.\<close>

definition totp_enroll ::
  "AuthEnv \<Rightarrow> AuthDraws \<Rightarrow> string \<Rightarrow> ('s World, AuthError, string \<times> string) eff" where
  "totp_enroll A D user_id =
     bindE (find_user_or_fail user_id) (\<lambda>user.
     if ud_totp_enabled user
     then errE (Conflict ''TOTP is already enabled. Disable it before re-enrolling.'')
     else case ad_secret_bytes D of
       None \<Rightarrow> errE (InternalErr ''Failed to generate TOTP secret'')
     | Some secret_bytes \<Rightarrow>
       (let secret_base32 = ae_b32_encode A secret_bytes in
        bindE (user_dek A D user_id) (\<lambda>dek.
        bindE (ofsum (map_sum CryptoFailure id
          (encrypt_totp_secret (ae_prims A) (ad_nonce D) dek secret_base32))) (\<lambda>stored_secret.
        bindE (map_errE (\<lambda>_. InternalErr ''Failed to store TOTP secret'')
          (liftdb (update_user_totp user_id (Some stored_secret) False))) (\<lambda>_.
        bindE (ofsum (build_totp_from_raw A secret_bytes (ud_username user))) (\<lambda>totp.
        okE (secret_base32, ae_totp_url A totp)))))))"

definition totp_enroll_confirm ::
  "AuthEnv \<Rightarrow> AuthDraws \<Rightarrow> string \<Rightarrow> string \<Rightarrow> ('s World, AuthError, AuthStatus) eff" where
  "totp_enroll_confirm A D user_id code =
     bindE (find_user_or_fail user_id) (\<lambda>user.
     case ud_totp_secret user of
       None \<Rightarrow> errE (BadRequest ''TOTP enrollment not started'')
     | Some stored \<Rightarrow>
         bindE (resolve_totp A D user_id (ud_username user) stored) (\<lambda>totp.
         if \<not> check_current A totp (ad_now D) code
         then errE (Unauthorized ''Invalid TOTP code. Please try again.'')
         else
           bindE (map_errE (\<lambda>_. InternalErr ''Failed to enable TOTP'')
             (liftdb (update_user_totp user_id (Some stored) True))) (\<lambda>_.
           okE \<lparr>as_has_user = True, as_totp_enabled = True, as_captcha = public_config (ae_captcha A)\<rparr>)))"

text \<open>The rate-limited password check of \<^verbatim>\<open>totp_disable\<close>, \<^verbatim>\<open>change_password\<close> and
  \<^verbatim>\<open>verify_current_password\<close>, up to the cleared counter; \<open>msg\<close> is the answer to a wrong password.\<close>

definition reauthenticate ::
  "'s KvStore \<Rightarrow> AuthEnv \<Rightarrow> nat \<Rightarrow> string \<Rightarrow> string \<Rightarrow> string \<Rightarrow> ('s World, AuthError, UserData) eff" where
  "reauthenticate K A now msg user_id password =
     (let rl_key = pwd_rl_key user_id in
      bindE (ensure_not_rate_limited K now rl_key ''Verification failed'') (\<lambda>_.
      bindE (find_user_or_fail user_id) (\<lambda>user.
      bindE (ofsum (check_password A ''Verification failed'' user password)) (\<lambda>valid.
      if \<not> valid then
        bindE (note_failed_attempt K now rl_key ''Verification failed'') (\<lambda>_. errE (Unauthorized msg))
      else (\<lambda>w. (Inr user, clear_failed_attempts K now rl_key w))))))"

definition verify_current_password ::
  "'s KvStore \<Rightarrow> AuthEnv \<Rightarrow> nat \<Rightarrow> string \<Rightarrow> string \<Rightarrow> ('s World, AuthError, unit) eff" where
  "verify_current_password K A now user_id password =
     bindE (reauthenticate K A now ''Current password is incorrect'' user_id password) (\<lambda>_. okE ())"

definition totp_disable ::
  "'s KvStore \<Rightarrow> AuthEnv \<Rightarrow> AuthDraws \<Rightarrow> string \<Rightarrow> string \<Rightarrow> ('s World, AuthError, AuthStatus) eff" where
  "totp_disable K A D user_id password =
     bindE (reauthenticate K A (ad_now D) ''Invalid password'' user_id password) (\<lambda>_.
     bindE (map_errE (\<lambda>_. InternalErr ''Failed to disable TOTP'')
       (liftdb (update_user_totp user_id None False))) (\<lambda>_.
     okE \<lparr>as_has_user = True, as_totp_enabled = False, as_captcha = public_config (ae_captcha A)\<rparr>))"

definition change_password ::
  "'s KvStore \<Rightarrow> AuthEnv \<Rightarrow> AuthDraws \<Rightarrow> string \<Rightarrow> string \<Rightarrow> string \<Rightarrow> ('s World, AuthError, unit) eff" where
  "change_password K A D user_id current_password new_password =
     bindE (reauthenticate K A (ad_now D) ''Current password is incorrect'' user_id current_password) (\<lambda>user.
     case validate_password new_password (ae_min_password_length A) of
       Inl msg \<Rightarrow> errE (BadRequest msg)
     | Inr _ \<Rightarrow>
         bindE (ofsum (hash_password A (ad_salt D) new_password)) (\<lambda>new_hash.
         bindE (map_errE (\<lambda>_. InternalErr ''Failed to update password'')
           (liftdb (update_user_password user_id new_hash))) (\<lambda>_.
         bindE (map_errE (\<lambda>_. InternalErr ''Failed to invalidate sessions'')
           (invalidate_user_sessions K (ad_now D) user_id)) (\<lambda>_ w.
         (Inr (), clear_failed_attempts K (ad_now D) (login_rl_key (ud_username user)) w)))))"

definition extract_token_from_headers :: "string option \<Rightarrow> string option" where
  "extract_token_from_headers authorization =
     Option.bind authorization (\<lambda>v. strip_prefix v ''Bearer '')"

definition extract_session ::
  "'s KvStore \<Rightarrow> nat \<Rightarrow> string option \<Rightarrow> ('s World, AuthError, string) eff" where
  "extract_session K now authorization w =
     (case extract_token_from_headers authorization of
        None \<Rightarrow> (Inl (Unauthorized ''Missing authorization header''), w)
      | Some token \<Rightarrow>
         (case get_session K now token w of
            (None, w') \<Rightarrow> (Inl (Unauthorized ''Invalid or expired session''), w')
          | (Some user_id, w') \<Rightarrow> (Inr user_id, w')))"

text \<open>The \<^verbatim>\<open>AuthSession\<close> extractor also gives the bearer token to the handler.\<close>

definition auth_session ::
  "'s KvStore \<Rightarrow> nat \<Rightarrow> string option \<Rightarrow> ('s World, AuthError, string \<times> string) eff" where
  "auth_session K now authorization w =
     (case extract_token_from_headers authorization of
        None \<Rightarrow> (Inl (Unauthorized ''Missing authorization header''), w)
      | Some token \<Rightarrow>
         (case get_session K now token w of
            (None, w') \<Rightarrow> (Inl (Unauthorized ''Invalid or expired session''), w')
          | (Some user_id, w') \<Rightarrow> (Inr (user_id, token), w')))"

text \<open>\<^verbatim>\<open>auth_logout\<close> locks the session's OpenGPG ring and removes the session.\<close>

definition auth_logout ::
  "'s KvStore \<Rightarrow> nat \<Rightarrow> string option \<Rightarrow> 's World \<times> UnlockRing \<Rightarrow> 's World \<times> UnlockRing" where
  "auth_logout K now authorization s =
     (case extract_token_from_headers authorization of
        None \<Rightarrow> s
      | Some token \<Rightarrow> (remove_session K now token (fst s), ring_lock token None (snd s)))"

definition auth_me :: "AuthEnv \<Rightarrow> string \<Rightarrow> ('s World, AuthError, UserInfo) eff" where
  "auth_me A user_id = bindE (find_user_or_fail user_id) (\<lambda>user. okE (user_info_from A user))"

record PreferencesRequest =
  pr_mark_read_policy :: "string option"
  pr_locale :: "string option"
  pr_ui_state :: "Json option"

definition is_object :: "Json \<Rightarrow> bool" where
  "is_object j = (case j of JObject _ \<Rightarrow> True | _ \<Rightarrow> False)"

definition patch_preferences ::
  "AuthEnv \<Rightarrow> string \<Rightarrow> PreferencesRequest \<Rightarrow> ('s World, AuthError, UserInfo) eff" where
  "patch_preferences A user_id req =
     (if pr_mark_read_policy req = None \<and> pr_locale req = None \<and> pr_ui_state req = None
      then errE (BadRequest ''provide markReadPolicy, locale, and/or uiState'')
      else
        bindE (case pr_mark_read_policy req of
            None \<Rightarrow> okE ()
          | Some raw \<Rightarrow> bindE (ofsum (parse_mark_read_policy raw)) (\<lambda>policy.
              liftdb (update_mark_read_policy user_id policy))) (\<lambda>_.
        bindE (case pr_locale req of
            None \<Rightarrow> okE ()
          | Some locale \<Rightarrow>
              if locale \<noteq> ''en'' \<and> locale \<noteq> ''zh'' then errE (BadRequest ''unsupported locale'')
              else liftdb (update_locale user_id locale)) (\<lambda>_.
        bindE (case pr_ui_state req of
            None \<Rightarrow> okE ()
          | Some ui \<Rightarrow>
              if \<not> is_object ui then errE (BadRequest ''uiState must be a JSON object'')
              else (case ae_json_show A ui of
                  None \<Rightarrow> errE (BadRequest ''uiState is not serializable'')
                | Some encoded \<Rightarrow>
                    if MAX_UI_STATE_BYTES < length encoded then errE (BadRequest ''uiState too large'')
                    else liftdb (update_ui_state user_id encoded))) (\<lambda>_.
        auth_me A user_id))))"

section \<open>What the handlers touch\<close>

definition only_keys ::
  "(nat \<Rightarrow> 's \<Rightarrow> string \<Rightarrow> string option) \<Rightarrow> nat \<Rightarrow> string set \<Rightarrow> 's World \<Rightarrow> 's World \<Rightarrow> bool" where
  "only_keys shown now Ks w w' \<longleftrightarrow>
     (\<forall>t\<ge>now. \<forall>k. k \<notin> Ks \<longrightarrow> shown t (w_kv w') k = shown t (w_kv w) k)"

lemma only_keys_refl [simp]: "only_keys shown now Ks w w"
  by (simp add: only_keys_def)

lemma only_keys_trans:
  "only_keys shown now A w w1 \<Longrightarrow> only_keys shown now B w1 w2 \<Longrightarrow> only_keys shown now (A \<union> B) w w2"
  by (simp add: only_keys_def)

lemma only_keys_mono: "only_keys shown now A w w' \<Longrightarrow> A \<subseteq> B \<Longrightarrow> only_keys shown now B w w'"
  by (auto simp: only_keys_def)

lemma only_keysD: "only_keys shown now Ks w w' \<Longrightarrow> now \<le> t \<Longrightarrow> k \<notin> Ks \<Longrightarrow> shown t (w_kv w') k = shown t (w_kv w) k"
  by (simp add: only_keys_def)

lemma only_keys_db [simp]: "only_keys shown now Ks w (w'\<lparr>w_db := d\<rparr>) = only_keys shown now Ks w w'"
  "only_keys shown now Ks (w\<lparr>w_db := d\<rparr>) w' = only_keys shown now Ks w w'"
  by (simp_all add: only_keys_def)

lemma rl_keys_distinct [simp, key_simps]:
  "login_rl_key u \<noteq> tok_key t" "login_rl_key u \<noteq> sess_key e t" "login_rl_key u \<noteq> totp_step_key v"
  "totp_rl_key u \<noteq> totp_step_key v" "pwd_rl_key u \<noteq> tok_key t" "pwd_rl_key u \<noteq> sess_key e t"
  "tok_key t \<noteq> login_rl_key u" "sess_key e t \<noteq> login_rl_key u" "totp_step_key v \<noteq> totp_rl_key u"
  "tok_key t \<noteq> pwd_rl_key u" "sess_key e t \<noteq> pwd_rl_key u"
  by (simp_all add: key_defs)

lemma ofsum_eq [simp]: "ofsum r s = (r, s)"
  by (simp add: ofsum_def)

lemma readdb_eq [simp]: "readdb q w = (q (w_db w), w)"
  by (simp add: readdb_def)

lemma liftdb_cases:
  assumes "liftdb m w = (r, w')"
  obtains d where "m (w_db w) = (r, d)" and "w' = w\<lparr>w_db := d\<rparr>"
  using assms by (auto simp: liftdb_def Let_def split: prod.splits)

lemma find_user_or_fail_Inr:
  "find_user_or_fail u w = (Inr user, w') \<longleftrightarrow> w' = w \<and> find_user_by_id (w_db w) u = Inr (Some user)"
  by (cases "find_user_by_id (w_db w) u") (auto simp: find_user_or_fail_def bindE_def split: option.splits)

context kv_reliable
begin

lemma ensure_only:
  "ensure_not_rate_limited K now key op w = (res, w') \<Longrightarrow> only_keys view now Ks w w' \<and> w_db w' = w_db w"
  using ensure_not_rate_limited_frame [of now key op w res w'] by (simp add: only_keys_def)

lemma clear_only: "only_keys view now {key} w (clear_failed_attempts K now key w)"
  by (simp add: only_keys_def clear_failed_attempts_def)

lemma clear_db [simp]: "w_db (clear_failed_attempts K now key w) = w_db w"
  by (simp add: clear_failed_attempts_def)

lemma read_blob_frame: "now \<le> t \<Longrightarrow> view t (snd (read_blob K V now s)) = view t s"
proof -
  assume "now \<le> t"
  obtain v s' where g: "kv_get K now SETTINGS_KV_KEY s = (Inr v, s')"
    using get_ok by blast
  then have "snd (read_blob K V now s) = s'"
    by (simp add: read_blob_def split: option.split)
  with get_frame [OF g \<open>now \<le> t\<close>] show ?thesis by simp
qed

lemma load_effective_frame:
  assumes "now \<le> t"
  shows "view t (snd (load_effective P K V slot now env s)) = view t s"
proof -
  have ls: "snd (load_stored P K V slot now s) = snd (read_blob K V now s)" for s
    by (auto simp: load_stored_def bindE_def split: prod.split sum.split option.split)
  show ?thesis
    using read_blob_frame [OF assms, of V s] read_blob_frame [OF assms, of V "snd (read_blob K V now s)"] ls [of s]
    by (auto simp: load_effective_def split: prod.split sum.split option.split)
qed

lemma captcha_only:
  assumes "ensure_captcha K A now token w = (res, w')"
  shows "only_keys view now Ks w w' \<and> w_db w' = w_db w"
proof -
  obtain c src s where e: "load_effective (ae_prims A) K (ae_captcha_env A) (ae_master A) now
      (ae_captcha A) (w_kv w) = ((c, src), s)"
    by (metis surj_pair)
  then have "w' = w\<lparr>w_kv := s\<rparr>"
    using assms by (auto simp: ensure_captcha_def effective_captcha_def split: if_splits option.splits sum.splits)
  moreover have "view t s = view t (w_kv w)" if "now \<le> t" for t
    using load_effective_frame [OF that, of "ae_prims A" "ae_captcha_env A" "ae_master A" "ae_captcha A" "w_kv w"] e
    by simp
  ultimately show ?thesis by (simp add: only_keys_def)
qed

lemma pending_only:
  "create_pending_session K now token u w = (res, w') \<Longrightarrow>
     only_keys view now {pending_key token} w w' \<and> w_db w' = w_db w"
  by (rule liftkv_set [of now "pending_key token" u "Some PENDING_TTL_SECS" w])
     (auto simp: create_pending_session_def only_keys_def)

text \<open>A password login with a second factor enabled leaves every session as it was.\<close>

lemma totp_login_frame:
  assumes "auth_login K A D req w = (Inr r, w')" and "lr_requires_totp r"
  shows "only_keys view (ad_now D) {login_rl_key (lq_username req), pending_key (ad_token D)} w w' \<and>
    w_db w' = w_db w"
proof -
  let ?k = "login_rl_key (lq_username req)"
  from assms(1) obtain w1 w2 user where
    s1: "ensure_not_rate_limited K (ad_now D) ?k ''Authentication failed'' w = (Inr (), w1)"
    and s2: "ensure_captcha K A (ad_now D) (lq_captcha_token req) w1 = (Inr (), w2)"
    and s3: "login_success K A D user (clear_failed_attempts K (ad_now D) ?k w2) = (Inr r, w')"
    unfolding auth_login_def Let_def
    by (auto simp: bindE_eq_Inr split: option.splits sum.splits if_splits)
  let ?w3 = "clear_failed_attempts K (ad_now D) ?k w2"
  from s3 assms(2) obtain p where
    "create_pending_session K (ad_now D) (ad_token D) (ud_id user) ?w3 = (Inr p, w')"
    by (auto simp: login_success_def bindE_eq_Inr split: if_splits)
  note s4 = pending_only [OF this]
  have "only_keys view (ad_now D) {?k, pending_key (ad_token D)} w w1"
    using ensure_only [OF s1] by blast
  moreover have "only_keys view (ad_now D) {?k, pending_key (ad_token D)} w1 w2"
    using captcha_only [OF s2] by blast
  moreover have "only_keys view (ad_now D) {?k, pending_key (ad_token D)} w2 ?w3"
    using clear_only by (rule only_keys_mono) simp
  moreover have "only_keys view (ad_now D) {?k, pending_key (ad_token D)} ?w3 w'"
    using s4 by (auto intro: only_keys_mono)
  ultimately have "only_keys view (ad_now D) {?k, pending_key (ad_token D)} w w'"
    by (simp add: only_keys_def)
  with ensure_only [OF s1] captcha_only [OF s2] s4 show ?thesis by simp
qed

end

text \<open>C29: With a second factor enabled, the right password alone never opens a session: a login that
  answers \<^verbatim>\<open>requires_totp\<close> changes no token's standing, now or later, and a login answers so
  whenever the user it found has TOTP enabled.\<close>

theorem totp_login_opens_no_session:
  assumes "auth_login memory_kv A D req w = (Inr r, w')"
    and "find_user_by_username (w_db w) (lq_username req) = Inr (Some user)" and "ud_totp_enabled user"
  shows "lr_requires_totp r \<and> (\<forall>t\<ge>ad_now D. \<forall>token.
    fst (get_session memory_kv t token w') = fst (get_session memory_kv t token w))"
proof
  from assms show totp: "lr_requires_totp r"
    using mem.ensure_only mem.captcha_only
    unfolding auth_login_def Let_def
    by (fastforce simp: bindE_eq_Inr login_success_def split: option.splits sum.splits if_splits)
  have "session_user (mem_view t (w_kv w')) (w_db w') token = session_user (mem_view t (w_kv w)) (w_db w) token"
    if "ad_now D \<le> t" for t token
    using mem.totp_login_frame [OF assms(1) totp] only_keysD [OF _ that]
    by (fastforce simp: session_user_def split: option.split sum.split)
  then show "\<forall>t\<ge>ad_now D. \<forall>token.
      fst (get_session memory_kv t token w') = fst (get_session memory_kv t token w)"
    by simp
qed

section \<open>No timestep is accepted twice\<close>

lemma find_Some_member: "find P xs = Some x \<Longrightarrow> x \<in> set xs \<and> P x"
  by (induction xs) (auto split: if_splits)

lemma matched_totp_step_window:
  assumes "matched_totp_step A totp now code = Some s"
  shows "unix_secs now div 30 - 1 \<le> s \<and> s \<le> unix_secs now div 30 + 1"
proof -
  have "s \<in> set [unix_secs now div 30 - 1 ..< unix_secs now div 30 + 2]"
    using find_Some_member [OF assms [unfolded matched_totp_step_def Let_def]] by (rule conjunct1)
  then show ?thesis
    unfolding set_upt atLeastLessThan_iff by linarith
qed

text \<open>The successful verifications of one user, with the accepted steps, newest first; between two of
  them time passes and anything may happen that leaves the user's remembered step alone.\<close>

inductive totp_run ::
  "(nat \<Rightarrow> 's \<Rightarrow> string \<Rightarrow> string option) \<Rightarrow> 's KvStore \<Rightarrow> string \<Rightarrow> nat \<Rightarrow> 's World \<Rightarrow> nat list \<Rightarrow> bool"
  for shown K u where
  start: "totp_run shown K u now w []"
| tick: "totp_run shown K u now w steps \<Longrightarrow> now \<le> now' \<Longrightarrow> totp_run shown K u now' w steps"
| other: "totp_run shown K u now w steps \<Longrightarrow>
    (\<And>t. now \<le> t \<Longrightarrow> shown t (w_kv w') (totp_step_key u) = shown t (w_kv w) (totp_step_key u)) \<Longrightarrow>
    totp_run shown K u now w' steps"
| verified: "totp_run shown K u (ad_now D) w steps \<Longrightarrow> ud_totp_secret user = Some stored \<Longrightarrow>
    resolve_totp A D u (ud_username user) stored w = (Inr totp, w1) \<Longrightarrow>
    matched_totp_step A totp (ad_now D) code = Some step \<Longrightarrow>
    verify_totp_code K A D (totp_rl_key u) u user code w = (Inr (), w') \<Longrightarrow>
    totp_run shown K u (ad_now D) w' (step # steps)"

text \<open>The last accepted step was accepted at \<open>t0\<close>, within its window, and shows for two minutes.\<close>

definition remembers ::
  "(nat \<Rightarrow> string \<Rightarrow> string option) \<Rightarrow> string \<Rightarrow> nat \<Rightarrow> nat list \<Rightarrow> bool" where
  "remembers shown u now steps \<longleftrightarrow> (case steps of
     [] \<Rightarrow> True
   | s # _ \<Rightarrow> int s \<le> u64_max \<and> (\<exists>t0\<le>now. s \<le> unix_secs t0 div 30 + 1 \<and>
       (\<forall>t\<ge>now. t < t0 + secs TOTP_LAST_STEP_TTL_SECS \<longrightarrow> shown t (totp_step_key u) = Some (show_nat s))))"

lemma remembers_later:
  assumes "remembers shown u now steps" and "now \<le> now'"
    and "\<And>t. now \<le> t \<Longrightarrow> shown' t (totp_step_key u) = shown t (totp_step_key u)"
  shows "remembers shown' u now' steps"
proof (cases steps)
  case (Cons s rest)
  with assms(1) obtain t0 where "int s \<le> u64_max" "t0 \<le> now" "s \<le> unix_secs t0 div 30 + 1"
    and "\<And>t. now \<le> t \<Longrightarrow> t < t0 + secs TOTP_LAST_STEP_TTL_SECS \<Longrightarrow> shown t (totp_step_key u) = Some (show_nat s)"
    by (auto simp: remembers_def)
  with assms(2,3) Cons show ?thesis
    by (auto simp: remembers_def intro!: exI [of _ t0])
qed (simp add: remembers_def)

lemma window_moved_on:
  assumes "t0 + secs 120 \<le> t"
  shows "unix_secs t0 div 30 + 4 \<le> unix_secs t div 30"
proof -
  have "unix_secs t0 + 120 \<le> unix_secs t"
    unfolding unix_secs_def
    using div_le_mono [OF assms, of 1000000000] by (simp add: secs_def)
  then have "(unix_secs t0 + 120) div 30 \<le> unix_secs t div 30"
    by (rule div_le_mono)
  then show ?thesis by simp
qed

lemma resolve_totp_kv: "resolve_totp A D u n stored w = (r, w') \<Longrightarrow> w_kv w' = w_kv w"
  by (auto simp: resolve_totp_def user_dek_def liftdb_def map_errE_def Let_def elim!: bindE_cases
      split: prod.splits sum.splits)

context kv_reliable
begin

lemma accept_totp_step_Inr:
  assumes "accept_totp_step K now (totp_rl_key u) u step w = (Inr (), w')"
  shows "(\<forall>s. view now (w_kv w) (totp_step_key u) = Some (show_nat s) \<and> int s \<le> u64_max \<longrightarrow> s < step) \<and>
    (\<forall>t\<ge>now. t < now + secs TOTP_LAST_STEP_TTL_SECS \<longrightarrow>
       view t (w_kv w') (totp_step_key u) = Some (show_nat step))"
proof -
  let ?raw = "view now (w_kv w) (totp_step_key u)"
  let ?last = "case ?raw of None \<Rightarrow> None
      | Some v \<Rightarrow> (case parse_u64 v of Inl _ \<Rightarrow> None | Inr s \<Rightarrow> Some s)"
  let ?w1 = "snd (get_flat K now (totp_step_key u) w)"
  have guard: "\<not> (case ?last of None \<Rightarrow> False | Some s \<Rightarrow> int step \<le> s)"
    using assms by (auto simp: accept_totp_step_def Let_def bindE_eq_Inr split: if_splits)
  have older: "s < step" if "?raw = Some (show_nat s)" "int s \<le> u64_max" for s
    using guard that by (simp add: parse_u64_show_nat)
  obtain w2 where set: "liftkv (kv_set K now (totp_step_key u) (show_nat step)
      (Some TOTP_LAST_STEP_TTL_SECS)) ?w1 = (Inr (), w2)"
    and v2: "\<And>t. now \<le> t \<Longrightarrow> view t (w_kv w2) = (view t (w_kv ?w1))(totp_step_key u :=
        if within_ttl (Some TOTP_LAST_STEP_TTL_SECS) now t then Some (show_nat step) else None)"
    using liftkv_set by blast
  have "w' = clear_failed_attempts K now (totp_rl_key u) w2"
    using assms guard set by (simp add: accept_totp_step_def Let_def bindE_def)
  then have "view t (w_kv w') (totp_step_key u) = Some (show_nat step)"
    if "now \<le> t" "t < now + secs TOTP_LAST_STEP_TTL_SECS" for t
    using only_keysD [OF clear_only that(1), of "totp_step_key u" "totp_rl_key u" w2] v2 [OF that(1)] that
    by (simp add: within_ttl_def)
  with older show ?thesis by blast
qed

lemma totp_run_increasing:
  "totp_run view K u now w steps \<Longrightarrow> (\<forall>s\<in>set steps. int s \<le> u64_max) \<Longrightarrow>
     sorted_wrt (>) steps \<and> remembers (\<lambda>t. view t (w_kv w)) u now steps"
proof (induction rule: totp_run.induct)
  case (start now w)
  then show ?case by (simp add: remembers_def)
next
  case (tick now w steps now')
  then show ?case using remembers_later [of "\<lambda>t. view t (w_kv w)" u now steps now' "\<lambda>t. view t (w_kv w)"] by blast
next
  case (other now w steps w')
  then show ?case
    using remembers_later [of "\<lambda>t. view t (w_kv w)" u now steps now "\<lambda>t. view t (w_kv w')"] by blast
next
  case (verified D w steps user stored A totp w1 code step w')
  let ?now = "ad_now D"
  have IH: "sorted_wrt (>) steps" "remembers (\<lambda>t. view t (w_kv w)) u ?now steps"
    using verified by simp_all
  have "accept_totp_step K ?now (totp_rl_key u) u step w1 = (Inr (), w')"
    using verified.hyps by (simp add: verify_totp_code_def)
  note acc = accept_totp_step_Inr [OF this, unfolded resolve_totp_kv [OF verified.hyps(3)]]
  note win = matched_totp_step_window [OF verified.hyps(4)]
  have "s < step" if st: "steps = s # rest" for s rest
  proof -
    obtain t0 where t0: "t0 \<le> ?now" "s \<le> unix_secs t0 div 30 + 1"
      and mem: "\<And>t. ?now \<le> t \<Longrightarrow> t < t0 + secs TOTP_LAST_STEP_TTL_SECS \<Longrightarrow>
        view t (w_kv w) (totp_step_key u) = Some (show_nat s)" and max: "int s \<le> u64_max"
      using IH(2) st by (auto simp: remembers_def)
    show ?thesis
    proof (cases "?now < t0 + secs TOTP_LAST_STEP_TTL_SECS")
      case True
      with mem [of ?now] acc max show ?thesis by blast
    next
      case False
      then have "unix_secs t0 div 30 + 4 \<le> unix_secs ?now div 30"
        by (intro window_moved_on) (simp add: TOTP_LAST_STEP_TTL_SECS_def)
      with t0(2) conjunct1 [OF win] show ?thesis by linarith
    qed
  qed
  then have "sorted_wrt (>) (step # steps)"
    using IH(1) by (cases steps) auto
  moreover have "remembers (\<lambda>t. view t (w_kv w')) u ?now (step # steps)"
    using acc win verified.prems by (auto simp: remembers_def)
  ultimately show ?case by simp
qed

end


text \<open>A concrete environment: the one-time code of an instant is its step in decimal.\<close>

definition demo_auth :: AuthEnv where
  "demo_auth = \<lparr>ae_prims = demo_prims, ae_captcha_env = demo_captcha_env, ae_captcha = CaptchaNone,
     ae_master = Some ''master'', ae_min_password_length = 8, ae_hash = (\<lambda>_ p. Some p),
     ae_verify = (\<lambda>p h. Some (p = h)), ae_b32_encode = (\<lambda>s. s), ae_b32_decode = Some,
     ae_totp_valid = (\<lambda>_ _. True), ae_totp_generate = (\<lambda>_ t. show_nat t), ae_totp_url = (\<lambda>_. ''url''),
     ae_json_parse = (\<lambda>_. None), ae_json_show = (\<lambda>_. None)\<rparr>"

definition demo_auth_draws :: "nat \<Rightarrow> AuthDraws" where
  "demo_auth_draws now = \<lparr>ad_now = now, ad_token = ''tk'', ad_user_id = ''u1'', ad_salt = [],
     ad_dek = replicate 32 (CHR ''d''), ad_nonce = replicate 12 (CHR ''n''),
     ad_nonces = (\<lambda>_. replicate 12 (CHR ''n'')), ad_settings_nonces = (\<lambda>_. replicate 12 (CHR ''n'')),
     ad_secret_bytes = Some ''secret''\<rparr>"

context kv_reliable
begin

lemma accept_totp_step_ok:
  assumes "view now (w_kv w) (totp_step_key u) = None \<or>
    (\<exists>s. view now (w_kv w) (totp_step_key u) = Some (show_nat s) \<and> int s \<le> u64_max \<and> s < step)"
  shows "\<exists>w'. accept_totp_step K now rl u step w = (Inr (), w')"
proof -
  obtain w2 where "liftkv (kv_set K now (totp_step_key u) (show_nat step)
      (Some TOTP_LAST_STEP_TTL_SECS)) (snd (get_flat K now (totp_step_key u) w)) = (Inr (), w2)"
    using liftkv_set by blast
  with assms show ?thesis
    by (auto simp: accept_totp_step_def Let_def bindE_def parse_u64_show_nat)
qed

end

definition demo_totp_secret :: string where
  "demo_totp_secret = cred_to_json demo_prims
     \<lparr>ciphertext = replicate 32 (CHR ''d'') @ replicate 12 (CHR ''n'') @ ''secret'', nonce = replicate 12 (CHR ''n'')\<rparr>"

definition demo_totp :: TOTP where
  "demo_totp = \<lparr>tp_secret = ''secret'', tp_account = ''ann''\<rparr>"

definition demo_totp_user :: UserData where
  "demo_totp_user = (user_data_from demo_user)\<lparr>ud_totp_secret := Some demo_totp_secret\<rparr>"

lemma demo_dek:
  "\<exists>db'. get_user_dek demo_prims (\<lambda>_. replicate 12 (CHR ''n'')) (replicate 12 (CHR ''n''))
     (replicate 32 (CHR ''d'')) (Some ''master'') ''u1'' demo_db = (Inr (replicate 32 (CHR ''d'')), db')"
  by (simp add: get_user_dek_def master_key_def fetch_encrypted_dek_def id_bind_value_def demo_db_def
      demo_user_def provision_and_rotate_legacy_dek_def wrap_dek_def encrypt_def derive_user_kek_def
      demo_prims_def store_wrapped_dek_if_missing_def rotate_legacy_secrets_def KEK_INFO_PREFIX_def
      fetch_account_credentials_def rotate_legacy_totp_secret_def bindE_def)

lemma demo_resolve:
  assumes "w_db w = demo_db"
  obtains w1 where "resolve_totp demo_auth (demo_auth_draws now) ''u1'' ''ann'' demo_totp_secret w = (Inr demo_totp, w1)"
    and "w_kv w1 = w_kv w"
proof -
  have json: "cred_from_json demo_prims demo_totp_secret =
      Some \<lparr>ciphertext = replicate 32 (CHR ''d'') @ replicate 12 (CHR ''n'') @ ''secret'', nonce = replicate 12 (CHR ''n'')\<rparr>"
    unfolding demo_totp_secret_def using demo_prims_laws by (simp add: aead_laws_def)
  obtain db' where "get_user_dek demo_prims (\<lambda>_. replicate 12 (CHR ''n'')) (replicate 12 (CHR ''n''))
     (replicate 32 (CHR ''d'')) (Some ''master'') ''u1'' demo_db = (Inr (replicate 32 (CHR ''d'')), db')"
    using demo_dek by blast
  then have "resolve_totp demo_auth (demo_auth_draws now) ''u1'' ''ann'' demo_totp_secret w = (Inr demo_totp, w\<lparr>w_db := db'\<rparr>)"
    using assms json
    by (simp add: resolve_totp_def user_dek_def demo_auth_def demo_auth_draws_def liftdb_def
        decrypt_totp_secret_def decrypt_def demo_prims_def build_totp_def build_totp_from_raw_def bindE_def
        map_errE_def demo_totp_def)
  with that show thesis by simp
qed

lemma demo_matched:
  "matched_totp_step demo_auth demo_totp (secs 300) (show_nat 300) = Some 10"
  "matched_totp_step demo_auth demo_totp (secs 330) (show_nat 360) = Some 12"
  by (simp_all add: matched_totp_step_def demo_auth_def unix_secs_def secs_def show_nat_inj upt_rec)

lemma demo_verify:
  assumes "totp_run mem_view memory_kv ''u1'' now w steps" and "w_db w = demo_db"
    and "matched_totp_step demo_auth demo_totp now code = Some step"
    and "mem_view now (w_kv w) (totp_step_key ''u1'') = None \<or>
      (\<exists>s. mem_view now (w_kv w) (totp_step_key ''u1'') = Some (show_nat s) \<and> int s \<le> u64_max \<and> s < step)"
  shows "\<exists>w'. totp_run mem_view memory_kv ''u1'' now (w'\<lparr>w_db := demo_db\<rparr>) (step # steps) \<and>
    (now < t \<and> t < now + secs 120 \<longrightarrow> mem_view t (w_kv w') (totp_step_key ''u1'') = Some (show_nat step))"
proof -
  let ?D = "demo_auth_draws now"
  have now: "ad_now ?D = now" by (simp add: demo_auth_draws_def)
  obtain w1 where r: "resolve_totp demo_auth ?D ''u1'' ''ann'' demo_totp_secret w = (Inr demo_totp, w1)"
    and kv: "w_kv w1 = w_kv w"
    using demo_resolve [OF assms(2)] .
  obtain w' where acc: "accept_totp_step memory_kv now (totp_rl_key ''u1'') ''u1'' step w1 = (Inr (), w')"
    using mem.accept_totp_step_ok [of now w1 "''u1''" step "totp_rl_key ''u1''"] assms(4) kv by auto
  then have "verify_totp_code memory_kv demo_auth ?D (totp_rl_key ''u1'') ''u1'' demo_totp_user code w = (Inr (), w')"
    using r assms(3) now by (simp add: verify_totp_code_def demo_totp_user_def user_data_from_def demo_user_def)
  then have "totp_run mem_view memory_kv ''u1'' (ad_now ?D) w' (step # steps)"
    using assms(1,3) r now by (intro totp_run.verified [of _ _ _ ?D w steps demo_totp_user demo_totp_secret demo_auth demo_totp w1 code])
       (simp_all add: demo_totp_user_def user_data_from_def demo_user_def)
  then have "totp_run mem_view memory_kv ''u1'' (ad_now ?D) (w'\<lparr>w_db := demo_db\<rparr>) (step # steps)"
    by (rule totp_run.other) simp
  with mem.accept_totp_step_Inr [OF acc] now show ?thesis
    by (auto simp: TOTP_LAST_STEP_TTL_SECS_def)
qed


section \<open>Changing the password\<close>

lemma liftdb_Inr: "liftdb m w = (Inr x, w') \<longleftrightarrow> (\<exists>d. m (w_db w) = (Inr x, d) \<and> w' = w\<lparr>w_db := d\<rparr>)"
  by (auto simp: liftdb_def Let_def split: prod.splits)

context kv_reliable
begin

lemma reauthenticate_Inr:
  assumes "reauthenticate K A now msg u pw w = (Inr user, w')"
  shows "find_user_by_id (w_db w) u = Inr (Some user) \<and> check_password A ''Verification failed'' user pw = Inr True \<and>
    w_db w' = w_db w \<and> only_keys view now {pwd_rl_key u} w w'"
proof -
  from assms obtain w1 where
    s1: "ensure_not_rate_limited K now (pwd_rl_key u) ''Verification failed'' w = (Inr (), w1)"
    and f: "find_user_by_id (w_db w1) u = Inr (Some user)"
    and c: "check_password A ''Verification failed'' user pw = Inr True"
    and w': "w' = clear_failed_attempts K now (pwd_rl_key u) w1"
    unfolding reauthenticate_def Let_def
    by (auto simp: bindE_eq_Inr find_user_or_fail_Inr split: if_splits)
  have "only_keys view now {pwd_rl_key u} w w1" "w_db w1 = w_db w"
    using ensure_only [OF s1] by blast+
  with f c w' clear_only [of now "pwd_rl_key u" w1] show ?thesis
    by (simp add: only_keys_def)
qed

lemma change_password_Inr:
  assumes "change_password K A D u old new w = (Inr (), w')"
  obtains w1 d w3 user h where
    "reauthenticate K A (ad_now D) ''Current password is incorrect'' u old w = (Inr user, w1)"
    and "validate_password new (ae_min_password_length A) = Inr ()" and "ae_hash A (ad_salt D) new = Some h"
    and "update_user_password u h (w_db w1) = (Inr (), d)"
    and "invalidate_user_sessions K (ad_now D) u (w1\<lparr>w_db := d\<rparr>) = (Inr (), w3)"
    and "w' = clear_failed_attempts K (ad_now D) (login_rl_key (ud_username user)) w3"
proof (cases "validate_password new (ae_min_password_length A)")
  case (Inl msg)
  with assms show thesis
    by (simp add: change_password_def bindE_eq_Inr errE_def)
next
  case (Inr x)
  with assms that show thesis
    unfolding change_password_def
    by (cases "ae_hash A (ad_salt D) new")
       (fastforce simp: bindE_eq_Inr hash_password_def liftdb_Inr)+
qed

lemma clear_session_user:
  "session_user (view t (w_kv (clear_failed_attempts K now (login_rl_key n) w))) db token =
     session_user (view t (w_kv w)) db token" if "now \<le> t"
  using only_keysD [OF clear_only that, of _ "login_rl_key n" w]
  by (simp add: session_user_def split: option.split sum.split)

lemma change_password_kicks:
  assumes "epochs_bounded view (ad_now D, w)" and "change_password K A D u old new w = (Inr (), w')"
    and "ad_now D \<le> t"
  shows "fst (get_session K t token w') \<noteq> Some u"
proof -
  from assms(2) obtain w1 d w3 user h where
    r: "reauthenticate K A (ad_now D) ''Current password is incorrect'' u old w = (Inr user, w1)"
    and p: "update_user_password u h (w_db w1) = (Inr (), d)"
    and i: "invalidate_user_sessions K (ad_now D) u (w1\<lparr>w_db := d\<rparr>) = (Inr (), w3)"
    and w': "w' = clear_failed_attempts K (ad_now D) (login_rl_key (ud_username user)) w3"
    by (rule change_password_Inr)
  have "w_db w1 = w_db w" and o: "only_keys view (ad_now D) {pwd_rl_key u} w w1"
    using reauthenticate_Inr [OF r] by blast+
  then have "epochs_bounded view (ad_now D, w1)"
    by (intro bounded_frame [OF assms(1)]) (simp_all add: only_keysD [OF o])
  moreover have "user_epoch d v = user_epoch (w_db w1) v" for v
    using p unfolding update_user_password_def by (rule user_epoch_update_frame) simp_all
  ultimately have "epochs_bounded view (ad_now D, w1\<lparr>w_db := d\<rparr>)"
    by (simp add: epochs_bounded_def)
  from invalidate_kicks [OF this i assms(3)] show ?thesis
    using assms(3) by (simp add: w' clear_session_user)
qed

end

lemma find_user_by_id_Some:
  "find_user_by_id db u = Inr (Some x) \<longleftrightarrow> \<not> db_fault db \<and>
     (\<exists>i r. id_bind_value db u = Some i \<and> find (\<lambda>r. u_id r = i) (db_users db) = Some r \<and> x = user_data_from r)"
  by (auto simp: find_user_by_id_def split: option.splits)

lemma update_user_find:
  assumes "update_user u f db = (Inr (), db')" and "find_user_by_id db u = Inr (Some (user_data_from r))"
    and "\<And>r. u_id (f r) = u_id r"
    and "\<And>r r'. user_data_from r = user_data_from r' \<Longrightarrow> user_data_from (f r) = user_data_from (f r')"
  shows "find_user_by_id db' u = Inr (Some (user_data_from (f r)))"
proof -
  from assms(2) obtain i r' where i: "id_bind_value db u = Some i" "\<not> db_fault db"
    and r': "find (\<lambda>r. u_id r = i) (db_users db) = Some r'" "user_data_from r' = user_data_from r"
    by (auto simp: find_user_by_id_Some)
  have "find (\<lambda>r. u_id r = i) (map (\<lambda>r. if u_id r = i then f r else r) (db_users db)) = Some (f r')"
    using find_map_update [of f i i "db_users db", OF assms(3)] r'(1) find_Some_member [OF r'(1)]
    by simp
  moreover have "db' = db\<lparr>db_users := map (\<lambda>r. if u_id r = i then f r else r) (db_users db)\<rparr>"
    using assms(1) i by (simp add: update_user_def)
  ultimately show ?thesis
    using i assms(4) [OF r'(2)] by (auto simp: find_user_by_id_Some)
qed

text \<open>C15: A password change that succeeds was authorised by the current password, stores the hash of
  the new one, and revokes every session of the user, whatever happened before: no token names the
  user any more, at once and at any later time.\<close>

theorem change_password_revokes:
  assumes "sess_reach memory_kv Map.empty (ad_now D, w)"
    and "change_password memory_kv A D u old new w = (Inr (), w')"
  shows "(\<exists>user h. find_user_by_id (w_db w) u = Inr (Some user) \<and>
      check_password A ''Verification failed'' user old = Inr True \<and> ae_hash A (ad_salt D) new = Some h \<and>
      find_user_by_id (w_db w') u = Inr (Some (user\<lparr>ud_password_hash := Some h\<rparr>))) \<and>
    (\<forall>t\<ge>ad_now D. \<forall>token. fst (get_session memory_kv t token w') \<noteq> Some u)"
proof
  have "epochs_bounded mem_view (ad_now D, w)"
    using assms(1) by (rule mem.sess_reach_bounded) (simp add: mem_view_def)
  from mem.change_password_kicks [OF this assms(2)]
  show "\<forall>t\<ge>ad_now D. \<forall>token. fst (get_session memory_kv t token w') \<noteq> Some u" by blast
  from assms(2) obtain w1 d w3 user h where
    r: "reauthenticate memory_kv A (ad_now D) ''Current password is incorrect'' u old w = (Inr user, w1)"
    and h: "ae_hash A (ad_salt D) new = Some h" and p: "update_user_password u h (w_db w1) = (Inr (), d)"
    and i: "invalidate_user_sessions memory_kv (ad_now D) u (w1\<lparr>w_db := d\<rparr>) = (Inr (), w3)"
    and w': "w' = clear_failed_attempts memory_kv (ad_now D) (login_rl_key (ud_username user)) w3"
    by (rule mem.change_password_Inr)
  note rr = mem.reauthenticate_Inr [OF r]
  then obtain row where row: "user = user_data_from row" "find_user_by_id (w_db w1) u = Inr (Some (user_data_from row))"
    by (auto simp: find_user_by_id_Some)
  have "find_user_by_id d u = Inr (Some (user_data_from (row\<lparr>u_password_hash := h\<rparr>)))"
    using p row(2) unfolding update_user_password_def
    by (rule update_user_find) (simp_all add: user_data_from_def)
  moreover obtain e where "fetch_sess_epoch d u = Inr e"
    using mem.invalidate_error [OF i] by (cases "fetch_sess_epoch d u") auto
  then have "bump_sess_epoch u d = (Inr (), w_db w3)"
    using mem.invalidate_result [OF i] by auto
  ultimately have "find_user_by_id (w_db w3) u = Inr (Some (user_data_from
      ((row\<lparr>u_password_hash := h\<rparr>)\<lparr>u_sess_epoch := u_sess_epoch (row\<lparr>u_password_hash := h\<rparr>) + 1\<rparr>)))"
    unfolding bump_sess_epoch_def
    by (intro update_user_find [where db = d and f = "\<lambda>r. r\<lparr>u_sess_epoch := u_sess_epoch r + 1\<rparr>"])
       (simp_all add: user_data_from_def)
  then have "find_user_by_id (w_db w') u = Inr (Some (user\<lparr>ud_password_hash := Some h\<rparr>))"
    by (simp add: w' row(1) user_data_from_def)
  with rr h show "\<exists>user h. find_user_by_id (w_db w) u = Inr (Some user) \<and>
      check_password A ''Verification failed'' user old = Inr True \<and> ae_hash A (ad_salt D) new = Some h \<and>
      find_user_by_id (w_db w') u = Inr (Some (user\<lparr>ud_password_hash := Some h\<rparr>))" by blast
qed


context kv_reliable
begin

lemma ensure_ok:
  assumes "attempts_of (view now (w_kv w) key) < RATE_LIMIT_MAX_ATTEMPTS"
  obtains w1 where "ensure_not_rate_limited K now key op w = (Inr (), w1)" and "w_db w1 = w_db w"
    and "\<And>t. now \<le> t \<Longrightarrow> view t (w_kv w1) = view t (w_kv w)"
proof -
  obtain w1 where "ensure_not_rate_limited K now key op w = (Inr (), w1)"
    using ensure_not_rate_limited_result [of now key op w] assms
    by (cases "ensure_not_rate_limited K now key op w") auto
  with ensure_not_rate_limited_frame [OF this] that show thesis by blast
qed

lemma invalidate_ok:
  assumes "fetch_sess_epoch (w_db w) u = Inr e"
  shows "\<exists>w'. invalidate_user_sessions K now u w = (Inr (), w')"
proof -
  obtain res w' where eq: "invalidate_user_sessions K now u w = (res, w')" by (rule prod.exhaust)
  from invalidate_result [OF eq assms] eq show ?thesis by blast
qed

lemma change_password_ok:
  assumes "attempts_of (view (ad_now D) (w_kv w) (pwd_rl_key u)) < RATE_LIMIT_MAX_ATTEMPTS"
    and "find_user_by_id (w_db w) u = Inr (Some user)"
    and "check_password A ''Verification failed'' user old = Inr True"
    and "validate_password new (ae_min_password_length A) = Inr ()" and "ae_hash A (ad_salt D) new = Some h"
  shows "\<exists>w'. change_password K A D u old new w = (Inr (), w')"
proof -
  obtain w1 where e: "ensure_not_rate_limited K (ad_now D) (pwd_rl_key u) ''Verification failed'' w = (Inr (), w1)"
    and db: "w_db w1 = w_db w"
    using ensure_ok [OF assms(1)] by blast
  let ?w1 = "clear_failed_attempts K (ad_now D) (pwd_rl_key u) w1"
  have r: "reauthenticate K A (ad_now D) ''Current password is incorrect'' u old w = (Inr user, ?w1)"
    using e assms(2,3) db by (simp add: reauthenticate_def Let_def find_user_or_fail_def bindE_def)
  obtain i row where i: "id_bind_value (w_db w) u = Some i" "\<not> db_fault (w_db w)"
    and row: "find (\<lambda>r. u_id r = i) (db_users (w_db w)) = Some row"
    using assms(2) by (auto simp: find_user_by_id_Some)
  let ?d = "(w_db w)\<lparr>db_users := map (\<lambda>r. if u_id r = i then r\<lparr>u_password_hash := h\<rparr> else r) (db_users (w_db w))\<rparr>"
  have p: "update_user_password u h (w_db ?w1) = (Inr (), ?d)"
    using i db by (simp add: update_user_password_def update_user_def)
  have "find (\<lambda>r. u_id r = i) (map (\<lambda>r. if u_id r = i then r\<lparr>u_password_hash := h\<rparr> else r) (db_users (w_db w))) =
      map_option (\<lambda>r. if u_id r = i then r\<lparr>u_password_hash := h\<rparr> else r) (Some row)"
    using find_map_update [of "\<lambda>r. r\<lparr>u_password_hash := h\<rparr>" i i "db_users (w_db w)"] row by simp
  with i obtain e where "fetch_sess_epoch ?d u = Inr e"
    by (simp add: fetch_sess_epoch_def)
  then obtain w3 where "invalidate_user_sessions K (ad_now D) u (?w1\<lparr>w_db := ?d\<rparr>) = (Inr (), w3)"
    using invalidate_ok [of "?w1\<lparr>w_db := ?d\<rparr>" u e "ad_now D"] by auto
  with r p assms(4,5) show ?thesis
    by (simp add: change_password_def bindE_def hash_password_def map_errE_def liftdb_def)
qed

end

theorem change_password_revokes_witness:
  "\<exists>w w'. sess_reach memory_kv Map.empty (5, w) \<and> fst (get_session memory_kv 5 ''tk'' w) = Some ''u1'' \<and>
    change_password memory_kv demo_auth (demo_auth_draws 5) ''u1'' ''h'' ''Correct-Horse-9'' w = (Inr (), w') \<and>
    fst (get_session memory_kv 6 ''tk'' w') \<noteq> Some ''u1''"
proof -
  obtain w where c: "create_session memory_kv 5 ''tk'' ''u1'' demo_world = (Inr ''tk'', w)"
    using demo_create by blast
  have r: "sess_reach memory_kv Map.empty (ad_now (demo_auth_draws 5), w)"
    unfolding demo_auth_draws_def AuthDraws.select_convs
    by (rule sess_reach.step [OF _ sess_step.create [OF c]]) (simp add: demo_world_def sess_reach.start)
  obtain e where db: "w_db w = demo_db" and e: "fetch_sess_epoch (w_db w) ''u1'' = Inr e"
    and v: "\<And>t. 5 \<le> t \<Longrightarrow> mem_view t (w_kv w) = renewed 5 ''tk'' ''u1'' e t (mem_view t (w_kv demo_world))"
    using mem.create_session_view [OF c] by (metis World.select_convs(2) demo_world_def)
  have g: "fst (get_session memory_kv 5 ''tk'' w) = Some ''u1''"
    using v [of 5] e by (simp add: session_user_def renewed_def within_ttl_def secs_def SESSION_TTL_SECS_def)
  have "mem_view 5 (w_kv w) (pwd_rl_key ''u1'') = None"
    using v [of 5] by (simp add: renewed_def demo_world_def mem_view_def key_defs)
  then have "\<exists>w'. change_password memory_kv demo_auth (demo_auth_draws 5) ''u1'' ''h'' ''Correct-Horse-9'' w = (Inr (), w')"
    by (intro mem.change_password_ok [where user = "user_data_from demo_user" and h = "''Correct-Horse-9''"])
       (simp_all add: db demo_db_def demo_user_def find_user_by_id_def id_bind_value_def check_password_def
         user_data_from_def verify_password_def demo_auth_def demo_auth_draws_def validate_password_def
         MAX_PASSWORD_LENGTH_def attempts_of_def RATE_LIMIT_MAX_ATTEMPTS_def char_count_def
         is_ascii_uppercase_def is_ascii_lowercase_def is_ascii_digit_def)
  then obtain w' where w': "change_password memory_kv demo_auth (demo_auth_draws 5) ''u1'' ''h'' ''Correct-Horse-9'' w = (Inr (), w')"
    by blast
  have "fst (get_session memory_kv 6 ''tk'' w') \<noteq> Some ''u1''"
    using change_password_revokes [OF r w'] by (simp add: demo_auth_draws_def)
  with r g w' show ?thesis by (auto simp: demo_auth_draws_def)
qed

section \<open>The lockout of a login name\<close>

fun login_all ::
  "'s KvStore \<Rightarrow> AuthEnv \<Rightarrow> (AuthDraws \<times> LoginRequest) list \<Rightarrow> 's World
    \<Rightarrow> (AuthError + LoginResponse) list \<times> 's World" where
  "login_all K A [] w = ([], w)"
| "login_all K A ((D, req) # rest) w =
     (case auth_login K A D req w of (r, w1) \<Rightarrow>
      case login_all K A rest w1 of (rs, w2) \<Rightarrow> (r # rs, w2))"

lemma captcha_not_429: "ensure_captcha K A now token w = (Inl e, w') \<Longrightarrow> \<exists>m. e = BadRequest m"
  by (auto simp: ensure_captcha_def split: prod.splits if_splits option.splits sum.splits)

lemma note_failed_attempt_Inl: "note_failed_attempt K now key op w = (Inl e, w') \<Longrightarrow> e = InternalErr op"
  by (auto simp: note_failed_attempt_def map_errE_def bindE_def split: prod.splits sum.splits)

lemma check_password_Inl: "check_password A op user pw = Inl e \<Longrightarrow> \<exists>m. e = InternalErr m"
  by (auto simp: check_password_def split: option.splits sum.splits)

lemma find_user_by_username_Inl: "find_user_by_username db n = Inl e \<Longrightarrow> \<exists>m. e = InternalErr m"
  by (auto simp: find_user_by_username_def split: if_splits)

lemma login_success_Inl: "login_success K A D user w = (Inl e, w') \<Longrightarrow> \<exists>m. e = InternalErr m"
  by (auto simp: login_success_def map_errE_def bindE_def split: if_splits prod.splits sum.splits)

lemma wrong_password_result:
  assumes "bindE (note_failed_attempt K now key op) (\<lambda>_. errE err) w = (r, w')"
  obtains "r = Inl (InternalErr op)" | "r = Inl err" "note_failed_attempt K now key op w = (Inr (), w')"
  using assms by (auto elim!: bindE_cases dest: note_failed_attempt_Inl)

text \<open>The ways out of \<^verbatim>\<open>auth_login\<close> with an error.\<close>

lemma auth_login_Inl:
  assumes "auth_login K A D req w = (Inl e, w')"
  obtains (limit) "ensure_not_rate_limited K (ad_now D) (login_rl_key (lq_username req)) ''Authentication failed'' w = (Inl e, w')"
  | (captcha) m where "e = BadRequest m" | (internal) m where "e = InternalErr m"
  | (wrong) w1 w2 where "e = invalid_credentials"
    and "ensure_not_rate_limited K (ad_now D) (login_rl_key (lq_username req)) ''Authentication failed'' w = (Inr (), w1)"
    and "ensure_captcha K A (ad_now D) (lq_captcha_token req) w1 = (Inr (), w2)"
    and "note_failed_attempt K (ad_now D) (login_rl_key (lq_username req)) ''Authentication failed'' w2 = (Inr (), w')"
  using assms [unfolded auth_login_def Let_def]
proof (cases rule: bindE_cases)
  case (2 x w1)
  note e1 = 2(1)
  from 2(2) show thesis
  proof (cases rule: bindE_cases)
    case (1 err)
    with captcha_not_429 [OF 1(1)] captcha show thesis by blast
  next
    case (2 y w2)
    note e2 = 2(1)
    have fail: thesis if "bindE (note_failed_attempt K (ad_now D) (login_rl_key (lq_username req))
        ''Authentication failed'') (\<lambda>_. errE invalid_credentials) w2 = (Inl e, w')"
      using that e1 e2 by (elim wrong_password_result) (auto intro: internal wrong)
    from 2(2) show thesis
    proof (cases rule: bindE_cases)
      case (1 err)
      with internal show thesis by (auto dest: find_user_by_username_Inl)
    next
      case (2 found w3)
      then have w3: "w3 = w2" by simp
      show thesis
      proof (cases found)
        case None
        from 2(2) [unfolded w3 None option.case] show thesis by (rule fail)
      next
        case (Some user)
        from 2(2) [unfolded w3 Some option.case] show thesis
        proof (cases rule: bindE_cases)
          case (1 err)
          with internal show thesis by (auto dest: check_password_Inl)
        next
          case (2 valid w4)
          then have "w4 = w2" by simp
          with 2(2) fail internal show thesis
            by (cases valid) (auto dest: login_success_Inl)
        qed
      qed
    qed
  qed
qed (use limit in simp)

context kv_reliable
begin

lemma auth_login_limited:
  "fst (auth_login K A D req w) = Inl TooManyRequests \<longleftrightarrow>
     RATE_LIMIT_MAX_ATTEMPTS \<le> attempts_of (view (ad_now D) (w_kv w) (login_rl_key (lq_username req)))"
proof -
  let ?e = "ensure_not_rate_limited K (ad_now D) (login_rl_key (lq_username req)) ''Authentication failed'' w"
  have "fst ?e = Inl TooManyRequests" if "auth_login K A D req w = (Inl TooManyRequests, w')" for w'
    using that by (cases rule: auth_login_Inl) (simp_all add: invalid_credentials_def)
  moreover have "fst (auth_login K A D req w) = Inl TooManyRequests" if "?e = (Inl TooManyRequests, w')" for w'
    using that by (simp add: auth_login_def Let_def)
  ultimately have "fst (auth_login K A D req w) = Inl TooManyRequests \<longleftrightarrow> fst ?e = Inl TooManyRequests"
    by (cases "auth_login K A D req w"; cases ?e) auto
  then show ?thesis
    by (simp add: ensure_not_rate_limited_result)
qed

lemma auth_login_wrong:
  assumes "auth_login K A D req w = (Inl invalid_credentials, w')"
  obtains w2 where "\<And>t. ad_now D \<le> t \<Longrightarrow> view t (w_kv w2) = view t (w_kv w)"
    and "note_failed_attempt K (ad_now D) (login_rl_key (lq_username req)) ''Authentication failed'' w2 = (Inr (), w')"
  using assms
proof (cases rule: auth_login_Inl)
  case limit
  then show thesis
    using ensure_not_rate_limited_result [of "ad_now D" "login_rl_key (lq_username req)" "''Authentication failed''" w]
    by (simp add: invalid_credentials_def split: if_splits)
next
  case (wrong w1 w2)
  have "view t (w_kv w2) = view t (w_kv w)" if "ad_now D \<le> t" for t
    using ensure_only [OF wrong(2), of "{}"] captcha_only [OF wrong(3), of "{}"] that
    by (auto simp: only_keys_def)
  with wrong(4) that show thesis by blast
qed (simp_all add: invalid_credentials_def)

lemma login_all_counter:
  assumes "counter_at (\<lambda>t. view t (w_kv w)) (login_rl_key name) n t1 a"
    and "sorted (a # map (ad_now \<circ> fst) ds)"
    and "\<forall>(D, req)\<in>set ds. ad_now D < t1 + secs RATE_LIMIT_WINDOW_SECS \<and> lq_username req = name"
    and "login_all K A ds w = (replicate (length ds) (Inl invalid_credentials), w')"
  shows "counter_at (\<lambda>t. view t (w_kv w')) (login_rl_key name) (n + length ds) t1 (last (a # map (ad_now \<circ> fst) ds))"
  using assms
proof (induction ds arbitrary: w n a)
  case (Cons d ds)
  obtain D req where d: "d = (D, req)" by (cases d)
  let ?k = "login_rl_key name" and ?now = "ad_now D"
  have name: "lq_username req = name" and now: "a \<le> ?now" "?now < t1 + secs RATE_LIMIT_WINDOW_SECS"
    using Cons.prems(2,3) by (auto simp: d)
  obtain w1 where l: "auth_login K A D req w = (Inl invalid_credentials, w1)"
    and rest: "login_all K A ds w1 = (replicate (length ds) (Inl invalid_credentials), w')"
    using Cons.prems(4) by (auto simp: d split: prod.splits)
  obtain w2 where v2: "\<And>t. ?now \<le> t \<Longrightarrow> view t (w_kv w2) = view t (w_kv w)"
    and nf: "note_failed_attempt K ?now ?k ''Authentication failed'' w2 = (Inr (), w1)"
    using auth_login_wrong [OF l] name by blast
  have "counter_at (\<lambda>t. view t (w_kv w2)) ?k n t1 ?now"
    using Cons.prems(1) now(1) v2 by (simp add: counter_at_def)
  then have "counter_at (\<lambda>t. view t (w_kv w1)) ?k (Suc n) t1 ?now"
    by (rule note_next [OF _ order_refl now(2), where op = "''Authentication failed''"]) (use nf in simp)
  from Cons.IH [OF this _ _ rest] Cons.prems(2,3) show ?case
    by (auto simp: d)
qed simp

lemma login_lockout_exact:
  assumes "view t1 (w_kv w) (login_rl_key name) = None" and "ad_now D1 = t1" and "lq_username r1 = name"
    and "sorted (t1 # map (ad_now \<circ> fst) ds @ [ad_now D])" and "lq_username req = name"
    and "\<forall>(D, req)\<in>set ds. ad_now D < t1 + secs RATE_LIMIT_WINDOW_SECS \<and> lq_username req = name"
    and "login_all K A ((D1, r1) # ds) w = (replicate (Suc (length ds)) (Inl invalid_credentials), w')"
  shows "fst (auth_login K A D req w') = Inl TooManyRequests \<longleftrightarrow>
    5 \<le> Suc (length ds) \<and> ad_now D < t1 + secs RATE_LIMIT_WINDOW_SECS"
proof -
  obtain w1 where l: "auth_login K A D1 r1 w = (Inl invalid_credentials, w1)"
    and rest: "login_all K A ds w1 = (replicate (length ds) (Inl invalid_credentials), w')"
    using assms(7) by (auto split: prod.splits)
  obtain w2 where v2: "\<And>t. t1 \<le> t \<Longrightarrow> view t (w_kv w2) = view t (w_kv w)"
    and nf: "note_failed_attempt K t1 (login_rl_key name) ''Authentication failed'' w2 = (Inr (), w1)"
    using auth_login_wrong [OF l] assms(2,3) by blast
  have "view t1 (w_kv w2) (login_rl_key name) = None"
    using v2 [of t1] assms(1) by simp
  then have "counter_at (\<lambda>t. view t (w_kv w1)) (login_rl_key name) 1 t1 t1"
    by (rule note_first [where op = "''Authentication failed''"]) (use nf in simp)
  from login_all_counter [OF this _ assms(6) rest] assms(4)
  have c: "counter_at (\<lambda>t. view t (w_kv w')) (login_rl_key name) (Suc (length ds)) t1 (last (t1 # map (ad_now \<circ> fst) ds))"
    by (simp add: sorted_append)
  moreover have "last (t1 # map (ad_now \<circ> fst) ds) \<le> ad_now D"
    using assms(4) last_in_set [of "t1 # map (ad_now \<circ> fst) ds"] by (auto simp: sorted_append)
  ultimately have "view (ad_now D) (w_kv w') (login_rl_key name) =
      (if ad_now D < t1 + secs RATE_LIMIT_WINDOW_SECS
       then Some (show_int (min i64_max (int (Suc (length ds))))) else None)"
    by (simp add: counter_at_def)
  then have "attempts_of (view (ad_now D) (w_kv w') (login_rl_key name)) =
      (if ad_now D < t1 + secs RATE_LIMIT_WINDOW_SECS then min i64_max (int (Suc (length ds))) else 0)"
    using parse_count [of "Suc (length ds)"] by (simp add: attempts_of_def)
  then show ?thesis
    by (simp add: auth_login_limited assms(5) RATE_LIMIT_MAX_ATTEMPTS_def i64_max_def)
qed

end


text \<open>C20: The login lockout is exact. Failed logins for a name, the first at \<open>t1\<close> and the others
  within fifteen minutes of it, lock the name: a further login, whatever its password, is answered
  429 if and only if there were at least five of them and the fifteen minutes are not over.\<close>

theorem login_lockout:
  assumes "mem_view t1 (w_kv w) (login_rl_key name) = None" and "ad_now D1 = t1" and "lq_username r1 = name"
    and "sorted (t1 # map (ad_now \<circ> fst) ds @ [ad_now D])" and "lq_username req = name"
    and "\<forall>(D, req)\<in>set ds. ad_now D < t1 + secs RATE_LIMIT_WINDOW_SECS \<and> lq_username req = name"
    and "login_all memory_kv A ((D1, r1) # ds) w = (replicate (Suc (length ds)) (Inl invalid_credentials), w')"
  shows "fst (auth_login memory_kv A D req w') = Inl TooManyRequests \<longleftrightarrow>
    5 \<le> Suc (length ds) \<and> ad_now D < t1 + secs RATE_LIMIT_WINDOW_SECS"
  using assms by (rule mem.login_lockout_exact)

definition demo_guess :: "nat \<Rightarrow> AuthDraws \<times> LoginRequest" where
  "demo_guess t = (demo_auth_draws t, \<lparr>lq_username = ''ann'', lq_password = ''wrong'', lq_captcha_token = None\<rparr>)"

definition demo_counted :: "int \<Rightarrow> MemoryKv World" where
  "demo_counted n = \<lparr>w_kv = [login_rl_key ''ann'' \<mapsto> \<lparr>e_value = show_int n, e_expires_at = Some (secs 900)\<rparr>], w_db = demo_db\<rparr>"

lemmas demo_guess_simps =
  demo_guess_def auth_login_def Let_def bindE_def ensure_not_rate_limited_def is_rate_limited_def map_errE_def
  liftkv_def mem_get_def mem_incr_def demo_auth_draws_def ensure_captcha_def effective_captcha_def load_effective_def
  load_stored_def read_blob_def demo_auth_def SETTINGS_KV_KEY_def login_rl_key_def find_user_by_username_def
  demo_db_def demo_user_def user_data_from_def check_password_def verify_password_def note_failed_attempt_def
  record_failed_attempt_def attempts_of_def RATE_LIMIT_MAX_ATTEMPTS_def RATE_LIMIT_WINDOW_SECS_def expired_def
  deadline_def

lemma demo_guess_first:
  "auth_login memory_kv demo_auth (fst (demo_guess 0)) (snd (demo_guess 0)) demo_world =
     (Inl invalid_credentials, demo_counted 1)"
  by (simp add: demo_guess_simps demo_world_def demo_counted_def)

lemma demo_guess_next:
  assumes "0 \<le> n" and "n < 5" and "t < 900"
  shows "auth_login memory_kv demo_auth (fst (demo_guess t)) (snd (demo_guess t)) (demo_counted n) =
     (Inl invalid_credentials, demo_counted (n + 1))"
proof -
  have "parse_i64 (show_int n) = Inr n" "saturating_add_i64 n 1 = n + 1"
    using assms by (simp_all add: parse_i64_show_int i64_min_def i64_max_def saturating_add_i64_def)
  with assms show ?thesis
    by (simp add: demo_guess_simps demo_counted_def secs_def)
qed

theorem login_lockout_witness:
  "\<exists>w'. login_all memory_kv demo_auth (map demo_guess [0, 1, 2, 3, 4]) demo_world =
      (replicate 5 (Inl invalid_credentials), w') \<and>
    fst (auth_login memory_kv demo_auth (demo_auth_draws 9)
      \<lparr>lq_username = ''ann'', lq_password = ''h'', lq_captcha_token = None\<rparr> w') = Inl TooManyRequests"
proof -
  let ?req = "\<lparr>lq_username = ''ann'', lq_password = ''wrong'', lq_captcha_token = None\<rparr>"
  have "login_all memory_kv demo_auth (map demo_guess [0, 1, 2, 3, 4]) demo_world =
      (replicate 5 (Inl invalid_credentials), demo_counted 5)"
    using demo_guess_first demo_guess_next [of _ 1] demo_guess_next [of _ 2] demo_guess_next [of _ 3]
      demo_guess_next [of _ 4]
    by (simp add: demo_guess_def numeral_eq_Suc)
  then have all: "login_all memory_kv demo_auth ((demo_auth_draws 0, ?req) # map demo_guess [1, 2, 3, 4]) demo_world =
      (replicate (Suc (length (map demo_guess [1, 2, 3, 4]))) (Inl invalid_credentials), demo_counted 5)"
    by (simp add: demo_guess_def numeral_eq_Suc)
  have "fst (auth_login memory_kv demo_auth (demo_auth_draws 9)
      \<lparr>lq_username = ''ann'', lq_password = ''h'', lq_captcha_token = None\<rparr> (demo_counted 5)) = Inl TooManyRequests"
    using login_lockout [OF _ _ _ _ _ _ all, of 0 "''ann''" "demo_auth_draws 9"
        "\<lparr>lq_username = ''ann'', lq_password = ''h'', lq_captcha_token = None\<rparr>"]
    by (simp add: demo_guess_def demo_auth_draws_def demo_world_def mem_view_def secs_def RATE_LIMIT_WINDOW_SECS_def)
  with all show ?thesis by (intro exI [of _ "demo_counted 5"]) (simp add: demo_guess_def numeral_eq_Suc)
qed

section \<open>The first user\<close>

lemma has_any_user_Inr: "has_any_user db = Inr True \<longleftrightarrow> \<not> db_fault db \<and> db_users db \<noteq> []"
  by (simp add: has_any_user_def)

lemma auth_bootstrap_taken:
  "has_any_user (w_db w) = Inr True \<Longrightarrow> auth_bootstrap K A D req w = (Inl (Conflict BOOTSTRAP_TAKEN), w)"
  by (simp add: auth_bootstrap_def)

lemma insert_user_Inr:
  assumes "insert_user uid n h dn l k db = (Inr (), db')"
  obtains i where "\<not> db_fault db" and "db_users db = []" and "id_bind_value db uid = Some i"
    and "db' = db\<lparr>db_users := [\<lparr>u_id = i, u_username = n, u_password_hash = h, u_totp_secret = None,
      u_totp_enabled = False, u_display_name = dn, u_locale = l, u_mark_read_policy = ''on_open'',
      u_ui_state = None, u_sess_epoch = 0, u_encrypted_dek = Some k\<rparr>]\<rparr>"
  using assms by (auto simp: insert_user_def split: option.splits if_splits)

lemma wrap_new_dek_Inr:
  assumes "wrap_new_dek A D = Inr k"
  obtains m where "ae_master A = Some m"
    and "wrap_dek (ae_prims A) (ad_nonce D) (derive_user_kek (ae_prims A) m (ad_user_id D)) (ad_dek D) = Inr k"
  using assms
  by (cases "ae_master A"; cases "wrap_dek (ae_prims A) (ad_nonce D) (derive_user_kek (ae_prims A) (the (ae_master A)) (ad_user_id D)) (ad_dek D)")
     (auto simp: wrap_new_dek_def master_key_def)

context kv_reliable
begin

lemma auth_bootstrap_Inr:
  assumes "auth_bootstrap K A D req w = (Inr r, w')"
  obtains w1 h k l d where
    "has_any_user (w_db w) \<noteq> Inr True" and "w_db w1 = w_db w"
    and "validate_password (br_password req) (ae_min_password_length A) = Inr ()"
    and "ae_hash A (ad_salt D) (br_password req) = Some h" and "wrap_new_dek A D = Inr k"
    and "insert_user (ad_user_id D) (br_username req) h (br_display_name req) l k (w_db w1) = (Inr (), d)"
    and "create_session K (ad_now D) (ad_token D) (ad_user_id D) (w1\<lparr>w_db := d\<rparr>) = (Inr (lr_token r), w')"
    and "\<not> lr_requires_totp r" and "ui_id (lr_user r) = ad_user_id D"
proof (cases "validate_password (br_password req) (ae_min_password_length A)")
  case (Inl msg)
  with assms show thesis
    by (auto simp: auth_bootstrap_def bindE_eq_Inr split: if_splits)
next
  case (Inr x)
  from assms obtain w1 where g: "has_any_user (w_db w) \<noteq> Inr True"
    and c: "ensure_captcha K A (ad_now D) (br_captcha_token req) w = (Inr (), w1)"
    by (auto simp: auth_bootstrap_def bindE_eq_Inr split: if_splits)
  have db: "w_db w1 = w_db w" using captcha_only [OF c] by blast
  from assms g c Inr show thesis
    unfolding auth_bootstrap_def
    by (cases "ae_hash A (ad_salt D) (br_password req)")
       (auto simp: bindE_eq_Inr hash_password_def liftdb_Inr Let_def split: if_splits intro!: that [OF g db])
qed

end

text \<open>Bootstrap happens once. If it succeeds there was no user before; afterwards there is exactly
  one, with the requested name, the hash of the requested password and no second factor; the token it
  answers opens that user's session for the session window; and from then on every bootstrap is
  answered 409 and changes nothing.\<close>

theorem bootstrap_once:
  assumes "auth_bootstrap memory_kv A D req w = (Inr r, w')"
  shows "db_users (w_db w) = [] \<and>
    (\<exists>row. db_users (w_db w') = [row] \<and> u_username row = br_username req \<and>
       ae_hash A (ad_salt D) (br_password req) = Some (u_password_hash row) \<and> \<not> u_totp_enabled row) \<and>
    (\<forall>t\<ge>ad_now D. t < ad_now D + secs SESSION_TTL_SECS \<longrightarrow>
       fst (get_session memory_kv t (lr_token r) w') = Some (ui_id (lr_user r))) \<and>
    (\<forall>A' D' req'. auth_bootstrap memory_kv A' D' req' w' = (Inl (Conflict BOOTSTRAP_TAKEN), w'))"
proof -
  obtain w1 h k l d where db1: "w_db w1 = w_db w"
    and h: "ae_hash A (ad_salt D) (br_password req) = Some h"
    and ins: "insert_user (ad_user_id D) (br_username req) h (br_display_name req) l k (w_db w1) = (Inr (), d)"
    and cs: "create_session memory_kv (ad_now D) (ad_token D) (ad_user_id D) (w1\<lparr>w_db := d\<rparr>) = (Inr (lr_token r), w')"
    and ui: "ui_id (lr_user r) = ad_user_id D"
    using mem.auth_bootstrap_Inr [OF assms] by metis
  obtain i where nf: "\<not> db_fault (w_db w1)" and none: "db_users (w_db w1) = []"
    and i: "id_bind_value (w_db w1) (ad_user_id D) = Some i"
    and d: "d = (w_db w1)\<lparr>db_users := [\<lparr>u_id = i, u_username = br_username req, u_password_hash = h,
      u_totp_secret = None, u_totp_enabled = False, u_display_name = br_display_name req, u_locale = l,
      u_mark_read_policy = ''on_open'', u_ui_state = None, u_sess_epoch = 0, u_encrypted_dek = Some k\<rparr>]\<rparr>"
    using insert_user_Inr [OF ins] .
  obtain e where e: "fetch_sess_epoch d (ad_user_id D) = Inr e" and tk: "lr_token r = ad_token D"
    and db: "w_db w' = d" and v: "\<And>t. ad_now D \<le> t \<Longrightarrow> mem_view t (w_kv w') =
      renewed (ad_now D) (ad_token D) (ad_user_id D) e t (mem_view t (w_kv w1))"
    using mem.create_session_view [OF cs] by auto
  have "fst (get_session memory_kv t (lr_token r) w') = Some (ui_id (lr_user r))"
    if "ad_now D \<le> t" "t < ad_now D + secs SESSION_TTL_SECS" for t
    using that e by (simp add: tk ui db v session_user_def renewed_def within_ttl_def)
  moreover have "auth_bootstrap memory_kv A' D' req' w' = (Inl (Conflict BOOTSTRAP_TAKEN), w')" for A' D' req'
    by (rule auth_bootstrap_taken) (simp add: has_any_user_Inr db d nf)
  ultimately show ?thesis
    using none db1 h by (simp add: db d)
qed

definition demo_empty :: "MemoryKv World" where
  "demo_empty = demo_world\<lparr>w_db := demo_db\<lparr>db_users := []\<rparr>\<rparr>"

definition demo_bootstrap :: BootstrapRequest where
  "demo_bootstrap = \<lparr>br_username = ''ann'', br_password = ''Correct-Horse-9'', br_display_name = None,
     br_locale = None, br_captcha_token = None\<rparr>"

lemma demo_bootstrap_ok:
  "\<exists>r w'. auth_bootstrap memory_kv demo_auth (demo_auth_draws 7) demo_bootstrap demo_empty = (Inr r, w') \<and>
     lr_token r = ''tk'' \<and> ui_id (lr_user r) = ''u1''"
  by (simp add: auth_bootstrap_def demo_empty_def demo_world_def demo_db_def demo_bootstrap_def has_any_user_def
      ensure_captcha_def effective_captcha_def load_effective_def load_stored_def read_blob_def mem_get_def
      demo_auth_def demo_auth_draws_def bindE_def map_errE_def validate_password_def MAX_PASSWORD_LENGTH_def
      char_count_def is_ascii_uppercase_def is_ascii_lowercase_def is_ascii_digit_def hash_password_def
      wrap_new_dek_def master_key_def wrap_dek_def encrypt_def demo_prims_def derive_user_kek_def
      KEK_INFO_PREFIX_def insert_user_def id_bind_value_def liftdb_def create_session_def readdb_def
      fetch_sess_epoch_def liftkv_def mem_set_def Let_def)

theorem bootstrap_once_witness:
  "\<exists>r w'. auth_bootstrap memory_kv demo_auth (demo_auth_draws 7) demo_bootstrap demo_empty = (Inr r, w') \<and>
     fst (get_session memory_kv 8 ''tk'' w') = Some ''u1'' \<and>
     auth_bootstrap memory_kv demo_auth (demo_auth_draws 9) demo_bootstrap w' = (Inl (Conflict BOOTSTRAP_TAKEN), w')"
proof -
  obtain r w' where b: "auth_bootstrap memory_kv demo_auth (demo_auth_draws 7) demo_bootstrap demo_empty = (Inr r, w')"
    and r: "lr_token r = ''tk''" "ui_id (lr_user r) = ''u1''"
    using demo_bootstrap_ok by blast
  have "8 < (7::nat) + secs SESSION_TTL_SECS" by (simp add: secs_def SESSION_TTL_SECS_def)
  then show ?thesis
    using bootstrap_once [OF b] b r by (auto simp: demo_auth_draws_def simp del: mem.get_session_fst)
qed

text \<open>The login of a user with a second factor, in the demonstration environment.\<close>

definition demo_totp_world :: "MemoryKv World" where
  "demo_totp_world = demo_world\<lparr>w_db := demo_db\<lparr>db_users := [demo_user\<lparr>u_totp_enabled := True\<rparr>]\<rparr>\<rparr>"

theorem totp_login_opens_no_session_witness:
  "\<exists>r w'. auth_login memory_kv demo_auth (demo_auth_draws 7)
      \<lparr>lq_username = ''ann'', lq_password = ''h'', lq_captcha_token = None\<rparr> demo_totp_world = (Inr r, w') \<and>
    lr_requires_totp r \<and> fst (get_session memory_kv 8 ''tk'' w') = fst (get_session memory_kv 8 ''tk'' demo_totp_world)"
proof -
  let ?req = "\<lparr>lq_username = ''ann'', lq_password = ''h'', lq_captcha_token = None\<rparr>"
  have "\<exists>r w'. auth_login memory_kv demo_auth (demo_auth_draws 7) ?req demo_totp_world = (Inr r, w')"
    by (simp add: demo_guess_simps demo_totp_world_def demo_world_def login_success_def create_pending_session_def
        mem_set_def clear_failed_attempts_def del_ignore_def)
  then obtain r w' where l: "auth_login memory_kv demo_auth (demo_auth_draws 7) ?req demo_totp_world = (Inr r, w')"
    by blast
  have "find_user_by_username (w_db demo_totp_world) (lq_username ?req) =
      Inr (Some (user_data_from (demo_user\<lparr>u_totp_enabled := True\<rparr>)))"
    by (simp add: demo_totp_world_def find_user_by_username_def demo_db_def demo_user_def)
  from totp_login_opens_no_session [OF l this] l show ?thesis
    by (auto simp: demo_auth_draws_def user_data_from_def simp del: mem.get_session_fst)
qed

section \<open>Logging out\<close>

context kv_reliable
begin

lemma remove_session_view:
  assumes "now \<le> t"
  shows "view t (w_kv (remove_session K now token w)) (tok_key token) = None"
    and "\<And>other. other \<noteq> token \<Longrightarrow> view t (w_kv (remove_session K now token w)) (tok_key other) = view t (w_kv w) (tok_key other)"
    and "\<And>e other. other \<noteq> token \<Longrightarrow> view t (w_kv (remove_session K now token w)) (sess_key e other) = view t (w_kv w) (sess_key e other)"
    and "w_db (remove_session K now token w) = w_db w"
  using assms by (simp_all add: remove_session_def Let_def split: option.split sum.split)

lemma remove_session_user:
  assumes "now \<le> t"
  shows "session_user (view t (w_kv (remove_session K now token w))) (w_db (remove_session K now token w)) other =
    (if other = token then None else session_user (view t (w_kv w)) (w_db w) other)"
  by (simp add: session_user_def remove_session_view [OF assms] split: option.split sum.split)

end

text \<open>A logout ends exactly the session of its bearer token: from then on the token is refused and
  no passphrase is cached for it, while every other token and its unlocked keys stay as they were.\<close>

theorem logout_ends_session:
  assumes "extract_token_from_headers authorization = Some token"
    and "auth_logout memory_kv now authorization (w, rings) = (w', rings')" and "now \<le> t"
  shows "fst (get_session memory_kv t other w') =
      (if other = token then None else fst (get_session memory_kv t other w)) \<and>
    fst (ring_get t other key rings') = (if other = token then None else fst (ring_get t other key rings))"
proof -
  have "w' = remove_session memory_kv now token w" "rings' = ring_lock token None rings"
    using assms(1,2) by (simp_all add: auth_logout_def)
  then show ?thesis
    using mem.remove_session_user [OF assms(3), of token w other]
    by (simp add: ring_get_fst entry_of_lock)
qed

theorem logout_ends_session_witness:
  "\<exists>w w' rings'. create_session memory_kv 5 ''tk'' ''u1'' demo_world = (Inr ''tk'', w) \<and>
     auth_logout memory_kv 6 (Some ''Bearer tk'') (w, Map.empty) = (w', rings') \<and>
     fst (get_session memory_kv 7 ''tk'' w') = None"
proof -
  obtain w where c: "create_session memory_kv 5 ''tk'' ''u1'' demo_world = (Inr ''tk'', w)"
    using demo_create by blast
  obtain w' rings' where l: "auth_logout memory_kv 6 (Some ''Bearer tk'') (w, Map.empty) = (w', rings')"
    by (rule prod.exhaust)
  have "extract_token_from_headers (Some ''Bearer tk'') = Some ''tk''"
    by (simp add: extract_token_from_headers_def strip_prefix_def starts_with_def)
  from logout_ends_session [OF this l, of 7 "''tk''"] c l show ?thesis
    by (auto simp del: mem.get_session_fst)
qed

end
