(* ===== verification/Lyra_Mbox.thy ===== *)
theory Lyra_Mbox
  imports Lyra_Prelude
begin

text \<open>
  The mail part of a backup archive: the mbox writer and its inverse (\<^verbatim>\<open>backup/format.rs\<close>,
  \<^verbatim>\<open>split_mbox\<close> and \<^verbatim>\<open>recover_raw\<close> of \<^verbatim>\<open>backup/import.rs\<close>), and the message rebuilt from parsed columns
  when no raw bytes are at hand (\<^verbatim>\<open>reconstruct_message\<close> and the header helpers of \<^verbatim>\<open>backup/export.rs\<close>).

  Byte strings are lists of characters. \<open>MailEnv\<close> holds JSON parsing, Base64, SHA-256 and the date
  parser, which are libraries.
\<close>

abbreviation CR :: char where "CR \<equiv> CHR 0x0D"
abbreviation LF :: char where "LF \<equiv> CHR 0x0A"

definition crlf :: string where "crlf = [CR, LF]"

record Timestamp =
  ts_epoch :: int
  ts_rfc3339 :: string
  ts_rfc2822 :: string

record MetaLine =
  ml_message_id :: "string option"
  ml_flags :: "string list"
  ml_date :: "string option"
  ml_sha256 :: string
  ml_reconstructed :: bool

record MailEnv =
  me_json_parse :: "string \<Rightarrow> Json option"
  me_meta_to_json :: "MetaLine \<Rightarrow> string option"
  me_meta_from_json :: "string \<Rightarrow> MetaLine option"
  me_sha256_hex :: "string \<Rightarrow> string"
  me_b64 :: "string \<Rightarrow> string"
  me_parse_ts :: "string \<Rightarrow> Timestamp option"

record MailRow =
  mr_id :: string
  mr_external_id :: "string option"
  mr_message_id_header :: "string option"
  mr_subject :: "string option"
  mr_from_address :: "string option"
  mr_to_addresses :: "string option"
  mr_cc_addresses :: "string option"
  mr_date :: "string option"
  mr_received_at :: "string option"
  mr_is_read :: bool
  mr_is_starred :: bool
  mr_body_text :: "string option"
  mr_body_html :: "string option"

definition mail_row_epoch :: "MailEnv \<Rightarrow> MailRow \<Rightarrow> int" where
  "mail_row_epoch E row =
     (case Option.bind (mr_date row) (me_parse_ts E) of
        Some t \<Rightarrow> ts_epoch t
      | None \<Rightarrow> (case Option.bind (mr_received_at row) (me_parse_ts E) of Some t \<Rightarrow> ts_epoch t | None \<Rightarrow> 0))"

section \<open>The mbox stream\<close>

definition escape_mbox_line :: "string \<Rightarrow> string" where
  "escape_mbox_line line =
     (if starts_with line ''From '' \<or> starts_with line ''>'' then CHR ''>'' # line else line)"

definition write_mbox_message :: "string \<Rightarrow> int \<Rightarrow> string \<Rightarrow> string" where
  "write_mbox_message from_addr epoch raw =
     ''From '' @ from_addr @ '' '' @ show_int epoch @ crlf @
     join_with [LF] (map escape_mbox_line (split_on LF raw)) @ crlf"

definition unescape_mbox_line :: "string \<Rightarrow> string" where
  "unescape_mbox_line line = (case strip_prefix line ''>'' of Some rest \<Rightarrow> rest | None \<Rightarrow> line)"

definition strip_suffix :: "string \<Rightarrow> string \<Rightarrow> string option" where
  "strip_suffix s p = (if ends_with s p then Some (take (length s - length p) s) else None)"

text \<open>The loop of \<^verbatim>\<open>split_mbox\<close> over byte positions: \<open>body_start\<close> is where the current message begins.\<close>

function split_mbox_loop :: "string \<Rightarrow> nat \<Rightarrow> nat option \<Rightarrow> string list \<Rightarrow> string list" where
  "split_mbox_loop mbox pos body_start out =
     (if length mbox \<le> pos
      then out @ (case body_start of None \<Rightarrow> [] | Some start \<Rightarrow> [drop start mbox])
      else
        (let line = takeWhile (\<lambda>b. b \<noteq> LF) (drop pos mbox);
             stop = pos + length line;
             next = (if stop < length mbox then stop + 1 else length mbox);
             bare = (case strip_suffix line [CR] of Some l \<Rightarrow> l | None \<Rightarrow> line)
         in if starts_with bare ''From ''
            then split_mbox_loop mbox next (Some next)
                   (case body_start of None \<Rightarrow> out | Some start \<Rightarrow> out @ [drop start (take pos mbox)])
            else split_mbox_loop mbox next body_start out))"
  by pat_completeness auto

termination
  by (relation "measure (\<lambda>(mbox, pos, _, _). length mbox - pos)") (auto simp: Let_def)

declare split_mbox_loop.simps [simp del]

definition split_mbox :: "string \<Rightarrow> string list" where
  "split_mbox mbox = split_mbox_loop mbox 0 None []"

definition recover_raw :: "string \<Rightarrow> string" where
  "recover_raw chunk =
     (let chunk = (case strip_suffix chunk crlf of Some c \<Rightarrow> c | None \<Rightarrow> chunk)
      in join_with [LF] (map unescape_mbox_line (split_on LF chunk)))"

section \<open>Addresses\<close>

definition non_empty :: "string \<Rightarrow> string option" where
  "non_empty s = (if s = [] then None else Some s)"

definition split_address :: "string \<Rightarrow> string option \<times> string option" where
  "split_address raw0 =
     (let raw = trim raw0
      in case rsplit_once (CHR ''<'') raw of
           Some (name, rest) \<Rightarrow>
             (let email = trim (trim_end_char (CHR ''>'') rest);
                  name = trim_char (CHR 0x22) (trim name)
              in (non_empty name, non_empty email))
         | None \<Rightarrow>
             if CHR ''@'' \<in> set raw then (None, Some raw)
             else if raw = [] then (None, None)
             else (Some raw, None))"

definition address_entry :: "Json \<Rightarrow> string option \<times> string option" where
  "address_entry entry =
     (case entry of
        JString s \<Rightarrow> split_address s
      | other \<Rightarrow>
          (let str = (\<lambda>k. case Option.bind (jget k other) as_str of Some s \<Rightarrow> s | None \<Rightarrow> [])
           in (non_empty (str ''name''), non_empty (str ''email''))))"

definition address_entries :: "MailEnv \<Rightarrow> string option \<Rightarrow> (string option \<times> string option) list" where
  "address_entries E json_text =
     (let raw = trim (case json_text of None \<Rightarrow> [] | Some t \<Rightarrow> t)
      in if raw = [] then []
         else (case me_json_parse E raw of
             Some (JArray entries) \<Rightarrow>
               filter (\<lambda>(n, e). n \<noteq> None \<or> e \<noteq> None) (map address_entry entries)
           | Some (JObject obj) \<Rightarrow>
               (case Option.bind (map_of obj ''raw'') as_str of Some s \<Rightarrow> [split_address s] | None \<Rightarrow> [])
           | Some (JString s) \<Rightarrow> [split_address s]
           | _ \<Rightarrow> [split_address raw]))"

definition mbox_from_addr :: "MailEnv \<Rightarrow> string option \<Rightarrow> string" where
  "mbox_from_addr E from_json =
     (let email = (case address_entries E from_json of [] \<Rightarrow> None | (_, email) # _ \<Rightarrow> email)
      in case email of
           Some e \<Rightarrow> if CHR ''@'' \<in> set e \<and> CR \<notin> set e \<and> LF \<notin> set e then e else ''unknown@localhost''
         | None \<Rightarrow> ''unknown@localhost'')"

section \<open>Headers\<close>

definition sanitize_header :: "string \<Rightarrow> string" where
  "sanitize_header value = map (\<lambda>c. if c = CR \<or> c = LF then CHR '' '' else c) value"

definition push_header :: "string \<Rightarrow> string \<Rightarrow> string \<Rightarrow> string" where
  "push_header out name value = out @ name @ '': '' @ value @ crlf"

definition ENCODED_WORD_PAYLOAD_CHARS :: nat where "ENCODED_WORD_PAYLOAD_CHARS = 60"

text \<open>The scalars of a UTF-8 string: a byte and the continuation bytes that follow it.\<close>

abbreviation continuation :: "char \<Rightarrow> bool" where
  "continuation c \<equiv> 128 \<le> byte c \<and> byte c < 192"

function utf8_chars :: "string \<Rightarrow> string list" where
  "utf8_chars [] = []"
| "utf8_chars (c # cs) = (c # takeWhile continuation cs) # utf8_chars (dropWhile continuation cs)"
  by pat_completeness auto

termination
  by (relation "measure length") (auto simp: le_imp_less_Suc length_dropWhile_le)

fun encoded_chunks :: "string list \<Rightarrow> string \<Rightarrow> string list" where
  "encoded_chunks [] chunk = (if chunk = [] then [] else [chunk])"
| "encoded_chunks (ch # chs) chunk =
     (let next_bytes = length chunk + length ch
      in if chunk \<noteq> [] \<and> ENCODED_WORD_PAYLOAD_CHARS < 4 * ((next_bytes + 2) div 3)
         then chunk # encoded_chunks chs ch
         else encoded_chunks chs (chunk @ ch))"

definition encoded_word :: "MailEnv \<Rightarrow> string \<Rightarrow> string" where
  "encoded_word E chunk = ''=?UTF-8?B?'' @ me_b64 E chunk @ ''?=''"

definition encode_header_value :: "MailEnv \<Rightarrow> string \<Rightarrow> string" where
  "encode_header_value E value =
     (let clean = sanitize_header value
      in if is_ascii clean then clean
         else join_with (crlf @ '' '') (map (encoded_word E) (encoded_chunks (utf8_chars clean) [])))"

definition escape_char :: "char \<Rightarrow> string \<Rightarrow> string" where
  "escape_char c s = concat (map (\<lambda>x. if x = c then [CHR 0x5C, x] else [x]) s)"

definition format_display_name :: "MailEnv \<Rightarrow> string \<Rightarrow> string" where
  "format_display_name E name =
     (let clean = sanitize_header name
      in if clean = [] then []
         else if \<not> is_ascii clean then encode_header_value E clean
         else if list_ex (\<lambda>c. c \<in> {CHR '','', CHR '';'', CHR 0x22, CHR ''<'', CHR ''>'', CHR ''@'', CHR 0x5C}) clean
         then [CHR 0x22] @ escape_char (CHR 0x22) (escape_char (CHR 0x5C) clean) @ [CHR 0x22]
         else clean)"

fun format_mailbox :: "MailEnv \<Rightarrow> string option \<times> string option \<Rightarrow> string" where
  "format_mailbox E (Some n, Some e) =
     (let display = format_display_name E n
      in if display = [] then sanitize_header e else display @ '' <'' @ e @ ''>'')"
| "format_mailbox E (None, Some e) = sanitize_header e"
| "format_mailbox E (Some n, None) = format_display_name E n"
| "format_mailbox E (None, None) = []"

definition header_address_list :: "MailEnv \<Rightarrow> string option \<Rightarrow> string option" where
  "header_address_list E json_text =
     non_empty (join_with '', ''
       (filter (\<lambda>s. s \<noteq> []) (map (format_mailbox E) (address_entries E json_text))))"

definition header_from :: "MailEnv \<Rightarrow> string option \<Rightarrow> string" where
  "header_from E from_json =
     (case header_address_list E from_json of Some l \<Rightarrow> l | None \<Rightarrow> ''unknown@localhost'')"

definition filter_empty :: "string option \<Rightarrow> string option" where
  "filter_empty v = Option.bind v non_empty"

text \<open>The headers of a rebuilt message, in order.\<close>

definition reconstructed_headers :: "MailEnv \<Rightarrow> MailRow \<Rightarrow> (string \<times> string) list" where
  "reconstructed_headers E row =
     [(''From'', header_from E (mr_from_address row))] @
     (case header_address_list E (mr_to_addresses row) of Some v \<Rightarrow> [(''To'', v)] | None \<Rightarrow> []) @
     (case header_address_list E (mr_cc_addresses row) of Some v \<Rightarrow> [(''Cc'', v)] | None \<Rightarrow> []) @
     (case filter_empty (mr_subject row) of Some s \<Rightarrow> [(''Subject'', encode_header_value E s)] | None \<Rightarrow> []) @
     (case Option.bind (mr_date row) (me_parse_ts E) of Some d \<Rightarrow> [(''Date'', ts_rfc2822 d)] | None \<Rightarrow> []) @
     (case filter_empty (mr_message_id_header row) of Some m \<Rightarrow> [(''Message-ID'', sanitize_header m)] | None \<Rightarrow> [])"

definition reconstruct_message :: "MailEnv \<Rightarrow> MailRow \<Rightarrow> string" where
  "reconstruct_message E row =
     foldl (\<lambda>out (name, value). push_header out name value) [] (reconstructed_headers E row) @
     ''MIME-Version: 1.0'' @ crlf @
     (case filter_empty (mr_body_html row) of
        Some html \<Rightarrow> ''Content-Type: text/html; charset=utf-8'' @ crlf @ crlf @ html
      | None \<Rightarrow> ''Content-Type: text/plain; charset=utf-8'' @ crlf @ crlf @
          (case mr_body_text row of Some t \<Rightarrow> t | None \<Rightarrow> []))"

section \<open>The mbox round trip\<close>

text \<open>The same split over the remaining bytes: \<open>body\<close> is what the current message has so far.\<close>

function collect :: "string \<Rightarrow> string option \<Rightarrow> string list" where
  "collect rest body =
     (if rest = [] then (case body of None \<Rightarrow> [] | Some b \<Rightarrow> [b])
      else
        (let line = takeWhile (\<lambda>b. b \<noteq> LF) rest;
             taken = take (Suc (length line)) rest;
             rest' = drop (Suc (length line)) rest
         in if starts_with line ''From ''
            then (case body of None \<Rightarrow> [] | Some b \<Rightarrow> [b]) @ collect rest' (Some [])
            else collect rest' (map_option (\<lambda>b. b @ taken) body)))"
  by pat_completeness auto

termination
  by (relation "measure (\<lambda>(rest, _). length rest)") (auto simp: Let_def)

declare collect.simps [simp del]

lemma starts_with_snoc: "c \<notin> set p \<Longrightarrow> starts_with (l @ [c]) p \<longleftrightarrow> starts_with l p"
proof (induction p arbitrary: l)
  case (Cons x p)
  then show ?case by (cases l; cases p) auto
qed simp

lemma bare_separator:
  "starts_with (case strip_suffix line [CR] of Some l \<Rightarrow> l | None \<Rightarrow> line) ''From '' \<longleftrightarrow> starts_with line ''From ''"
proof (cases "ends_with line [CR]")
  case True
  then obtain l where "line = l @ [CR]"
    by (auto simp: ends_with_iff)
  with True show ?thesis
    by (simp add: strip_suffix_def starts_with_snoc)
qed (simp add: strip_suffix_def)

lemma split_mbox_loop_collect:
  "pos \<le> length mbox \<Longrightarrow> (\<forall>s. body_start = Some s \<longrightarrow> s \<le> pos) \<Longrightarrow>
   split_mbox_loop mbox pos body_start out =
     out @ collect (drop pos mbox) (map_option (\<lambda>s. drop s (take pos mbox)) body_start)"
proof (induction mbox pos body_start out rule: split_mbox_loop.induct)
  case (1 mbox pos body_start out)
  show ?case
  proof (cases "length mbox \<le> pos")
    case True
    then show ?thesis
      by (auto simp: split_mbox_loop.simps collect.simps split: option.split)
  next
    case False
    define line where "line = takeWhile (\<lambda>b. b \<noteq> LF) (drop pos mbox)"
    define nxt where "nxt = (if pos + length line < length mbox then pos + length line + 1 else length mbox)"
    define taken where "taken = take (Suc (length line)) (drop pos mbox)"
    have len: "pos + length line \<le> length mbox"
      using length_takeWhile_le [of "\<lambda>b. b \<noteq> LF" "drop pos mbox"] False by (simp add: line_def)
    then have nxt: "pos \<le> nxt" "nxt \<le> length mbox"
      by (auto simp: nxt_def)
    have drop: "drop nxt mbox = drop (Suc (length line)) (drop pos mbox)"
      using len by (auto simp: nxt_def add.commute)
    have take: "take nxt mbox = take pos mbox @ taken"
      using len False by (auto simp: nxt_def taken_def take_add [symmetric] add.commute)
    note step = split_mbox_loop.simps [of mbox pos body_start out] collect.simps [of "drop pos mbox"]
    note IH = "1.IH" [OF False line_def refl nxt_def refl, unfolded bare_separator]
    show ?thesis
    proof (cases "starts_with line ''From ''")
      case True
      have "split_mbox_loop mbox pos body_start out = split_mbox_loop mbox nxt (Some nxt)
          (case body_start of None \<Rightarrow> out | Some start \<Rightarrow> out @ [drop start (take pos mbox)])"
        using step(1) False True by (simp add: Let_def bare_separator flip: line_def nxt_def)
      also have "\<dots> = (case body_start of None \<Rightarrow> out | Some start \<Rightarrow> out @ [drop start (take pos mbox)]) @
          collect (drop nxt mbox) (Some [])"
        using IH(1) [OF True nxt(2)] nxt by simp
      finally show ?thesis
        using step(2) False True drop by (simp add: Let_def flip: line_def split: option.split)
    next
      case sep: False
      have "split_mbox_loop mbox pos body_start out = split_mbox_loop mbox nxt body_start out"
        using step(1) False sep by (simp add: Let_def bare_separator flip: line_def nxt_def)
      also have "\<dots> = out @ collect (drop nxt mbox) (map_option (\<lambda>s. drop s (take nxt mbox)) body_start)"
        using IH(2) [OF sep nxt(2)] nxt(1) "1.prems"(2) by (meson le_trans)
      also have "map_option (\<lambda>s. drop s (take nxt mbox)) body_start =
          map_option (\<lambda>b. b @ taken) (map_option (\<lambda>s. drop s (take pos mbox)) body_start)"
        using "1.prems" by (cases body_start) (auto simp: take)
      finally show ?thesis
        using step(2) False sep drop by (simp add: Let_def taken_def flip: line_def)
    qed
  qed
qed

lemma split_mbox_collect: "split_mbox mbox = collect mbox None"
  by (simp add: split_mbox_def split_mbox_loop_collect)


lemma takeWhile_line: "LF \<notin> set l \<Longrightarrow> takeWhile (\<lambda>b. b \<noteq> LF) (l @ LF # rest) = l"
  by (induction l) auto

lemma collect_line:
  assumes "LF \<notin> set l"
  shows "collect (l @ LF # rest) body =
    (if starts_with l ''From '' then (case body of None \<Rightarrow> [] | Some b \<Rightarrow> [b]) @ collect rest (Some [])
     else collect rest (map_option (\<lambda>b. b @ l @ [LF]) body))"
  using takeWhile_line [OF assms, of rest]
  by (subst collect.simps) (auto simp: Let_def cong: option.case_cong)

lemma collect_lines:
  assumes "\<forall>l\<in>set ls. LF \<notin> set l \<and> \<not> starts_with l ''From ''"
  shows "collect (concat (map (\<lambda>l. l @ [LF]) ls) @ rest) (Some b) =
    collect rest (Some (b @ concat (map (\<lambda>l. l @ [LF]) ls)))"
  using assms by (induction ls arbitrary: b) (simp_all add: collect_line)

lemma join_lines: "ls \<noteq> [] \<Longrightarrow> join_with [LF] ls @ crlf = concat (map (\<lambda>l. l @ [LF]) (butlast ls @ [last ls @ [CR]]))"
  by (induction ls rule: induct_list012) (simp_all add: crlf_def)

lemma escape_not_separator: "\<not> starts_with (escape_mbox_line l) ''From ''"
  by (auto simp: escape_mbox_line_def)

lemma escape_no_LF: "LF \<notin> set l \<Longrightarrow> LF \<notin> set (escape_mbox_line l)"
  by (simp add: escape_mbox_line_def)

lemma unescape_escape [simp]: "unescape_mbox_line (escape_mbox_line l) = l"
  by (auto simp: unescape_mbox_line_def escape_mbox_line_def strip_prefix_def)

lemma split_on_join:
  "ls \<noteq> [] \<Longrightarrow> (\<forall>l\<in>set ls. sep \<notin> set l) \<Longrightarrow> split_on sep (join_with [sep] ls) = ls"
  by (induction ls rule: induct_list012) (simp_all add: split_on_single split_on_append_sep)

text \<open>The body of a written message, before its closing CRLF.\<close>

definition mbox_body :: "string \<Rightarrow> string" where
  "mbox_body raw = join_with [LF] (map escape_mbox_line (split_on LF raw))"

lemma recover_raw_body: "recover_raw (mbox_body raw @ crlf) = raw"
proof -
  have "strip_suffix (mbox_body raw @ crlf) crlf = Some (mbox_body raw)"
    by (simp add: strip_suffix_def ends_with_def)
  moreover have "split_on LF (mbox_body raw) = map escape_mbox_line (split_on LF raw)"
    unfolding mbox_body_def by (rule split_on_join) (auto dest: split_on_no_sep escape_no_LF)
  ultimately show ?thesis
    by (simp add: recover_raw_def comp_def join_split_on)
qed

lemma collect_body: "collect (mbox_body raw @ crlf @ rest) (Some []) = collect rest (Some (mbox_body raw @ crlf))"
proof -
  define ls where "ls = map escape_mbox_line (split_on LF raw)"
  have ne: "ls \<noteq> []" by (simp add: ls_def)
  have "\<forall>l\<in>set ls. LF \<notin> set l \<and> \<not> starts_with l ''From ''"
    by (auto simp: ls_def escape_not_separator dest: split_on_no_sep escape_no_LF)
  then have "\<forall>l\<in>set (butlast ls @ [last ls @ [CR]]). LF \<notin> set l \<and> \<not> starts_with l ''From ''"
    using ne by (auto simp: starts_with_snoc dest: in_set_butlastD)
  from collect_lines [OF this, of rest "[]"] show ?thesis
    using join_lines [OF ne] by (simp add: mbox_body_def flip: append_assoc ls_def)
qed

lemma collect_message:
  assumes "LF \<notin> set addr"
  shows "collect (write_mbox_message addr epoch raw @ rest) body =
    (case body of None \<Rightarrow> [] | Some b \<Rightarrow> [b]) @ collect rest (Some (mbox_body raw @ crlf))"
proof -
  let ?sep = "''From '' @ addr @ '' '' @ show_int epoch @ [CR]"
  have "LF \<notin> set (show_int epoch)"
    using show_int_chars [of LF epoch] by (auto simp: is_ascii_digit_def)
  with assms have "LF \<notin> set ?sep" by simp
  moreover have "starts_with ?sep ''From ''" by simp
  moreover have "write_mbox_message addr epoch raw @ rest = ?sep @ LF # mbox_body raw @ crlf @ rest"
    by (simp add: write_mbox_message_def mbox_body_def crlf_def)
  ultimately show ?thesis
    using collect_line [of ?sep "mbox_body raw @ crlf @ rest" body] by (simp only: if_True collect_body simp_thms)
qed

lemma collect_messages:
  assumes "\<forall>(addr, epoch, raw)\<in>set ms. LF \<notin> set addr"
  shows "collect (concat (map (\<lambda>(addr, epoch, raw). write_mbox_message addr epoch raw) ms)) body =
    (case body of None \<Rightarrow> [] | Some b \<Rightarrow> [b]) @ map (\<lambda>(addr, epoch, raw). mbox_body raw @ crlf) ms"
  using assms
proof (induction ms arbitrary: body)
  case Nil
  then show ?case by (simp add: collect.simps)
next
  case (Cons m ms)
  then show ?case by (cases m) (simp add: collect_message)
qed

text \<open>C32: The mbox a backup writes is read back exactly: for any messages whatever their bytes (lines
  that look like separators, quoted lines, missing final newlines, empty bodies), splitting the
  written stream and recovering each chunk gives back the same messages in the same order. The
  only condition is that no separator address holds a line feed.\<close>

theorem mbox_roundtrip:
  assumes "\<forall>(addr, epoch, raw)\<in>set ms. LF \<notin> set addr"
  shows "map recover_raw (split_mbox (concat (map (\<lambda>(addr, epoch, raw). write_mbox_message addr epoch raw) ms))) =
    map (\<lambda>(addr, epoch, raw). raw) ms"
  using collect_messages [OF assms, of None]
  by (auto simp: split_mbox_collect recover_raw_body)

theorem mbox_roundtrip_witness:
  "map recover_raw (split_mbox (
      write_mbox_message ''a@b'' 17 (''Hi'' @ [LF] @ ''From me'' @ [LF] @ ''>From you'') @
      write_mbox_message ''c@d'' (- 3) [])) =
    [''Hi'' @ [LF] @ ''From me'' @ [LF] @ ''>From you'', []]"
  using mbox_roundtrip [of "[(''a@b'', 17, ''Hi'' @ [LF] @ ''From me'' @ [LF] @ ''>From you''), (''c@d'', - 3, [])]"]
  by simp

text \<open>The address the exporter writes never holds a line break.\<close>

lemma mbox_from_addr_no_LF: "LF \<notin> set (mbox_from_addr E json)"
  by (simp add: mbox_from_addr_def Let_def split: list.split option.split)

section \<open>Encoded words and header values\<close>

lemma concat_utf8_chars [simp]: "concat (utf8_chars s) = s"
  by (induction s rule: utf8_chars.induct) simp_all

lemma payload_bound: "4 * ((n + 2) div 3) \<le> ENCODED_WORD_PAYLOAD_CHARS \<longleftrightarrow> n \<le> 45"
  by (simp add: ENCODED_WORD_PAYLOAD_CHARS_def) presburger

lemma payload_exceeds: "ENCODED_WORD_PAYLOAD_CHARS < 4 * ((n + 2) div 3) \<longleftrightarrow> 45 < n"
  using payload_bound [of n] by linarith

lemma encoded_chunks_step:
  "encoded_chunks (ch # chs) chunk =
     (if chunk \<noteq> [] \<and> 45 < length chunk + length ch then chunk # encoded_chunks chs ch
      else encoded_chunks chs (chunk @ ch))"
  by (simp only: encoded_chunks.simps Let_def payload_exceeds)

lemma encoded_chunks_split:
  assumes "\<forall>c\<in>set chs. c \<noteq> [] \<and> length c \<le> 4" and "length (concat pre) \<le> 45"
    and "\<forall>c\<in>set pre. c \<noteq> []"
  shows "\<exists>css. encoded_chunks chs (concat pre) = map concat css \<and> concat css = pre @ chs \<and>
    (\<forall>cs\<in>set css. cs \<noteq> [] \<and> (\<forall>c\<in>set cs. c \<noteq> []) \<and> length (concat cs) \<le> 45)"
  using assms
proof (induction chs arbitrary: pre)
  case Nil
  then show ?case
    by (cases "pre = []") (auto intro!: exI [of _ "if pre = [] then [] else [pre]"] simp: concat_eq_Nil_conv)
next
  case (Cons ch chs)
  have ch: "ch \<noteq> []" "length ch \<le> 4" and chs: "\<forall>c\<in>set chs. c \<noteq> [] \<and> length c \<le> 4"
    using Cons.prems(1) by auto
  show ?case
  proof (cases "concat pre \<noteq> [] \<and> \<not> length (concat pre) + length ch \<le> 45")
    case True
    obtain css where css: "encoded_chunks chs (concat [ch]) = map concat css" "concat css = [ch] @ chs"
      "\<forall>cs\<in>set css. cs \<noteq> [] \<and> (\<forall>c\<in>set cs. c \<noteq> []) \<and> length (concat cs) \<le> 45"
      using Cons.IH [OF chs, of "[ch]"] ch by auto
    have "encoded_chunks (ch # chs) (concat pre) = map concat (pre # css)"
      using True css(1) by (simp add: encoded_chunks_step not_le del: encoded_chunks.simps)
    with css True Cons.prems(2,3) show ?thesis
      by (intro exI [of _ "pre # css"]) auto
  next
    case False
    then have len: "length (concat (pre @ [ch])) \<le> 45"
      using ch(2) by (cases "concat pre = []") (simp_all del: concat_eq_Nil_conv)
    obtain css where css: "encoded_chunks chs (concat (pre @ [ch])) = map concat css" "concat css = (pre @ [ch]) @ chs"
      "\<forall>cs\<in>set css. cs \<noteq> [] \<and> (\<forall>c\<in>set cs. c \<noteq> []) \<and> length (concat cs) \<le> 45"
      using Cons.IH [OF chs len] Cons.prems(3) ch(1) by auto
    have "encoded_chunks (ch # chs) (concat pre) = encoded_chunks chs (concat (pre @ [ch]))"
      using False by (auto simp: encoded_chunks_step simp del: encoded_chunks.simps)
    with css show ?thesis by (intro exI [of _ css]) simp
  qed
qed

lemma utf8_chars_nonempty: "c \<in> set (utf8_chars s) \<Longrightarrow> c \<noteq> []"
  by (induction s rule: utf8_chars.induct) auto

text \<open>Encoded words stay within the 75 characters of RFC 2047 and never cut a character: the
  chunks of a header value are non-empty runs of whole characters that together spell the
  sanitized value, and each word, wrapper included, has at most 75 characters (with Base64 of the
  standard length and characters of at most four bytes, as in UTF-8).\<close>

theorem encoded_words_bounded:
  assumes "\<And>s. length (me_b64 E s) = 4 * ((length s + 2) div 3)"
    and "\<forall>c\<in>set (utf8_chars (sanitize_header value)). length c \<le> 4"
  shows "\<exists>css. encoded_chunks (utf8_chars (sanitize_header value)) [] = map concat css \<and>
    concat css = utf8_chars (sanitize_header value) \<and> concat (map concat css) = sanitize_header value \<and>
    (\<forall>cs\<in>set css. concat cs \<noteq> [] \<and> length (encoded_word E (concat cs)) \<le> 75)"
proof -
  let ?chs = "utf8_chars (sanitize_header value)"
  have "\<forall>c\<in>set ?chs. c \<noteq> [] \<and> length c \<le> 4"
    using assms(2) utf8_chars_nonempty by blast
  then obtain css where css: "encoded_chunks ?chs [] = map concat css" "concat css = ?chs"
    and b: "\<forall>cs\<in>set css. cs \<noteq> [] \<and> (\<forall>c\<in>set cs. c \<noteq> []) \<and> length (concat cs) \<le> 45"
    using encoded_chunks_split [of ?chs "[]"] by auto
  have "concat cs \<noteq> [] \<and> length (encoded_word E (concat cs)) \<le> 75" if "cs \<in> set css" for cs
  proof -
    have "cs \<noteq> []" "\<forall>c\<in>set cs. c \<noteq> []" "length (concat cs) \<le> 45"
      using b that by auto
    moreover have "4 * ((length (concat cs) + 2) div 3) \<le> 60"
      using payload_bound [of "length (concat cs)"] \<open>length (concat cs) \<le> 45\<close>
      unfolding ENCODED_WORD_PAYLOAD_CHARS_def by blast
    ultimately show ?thesis
      by (auto simp: encoded_word_def assms(1))
  qed
  moreover have "concat (map concat css) = concat (concat css)"
    by (induction css) auto
  ultimately show ?thesis
    using css by auto
qed

section \<open>No header injection\<close>

text \<open>A header value whose line breaks are all folds: CRLF and a space.\<close>

fun folds_only :: "string \<Rightarrow> bool" where
  "folds_only [] = True"
| "folds_only (c # cs) =
     (if c = CR then (case cs of l # s # rest \<Rightarrow> l = LF \<and> s = CHR '' '' \<and> folds_only rest | _ \<Rightarrow> False)
      else c \<noteq> LF \<and> folds_only cs)"

lemma folds_only_plain: "CR \<notin> set s \<Longrightarrow> LF \<notin> set s \<Longrightarrow> folds_only s"
  by (induction s) auto

lemma folds_only_append: "folds_only xs \<Longrightarrow> folds_only ys \<Longrightarrow> folds_only (xs @ ys)"
  by (induction xs rule: folds_only.induct) (auto split: list.splits if_splits)

lemma folds_only_join:
  "folds_only sep \<Longrightarrow> \<forall>v\<in>set vs. folds_only v \<Longrightarrow> folds_only (join_with sep vs)"
  by (induction vs rule: induct_list012) (auto intro: folds_only_append)

lemma sanitize_header_plain: "CR \<notin> set (sanitize_header v)" "LF \<notin> set (sanitize_header v)"
  by (auto simp: sanitize_header_def)

lemma folds_only_sanitize: "folds_only (sanitize_header v)"
  by (simp add: folds_only_plain sanitize_header_plain)

lemma escape_char_set: "x \<in> set (escape_char c s) \<Longrightarrow> x \<in> set s \<or> x = CHR 0x5C"
  by (auto simp: escape_char_def split: if_splits)

definition env_plain :: "MailEnv \<Rightarrow> bool" where
  "env_plain E \<longleftrightarrow> (\<forall>s. CR \<notin> set (me_b64 E s) \<and> LF \<notin> set (me_b64 E s)) \<and>
     (\<forall>s t. me_parse_ts E s = Some t \<longrightarrow> CR \<notin> set (ts_rfc2822 t) \<and> LF \<notin> set (ts_rfc2822 t))"

lemma folds_only_encode:
  assumes "env_plain E"
  shows "folds_only (encode_header_value E v)"
proof -
  have "folds_only (encoded_word E c)" for c
    using assms by (intro folds_only_plain) (auto simp: encoded_word_def env_plain_def)
  then have "folds_only (join_with (crlf @ '' '') (map (encoded_word E) cs))" for cs
    by (intro folds_only_join) (auto simp: crlf_def)
  then show ?thesis
    by (simp add: encode_header_value_def Let_def folds_only_sanitize)
qed

lemma folds_only_display: "env_plain E \<Longrightarrow> folds_only (format_display_name E n)"
  using sanitize_header_plain [of n]
  by (auto simp: format_display_name_def Let_def folds_only_encode folds_only_sanitize
      intro!: folds_only_plain dest!: escape_char_set)

lemma folds_only_mailbox:
  assumes "env_plain E" and "\<And>n e. m = (Some n, Some e) \<Longrightarrow> CR \<notin> set e \<and> LF \<notin> set e"
  shows "folds_only (format_mailbox E m)"
  using assms
  by (cases "(E, m)" rule: format_mailbox.cases)
     (auto simp: Let_def folds_only_sanitize folds_only_display folds_only_plain intro!: folds_only_append)

text \<open>The named mailboxes of a column have no line break in their address.\<close>

definition plain_emails :: "MailEnv \<Rightarrow> string option \<Rightarrow> bool" where
  "plain_emails E json \<longleftrightarrow>
     (\<forall>m\<in>set (address_entries E json). case m of (Some n, Some e) \<Rightarrow> CR \<notin> set e \<and> LF \<notin> set e | _ \<Rightarrow> True)"

lemma folds_only_addresses:
  assumes "env_plain E" and "plain_emails E json" and "header_address_list E json = Some v"
  shows "folds_only v"
proof -
  have "folds_only (format_mailbox E m)" if "m \<in> set (address_entries E json)" for m
    using assms(2) that by (intro folds_only_mailbox [OF assms(1)]) (auto simp: plain_emails_def)
  with assms(3) show ?thesis
    by (auto simp: header_address_list_def non_empty_def split: if_splits intro!: folds_only_join)
qed

lemma folds_only_from:
  "env_plain E \<Longrightarrow> plain_emails E json \<Longrightarrow> folds_only (header_from E json)"
  by (auto simp: header_from_def split: option.split dest: folds_only_addresses)


definition demo_mail_env :: MailEnv where
  "demo_mail_env = \<lparr>me_json_parse = (\<lambda>s. Some (JString s)), me_meta_to_json = (\<lambda>_. None),
     me_meta_from_json = (\<lambda>_. None), me_sha256_hex = (\<lambda>s. s),
     me_b64 = (\<lambda>s. replicate (4 * ((length s + 2) div 3)) (CHR ''A'')), me_parse_ts = (\<lambda>_. None)\<rparr>"

definition demo_mail_row :: MailRow where
  "demo_mail_row = \<lparr>mr_id = ''m1'', mr_external_id = None, mr_message_id_header = Some ''<1@x>'',
     mr_subject = Some (''Hi'' @ crlf @ ''Bcc: eve@evil''), mr_from_address = Some ''Ann <ann@x>'',
     mr_to_addresses = None, mr_cc_addresses = None, mr_date = None, mr_received_at = None, mr_is_read = True,
     mr_is_starred = False, mr_body_text = Some ''body'', mr_body_html = None\<rparr>"

theorem encoded_words_bounded_witness:
  "\<exists>css. encoded_chunks (utf8_chars (sanitize_header [CHR 0xC3, CHR 0xA9])) [] = map concat css \<and>
    concat css = utf8_chars (sanitize_header [CHR 0xC3, CHR 0xA9]) \<and>
    concat (map concat css) = sanitize_header [CHR 0xC3, CHR 0xA9] \<and>
    (\<forall>cs\<in>set css. concat cs \<noteq> [] \<and> length (encoded_word demo_mail_env (concat cs)) \<le> 75)"
  by (rule encoded_words_bounded) (auto simp: demo_mail_env_def sanitize_header_def)


text \<open>The address of a named mailbox is the one value that is not sanitized.\<close>

lemma named_mailbox_injects:
  "\<not> folds_only (format_mailbox E (Some ''Ann'', Some (''ann@x>'' @ crlf @ ''Bcc: eve@evil'')))"
  by (simp add: format_display_name_def sanitize_header_def is_ascii_def crlf_def)

end
