(* ===== verification/Lyra_Labels.thy ===== *)
theory Lyra_Labels
  imports Lyra_Prelude
begin

text \<open>
  Message labels and their server keywords (\<^verbatim>\<open>sync/labels.rs\<close>): slugs, the cap per message, the
  keyword difference a replacement sends to the server, and the labels read back from the flags of a
  fetched message.

  The slug loop pushes ASCII characters only, so working on bytes is working on scalars: every byte
  of a longer scalar falls in the branch that drops it. JSON parsing is an argument.
\<close>

section \<open>Slugs\<close>

definition KEYWORD_PREFIX :: string where "KEYWORD_PREFIX = ''label-''"
definition MAX_LABELS :: nat where "MAX_LABELS = 8"
definition MAX_LABEL_LEN :: nat where "MAX_LABEL_LEN = 40"

text \<open>One round of the loop: the text so far and \<^verbatim>\<open>last_dash\<close>.\<close>

definition slug_step :: "char \<Rightarrow> string \<times> bool \<Rightarrow> string \<times> bool" where
  "slug_step ch st =
     (case st of (out, last_dash) \<Rightarrow>
        if is_ascii_lowercase ch \<or> is_ascii_digit ch then (out @ [ch], False)
        else if is_ascii_uppercase ch then (out @ [ascii_lower ch], False)
        else if (ch = CHR ''-'' \<or> ch = CHR ''_'' \<or> ch = CHR '' '') \<and> \<not> last_dash
          then (out @ [CHR ''-''], True)
        else (out, last_dash))"

definition sanitize_label :: "string \<Rightarrow> string option" where
  "sanitize_label raw =
     (let out = fst (fold slug_step (trim raw) ([], True));
          out = trim_end_char (CHR ''-'') out;
          slug = trim_char (CHR ''-'') (take MAX_LABEL_LEN out)
      in if slug = [] then None else Some slug)"

fun sanitize_labels_from :: "string list \<Rightarrow> string list \<Rightarrow> string list" where
  "sanitize_labels_from out [] = out"
| "sanitize_labels_from out (label # rest) =
     (case sanitize_label label of
        None \<Rightarrow> sanitize_labels_from out rest
      | Some slug \<Rightarrow>
          if slug \<in> set out then sanitize_labels_from out rest
          else if MAX_LABELS \<le> length (out @ [slug]) then out @ [slug]
          else sanitize_labels_from (out @ [slug]) rest)"

definition sanitize_labels :: "string list \<Rightarrow> string list" where
  "sanitize_labels raw = sanitize_labels_from [] raw"

section \<open>Keywords\<close>

definition label_keyword :: "string \<Rightarrow> string" where
  "label_keyword label = KEYWORD_PREFIX @ label"

definition label_diff :: "string list \<Rightarrow> string list \<Rightarrow> string list \<times> string list" where
  "label_diff old nxt =
     (map label_keyword (filter (\<lambda>l. l \<notin> set old) nxt),
      map label_keyword (filter (\<lambda>l. l \<notin> set nxt) old))"

definition labels_json :: "(Json \<Rightarrow> string) \<Rightarrow> string list \<Rightarrow> string option" where
  "labels_json to_string labels =
     (if labels = [] then None else Some (to_string (JArray (map JString labels))))"

text \<open>The closure \<^verbatim>\<open>push\<close>.\<close>

definition push_label :: "string \<Rightarrow> string list \<Rightarrow> string list" where
  "push_label flag out =
     (case strip_prefix flag KEYWORD_PREFIX of
        None \<Rightarrow> out
      | Some label \<Rightarrow> if label = [] \<or> label \<in> set out then out else out @ [label])"

definition labels_from_flags_json :: "(string \<Rightarrow> Json option) \<Rightarrow> string \<Rightarrow> string list" where
  "labels_from_flags_json from_str flags_json =
     (case from_str flags_json of
        None \<Rightarrow> []
      | Some value \<Rightarrow>
          take MAX_LABELS
            (case value of
               JArray items \<Rightarrow>
                 fold (\<lambda>i. case i of JString flag \<Rightarrow> push_label flag | _ \<Rightarrow> id) items []
             | JObject kvs \<Rightarrow> fold (\<lambda>kv. push_label (fst kv)) kvs []
             | _ \<Rightarrow> []))"

section \<open>What labels satisfy\<close>

text \<open>What a slug is: lower-case letters, digits and single inner dashes.\<close>

definition slug_char :: "char \<Rightarrow> bool" where
  "slug_char c \<longleftrightarrow> is_ascii_lowercase c \<or> is_ascii_digit c \<or> c = CHR ''-''"

definition is_slug :: "string \<Rightarrow> bool" where
  "is_slug s \<longleftrightarrow> s \<noteq> [] \<and> length s \<le> MAX_LABEL_LEN \<and> list_all slug_char s
     \<and> hd s \<noteq> CHR ''-'' \<and> last s \<noteq> CHR ''-''
     \<and> (\<forall>i. Suc i < length s \<longrightarrow> \<not> (s ! i = CHR ''-'' \<and> s ! Suc i = CHR ''-''))"

text \<open>No two adjacent dashes, as a function over the text.\<close>

fun single_dashes :: "string \<Rightarrow> bool" where
  "single_dashes (a # b # s) = (\<not> (a = CHR ''-'' \<and> b = CHR ''-'') \<and> single_dashes (b # s))"
| "single_dashes _ = True"

lemma single_dashes_nth:
  "single_dashes s \<longleftrightarrow> (\<forall>i. Suc i < length s \<longrightarrow> \<not> (s ! i = CHR ''-'' \<and> s ! Suc i = CHR ''-''))"
proof (induction s rule: single_dashes.induct)
  case (1 a b s)
  then show ?case
    by (auto simp: nth_Cons split: nat.splits)
qed auto

lemma single_dashes_snoc:
  "single_dashes (s @ [c]) \<longleftrightarrow> single_dashes s \<and> \<not> (s \<noteq> [] \<and> last s = CHR ''-'' \<and> c = CHR ''-'')"
  by (induction s rule: single_dashes.induct) auto

lemma single_dashes_append: "single_dashes (s @ t) \<Longrightarrow> single_dashes s \<and> single_dashes t"
  by (induction s rule: single_dashes.induct) (auto split: list.splits, cases t, auto)

lemma lower_lowercase: "is_ascii_uppercase c \<Longrightarrow> is_ascii_lowercase (ascii_lower c)"
  by (simp add: ascii_lower_def is_ascii_uppercase_def is_ascii_lowercase_def)

lemma slug_char_simps [simp]:
  "is_ascii_lowercase c \<Longrightarrow> slug_char c" "is_ascii_digit c \<Longrightarrow> slug_char c" "slug_char (CHR ''-'')"
  "is_ascii_uppercase c \<Longrightarrow> slug_char (ascii_lower c)"
  by (auto simp: slug_char_def lower_lowercase)

lemma dash_class [simp]:
  "\<not> is_ascii_lowercase (CHR ''-'')" "\<not> is_ascii_digit (CHR ''-'')" "\<not> is_ascii_uppercase (CHR ''-'')"
  by (simp_all add: lyra_simps)

lemma lower_not_dash: "is_ascii_uppercase c \<Longrightarrow> ascii_lower c \<noteq> CHR ''-''"
proof
  assume u: "is_ascii_uppercase c" and "ascii_lower c = CHR ''-''"
  then have "byte (ascii_lower c) = 45" by simp
  with u show False by (auto simp: ascii_lower_def is_ascii_uppercase_def)
qed

text \<open>The loop invariant: \<^verbatim>\<open>last_dash\<close> is set exactly when the text is empty or ends in a dash.\<close>

definition slug_inv :: "string \<times> bool \<Rightarrow> bool" where
  "slug_inv st \<longleftrightarrow> (case st of (out, d) \<Rightarrow>
     list_all slug_char out \<and> single_dashes out \<and> (out \<noteq> [] \<longrightarrow> hd out \<noteq> CHR ''-'')
     \<and> d = (out = [] \<or> last out = CHR ''-''))"

lemma slug_inv_step: "slug_inv st \<Longrightarrow> slug_inv (slug_step ch st)"
  by (cases st) (auto simp: slug_inv_def slug_step_def single_dashes_snoc lower_not_dash hd_append)

lemma slug_inv_fold: "slug_inv st \<Longrightarrow> slug_inv (fold slug_step s st)"
  by (induction s arbitrary: st) (auto simp: slug_inv_step)

lemma trim_end_char_prefix: "\<exists>n. trim_end_char c s = take n s"
  by (metis append_eq_conv_conj rev_append rev_rev_ident takeWhile_dropWhile_id trim_end_char_def)

lemma trim_end_char_last: "trim_end_char c s \<noteq> [] \<Longrightarrow> last (trim_end_char c s) \<noteq> c"
  unfolding trim_end_char_def by (metis (full_types) hd_dropWhile last_rev rev_is_Nil_conv)

lemma trim_end_char_id: "s \<noteq> [] \<Longrightarrow> last s \<noteq> c \<Longrightarrow> trim_end_char c s = s"
  by (cases s rule: rev_cases) (auto simp: trim_end_char_def)

lemma dropWhile_hd_id: "s \<noteq> [] \<Longrightarrow> \<not> P (hd s) \<Longrightarrow> dropWhile P s = s"
  by (cases s) auto

lemma slug_inv_take: "slug_inv (out, d) \<Longrightarrow> slug_inv (take n out, take n out = [] \<or> last (take n out) = CHR ''-'')"
  using single_dashes_append [of "take n out" "drop n out"]
  by (auto simp: slug_inv_def list_all_iff dest: in_set_takeD)

lemma sanitize_label_slug:
  assumes "sanitize_label raw = Some s"
  shows "is_slug s"
proof -
  obtain out d where f: "fold slug_step (trim raw) ([], True) = (out, d)" by force
  have inv: "slug_inv (out, d)"
    unfolding f [symmetric] by (rule slug_inv_fold) (simp add: slug_inv_def)
  define t where "t = take MAX_LABEL_LEN (trim_end_char (CHR ''-'') out)"
  have ne: "s \<noteq> []" and st: "s = trim_char (CHR ''-'') t"
    using assms f by (auto simp: sanitize_label_def Let_def t_def split: if_splits)
  obtain n where t: "t = take n out"
    using trim_end_char_prefix [of "CHR ''-''" out] by (auto simp: t_def)
  then have "t = [] \<or> hd t \<noteq> CHR ''-''"
    using slug_inv_take [OF inv, of n] by (auto simp: slug_inv_def)
  moreover have "t \<noteq> []"
    using ne st by (auto simp: trim_char_def trim_end_char_def)
  ultimately have s: "s = trim_end_char (CHR ''-'') t"
    using st by (simp add: trim_char_def dropWhile_hd_id)
  then obtain m where m: "s = take m t"
    using trim_end_char_prefix by blast
  have "length s \<le> MAX_LABEL_LEN"
    using m by (simp add: t_def)
  moreover have "slug_inv (s, s = [] \<or> last s = CHR ''-'')"
    using slug_inv_take [OF inv, of "min m n"] by (simp add: m t min.commute)
  ultimately show ?thesis
    using ne trim_end_char_last [of "CHR ''-''" t] s
    by (simp add: is_slug_def slug_inv_def single_dashes_nth)
qed

lemma slug_fold:
  assumes "list_all slug_char s" and "single_dashes (out @ s)" and "out @ s \<noteq> [] \<longrightarrow> hd (out @ s) \<noteq> CHR ''-''"
  shows "fst (fold slug_step s (out, out = [] \<or> last out = CHR ''-'')) = out @ s"
  using assms
proof (induction s arbitrary: out)
  case (Cons c s)
  have "\<not> is_ascii_uppercase c \<or> is_ascii_lowercase c" and nd: "c = CHR ''-'' \<longrightarrow> out \<noteq> [] \<and> last out \<noteq> CHR ''-''"
    using Cons.prems single_dashes_append [of "out @ [c]" s]
    by (auto simp: slug_char_def lyra_simps single_dashes_snoc)
  then have "slug_step c (out, out = [] \<or> last out = CHR ''-'') =
    (out @ [c], out @ [c] = [] \<or> last (out @ [c]) = CHR ''-'')"
    using Cons.prems(1) by (auto simp: slug_step_def slug_char_def)
  with Cons.IH [of "out @ [c]"] Cons.prems show ?case by simp
qed simp

lemma trim_slug:
  assumes "is_slug s"
  shows "trim s = s"
proof (rule trim_graphic)
  show ne: "s \<noteq> []" using assms by (simp add: is_slug_def)
  have "\<forall>c \<in> set s. graphic c"
    using assms by (auto simp: is_slug_def list_all_iff slug_char_def graphic_def lyra_simps)
  with ne show "graphic (hd s)" "graphic (last s)" by simp_all
qed

lemma sanitize_slug:
  assumes "is_slug s"
  shows "sanitize_label s = Some s"
proof -
  have "fst (fold slug_step s ([], True)) = s"
    using slug_fold [of s "[]"] assms by (simp add: is_slug_def single_dashes_nth)
  with assms trim_slug [OF assms] show ?thesis
    by (simp add: sanitize_label_def is_slug_def Let_def trim_end_char_id trim_char_def dropWhile_hd_id)
qed

text \<open>A label accepted from a request is a slug: non-empty, at most 40 characters of
  \<^verbatim>\<open>[a-z0-9-]\<close>, dashes only between them and never two in a row; and it is a fixed point, so that
  a label read back and saved again is not changed.\<close>

theorem sanitized_label_is_slug:
  "sanitize_label raw = Some s \<Longrightarrow> is_slug s \<and> sanitize_label s = Some s"
  by (simp add: sanitize_label_slug sanitize_slug)

theorem sanitized_label_is_slug_witness:
  "is_slug ''work-travel'' \<and> sanitize_label ''work-travel'' = Some ''work-travel''"
proof (rule sanitized_label_is_slug)
  show "sanitize_label '' Work__Travel!!'' = Some ''work-travel''"
    by code_simp
qed

section \<open>Sets of labels\<close>

lemma sanitize_labels_from_inv:
  assumes "distinct out" and "length out < MAX_LABELS" and "list_all is_slug out"
  shows "distinct (sanitize_labels_from out raw) \<and> length (sanitize_labels_from out raw) \<le> MAX_LABELS
    \<and> list_all is_slug (sanitize_labels_from out raw)"
  using assms
  by (induction out raw rule: sanitize_labels_from.induct)
     (auto simp: sanitize_label_slug split: option.splits)

lemma sanitize_labels_inv:
  "distinct (sanitize_labels raw) \<and> length (sanitize_labels raw) \<le> MAX_LABELS
    \<and> list_all is_slug (sanitize_labels raw)"
  unfolding sanitize_labels_def by (rule sanitize_labels_from_inv) (simp_all add: MAX_LABELS_def)

lemma strip_keyword [simp]: "strip_prefix (label_keyword l) KEYWORD_PREFIX = Some l"
  by (simp add: strip_prefix_Some label_keyword_def)

lemma label_keyword_inj [simp]: "label_keyword a = label_keyword b \<longleftrightarrow> a = b"
  by (simp add: label_keyword_def)

lemma push_labels:
  "distinct (out @ ls) \<Longrightarrow> [] \<notin> set ls \<Longrightarrow> fold push_label (map label_keyword ls) out = out @ ls"
  by (induction ls arbitrary: out) (auto simp: push_label_def)

lemma fold_flags:
  "fold (\<lambda>i. case i of JString flag \<Rightarrow> push_label flag | _ \<Rightarrow> id) (map JString fs) out
    = fold push_label fs out"
  by (induction fs arbitrary: out) auto

text \<open>The keywords a mailbox has after the server added the first and removed the second list.\<close>

definition store_keywords :: "string set \<Rightarrow> string list \<times> string list \<Rightarrow> string set" where
  "store_keywords K d = (K \<union> set (fst d)) - set (snd d)"

text \<open>Replacing the labels of a message: the keywords sent to the server turn the keywords of the
  old labels into those of the new ones and leave every other keyword alone.\<close>

theorem label_diff_replaces:
  assumes "K \<inter> range label_keyword \<subseteq> label_keyword ` set old"
  shows "store_keywords (K \<union> label_keyword ` set old) (label_diff old nxt)
    = (K - range label_keyword) \<union> label_keyword ` set nxt"
  using assms by (auto simp: store_keywords_def label_diff_def image_iff)

theorem label_diff_replaces_witness:
  "store_keywords ({''$seen''} \<union> label_keyword ` set [''work'']) (label_diff [''work''] [''home''])
    = ({''$seen''} - range label_keyword) \<union> label_keyword ` set [''home'']"
  by (rule label_diff_replaces) (auto simp: label_keyword_def KEYWORD_PREFIX_def)

text \<open>The labels a request may set survive the server: written as keywords among other flags and
  read back from the stored flags, they are the same labels in the same order, at most eight of them.\<close>

theorem labels_roundtrip:
  assumes "ls = sanitize_labels raw"
    and "from_str (to_string (JArray (map JString (system @ map label_keyword ls))))
      = Some (JArray (map JString (system @ map label_keyword ls)))"
    and "\<And>f. f \<in> set system \<Longrightarrow> strip_prefix f KEYWORD_PREFIX = None"
  shows "labels_from_flags_json from_str
      (to_string (JArray (map JString (system @ map label_keyword ls)))) = ls \<and> length ls \<le> MAX_LABELS"
proof -
  have ls: "distinct ls" "length ls \<le> MAX_LABELS" "[] \<notin> set ls"
    using sanitize_labels_inv [of raw] assms(1) by (auto simp: list_all_iff is_slug_def)
  have "fold push_label system [] = []"
    using assms(3) by (induction system) (auto simp: push_label_def)
  then have "fold push_label (system @ map label_keyword ls) [] = ls"
    using push_labels [of "[]" ls] ls by simp
  with ls assms(2) show ?thesis
    by (simp only: labels_from_flags_json_def fold_flags option.case Json.case) simp
qed

text \<open>A line per string, for a concrete array.\<close>

fun demo_lines :: "Json \<Rightarrow> string" where
  "demo_lines (JArray js) = join_with [CHR 0x0A] (map (\<lambda>j. case j of JString t \<Rightarrow> t | _ \<Rightarrow> []) js)"
| "demo_lines _ = []"

definition demo_unlines :: "string \<Rightarrow> Json option" where
  "demo_unlines t = Some (JArray (map JString (split_on (CHR 0x0A) t)))"

theorem labels_roundtrip_witness:
  "labels_from_flags_json demo_unlines (demo_lines (JArray (map JString ([''Seen''] @
      map label_keyword [''work'', ''to-do''])))) = [''work'', ''to-do''] \<and>
    length [''work'', ''to-do''] \<le> MAX_LABELS"
proof (rule labels_roundtrip)
  show "[''work'', ''to-do''] = sanitize_labels [''Work'', ''!!'', ''WORK '', ''To do'']"
    by code_simp
  show "demo_unlines (demo_lines (JArray (map JString ([''Seen''] @ map label_keyword [''work'', ''to-do'']))))
    = Some (JArray (map JString ([''Seen''] @ map label_keyword [''work'', ''to-do''])))"
    by code_simp
  show "strip_prefix f KEYWORD_PREFIX = None" if "f \<in> set [''Seen'']" for f
    using that by (simp add: strip_prefix_def KEYWORD_PREFIX_def)
qed

text \<open>An IMAP flag reaches the store as the \<^verbatim>\<open>Debug\<close> text of its enum, a keyword as
  \<^verbatim>\<open>Custom("...")\<close>: no label is read back from such a text.\<close>

lemma debug_flags_have_no_labels:
  assumes "from_str t = Some (JArray (map (\<lambda>k. JString (''Custom('' @ [CHR 0x22] @ label_keyword k @ [CHR 0x22] @ '')'')) ks))"
  shows "labels_from_flags_json from_str t = []"
proof -
  have "fold push_label (map (\<lambda>k. ''Custom('' @ [CHR 0x22] @ label_keyword k @ [CHR 0x22] @ '')'') ks) [] = []"
    by (induction ks) (auto simp: push_label_def strip_prefix_def KEYWORD_PREFIX_def)
  with assms fold_flags [of "map (\<lambda>k. ''Custom('' @ [CHR 0x22] @ label_keyword k @ [CHR 0x22] @ '')'') ks" "[]"]
  show ?thesis by (simp add: labels_from_flags_json_def comp_def)
qed

end
