(* ===== verification/Lyra_Store.thy ===== *)
theory Lyra_Store
  imports Lyra_Kernel Lyra_Labels "HOL-Library.Word" "HOL-Library.Char_ord"
    "HOL-Library.List_Lexorder"
begin

text \<open>
  The mail store of \<^verbatim>\<open>sync/store.rs\<close>: the tables \<^verbatim>\<open>folder\<close>, \<^verbatim>\<open>message\<close> and \<^verbatim>\<open>sync_cursor\<close>, the
  statements on them and the transactions the sync loops commit.

  A table is the list of its rows in insertion order; ids are texts. Every statement first consults
  the fault script \<open>md_faults\<close> as in the job queue. A transaction runs on the tables and puts them
  back when its body or its commit fails. \<open>md_uuid\<close> is the supply of fresh ids, \<open>md_now\<close> the time a
  statement sees. \<open>StoreEnv\<close> holds what libraries do: UUID parsing, modified UTF-7, JSON, dates and
  the HTML sanitizer. A JSON column keeps its text on SQLite and is parsed and rendered again
  elsewhere. UIDs, UIDVALIDITY and mod-sequences keep their machine widths.
\<close>

type_synonym u32 = "32 word"
type_synonym u64 = "64 word"

section \<open>Tables\<close>

record StoreEnv =
  se_backend :: DbBackend
  se_uuid_parse :: "string \<Rightarrow> string option"
  se_utf7 :: "string \<Rightarrow> string"
  se_json_parse :: "string \<Rightarrow> Json option"
  se_json_show :: "Json \<Rightarrow> string"
  se_date :: "string \<Rightarrow> string option"
  se_clean_html :: "string \<Rightarrow> string"

record FolderRow =
  f_id :: string
  f_account_id :: string
  f_external_id :: "string option"
  f_name :: string
  f_role :: "string option"
  f_role_override :: "string option"
  f_parent_id :: "string option"
  f_sort_order :: int
  f_total :: int
  f_unread :: int
  f_created_at :: string
  f_updated_at :: string

record StoredMessage =
  m_id :: string
  m_account_id :: string
  m_folder_id :: string
  m_external_id :: "string option"
  m_message_id_header :: "string option"
  m_subject :: "string option"
  m_from :: "string option"
  m_to :: "string option"
  m_cc :: "string option"
  m_date :: "string option"
  m_is_read :: bool
  m_is_starred :: bool
  m_is_deleted :: bool
  m_flags :: "string option"
  m_labels :: "string option"
  m_size_bytes :: "int option"
  m_in_reply_to :: "string option"
  m_references :: "string option"
  m_mailer :: "string option"
  m_snippet :: "string option"
  m_has_attachments :: bool
  m_body_text :: "string option"
  m_body_html :: "string option"
  m_jmap_thread_id :: "string option"
  m_snoozed_until :: "string option"
  m_raw_blob_path :: "string option"
  m_is_draft :: bool
  m_spam_verdict :: "string option"
  m_created_at :: string
  m_updated_at :: string

record CursorRow =
  c_id :: string
  c_account_id :: string
  c_folder_id :: string
  c_protocol :: string
  c_type :: string
  c_value :: string
  c_updated_at :: string

record MailData =
  dt_accounts :: "string list"
  dt_folders :: "FolderRow list"
  dt_messages :: "StoredMessage list"
  dt_cursors :: "CursorRow list"

record MailDb =
  md_faults :: "bool list"
  md_now :: string
  md_uuid :: "nat \<Rightarrow> string"
  md_next :: nat
  md_data :: MailData

record ImapMessage =
  im_uid :: u32
  im_message_id :: "string option"
  im_subject :: "string option"
  im_from :: "string option"
  im_to :: "string option"
  im_cc :: "string option"
  im_date :: "string option"
  im_in_reply_to :: "string option"
  im_references :: "string option"
  im_mailer :: "string option"
  im_flags :: "string list"
  im_size :: "u32 option"
  im_body_text :: "string option"
  im_body_html :: "string option"
  im_has_attachments :: bool

record SyncCursorInfo =
  ci_uid_validity :: u32
  ci_last_uid :: u32
  ci_last_modseq :: u64

section \<open>Statements and transactions\<close>

definition stmt :: "(string \<Rightarrow> MailData \<Rightarrow> (SyncError + 'a) \<times> MailData) \<Rightarrow> (MailDb, SyncError, 'a) eff" where
  "stmt f db =
     (case md_faults db of
        [] \<Rightarrow> (case f (md_now db) (md_data db) of (r, d) \<Rightarrow> (r, db\<lparr>md_data := d\<rparr>))
      | b # bs \<Rightarrow>
          if b then (Inl (DatabaseErr Driver), db\<lparr>md_faults := bs\<rparr>)
          else (case f (md_now db) (md_data db) of (r, d) \<Rightarrow> (r, db\<lparr>md_faults := bs, md_data := d\<rparr>)))"

definition query :: "(MailData \<Rightarrow> 'a) \<Rightarrow> (MailDb, SyncError, 'a) eff" where
  "query q = stmt (\<lambda>now d. (Inr (q d), d))"

definition modify :: "(string \<Rightarrow> MailData \<Rightarrow> MailData) \<Rightarrow> (MailDb, SyncError, unit) eff" where
  "modify f = stmt (\<lambda>now d. (Inr (), f now d))"

definition in_tx :: "(MailDb, SyncError, 'a) eff \<Rightarrow> (MailDb, SyncError, 'a) eff" where
  "in_tx body = bindE (query (\<lambda>_. ())) (\<lambda>_ db.
     case bindE body (\<lambda>x. bindE (query (\<lambda>_. ())) (\<lambda>_. okE x)) db of
       (Inl e, db') \<Rightarrow> (Inl e, db'\<lparr>md_data := md_data db\<rparr>)
     | (Inr x, db') \<Rightarrow> (Inr x, db'))"

definition new_uuid_text :: "(MailDb, SyncError, string) eff" where
  "new_uuid_text db = (Inr (md_uuid db (md_next db)), db\<lparr>md_next := Suc (md_next db)\<rparr>)"

definition id_value :: "StoreEnv \<Rightarrow> string \<Rightarrow> SyncError + string" where
  "id_value E i =
     (case se_backend E of
        Postgres \<Rightarrow>
          (case se_uuid_parse E i of None \<Rightarrow> Inl (InvalidInput ''invalid id'') | Some u \<Rightarrow> Inr u)
      | Mysql \<Rightarrow> Inr i
      | Sqlite \<Rightarrow> Inr i)"

definition opt_id_value :: "StoreEnv \<Rightarrow> string option \<Rightarrow> SyncError + string option" where
  "opt_id_value E i =
     (case i of
        None \<Rightarrow> Inr None
      | Some i \<Rightarrow> (case id_value E i of Inl e \<Rightarrow> Inl e | Inr v \<Rightarrow> Inr (Some v)))"

definition opt_json_value :: "StoreEnv \<Rightarrow> string option \<Rightarrow> string option" where
  "opt_json_value E raw =
     (case raw of
        None \<Rightarrow> None
      | Some raw \<Rightarrow>
          (case se_backend E of
             Sqlite \<Rightarrow> Some raw
           | _ \<Rightarrow> Some (se_json_show E
               (case se_json_parse E raw of Some v \<Rightarrow> v | None \<Rightarrow> JString raw))))"

definition opt_date_value :: "StoreEnv \<Rightarrow> string option \<Rightarrow> string option" where
  "opt_date_value E raw = Option.bind raw (se_date E)"

text \<open>\<^verbatim>\<open>i32::try_from(n).unwrap_or(i32::MAX)\<close> of a count.\<close>

definition clamp_i32 :: "nat \<Rightarrow> int" where
  "clamp_i32 n = (if int n \<le> 2147483647 then int n else 2147483647)"

definition truncate_for_snippet :: "string \<Rightarrow> string" where
  "truncate_for_snippet s =
     (if char_count s \<le> 120 then s else take_chars 117 s @ ''...'')"

section \<open>Folders\<close>

text \<open>\<^verbatim>\<open>rsplit_once\<close> and \<^verbatim>\<open>matches(d).count()\<close> for a string delimiter.\<close>

fun split_once_str :: "string \<Rightarrow> string \<Rightarrow> (string \<times> string) option" where
  "split_once_str d [] = (if d = [] then Some ([], []) else None)"
| "split_once_str d (c # cs) =
     (if starts_with (c # cs) d then Some ([], drop (length d) (c # cs))
      else map_option (\<lambda>(a, b). (c # a, b)) (split_once_str d cs))"

definition rsplit_once_str :: "string \<Rightarrow> string \<Rightarrow> (string \<times> string) option" where
  "rsplit_once_str d s = map_option (\<lambda>(a, b). (rev b, rev a)) (split_once_str (rev d) (rev s))"

fun count_matches :: "string \<Rightarrow> string \<Rightarrow> nat" where
  "count_matches d [] = 0"
| "count_matches d (c # cs) =
     (if starts_with (c # cs) d then Suc (count_matches d (drop (length d - 1) cs))
      else count_matches d cs)"

text \<open>\<^verbatim>\<open>to_lowercase\<close> as far as a comparison with an ASCII word can see it: besides the ASCII capitals,
  the Kelvin sign and the dotted capital I are the only scalars whose lower case contains ASCII.\<close>

fun to_lowercase :: "string \<Rightarrow> string" where
  "to_lowercase [] = []"
| "to_lowercase (c # cs) =
     (if starts_with (c # cs) [CHR 0xE2, CHR 0x84, CHR 0xAA] then CHR ''k'' # to_lowercase (drop 2 cs)
      else if starts_with (c # cs) [CHR 0xC4, CHR 0xB0]
        then CHR ''i'' # CHR 0xCC # CHR 0x87 # to_lowercase (drop 1 cs)
      else ascii_lower c # to_lowercase cs)"

definition split_imap_folder_path :: "string \<Rightarrow> string option \<Rightarrow> string option \<times> string" where
  "split_imap_folder_path wire_name delimiter =
     (case delimiter of
        None \<Rightarrow> (None, wire_name)
      | Some d \<Rightarrow>
          if d = [] then (None, wire_name)
          else (case rsplit_once_str d wire_name of
                  None \<Rightarrow> (None, wire_name)
                | Some (parent, leaf) \<Rightarrow> if parent = [] then (None, leaf) else (Some parent, leaf)))"

definition decode_imap_mailbox_name :: "StoreEnv \<Rightarrow> string \<Rightarrow> string" where
  "decode_imap_mailbox_name E encoded =
     (if CHR 0x26 \<notin> set encoded then encoded else se_utf7 E encoded)"

definition imap_folder_display_name :: "StoreEnv \<Rightarrow> string \<Rightarrow> string option \<Rightarrow> string" where
  "imap_folder_display_name E wire_name delimiter =
     decode_imap_mailbox_name E (snd (split_imap_folder_path wire_name delimiter))"

definition imap_folder_depth :: "string \<Rightarrow> string option \<Rightarrow> nat" where
  "imap_folder_depth wire_name delimiter =
     (case delimiter of
        None \<Rightarrow> 0
      | Some d \<Rightarrow> if d = [] then 0 else count_matches d wire_name)"

definition special_use_table :: "(string \<times> string) list" where
  "special_use_table =
     [(''archive'', ''archive''), (''all'', ''archive''), (''drafts'', ''drafts''), (''junk'', ''spam''),
      (''sent'', ''sent''), (''trash'', ''trash'')]"

text \<open>Attributes are ASCII on the wire; a byte beyond ASCII counts as alphanumeric.\<close>

definition attr_token :: "string \<Rightarrow> string" where
  "attr_token attr = to_lowercase (filter (\<lambda>c. is_ascii_alphanumeric c \<or> 128 \<le> byte c) attr)"

fun special_use_role :: "string list \<Rightarrow> string option" where
  "special_use_role [] = None"
| "special_use_role (attr # attrs) =
     (case find (\<lambda>(suffix, role). ends_with (attr_token attr) suffix) special_use_table of
        Some (suffix, role) \<Rightarrow> Some role
      | None \<Rightarrow> special_use_role attrs)"

definition infer_folder_role :: "string \<Rightarrow> string option" where
  "infer_folder_role name =
     (let lower = to_lowercase name
      in if lower = ''inbox'' then Some ''inbox''
         else if lower \<in> {''sent'', ''sent mail'', ''sent messages''} then Some ''sent''
         else if lower \<in> {''drafts'', ''draft''} then Some ''drafts''
         else if lower \<in> {''trash'', ''deleted'', ''deleted messages''} then Some ''trash''
         else if lower \<in> {''spam'', ''junk'', ''bulk mail''} then Some ''spam''
         else if lower \<in> {''archive'', ''all mail'', ''all messages''} then Some ''archive''
         else None)"

definition effective_folder_role :: "string option \<Rightarrow> string option \<Rightarrow> string option" where
  "effective_folder_role role role_override =
     (case role_override of
        Some r \<Rightarrow> if r = [] then role else Some r
      | None \<Rightarrow> role)"

definition find_folder_id_by_external_id ::
  "StoreEnv \<Rightarrow> string \<Rightarrow> string \<Rightarrow> (MailDb, SyncError, string option) eff" where
  "find_folder_id_by_external_id E account_id external_id =
     bindE (ofE (id_value E account_id)) (\<lambda>a.
       query (\<lambda>d. map_option f_id
         (find (\<lambda>f. f_account_id f = a \<and> f_external_id f = Some external_id) (dt_folders d))))"

text \<open>The constraints of the table: primary key, \<^verbatim>\<open>UNIQUE(account_id, external_id)\<close>, foreign keys.\<close>

definition insert_folder :: "FolderRow \<Rightarrow> (MailDb, SyncError, unit) eff" where
  "insert_folder r = stmt (\<lambda>now d.
     if f_id r \<in> f_id ` set (dt_folders d)
           \<or> (\<exists>f \<in> set (dt_folders d). f_account_id f = f_account_id r
                \<and> f_external_id r \<noteq> None \<and> f_external_id f = f_external_id r)
          then (Inl (DatabaseErr UniqueViolation), d)
        else if f_account_id r \<notin> set (dt_accounts d)
           \<or> (case f_parent_id r of None \<Rightarrow> False | Some p \<Rightarrow> p \<notin> f_id ` set (dt_folders d))
          then (Inl (DatabaseErr Driver), d)
        else (Inr (), d\<lparr>dt_folders := dt_folders d @ [r]\<rparr>))"

definition update_folders :: "(FolderRow \<Rightarrow> bool) \<Rightarrow> (string \<Rightarrow> FolderRow \<Rightarrow> FolderRow) \<Rightarrow>
    (MailDb, SyncError, unit) eff" where
  "update_folders P g = modify (\<lambda>now d. d\<lparr>dt_folders :=
     map (\<lambda>f. if P f then (g now f)\<lparr>f_updated_at := now\<rparr> else f)
       (dt_folders d)\<rparr>)"

definition fresh_folder ::
  "string \<Rightarrow> string \<Rightarrow> string \<Rightarrow> string \<Rightarrow> string option \<Rightarrow> string option \<Rightarrow> string \<Rightarrow> FolderRow" where
  "fresh_folder i a ext name role parent now =
     \<lparr>f_id = i, f_account_id = a, f_external_id = Some ext, f_name = name, f_role = role,
      f_role_override = None, f_parent_id = parent, f_sort_order = 0, f_total = 0, f_unread = 0,
      f_created_at = now, f_updated_at = now\<rparr>"

definition upsert_folder ::
  "StoreEnv \<Rightarrow> string \<Rightarrow> string \<Rightarrow> string option \<Rightarrow> string list \<Rightarrow> (MailDb, SyncError, unit) eff" where
  "upsert_folder E account_id wire_name delimiter attributes =
     (let display_name = imap_folder_display_name E wire_name delimiter;
          role = (case special_use_role attributes of
                    Some r \<Rightarrow> Some r | None \<Rightarrow> infer_folder_role display_name)
      in bindE (ofE (id_value E account_id)) (\<lambda>account_bind.
         bindE (case fst (split_imap_folder_path wire_name delimiter) of
                  Some parent_wire \<Rightarrow> find_folder_id_by_external_id E account_id parent_wire
                | None \<Rightarrow> okE None) (\<lambda>parent_id.
         bindE (ofE (opt_id_value E parent_id)) (\<lambda>parent_bind.
         bindE (find_folder_id_by_external_id E account_id wire_name) (\<lambda>existing.
         case existing of
           Some i \<Rightarrow>
             bindE (ofE (id_value E i)) (\<lambda>i.
               update_folders (\<lambda>f. f_id f = i)
                 (\<lambda>_ f. f\<lparr>f_name := display_name, f_role := role, f_parent_id := parent_bind\<rparr>))
         | None \<Rightarrow>
             bindE new_uuid_text (\<lambda>i.
             bindE (ofE (id_value E i)) (\<lambda>i db.
               insert_folder (fresh_folder i account_bind wire_name display_name role parent_bind
                 (md_now db)) db)))))))"

text \<open>The fields of \<^verbatim>\<open>JmapMailbox\<close> the store reads.\<close>

record JmapMailbox =
  jm_id :: string
  jm_name :: string
  jm_role :: "string option"
  jm_parent_id :: "string option"

definition upsert_jmap_folder :: "StoreEnv \<Rightarrow> string \<Rightarrow> JmapMailbox \<Rightarrow> (MailDb, SyncError, unit) eff" where
  "upsert_jmap_folder E account_id mailbox =
     (let role = (case jm_role mailbox of
                    Some r \<Rightarrow> Some r | None \<Rightarrow> infer_folder_role (jm_name mailbox))
      in bindE (find_folder_id_by_external_id E account_id (jm_id mailbox)) (\<lambda>existing.
         case existing of
           Some i \<Rightarrow>
             bindE (ofE (id_value E i)) (\<lambda>i.
               update_folders (\<lambda>f. f_id f = i) (\<lambda>_ f. f\<lparr>f_name := jm_name mailbox, f_role := role\<rparr>))
         | None \<Rightarrow>
             bindE new_uuid_text (\<lambda>i.
             bindE (ofE (id_value E i)) (\<lambda>i.
             bindE (ofE (id_value E account_id)) (\<lambda>a db.
               insert_folder (fresh_folder i a (jm_id mailbox) (jm_name mailbox) role None
                 (md_now db)) db)))))"

definition get_folder_id :: "StoreEnv \<Rightarrow> string \<Rightarrow> string \<Rightarrow> (MailDb, SyncError, string) eff" where
  "get_folder_id E account_id name =
     bindE (find_folder_id_by_external_id E account_id name) (\<lambda>r.
       case r of None \<Rightarrow> errE (DatabaseErr RowNotFound) | Some i \<Rightarrow> okE i)"

definition link_jmap_folder_parent ::
  "StoreEnv \<Rightarrow> string \<Rightarrow> string \<Rightarrow> string \<Rightarrow> (MailDb, SyncError, unit) eff" where
  "link_jmap_folder_parent E account_id child parent =
     bindE (get_folder_id E account_id child) (\<lambda>child_id.
     bindE (get_folder_id E account_id parent) (\<lambda>parent_id.
     bindE (ofE (id_value E parent_id)) (\<lambda>p.
     bindE (ofE (id_value E child_id)) (\<lambda>c.
       update_folders (\<lambda>f. f_id f = c) (\<lambda>_ f. f\<lparr>f_parent_id := Some p\<rparr>)))))"

text \<open>\<^verbatim>\<open>ORDER BY\<close> keeps the insertion order of equal keys here.\<close>

definition folder_id_for_role ::
  "StoreEnv \<Rightarrow> string \<Rightarrow> string \<Rightarrow> (MailDb, SyncError, string option) eff" where
  "folder_id_for_role E account_id role =
     bindE (ofE (id_value E account_id)) (\<lambda>a.
       query (\<lambda>d. case sort_key f_sort_order (filter (\<lambda>f. f_account_id f = a \<and>
           (case f_role_override f of Some r \<Rightarrow> Some r | None \<Rightarrow> f_role f) = Some role) (dt_folders d)) of
         [] \<Rightarrow> None | f # _ \<Rightarrow> Some (f_id f)))"

definition first_folder_id :: "StoreEnv \<Rightarrow> string \<Rightarrow> (MailDb, SyncError, string option) eff" where
  "first_folder_id E account_id =
     bindE (ofE (id_value E account_id)) (\<lambda>a.
       query (\<lambda>d. case sort_key f_sort_order (sort_key f_created_at
           (filter (\<lambda>f. f_account_id f = a) (dt_folders d))) of
         [] \<Rightarrow> None | f # _ \<Rightarrow> Some (f_id f)))"

section \<open>Cursors\<close>

definition parse_u32_or0 :: "string \<Rightarrow> u32" where
  "parse_u32_or0 s = (case parse_u32 s of Inr n \<Rightarrow> word_of_int n | Inl _ \<Rightarrow> 0)"

definition parse_u64_or0 :: "string \<Rightarrow> u64" where
  "parse_u64_or0 s = (case parse_u64 s of Inr n \<Rightarrow> word_of_int n | Inl _ \<Rightarrow> 0)"

definition parse_cursor_value :: "string \<Rightarrow> SyncCursorInfo" where
  "parse_cursor_value value =
     (case split_on (CHR '':'') value of
        [uv, lu, ms] \<Rightarrow>
          \<lparr>ci_uid_validity = parse_u32_or0 uv, ci_last_uid = parse_u32_or0 lu,
           ci_last_modseq = parse_u64_or0 ms\<rparr>
      | [uv, lu] \<Rightarrow>
          \<lparr>ci_uid_validity = parse_u32_or0 uv, ci_last_uid = parse_u32_or0 lu, ci_last_modseq = 0\<rparr>
      | _ \<Rightarrow> \<lparr>ci_uid_validity = 0, ci_last_uid = 0, ci_last_modseq = 0\<rparr>)"

definition format_cursor_value :: "u32 \<Rightarrow> u32 \<Rightarrow> u64 \<Rightarrow> string" where
  "format_cursor_value uid_validity last_uid last_modseq =
     (if last_modseq > 0
      then show_nat (unat uid_validity) @ '':'' @ show_nat (unat last_uid) @ '':''
             @ show_nat (unat last_modseq)
      else show_nat (unat uid_validity) @ '':'' @ show_nat (unat last_uid))"

definition cursor_match :: "string \<Rightarrow> string \<Rightarrow> string \<Rightarrow> CursorRow \<Rightarrow> bool" where
  "cursor_match a f ty c \<longleftrightarrow> c_account_id c = a \<and> c_folder_id c = f \<and> c_type c = ty"

definition load_cursor_value ::
  "StoreEnv \<Rightarrow> string \<Rightarrow> string \<Rightarrow> string \<Rightarrow> (MailDb, SyncError, string option) eff" where
  "load_cursor_value E account_id folder_id cursor_type =
     bindE (ofE (id_value E account_id)) (\<lambda>a.
     bindE (ofE (id_value E folder_id)) (\<lambda>f.
       query (\<lambda>d. map_option c_value (find (cursor_match a f cursor_type) (dt_cursors d)))))"

definition load_cursor ::
  "StoreEnv \<Rightarrow> string \<Rightarrow> string \<Rightarrow> (MailDb, SyncError, SyncCursorInfo option) eff" where
  "load_cursor E account_id folder_id =
     bindE (load_cursor_value E account_id folder_id ''uidvalidity_uid'')
       (\<lambda>v. okE (map_option parse_cursor_value v))"

definition load_jmap_cursor where
  "load_jmap_cursor E account_id folder_id = load_cursor_value E account_id folder_id ''state_token''"

definition load_jmap_email_state where
  "load_jmap_email_state E account_id anchor = load_cursor_value E account_id anchor ''email_state''"

definition clear_state_cursor ::
  "StoreEnv \<Rightarrow> string \<Rightarrow> string \<Rightarrow> string \<Rightarrow> (MailDb, SyncError, unit) eff" where
  "clear_state_cursor E account_id folder_id cursor_type =
     bindE (ofE (id_value E account_id)) (\<lambda>a.
     bindE (ofE (id_value E folder_id)) (\<lambda>f.
       modify (\<lambda>now d. d\<lparr>dt_cursors :=
         filter (\<lambda>c. \<not> cursor_match a f cursor_type c) (dt_cursors d)\<rparr>)))"

definition clear_jmap_cursor where
  "clear_jmap_cursor E account_id folder_id = clear_state_cursor E account_id folder_id ''state_token''"

definition clear_jmap_email_state where
  "clear_jmap_email_state E account_id anchor = clear_state_cursor E account_id anchor ''email_state''"

text \<open>\<^verbatim>\<open>INSERT ... ON CONFLICT (account_id, folder_id, cursor_type) DO UPDATE SET cursor_value,
  updated_at\<close>.\<close>

definition upsert_cursor_row :: "CursorRow \<Rightarrow> (MailDb, SyncError, unit) eff" where
  "upsert_cursor_row r = stmt (\<lambda>now d.
     let P = cursor_match (c_account_id r) (c_folder_id r) (c_type r)
     in if \<exists>c \<in> set (dt_cursors d). P c
        then (Inr (), d\<lparr>dt_cursors :=
               map (\<lambda>c. if P c then c\<lparr>c_value := c_value r, c_updated_at := c_updated_at r\<rparr> else c)
                 (dt_cursors d)\<rparr>)
        else if c_id r \<in> c_id ` set (dt_cursors d) then (Inl (DatabaseErr UniqueViolation), d)
        else if c_account_id r \<notin> set (dt_accounts d) \<or> c_folder_id r \<notin> f_id ` set (dt_folders d)
          then (Inl (DatabaseErr Driver), d)
        else (Inr (), d\<lparr>dt_cursors := dt_cursors d @ [r]\<rparr>))"

definition save_cursor_row ::
  "StoreEnv \<Rightarrow> string \<Rightarrow> string \<Rightarrow> string \<Rightarrow> string \<Rightarrow> string \<Rightarrow> (MailDb, SyncError, unit) eff" where
  "save_cursor_row E account_id folder_id protocol cursor_type cursor_value =
     bindE new_uuid_text (\<lambda>i.
     bindE (ofE (id_value E i)) (\<lambda>i.
     bindE (ofE (id_value E account_id)) (\<lambda>a.
     bindE (ofE (id_value E folder_id)) (\<lambda>f db.
       upsert_cursor_row \<lparr>c_id = i, c_account_id = a, c_folder_id = f, c_protocol = protocol,
         c_type = cursor_type, c_value = cursor_value, c_updated_at = md_now db\<rparr> db))))"

definition save_cursor_in_tx ::
  "StoreEnv \<Rightarrow> string \<Rightarrow> string \<Rightarrow> string \<Rightarrow> u32 \<Rightarrow> u32 \<Rightarrow> u64 \<Rightarrow> (MailDb, SyncError, unit) eff" where
  "save_cursor_in_tx E account_id folder_id protocol uid_validity last_uid last_modseq =
     save_cursor_row E account_id folder_id protocol ''uidvalidity_uid''
       (format_cursor_value uid_validity last_uid last_modseq)"

definition save_state_cursor_in_tx ::
  "StoreEnv \<Rightarrow> string \<Rightarrow> string \<Rightarrow> string \<Rightarrow> string \<Rightarrow> (MailDb, SyncError, unit) eff" where
  "save_state_cursor_in_tx E account_id folder_id cursor_type cursor_value =
     save_cursor_row E account_id folder_id ''jmap'' cursor_type cursor_value"

definition save_jmap_cursor_in_tx where
  "save_jmap_cursor_in_tx E account_id folder_id query_state =
     save_state_cursor_in_tx E account_id folder_id ''state_token'' query_state"

definition save_jmap_email_state where
  "save_jmap_email_state E account_id anchor state =
     in_tx (save_state_cursor_in_tx E account_id anchor ''email_state'' state)"

section \<open>Messages\<close>

definition imap_message_external_id :: "string \<Rightarrow> u32 \<Rightarrow> string" where
  "imap_message_external_id folder_id uid = folder_id @ '':'' @ show_nat (unat uid)"

definition parse_imap_uid :: "string option \<Rightarrow> SyncError + u32" where
  "parse_imap_uid external_id =
     (case external_id of
        None \<Rightarrow> Inl (InvalidInput ''message has no IMAP UID'')
      | Some raw \<Rightarrow>
          (case parse_u32 (last (split_on (CHR '':'') raw)) of
             Inl _ \<Rightarrow> Inl (InvalidInput ''message has no IMAP UID'')
           | Inr n \<Rightarrow> Inr (word_of_int n)))"

definition FFFD :: string where "FFFD = [CHR 0xEF, CHR 0xBF, CHR 0xBD]"

text \<open>\<^verbatim>\<open>LIKE '%=?%?=%'\<close>: an encoded-word opener with a closer after it.\<close>

definition like_encoded_word :: "string \<Rightarrow> bool" where
  "like_encoded_word s =
     (case split_once_str ''=?'' s of None \<Rightarrow> False | Some (_, rest) \<Rightarrow> contains_str rest ''?='')"

definition has_mojibake :: "string option \<Rightarrow> bool" where
  "has_mojibake t = (case t of None \<Rightarrow> False | Some s \<Rightarrow> contains_str s FFFD)"

definition stale_text :: "string option \<Rightarrow> bool" where
  "stale_text t =
     (case t of None \<Rightarrow> True | Some s \<Rightarrow> s = [] \<or> like_encoded_word s \<or> contains_str s FFFD)"

definition coalesce :: "'a option \<Rightarrow> 'a option \<Rightarrow> 'a option" where
  "coalesce a b = (case a of Some x \<Rightarrow> Some x | None \<Rightarrow> b)"

definition find_message_id ::
  "StoreEnv \<Rightarrow> string \<Rightarrow> string \<Rightarrow> (MailDb, SyncError, string option) eff" where
  "find_message_id E account_id external_id =
     bindE (ofE (id_value E account_id)) (\<lambda>a.
       query (\<lambda>d. map_option m_id
         (find (\<lambda>m. m_account_id m = a \<and> m_external_id m = Some external_id) (dt_messages d))))"

record MessageInsert =
  mi_id :: string
  mi_account :: string
  mi_folder :: string
  mi_external_id :: string
  mi_message_id_header :: "string option"
  mi_subject :: "string option"
  mi_from_json :: "string option"
  mi_to_json :: "string option"
  mi_cc_json :: "string option"
  mi_date :: "string option"
  mi_is_read :: bool
  mi_is_starred :: bool
  mi_flags_json :: string
  mi_size_bytes :: "int option"
  mi_in_reply_to :: "string option"
  mi_references :: "string option"
  mi_mailer :: "string option"
  mi_snippet :: "string option"
  mi_has_attachments :: bool
  mi_body_text :: "string option"
  mi_body_html :: "string option"
  mi_jmap_thread_id :: "string option"

definition message_insert :: "StoreEnv \<Rightarrow> string \<Rightarrow> MessageInsert \<Rightarrow> StoredMessage" where
  "message_insert E now mi =
     \<lparr>m_id = mi_id mi, m_account_id = mi_account mi, m_folder_id = mi_folder mi,
      m_external_id = Some (mi_external_id mi), m_message_id_header = mi_message_id_header mi,
      m_subject = mi_subject mi, m_from = opt_json_value E (mi_from_json mi),
      m_to = opt_json_value E (mi_to_json mi), m_cc = opt_json_value E (mi_cc_json mi),
      m_date = opt_date_value E (mi_date mi), m_is_read = mi_is_read mi,
      m_is_starred = mi_is_starred mi, m_is_deleted = False,
      m_flags = opt_json_value E (Some (mi_flags_json mi)),
      m_labels = opt_json_value E (labels_json (se_json_show E)
        (labels_from_flags_json (se_json_parse E) (mi_flags_json mi))),
      m_size_bytes = mi_size_bytes mi, m_in_reply_to = mi_in_reply_to mi,
      m_references = mi_references mi, m_mailer = mi_mailer mi, m_snippet = mi_snippet mi,
      m_has_attachments = mi_has_attachments mi, m_body_text = mi_body_text mi,
      m_body_html = mi_body_html mi, m_jmap_thread_id = mi_jmap_thread_id mi,
      m_snoozed_until = None, m_raw_blob_path = None, m_is_draft = False, m_spam_verdict = None,
      m_created_at = now, m_updated_at = now\<rparr>"

text \<open>The \<^verbatim>\<open>DO UPDATE SET\<close> of the IMAP upsert: \<open>cur\<close> is the stored row, \<open>exc\<close> the candidate.\<close>

definition fill_in_on_conflict :: "string \<Rightarrow> StoredMessage \<Rightarrow> StoredMessage \<Rightarrow> StoredMessage" where
  "fill_in_on_conflict now exc cur = cur\<lparr>
     m_is_read := m_is_read exc, m_is_starred := m_is_starred exc, m_flags := m_flags exc,
     m_subject := (if stale_text (m_subject cur) then m_subject exc else m_subject cur),
     m_from := (if stale_text (m_from cur) then m_from exc else m_from cur),
     m_to := (if stale_text (m_to cur) then m_to exc else m_to cur),
     m_cc := (if stale_text (m_cc cur) then m_cc exc else m_cc cur),
     m_date := coalesce (m_date cur) (m_date exc),
     m_snippet := (if stale_text (m_snippet cur) then m_snippet exc else m_snippet cur),
     m_message_id_header := coalesce (m_message_id_header cur) (m_message_id_header exc),
     m_mailer := coalesce (m_mailer cur) (m_mailer exc), m_updated_at := now\<rparr>"

definition same_external :: "StoredMessage \<Rightarrow> StoredMessage \<Rightarrow> bool" where
  "same_external r m \<longleftrightarrow> m_account_id m = m_account_id r \<and> m_external_id r \<noteq> None
     \<and> m_external_id m = m_external_id r"

text \<open>\<^verbatim>\<open>INSERT\<close> into \<^verbatim>\<open>message\<close>: \<open>on_conflict\<close> is the update of the row with the same account and external
  id, if the statement has one.\<close>

definition insert_message ::
  "(StoredMessage \<Rightarrow> StoredMessage) option \<Rightarrow> StoredMessage \<Rightarrow> (MailDb, SyncError, unit) eff" where
  "insert_message on_conflict r = stmt (\<lambda>now d.
     if \<exists>m \<in> set (dt_messages d). same_external r m
        then (case on_conflict of
                Some g \<Rightarrow> (Inr (), d\<lparr>dt_messages :=
                  map (\<lambda>m. if same_external r m then g m else m) (dt_messages d)\<rparr>)
              | None \<Rightarrow> (Inl (DatabaseErr UniqueViolation), d))
        else if m_id r \<in> m_id ` set (dt_messages d) then (Inl (DatabaseErr UniqueViolation), d)
        else if m_account_id r \<notin> set (dt_accounts d) \<or> m_folder_id r \<notin> f_id ` set (dt_folders d)
          then (Inl (DatabaseErr Driver), d)
        else (Inr (), d\<lparr>dt_messages := dt_messages d @ [r]\<rparr>))"

definition persist_body_html :: "StoreEnv \<Rightarrow> string option \<Rightarrow> string option" where
  "persist_body_html E html = map_option (se_clean_html E) html"

definition flag_is_read :: "string list \<Rightarrow> bool" where
  "flag_is_read flags =
     list_ex (\<lambda>f. contains_str f ''Seen'' \<or> contains_str f (CHR 0x5C # ''Seen'')) flags"

definition flag_is_starred :: "string list \<Rightarrow> bool" where
  "flag_is_starred flags =
     list_ex (\<lambda>f. contains_str f ''Flagged'' \<or> contains_str f (CHR 0x5C # ''Flagged'')) flags"

definition imap_insert ::
  "StoreEnv \<Rightarrow> string \<Rightarrow> string \<Rightarrow> string \<Rightarrow> string \<Rightarrow> ImapMessage \<Rightarrow> MessageInsert" where
  "imap_insert E i a f external_id msg =
     \<lparr>mi_id = i, mi_account = a, mi_folder = f, mi_external_id = external_id,
      mi_message_id_header = im_message_id msg, mi_subject = im_subject msg,
      mi_from_json = map_option (\<lambda>t. se_json_show E (JObject [(''raw'', JString t)])) (im_from msg),
      mi_to_json = map_option (\<lambda>t. se_json_show E (JArray [JString t])) (im_to msg),
      mi_cc_json = im_cc msg, mi_date = im_date msg,
      mi_is_read = flag_is_read (im_flags msg), mi_is_starred = flag_is_starred (im_flags msg),
      mi_flags_json = se_json_show E (JArray (map JString (im_flags msg))),
      mi_size_bytes = Option.bind (im_size msg)
        (\<lambda>s. if uint s \<le> 2147483647 then Some (uint s) else None),
      mi_in_reply_to = im_in_reply_to msg, mi_references = im_references msg,
      mi_mailer = im_mailer msg, mi_snippet = map_option truncate_for_snippet (im_subject msg),
      mi_has_attachments = im_has_attachments msg, mi_body_text = im_body_text msg,
      mi_body_html = persist_body_html E (im_body_html msg), mi_jmap_thread_id = None\<rparr>"

definition upsert_message_in_tx ::
  "StoreEnv \<Rightarrow> string \<Rightarrow> string \<Rightarrow> ImapMessage \<Rightarrow> (MailDb, SyncError, bool) eff" where
  "upsert_message_in_tx E account_id folder_id msg =
     (let external_id = imap_message_external_id folder_id (im_uid msg)
      in bindE (find_message_id E account_id external_id) (\<lambda>existing.
         bindE new_uuid_text (\<lambda>i.
         bindE (ofE (id_value E i)) (\<lambda>i.
         bindE (ofE (id_value E account_id)) (\<lambda>a.
         bindE (ofE (id_value E folder_id)) (\<lambda>f db.
           let row = message_insert E (md_now db) (imap_insert E i a f external_id msg)
           in bindE (insert_message (Some (fill_in_on_conflict (md_now db) row)) row)
                (\<lambda>_. okE (existing = None)) db))))))"

section \<open>Counts, batches and reconciliation\<close>

text \<open>\<^verbatim>\<open>snoozed_until\<close> and the current time are texts of one format, ordered as their instants.\<close>

definition visible_in :: "string \<Rightarrow> string \<Rightarrow> StoredMessage \<Rightarrow> bool" where
  "visible_in now folder_id m \<longleftrightarrow> m_folder_id m = folder_id \<and> \<not> m_is_deleted m
     \<and> (case m_snoozed_until m of None \<Rightarrow> True | Some t \<Rightarrow> t \<le> now)"

definition folder_count :: "string \<Rightarrow> bool \<Rightarrow> (MailDb, SyncError, nat) eff" where
  "folder_count folder_id unread_only = stmt (\<lambda>now d.
     (Inr (length (filter (\<lambda>m. visible_in now folder_id m \<and> (unread_only \<longrightarrow> \<not> m_is_read m))
        (dt_messages d))), d))"

definition update_folder_counts_in_tx :: "StoreEnv \<Rightarrow> string \<Rightarrow> (MailDb, SyncError, unit) eff" where
  "update_folder_counts_in_tx E folder_id =
     bindE (ofE (id_value E folder_id)) (\<lambda>f.
     bindE (folder_count f False) (\<lambda>total.
     bindE (folder_count f True) (\<lambda>unread.
       update_folders (\<lambda>r. f_id r = f)
         (\<lambda>_ r. r\<lparr>f_total := clamp_i32 total, f_unread := clamp_i32 unread\<rparr>))))"

definition update_folder_counts :: "StoreEnv \<Rightarrow> string \<Rightarrow> (MailDb, SyncError, unit) eff" where
  "update_folder_counts E folder_id = in_tx (update_folder_counts_in_tx E folder_id)"

definition clear_folder_messages_in_tx :: "StoreEnv \<Rightarrow> string \<Rightarrow> (MailDb, SyncError, unit) eff" where
  "clear_folder_messages_in_tx E folder_id =
     bindE (ofE (id_value E folder_id)) (\<lambda>f.
     bindE (modify (\<lambda>now d. d\<lparr>dt_messages :=
       filter (\<lambda>m. m_folder_id m \<noteq> f) (dt_messages d)\<rparr>)) (\<lambda>_.
     modify (\<lambda>now d. d\<lparr>dt_cursors :=
       filter (\<lambda>c. \<not> (c_folder_id c = f \<and> c_type c \<noteq> ''email_state'')) (dt_cursors d)\<rparr>)))"

text \<open>The loop over the messages of a batch, counting new and updated rows.\<close>

fun upsert_all ::
  "StoreEnv \<Rightarrow> string \<Rightarrow> string \<Rightarrow> ImapMessage list \<Rightarrow> nat \<times> nat \<Rightarrow> (MailDb, SyncError, nat \<times> nat) eff" where
  "upsert_all E account_id folder_id [] acc = okE acc"
| "upsert_all E account_id folder_id (msg # msgs) acc =
     bindE (upsert_message_in_tx E account_id folder_id msg) (\<lambda>was_new.
       upsert_all E account_id folder_id msgs
         (if was_new then (Suc (fst acc), snd acc) else (fst acc, Suc (snd acc))))"

definition persist_imap_folder_batch ::
  "StoreEnv \<Rightarrow> string \<Rightarrow> string \<Rightarrow> ImapMessage list \<Rightarrow> u32 \<Rightarrow> u32 \<Rightarrow> u64 \<Rightarrow> bool \<Rightarrow>
     (MailDb, SyncError, nat \<times> nat) eff" where
  "persist_imap_folder_batch E account_id folder_id messages uid_validity last_uid last_modseq clear_first =
     in_tx (
       bindE (if clear_first then clear_folder_messages_in_tx E folder_id else okE ()) (\<lambda>_.
       bindE (upsert_all E account_id folder_id messages (0, 0)) (\<lambda>counts.
       bindE (save_cursor_in_tx E account_id folder_id ''imap'' uid_validity last_uid last_modseq) (\<lambda>_.
       bindE (update_folder_counts_in_tx E folder_id) (\<lambda>_.
         okE counts)))))"

definition mojibake_row :: "StoredMessage \<Rightarrow> bool" where
  "mojibake_row m \<longleftrightarrow> has_mojibake (m_subject m) \<or> has_mojibake (m_snippet m) \<or> has_mojibake (m_from m)
     \<or> has_mojibake (m_to m) \<or> has_mojibake (m_body_text m) \<or> has_mojibake (m_body_html m)"

definition mojibake_message_uids ::
  "StoreEnv \<Rightarrow> string \<Rightarrow> nat \<Rightarrow> (MailDb, SyncError, u32 list) eff" where
  "mojibake_message_uids E folder_id limit =
     bindE (ofE (id_value E folder_id)) (\<lambda>f.
     bindE (query (\<lambda>d. take limit (filter (\<lambda>m. m_folder_id m = f \<and> mojibake_row m) (dt_messages d)))) (\<lambda>rows.
       okE (List.map_filter (\<lambda>m. case parse_imap_uid (m_external_id m) of Inr u \<Rightarrow> Some u | Inl _ \<Rightarrow> None) rows)))"

definition repair_imap_messages ::
  "StoreEnv \<Rightarrow> string \<Rightarrow> string \<Rightarrow> ImapMessage list \<Rightarrow> (MailDb, SyncError, nat) eff" where
  "repair_imap_messages E account_id folder_id messages =
     in_tx (
       bindE (upsert_all E account_id folder_id messages (0, 0)) (\<lambda>_.
       bindE (ofE (id_value E folder_id)) (\<lambda>f.
       bindE (modify (\<lambda>now d. d\<lparr>dt_messages :=
         map (\<lambda>m. if m_folder_id m = f \<and> (has_mojibake (m_body_text m) \<or> has_mojibake (m_body_html m))
                  then m\<lparr>m_body_text := None, m_body_html := None\<rparr> else m)
           (dt_messages d)\<rparr>)) (\<lambda>_.
       bindE (update_folder_counts_in_tx E folder_id) (\<lambda>_.
         okE (length messages))))))"

definition stale_imap_row_ids :: "(string \<times> string option) list \<Rightarrow> u32 set \<Rightarrow> string list" where
  "stale_imap_row_ids local_rows server_uids =
     List.map_filter (\<lambda>(i, external_id).
       case parse_imap_uid external_id of
         Inl _ \<Rightarrow> None
       | Inr uid \<Rightarrow> if uid \<in> server_uids then None else Some i) local_rows"

fun id_values :: "StoreEnv \<Rightarrow> string list \<Rightarrow> SyncError + string list" where
  "id_values E [] = Inr []"
| "id_values E (i # is) =
     (case id_value E i of
        Inl e \<Rightarrow> Inl e
      | Inr v \<Rightarrow> (case id_values E is of Inl e \<Rightarrow> Inl e | Inr vs \<Rightarrow> Inr (v # vs)))"

definition reconcile_folder_deletions ::
  "StoreEnv \<Rightarrow> string \<Rightarrow> string \<Rightarrow> u32 set \<Rightarrow> (MailDb, SyncError, nat) eff" where
  "reconcile_folder_deletions E account_id folder_id server_uids =
     bindE (ofE (id_value E account_id)) (\<lambda>a.
     bindE (ofE (id_value E folder_id)) (\<lambda>f.
     bindE (query (\<lambda>d. map (\<lambda>m. (m_id m, m_external_id m))
         (filter (\<lambda>m. m_account_id m = a \<and> m_folder_id m = f \<and> \<not> m_is_deleted m) (dt_messages d)))) (\<lambda>local_rows.
     let stale = stale_imap_row_ids local_rows server_uids
     in if stale = [] then okE 0
        else bindE (ofE (id_values E stale)) (\<lambda>ids.
             bindE (in_tx (
               bindE (modify (\<lambda>now d. d\<lparr>dt_messages :=
                 map (\<lambda>m. if m_id m \<in> set ids then m\<lparr>m_is_deleted := True\<rparr> else m)
                   (dt_messages d)\<rparr>)) (\<lambda>_.
               update_folder_counts_in_tx E folder_id))) (\<lambda>_.
             okE (length stale))))))"

definition update_message :: "StoreEnv \<Rightarrow> string \<Rightarrow> (StoredMessage \<Rightarrow> bool) \<Rightarrow>
    (StoredMessage \<Rightarrow> StoredMessage) \<Rightarrow> (MailDb, SyncError, unit) eff" where
  "update_message E message_id P g =
     bindE (ofE (id_value E message_id)) (\<lambda>i.
       modify (\<lambda>now d. d\<lparr>dt_messages :=
         map (\<lambda>m. if m_id m = i \<and> P m then (g m)\<lparr>m_updated_at := now\<rparr> else m)
           (dt_messages d)\<rparr>))"

definition set_message_raw_blob :: "StoreEnv \<Rightarrow> string \<Rightarrow> string \<Rightarrow> (MailDb, SyncError, unit) eff" where
  "set_message_raw_blob E message_id rel_path =
     update_message E message_id (\<lambda>_. True) (\<lambda>m. m\<lparr>m_raw_blob_path := Some rel_path\<rparr>)"

definition set_message_mailer :: "StoreEnv \<Rightarrow> string \<Rightarrow> string \<Rightarrow> (MailDb, SyncError, unit) eff" where
  "set_message_mailer E message_id mailer =
     update_message E message_id (\<lambda>m. m_mailer m = None) (\<lambda>m. m\<lparr>m_mailer := Some mailer\<rparr>)"

definition get_message_raw_blob_path ::
  "StoreEnv \<Rightarrow> string \<Rightarrow> (MailDb, SyncError, string option) eff" where
  "get_message_raw_blob_path E message_id =
     bindE (ofE (id_value E message_id)) (\<lambda>i.
       query (\<lambda>d. Option.bind (find (\<lambda>m. m_id m = i) (dt_messages d)) m_raw_blob_path))"

section \<open>JMAP messages\<close>

record JmapEmailAddress =
  ja_name :: "string option"
  ja_email :: "string option"

record JmapAttachmentMeta =
  jt_blob_id :: string
  jt_filename :: string
  jt_content_type :: string
  jt_size :: u64
  jt_content_id :: "string option"
  jt_is_inline :: bool

text \<open>The fields of \<^verbatim>\<open>JmapEmail\<close> the sync reads.\<close>

record JmapEmail =
  je_id :: string
  je_thread_id :: "string option"
  je_mailbox_ids :: "Json option"
  je_keywords :: "Json option"
  je_size :: "u64 option"
  je_received_at :: "string option"
  je_message_id :: "string list option"
  je_in_reply_to :: "string list option"
  je_references :: "string list option"
  je_from :: "JmapEmailAddress list option"
  je_to :: "JmapEmailAddress list option"
  je_cc :: "JmapEmailAddress list option"
  je_subject :: "string option"
  je_mailer :: "string option"
  je_body_values :: "(string \<times> Json) list option"
  je_text_body :: "Json list option"
  je_html_body :: "Json list option"
  je_has_attachment :: "bool option"
  je_preview :: "string option"
  je_attachments_meta :: "JmapAttachmentMeta list"

fun first :: "'a list \<Rightarrow> 'a option" where
  "first [] = None"
| "first (x # _) = Some x"

definition extract_body_part :: "JmapEmail \<Rightarrow> string \<Rightarrow> string option" where
  "extract_body_part email content_type =
     Option.bind (if content_type = ''text/plain'' then je_text_body email else je_html_body email) (\<lambda>parts.
     Option.bind (first parts) (\<lambda>part.
     Option.bind (jget ''partId'' part) (\<lambda>p.
     Option.bind (as_str p) (\<lambda>part_id.
     Option.bind (je_body_values email) (\<lambda>values.
     Option.bind (map_of values part_id) (\<lambda>v.
     Option.bind (jget ''value'' v) as_str))))))"

definition jmap_mailer :: "JmapEmail \<Rightarrow> string option" where
  "jmap_mailer email =
     Option.bind (map_option trim (je_mailer email)) (\<lambda>s. if s = [] then None else Some s)"

fun format_jmap_address :: "JmapEmailAddress \<Rightarrow> string" where
  "format_jmap_address a =
     (case (ja_name a, ja_email a) of
        (Some name, Some email) \<Rightarrow> name @ '' <'' @ email @ ''>''
      | (None, Some email) \<Rightarrow> email
      | (Some name, None) \<Rightarrow> name
      | (None, None) \<Rightarrow> [])"

definition format_from :: "JmapEmail \<Rightarrow> string option" where
  "format_from email = map_option format_jmap_address (Option.bind (je_from email) first)"

definition to_string_list :: "JmapEmail \<Rightarrow> string option" where
  "to_string_list email = map_option (\<lambda>as. join_with '', '' (map format_jmap_address as)) (je_to email)"

definition message_id_header :: "JmapEmail \<Rightarrow> string option" where
  "message_id_header email = Option.bind (je_message_id email) first"

definition has_keyword :: "string \<Rightarrow> JmapEmail \<Rightarrow> bool" where
  "has_keyword k email =
     (case Option.bind (je_keywords email) (jget k) of Some (JBool b) \<Rightarrow> b | _ \<Rightarrow> False)"

definition is_seen :: "JmapEmail \<Rightarrow> bool" where "is_seen = has_keyword ''$seen''"
definition is_flagged :: "JmapEmail \<Rightarrow> bool" where "is_flagged = has_keyword ''$flagged''"

text \<open>The formatting of one \<^verbatim>\<open>cc\<close> address; unlike \<open>format_jmap_address\<close> it drops a lone name.\<close>

fun format_cc_address :: "JmapEmailAddress \<Rightarrow> string" where
  "format_cc_address a =
     (case (ja_name a, ja_email a) of
        (Some name, Some email) \<Rightarrow> name @ '' <'' @ email @ ''>''
      | (None, Some email) \<Rightarrow> email
      | _ \<Rightarrow> [])"

definition jmap_insert ::
  "StoreEnv \<Rightarrow> string \<Rightarrow> string \<Rightarrow> string \<Rightarrow> JmapEmail \<Rightarrow> string \<Rightarrow> MessageInsert" where
  "jmap_insert E i a f email flags_json =
     \<lparr>mi_id = i, mi_account = a, mi_folder = f, mi_external_id = je_id email,
      mi_message_id_header = message_id_header email, mi_subject = je_subject email,
      mi_from_json = map_option (\<lambda>t. se_json_show E (JObject [(''raw'', JString t)])) (format_from email),
      mi_to_json = map_option (\<lambda>t. se_json_show E (JArray [JString t])) (to_string_list email),
      mi_cc_json = map_option (\<lambda>as. se_json_show E (JArray (map (\<lambda>a. JString (format_cc_address a)) as)))
        (je_cc email),
      mi_date = je_received_at email,
      mi_is_read = is_seen email, mi_is_starred = is_flagged email, mi_flags_json = flags_json,
      mi_size_bytes = map_option (\<lambda>s. clamp_i32 (unat s)) (je_size email),
      mi_in_reply_to = Option.bind (je_in_reply_to email) first,
      mi_references = map_option (join_with '' '') (je_references email),
      mi_mailer = jmap_mailer email,
      mi_snippet = (case je_preview email of
          Some p \<Rightarrow> Some p | None \<Rightarrow> map_option truncate_for_snippet (je_subject email)),
      mi_has_attachments = (case je_has_attachment email of Some b \<Rightarrow> b | None \<Rightarrow> False),
      mi_body_text = extract_body_part email ''text/plain'',
      mi_body_html = persist_body_html E (extract_body_part email ''text/html''),
      mi_jmap_thread_id = je_thread_id email\<rparr>"

text \<open>The update of a known message: it may move to another folder, which must exist.\<close>

definition rehome_message ::
  "string \<Rightarrow> string \<Rightarrow> (StoredMessage \<Rightarrow> StoredMessage) \<Rightarrow> (MailDb, SyncError, unit) eff" where
  "rehome_message i f g = stmt (\<lambda>now d.
     if i \<in> m_id ` set (dt_messages d) \<and> f \<notin> f_id ` set (dt_folders d)
     then (Inl (DatabaseErr Driver), d)
     else (Inr (), d\<lparr>dt_messages :=
       map (\<lambda>m. if m_id m = i then (g m)\<lparr>m_folder_id := f, m_updated_at := now\<rparr> else m)
         (dt_messages d)\<rparr>))"

definition upsert_jmap_message_in_tx ::
  "StoreEnv \<Rightarrow> string \<Rightarrow> string \<Rightarrow> JmapEmail \<Rightarrow> (MailDb, SyncError, bool \<times> string) eff" where
  "upsert_jmap_message_in_tx E account_id folder_id email =
     (let flags_json = se_json_show E (case je_keywords email of Some k \<Rightarrow> k | None \<Rightarrow> JNull)
      in bindE (find_message_id E account_id (je_id email)) (\<lambda>existing.
         case existing of
           Some i \<Rightarrow>
             bindE (ofE (id_value E folder_id)) (\<lambda>f.
             bindE (ofE (id_value E i)) (\<lambda>bound.
             bindE (rehome_message bound f (\<lambda>m. m\<lparr>
                 m_is_read := is_seen email, m_is_starred := is_flagged email,
                 m_flags := opt_json_value E (Some flags_json),
                 m_jmap_thread_id := je_thread_id email\<rparr>)) (\<lambda>_.
               okE (False, i))))
         | None \<Rightarrow>
             bindE new_uuid_text (\<lambda>i.
             bindE (ofE (id_value E i)) (\<lambda>i.
             bindE (ofE (id_value E account_id)) (\<lambda>a.
             bindE (ofE (id_value E folder_id)) (\<lambda>f.
             bindE (\<lambda>db. insert_message None
                 (message_insert E (md_now db) (jmap_insert E i a f email flags_json)) db) (\<lambda>_.
             bindE (find_message_id E account_id (je_id email)) (\<lambda>found.
               case found of
                 Some i \<Rightarrow> okE (True, i)
               | None \<Rightarrow> errE (Internal ''JMAP message insert lost its row'')))))))))"

record JmapPersistedMessage =
  jp_local_id :: string
  jp_was_new :: bool

fun upsert_jmap_all ::
  "StoreEnv \<Rightarrow> string \<Rightarrow> string \<Rightarrow> JmapEmail list \<Rightarrow> (MailDb, SyncError, JmapPersistedMessage list) eff" where
  "upsert_jmap_all E account_id folder_id [] = okE []"
| "upsert_jmap_all E account_id folder_id (email # emails) =
     bindE (upsert_jmap_message_in_tx E account_id folder_id email) (\<lambda>(was_new, local_id).
     bindE (upsert_jmap_all E account_id folder_id emails) (\<lambda>rest.
       okE (\<lparr>jp_local_id = local_id, jp_was_new = was_new\<rparr> # rest)))"

definition persist_jmap_folder_batch ::
  "StoreEnv \<Rightarrow> string \<Rightarrow> string \<Rightarrow> JmapEmail list \<Rightarrow> string option \<Rightarrow>
     (MailDb, SyncError, nat \<times> nat \<times> JmapPersistedMessage list) eff" where
  "persist_jmap_folder_batch E account_id folder_id emails query_state =
     in_tx (
       bindE (upsert_jmap_all E account_id folder_id emails) (\<lambda>persisted.
       bindE (case query_state of
                Some qs \<Rightarrow> save_jmap_cursor_in_tx E account_id folder_id qs
              | None \<Rightarrow> okE ()) (\<lambda>_.
       bindE (update_folder_counts_in_tx E folder_id) (\<lambda>_.
         okE (length (filter jp_was_new persisted), length (filter (\<lambda>p. \<not> jp_was_new p) persisted),
              persisted)))))"

definition IDS_CHUNK :: nat where "IDS_CHUNK = 1000"

fun delete_chunks ::
  "string \<Rightarrow> string list list \<Rightarrow> string list \<times> nat \<Rightarrow> (MailDb, SyncError, string list \<times> nat) eff" where
  "delete_chunks a [] acc = okE acc"
| "delete_chunks a (chunk # chunks) (folder_ids, deleted) =
     (let P = (\<lambda>m. m_account_id m = a
         \<and> (case m_external_id m of Some x \<Rightarrow> x \<in> set chunk | None \<Rightarrow> False))
      in bindE (query (\<lambda>d. remdups (map m_folder_id (filter P (dt_messages d))))) (\<lambda>rows.
         bindE (stmt (\<lambda>now d. (Inr (length (filter P (dt_messages d))),
           d\<lparr>dt_messages := filter (\<lambda>m. \<not> P m) (dt_messages d)\<rparr>))) (\<lambda>n.
           delete_chunks a chunks
             (folder_ids @ filter (\<lambda>i. i \<notin> set folder_ids) rows, deleted + n))))"

fun update_all_counts :: "StoreEnv \<Rightarrow> string list \<Rightarrow> (MailDb, SyncError, unit) eff" where
  "update_all_counts E [] = okE ()"
| "update_all_counts E (f # fs) = bindE (update_folder_counts E f) (\<lambda>_. update_all_counts E fs)"

definition delete_jmap_messages_by_external_ids ::
  "StoreEnv \<Rightarrow> string \<Rightarrow> string list \<Rightarrow> (MailDb, SyncError, nat) eff" where
  "delete_jmap_messages_by_external_ids E account_id external_ids =
     (if external_ids = [] then okE 0
      else bindE (ofE (id_value E account_id)) (\<lambda>a.
           bindE (delete_chunks a (chunks_of IDS_CHUNK external_ids) ([], 0)) (\<lambda>(folder_ids, deleted).
           bindE (update_all_counts E folder_ids) (\<lambda>_. okE deleted))))"

end
