(* ===== verification/Lyra_Imap.thy ===== *)
theory Lyra_Imap
  imports Lyra_Store
begin

text \<open>
  The IMAP client of \<^verbatim>\<open>imap.rs\<close>: the commands \<^verbatim>\<open>ImapClient\<close> sends, their timeouts, the chunked metadata
  fetch with its reconnects, and the guarded expunge.

  The connection below it (\<^verbatim>\<open>async_imap::Session\<close> over TLS) is a record of functions on a server state
  of any type: each command answers with a reply, an error text or nothing within the time limit.
  The set of UIDs a search answers is a list in no particular order, as iterating the library's hash set
  gives it. Extracting header fields from a fetched header block (\<^verbatim>\<open>parse_header_metadata\<close>) and MIME parts
  from a body (\<^verbatim>\<open>extract_mime_parts\<close>) are functions of the same record; logging is left out.
\<close>

section \<open>Data\<close>

datatype ImapSecurity = SecTls | SecStarttls

record ImapConfig =
  ic_host :: string
  ic_port :: nat
  ic_security :: ImapSecurity
  ic_username :: string
  ic_password :: string
  ic_xoauth2 :: bool

record ImapFolder =
  fo_name :: string
  fo_delimiter :: "string option"
  fo_attributes :: "string list"

text \<open>\<^verbatim>\<open>async_imap::types::Fetch\<close>; the flags are their \<^verbatim>\<open>Debug\<close> texts.\<close>

record Fetch =
  fe_uid :: "u32 option"
  fe_flags :: "string list"
  fe_size :: "u32 option"
  fe_header :: "string option"
  fe_body :: "string option"

record HeaderMetadata =
  hm_message_id :: "string option"
  hm_subject :: "string option"
  hm_from :: "string option"
  hm_to :: "string option"
  hm_cc :: "string option"
  hm_date :: "string option"
  hm_in_reply_to :: "string option"
  hm_references :: "string option"
  hm_mailer :: "string option"

definition default_metadata :: HeaderMetadata where
  "default_metadata = \<lparr>hm_message_id = None, hm_subject = None, hm_from = None, hm_to = None,
     hm_cc = None, hm_date = None, hm_in_reply_to = None, hm_references = None, hm_mailer = None\<rparr>"

record ImapSelectResult =
  sr_uid_validity :: u32
  sr_highest_modseq :: "u64 option"

text \<open>What a command answers: the time limit ran out, an error of the library, or a value.\<close>

datatype 'a Reply = Elapsed | Failed string | Answer 'a

record 's ImapServer =
  sv_connect :: "ImapConfig \<Rightarrow> 's \<Rightarrow> (ImapError + string list) option \<times> 's"
  sv_list :: "string \<Rightarrow> string \<Rightarrow> 's \<Rightarrow> ImapFolder list Reply \<times> 's"
  sv_select :: "string \<Rightarrow> 's \<Rightarrow> (u32 option \<times> u64 option) Reply \<times> 's"
  sv_uid_search :: "string \<Rightarrow> 's \<Rightarrow> u32 list Reply \<times> 's"
  sv_uid_fetch :: "string \<Rightarrow> string \<Rightarrow> 's \<Rightarrow> Fetch list Reply \<times> 's"
  sv_uid_store :: "string \<Rightarrow> string \<Rightarrow> 's \<Rightarrow> unit Reply \<times> 's"
  sv_uid_expunge :: "string \<Rightarrow> 's \<Rightarrow> unit Reply \<times> 's"
  sv_expunge :: "'s \<Rightarrow> unit Reply \<times> 's"
  sv_uid_mv :: "string \<Rightarrow> string \<Rightarrow> 's \<Rightarrow> unit Reply \<times> 's"
  sv_uid_copy :: "string \<Rightarrow> string \<Rightarrow> 's \<Rightarrow> unit Reply \<times> 's"
  sv_append :: "string \<Rightarrow> string \<Rightarrow> string \<Rightarrow> 's \<Rightarrow> unit Reply \<times> 's"
  sv_run_command :: "string \<Rightarrow> 's \<Rightarrow> unit Reply \<times> 's"
  sv_logout :: "'s \<Rightarrow> unit Reply \<times> 's"
  sv_parse_header_metadata :: "string \<Rightarrow> HeaderMetadata"
  sv_extract_mime_parts :: "string \<Rightarrow> string option \<times> string option \<times> nat"

record ImapClient =
  cl_capabilities :: "string list"
  cl_config :: ImapConfig
  cl_selected :: "string option"

record 's Conn =
  co_client :: ImapClient
  co_server :: 's

section \<open>Commands\<close>

text \<open>\<^verbatim>\<open>timed\<close> around one command with its \<^verbatim>\<open>map_err(ImapError::Imap)\<close>.\<close>

definition timed :: "('s \<Rightarrow> 'a Reply \<times> 's) \<Rightarrow> ('s Conn, ImapError, 'a) eff" where
  "timed cmd c =
     (case cmd (co_server c) of
        (Elapsed, s) \<Rightarrow> (Inl ImapTimeout, c\<lparr>co_server := s\<rparr>)
      | (Failed e, s) \<Rightarrow> (Inl (ImapImap e), c\<lparr>co_server := s\<rparr>)
      | (Answer x, s) \<Rightarrow> (Inr x, c\<lparr>co_server := s\<rparr>))"

definition METADATA_CHUNK :: nat where "METADATA_CHUNK = 8"

definition connect :: "'s ImapServer \<Rightarrow> ImapConfig \<Rightarrow> 's \<Rightarrow> (ImapError + 's Conn) \<times> 's" where
  "connect V config s =
     (case sv_connect V config s of
        (None, s') \<Rightarrow> (Inl ImapTimeout, s')
      | (Some (Inl e), s') \<Rightarrow> (Inl e, s')
      | (Some (Inr caps), s') \<Rightarrow>
          (Inr \<lparr>co_client = \<lparr>cl_capabilities = caps, cl_config = config, cl_selected = None\<rparr>,
                co_server = s'\<rparr>, s'))"

definition has_cap :: "string \<Rightarrow> ImapClient \<Rightarrow> bool" where
  "has_cap cap c \<longleftrightarrow> cap \<in> set (cl_capabilities c)"

definition supports_condstore :: "ImapClient \<Rightarrow> bool" where
  "supports_condstore c \<longleftrightarrow> has_cap ''CONDSTORE'' c \<or> has_cap ''QRESYNC'' c"

definition supports_move :: "ImapClient \<Rightarrow> bool" where
  "supports_move c \<longleftrightarrow> has_cap ''MOVE'' c"

definition supports_idle :: "ImapClient \<Rightarrow> bool" where
  "supports_idle c \<longleftrightarrow> has_cap ''IDLE'' c"

definition supports_metadata :: "ImapClient \<Rightarrow> bool" where
  "supports_metadata c \<longleftrightarrow> has_cap ''METADATA'' c"

definition list_folders :: "'s ImapServer \<Rightarrow> ('s Conn, ImapError, ImapFolder list) eff" where
  "list_folders V = timed (sv_list V [] ''*'')"

definition select :: "'s ImapServer \<Rightarrow> string \<Rightarrow> ('s Conn, ImapError, ImapSelectResult) eff" where
  "select V folder_name =
     bindE (timed (sv_select V folder_name)) (\<lambda>(uv, hm) c.
       (Inr \<lparr>sr_uid_validity = (case uv of Some v \<Rightarrow> v | None \<Rightarrow> 0), sr_highest_modseq = hm\<rparr>,
        c\<lparr>co_client := (co_client c)\<lparr>cl_selected := Some folder_name\<rparr>\<rparr>))"

definition reconnect :: "'s ImapServer \<Rightarrow> ('s Conn, ImapError, unit) eff" where
  "reconnect V c =
     (case connect V (cl_config (co_client c)) (co_server c) of
        (Inl e, s) \<Rightarrow> (Inl e, c\<lparr>co_server := s\<rparr>)
      | (Inr fresh, s) \<Rightarrow>
          (let c1 = c\<lparr>co_server := s,
                      co_client := (co_client c)\<lparr>cl_capabilities := cl_capabilities (co_client fresh)\<rparr>\<rparr>
           in case cl_selected (co_client c) of
                None \<Rightarrow> (Inr (), c1)
              | Some folder \<Rightarrow>
                  bindE (select V folder) (\<lambda>_. okE ())
                    (c1\<lparr>co_client := (co_client c1)\<lparr>cl_selected := None\<rparr>\<rparr>)))"

text \<open>The range of a search; \<^verbatim>\<open>uid + 1\<close> is \<^verbatim>\<open>u32\<close> arithmetic.\<close>

definition search_query :: "u32 option \<Rightarrow> string" where
  "search_query after_uid =
     (case after_uid of
        Some uid \<Rightarrow> show_nat (unat (uid + 1)) @ '':*''
      | None \<Rightarrow> ''1:*'')"

definition search_uids :: "'s ImapServer \<Rightarrow> u32 option \<Rightarrow> ('s Conn, ImapError, u32 list) eff" where
  "search_uids V after_uid = timed (sv_uid_search V (search_query after_uid))"

definition parenthesize_fetch_atts :: "string \<Rightarrow> string" where
  "parenthesize_fetch_atts atts =
     (let trimmed = trim atts
      in if starts_with trimmed ''('' \<and> ends_with trimmed '')'' then trimmed
         else ''('' @ trimmed @ '')'')"

text \<open>The loop of \<^verbatim>\<open>format_uid_set\<close> over the sorted UIDs: the open run and the parts so far.\<close>

definition run_text :: "u32 \<Rightarrow> u32 \<Rightarrow> string" where
  "run_text lo hi =
     (if lo = hi then show_nat (unat lo) else show_nat (unat lo) @ '':'' @ show_nat (unat hi))"

fun uid_runs :: "u32 \<Rightarrow> u32 \<Rightarrow> u32 list \<Rightarrow> string list" where
  "uid_runs start stop [] = [run_text start stop]"
| "uid_runs start stop (uid # uids) =
     (if uid = stop + 1 then uid_runs start uid uids
      else run_text start stop # uid_runs uid uid uids)"

text \<open>On no UIDs the source panics; both callers return before that.\<close>

definition format_uid_set :: "u32 list \<Rightarrow> string" where
  "format_uid_set uids =
     (case remdups_adj (sort uids) of
        [] \<Rightarrow> []
      | uid # rest \<Rightarrow> join_with '','' (uid_runs uid uid rest))"

definition parse_fetch_to_message :: "'s ImapServer \<Rightarrow> bool \<Rightarrow> Fetch \<Rightarrow> ImapMessage" where
  "parse_fetch_to_message V include_body fetch =
     (let meta = (case (if include_body then fe_body fetch else fe_header fetch) of
            Some raw \<Rightarrow> sv_parse_header_metadata V raw | None \<Rightarrow> default_metadata);
          (text, html, atts) = (case (if include_body then fe_body fetch else None) of
            Some raw \<Rightarrow> sv_extract_mime_parts V raw | None \<Rightarrow> (None, None, 0))
      in \<lparr>im_uid = (case fe_uid fetch of Some u \<Rightarrow> u | None \<Rightarrow> 0),
          im_message_id = hm_message_id meta, im_subject = hm_subject meta, im_from = hm_from meta,
          im_to = hm_to meta, im_cc = hm_cc meta, im_date = hm_date meta,
          im_in_reply_to = hm_in_reply_to meta, im_references = hm_references meta,
          im_mailer = hm_mailer meta, im_flags = fe_flags fetch, im_size = fe_size fetch,
          im_body_text = text, im_body_html = html, im_has_attachments = (0 < atts)\<rparr>)"

definition METADATA_ITEMS :: string where
  "METADATA_ITEMS = ''UID FLAGS RFC822.SIZE BODY.PEEK[HEADER.FIELDS (DATE FROM TO CC SUBJECT MESSAGE-ID IN-REPLY-TO REFERENCES USER-AGENT X-MAILER X-MIMEOLE)]''"

definition fetch_metadata_once :: "'s ImapServer \<Rightarrow> u32 list \<Rightarrow> ('s Conn, ImapError, ImapMessage list) eff" where
  "fetch_metadata_once V uids =
     (if uids = [] then okE []
      else bindE (timed (sv_uid_fetch V (format_uid_set uids) (parenthesize_fetch_atts METADATA_ITEMS)))
             (\<lambda>fetches. okE (map (parse_fetch_to_message V False) fetches)))"

definition MAX_RETRIES_PER_CHUNK :: nat where "MAX_RETRIES_PER_CHUNK = 3"

text \<open>The \<^verbatim>\<open>while\<close> loop of \<^verbatim>\<open>fetch_metadata\<close>: the chunks from \<^verbatim>\<open>idx\<close> on, the retries of the current one and
  the messages so far.\<close>

function fetch_chunks ::
  "'s ImapServer \<Rightarrow> u32 list list \<Rightarrow> nat \<Rightarrow> ImapMessage list \<Rightarrow> 's Conn \<Rightarrow>
     (ImapError + ImapMessage list) \<times> 's Conn" where
  "fetch_chunks V [] retries out c = (Inr out, c)"
| "fetch_chunks V (chunk # chunks) retries out c =
     (case fetch_metadata_once V chunk c of
        (Inr msgs, c1) \<Rightarrow> fetch_chunks V chunks 0 (out @ msgs) c1
      | (Inl err, c1) \<Rightarrow>
          if MAX_RETRIES_PER_CHUNK < retries + 1 then (Inl err, c1)
          else (case reconnect V c1 of
                  (Inl e, c2) \<Rightarrow> (Inl e, c2)
                | (Inr _, c2) \<Rightarrow> fetch_chunks V (chunk # chunks) (retries + 1) out c2))"
  by pat_completeness auto

termination
  by (relation "measures [\<lambda>(V, cs, r, out, c). length cs, \<lambda>(V, cs, r, out, c). 4 - r]")
     (auto simp: MAX_RETRIES_PER_CHUNK_def)

definition fetch_metadata :: "'s ImapServer \<Rightarrow> u32 list \<Rightarrow> ('s Conn, ImapError, ImapMessage list) eff" where
  "fetch_metadata V uids =
     (if length uids \<le> METADATA_CHUNK then fetch_metadata_once V uids
      else fetch_chunks V (chunks_of METADATA_CHUNK uids) 0 [])"

definition fetch_changed_since :: "'s ImapServer \<Rightarrow> u64 \<Rightarrow> ('s Conn, ImapError, ImapMessage list) eff" where
  "fetch_changed_since V modseq c =
     (if modseq = 0 \<or> \<not> supports_condstore (co_client c) then (Inr [], c)
      else bindE (timed (sv_uid_fetch V ''1:*'' (parenthesize_fetch_atts METADATA_ITEMS
             @ '' (CHANGEDSINCE '' @ show_nat (unat modseq) @ '')'')))
             (\<lambda>fetches. okE (map (parse_fetch_to_message V False) fetches)) c)"

definition fetch_bodies :: "'s ImapServer \<Rightarrow> u32 list \<Rightarrow> ('s Conn, ImapError, ImapMessage list) eff" where
  "fetch_bodies V uids =
     (if uids = [] then okE []
      else bindE (timed (sv_uid_fetch V (format_uid_set uids)
             (parenthesize_fetch_atts ''UID FLAGS RFC822.SIZE BODY.PEEK[]'')))
             (\<lambda>fetches. okE (map (parse_fetch_to_message V True) fetches)))"

definition uid_store_flags ::
  "'s ImapServer \<Rightarrow> u32 \<Rightarrow> string \<Rightarrow> string list \<Rightarrow> ('s Conn, ImapError, unit) eff" where
  "uid_store_flags V uid op flags =
     (if flags = [] then okE ()
      else timed (sv_uid_store V (show_nat (unat uid)) (op @ ''FLAGS ('' @ join_with '' '' flags @ '')'')))"

definition add_flags where "add_flags V uid flags = uid_store_flags V uid ''+'' flags"
definition remove_flags where "remove_flags V uid flags = uid_store_flags V uid ''-'' flags"

definition append_draft :: "'s ImapServer \<Rightarrow> string \<Rightarrow> string \<Rightarrow> ('s Conn, ImapError, unit) eff" where
  "append_draft V mb content =
     timed (sv_append V mb (''('' @ [CHR 0x5C] @ ''Draft '' @ [CHR 0x5C] @ ''Seen)'') content)"

definition expunge_uid_if_safe :: "'s ImapServer \<Rightarrow> u32 \<Rightarrow> ('s Conn, ImapError, unit) eff" where
  "expunge_uid_if_safe V uid c =
     (if has_cap ''UIDPLUS'' (co_client c)
      then timed (sv_uid_expunge V (show_nat (unat uid))) c
      else bindE (timed (sv_uid_search V ''DELETED'')) (\<lambda>flagged.
             if length flagged = 1 \<and> uid \<in> set flagged then timed (sv_expunge V) else okE ()) c)"

definition store_deleted :: "'s ImapServer \<Rightarrow> u32 \<Rightarrow> ('s Conn, ImapError, unit) eff" where
  "store_deleted V uid =
     timed (sv_uid_store V (show_nat (unat uid)) (''+FLAGS ('' @ [CHR 0x5C] @ ''Deleted)''))"

definition delete_uid :: "'s ImapServer \<Rightarrow> u32 \<Rightarrow> ('s Conn, ImapError, unit) eff" where
  "delete_uid V uid = bindE (store_deleted V uid) (\<lambda>_. expunge_uid_if_safe V uid)"

definition move_uid :: "'s ImapServer \<Rightarrow> u32 \<Rightarrow> string \<Rightarrow> ('s Conn, ImapError, unit) eff" where
  "move_uid V uid destination c =
     (if supports_move (co_client c) then timed (sv_uid_mv V (show_nat (unat uid)) destination) c
      else bindE (timed (sv_uid_copy V (show_nat (unat uid)) destination)) (\<lambda>_.
           bindE (store_deleted V uid) (\<lambda>_.
             expunge_uid_if_safe V uid)) c)"

definition copy_uid :: "'s ImapServer \<Rightarrow> u32 \<Rightarrow> string \<Rightarrow> ('s Conn, ImapError, unit) eff" where
  "copy_uid V uid destination = timed (sv_uid_copy V (show_nat (unat uid)) destination)"

definition logout :: "'s ImapServer \<Rightarrow> ('s Conn, ImapError, unit) eff" where
  "logout V = timed (sv_logout V)"

text \<open>\<^verbatim>\<open>imap_quoted\<close> and the best-effort \<^verbatim>\<open>SETMETADATA\<close>: an error answer is dropped, a timeout is not.\<close>

definition imap_quoted :: "string \<Rightarrow> string" where
  "imap_quoted s =
     [CHR 0x22] @ concat (map (\<lambda>c. if c = CHR 0x5C \<or> c = CHR 0x22 then [CHR 0x5C, c] else [c]) s) @ [CHR 0x22]"

definition set_private_specialuse ::
  "'s ImapServer \<Rightarrow> string \<Rightarrow> string option \<Rightarrow> ('s Conn, ImapError, unit) eff" where
  "set_private_specialuse V mailbox_wire special_use c =
     (if \<not> supports_metadata (co_client c) then (Inr (), c)
      else (let cmd = ''SETMETADATA '' @ imap_quoted mailbox_wire @ '' (/private/specialuse ''
                    @ (case special_use of Some flag \<Rightarrow> imap_quoted flag | None \<Rightarrow> ''NIL'') @ '')''
            in case timed (sv_run_command V cmd) c of
                 (Inl (ImapImap e), c') \<Rightarrow> (Inr (), c')
               | r \<Rightarrow> r))"

section \<open>UID sets\<close>

text \<open>The reading of a \<^verbatim>\<open>sequence-set\<close> of RFC 3501: numbers and ranges between commas; a range may end
  in \<open>*\<close>.\<close>

definition in_range :: "string \<Rightarrow> u32 \<Rightarrow> bool" where
  "in_range part u =
     (case split_on (CHR '':'') part of
        [n] \<Rightarrow> u = parse_u32_or0 n
      | [lo, hi] \<Rightarrow> parse_u32_or0 lo \<le> u \<and> (hi = ''*'' \<or> u \<le> parse_u32_or0 hi)
      | _ \<Rightarrow> False)"

definition in_uid_set :: "string \<Rightarrow> u32 \<Rightarrow> bool" where
  "in_uid_set s u = list_ex (\<lambda>part. in_range part u) (split_on (CHR '','') s)"

definition uid_set :: "string \<Rightarrow> u32 set" where
  "uid_set s = {u. in_uid_set s u}"

definition range_set :: "string \<Rightarrow> u32 set" where
  "range_set part = {u. in_range part u}"

lemma uid_set_ranges: "uid_set s = (\<Union>part \<in> set (split_on (CHR '','') s). range_set part)"
  by (auto simp: uid_set_def in_uid_set_def range_set_def list_ex_iff)

lemma show_nat_no_char: "\<not> is_ascii_digit c \<Longrightarrow> c \<notin> set (show_nat n)"
  using show_nat_digits by blast

lemma parse_show_u32 [simp]: "parse_u32_or0 (show_nat (unat (w :: u32))) = w"
proof -
  have "parse_u32 (show_nat (unat w)) = Inr (uint w)"
    using parse_u32_show_nat [of "unat w"] uint_lt2p [of w] by (simp add: u32_max_def)
  then show ?thesis by (simp add: parse_u32_or0_def)
qed

lemma range_set_run: "lo \<le> hi \<Longrightarrow> range_set (run_text lo hi) = {lo .. hi}"
proof -
  have star: "show_nat n \<noteq> ''*''" for n
    using show_nat_no_char [of "CHR ''*''" n] by (auto simp: is_ascii_digit_def)
  assume "lo \<le> hi"
  with star show "range_set (run_text lo hi) = {lo .. hi}"
    by (auto simp: range_set_def in_range_def run_text_def split_on_append_sep split_on_single show_nat_no_char
        is_ascii_digit_def)
qed

lemma run_text_no_comma: "CHR '','' \<notin> set (run_text lo hi)"
  by (auto simp: run_text_def is_ascii_digit_def dest: show_nat_digits)

lemma split_join:
  assumes "ps \<noteq> []" and "\<forall>p \<in> set ps. sep \<notin> set p"
  shows "split_on sep (join_with [sep] ps) = ps"
  using assms
proof (induction ps rule: induct_list012)
  case (3 p q ps)
  then show ?case by (simp add: split_on_append_sep)
qed (auto simp: split_on_single)

lemma uid_runs_not_Nil [simp]: "uid_runs lo hi us \<noteq> []"
  by (induction lo hi us rule: uid_runs.induct) auto

lemma uid_runs_no_comma: "p \<in> set (uid_runs lo hi us) \<Longrightarrow> CHR '','' \<notin> set p"
  by (induction lo hi us rule: uid_runs.induct) (auto simp: run_text_no_comma split: if_splits)

lemma range_extend:
  assumes "lo \<le> hi" and "hi < hi + 1"
  shows "{lo .. (hi + 1 :: u32)} = insert (hi + 1) {lo .. hi}"
proof -
  have "x \<le> hi + 1 \<longleftrightarrow> x \<le> hi \<or> x = hi + 1" for x :: u32
    using assms(2) inc_le [of hi x] by (cases "x \<le> hi") (auto simp: not_le)
  then show ?thesis using assms by auto
qed

lemma strict_sorted_remdups_adj: "sorted xs \<Longrightarrow> sorted_wrt (<) (remdups_adj (xs :: 'a :: linorder list))"
proof (induction xs rule: remdups_adj.induct)
  case (3 x y xs)
  then show ?case by (cases "x = y") (auto simp: less_le)
qed auto

lemma uid_runs_set:
  assumes "start \<le> stop" and "sorted_wrt (<) (stop # us)"
  shows "(\<Union>part \<in> set (uid_runs start stop us). range_set part) = {start .. stop} \<union> set us"
  using assms
proof (induction start stop us rule: uid_runs.induct)
  case (2 start stop uid uids)
  have less: "stop < uid" and rest: "sorted_wrt (<) (uid # uids)"
    using "2.prems" by auto
  show ?case
  proof (cases "uid = stop + 1")
    case True
    have "start \<le> uid" using less "2.prems"(1) by simp
    with 2 True rest have "(\<Union>part \<in> set (uid_runs start uid uids). range_set part) = {start .. uid} \<union> set uids"
      by blast
    with True less "2.prems"(1) range_extend [of start stop] show ?thesis by auto
  next
    case False
    with 2 rest have "(\<Union>part \<in> set (uid_runs uid uid uids). range_set part) = {uid .. uid} \<union> set uids"
      by auto
    with False "2.prems"(1) show ?thesis by (auto simp: range_set_run)
  qed
qed (simp add: range_set_run)

lemma format_uid_set_denotes:
  assumes "uids \<noteq> []"
  shows "uid_set (format_uid_set uids) = set uids"
proof -
  obtain u us where s: "remdups_adj (sort uids) = u # us"
    using assms by (cases "remdups_adj (sort uids)") (auto simp flip: set_empty)
  have "sorted_wrt (<) (u # us)"
    unfolding s [symmetric] by (rule strict_sorted_remdups_adj) simp
  then have "(\<Union>part \<in> set (uid_runs u u us). range_set part) = set (u # us)"
    by (subst uid_runs_set) auto
  also have "\<dots> = set uids"
    unfolding s [symmetric] by simp
  finally show ?thesis
    using split_join [of "uid_runs u u us" "CHR '',''"] uid_runs_no_comma
    by (simp add: uid_set_ranges format_uid_set_def s)
qed

text \<open>C35: the UID set of a FETCH names exactly the requested messages: read as RFC 3501 reads it, the
  text built from the UIDs, in any order and with repetitions, denotes their set, although runs of
  consecutive UIDs are written as ranges.\<close>

theorem format_uid_set_exact:
  assumes "uids \<noteq> []"
  shows "uid_set (format_uid_set uids) = set uids"
  using assms by (rule format_uid_set_denotes)

theorem format_uid_set_exact_witness:
  "uid_set ''3:5,9'' = set [5, 4, 9, 3, 4 :: u32]"
proof -
  have "format_uid_set [5, 4, 9, 3, 4] = ''3:5,9''"
    by code_simp
  with format_uid_set_exact [of "[5, 4, 9, 3, 4]"] show ?thesis by simp
qed

section \<open>Deleting one message\<close>

text \<open>A mailbox seen through its UIDs and their \<^verbatim>\<open>\\Deleted\<close> flag, and what RFC 3501 and RFC 4315 promise of
  the commands, whatever they reply: \<^verbatim>\<open>UID STORE +FLAGS (\\Deleted)\<close> may flag its message only, a search
  changes nothing and lists the flagged messages, \<^verbatim>\<open>EXPUNGE\<close> removes flagged messages only, \<^verbatim>\<open>UID EXPUNGE\<close>
  at most the named one.\<close>

definition rfc_deletion :: "'s ImapServer \<Rightarrow> ('s \<Rightarrow> (u32 \<rightharpoonup> bool)) \<Rightarrow> bool" where
  "rfc_deletion V mbox \<longleftrightarrow>
     (\<forall>u v s r s'. sv_uid_store V (show_nat (unat u)) (''+FLAGS ('' @ [CHR 0x5C] @ ''Deleted)'') s = (r, s')
        \<longrightarrow> v \<noteq> u \<longrightarrow> mbox s' v = mbox s v) \<and>
     (\<forall>s r s'. sv_uid_search V ''DELETED'' s = (r, s') \<longrightarrow> mbox s' = mbox s
        \<and> (\<forall>us. r = Answer us \<longrightarrow> set us = {u. mbox s u = Some True})) \<and>
     (\<forall>v s r s'. sv_expunge V s = (r, s') \<longrightarrow> mbox s v \<noteq> Some True \<longrightarrow> mbox s' v = mbox s v) \<and>
     (\<forall>u v s r s'. sv_uid_expunge V (show_nat (unat u)) s = (r, s') \<longrightarrow> v \<noteq> u \<longrightarrow> mbox s' v = mbox s v)"

lemma timed_cases:
  assumes "timed cmd c = (r, c')"
  obtains rep s' where "cmd (co_server c) = (rep, s')" "co_server c' = s'" "co_client c' = co_client c"
    "\<And>x. r = Inr x \<longleftrightarrow> rep = Answer x"
proof (cases "cmd (co_server c)")
  case (Pair rep s')
  with assms that [OF Pair] show ?thesis by (cases rep) (auto simp: timed_def)
qed

lemma rfc_search:
  assumes "rfc_deletion V mbox" and "timed (sv_uid_search V ''DELETED'') c = (r, c')"
  shows "mbox (co_server c') = mbox (co_server c) \<and>
    (\<forall>us. r = Inr us \<longrightarrow> set us = {u. mbox (co_server c) u = Some True})"
  using assms(2)
proof (rule timed_cases)
  fix rep s'
  assume *: "sv_uid_search V ''DELETED'' (co_server c) = (rep, s')" "co_server c' = s'"
    "\<And>x. r = Inr x \<longleftrightarrow> rep = Answer x"
  have "mbox s' = mbox (co_server c) \<and> (\<forall>us. rep = Answer us \<longrightarrow> set us = {u. mbox (co_server c) u = Some True})"
    using assms(1) *(1) unfolding rfc_deletion_def by blast
  then show ?thesis using * by simp
qed

lemma expunge_safe:
  assumes "rfc_deletion V mbox" and "expunge_uid_if_safe V uid c = (r, c')" and "v \<noteq> uid"
  shows "mbox (co_server c') v = mbox (co_server c) v"
proof (cases "has_cap ''UIDPLUS'' (co_client c)")
  case True
  with assms show ?thesis
    by (auto simp: expunge_uid_if_safe_def rfc_deletion_def elim!: timed_cases)
next
  case False
  with assms(2) have "bindE (timed (sv_uid_search V ''DELETED'')) (\<lambda>flagged.
      if length flagged = 1 \<and> uid \<in> set flagged then timed (sv_expunge V) else okE ()) c = (r, c')"
    by (simp add: expunge_uid_if_safe_def)
  then show ?thesis
  proof (cases rule: bindE_cases)
    case (1 e)
    with rfc_search [OF assms(1) 1(1)] show ?thesis by simp
  next
    case (2 us c1)
    from 2(1) assms(1) have s: "mbox (co_server c1) = mbox (co_server c)"
      "set us = {u. mbox (co_server c) u = Some True}"
      using rfc_search by blast+
    show ?thesis
    proof (cases "length us = 1 \<and> uid \<in> set us")
      case True
      then have "set us = {uid}" by (cases us) auto
      then have "mbox (co_server c1) v \<noteq> Some True" using s assms(3) by auto
      with 2(2) True assms(1) s show ?thesis
        by (auto simp: rfc_deletion_def elim!: timed_cases)
    next
      case False
      with 2(2) s show ?thesis by (simp split: if_splits)
    qed
  qed
qed

text \<open>C36: deleting one message never destroys another: whether or not the server has UIDPLUS, and
  whatever the commands reply, every other message of the mailbox is kept with its flags, also those
  another client flagged \<^verbatim>\<open>\\Deleted\<close>. The commands of the session are not interleaved with other sessions.\<close>

theorem delete_uid_spares_others:
  assumes "rfc_deletion V mbox" and "delete_uid V uid c = (r, c')" and "v \<noteq> uid"
  shows "mbox (co_server c') v = mbox (co_server c) v"
  using assms(2) unfolding delete_uid_def
proof (cases rule: bindE_cases)
  case (1 e)
  with assms(1,3) show ?thesis
    by (auto simp: store_deleted_def rfc_deletion_def elim!: timed_cases)
next
  case (2 x c1)
  have "mbox (co_server c1) v = mbox (co_server c) v"
    using 2(1) assms(1,3) by (auto simp: store_deleted_def rfc_deletion_def elim!: timed_cases)
  with expunge_safe [OF assms(1) 2(2) assms(3)] show ?thesis by simp
qed


text \<open>A small server: one mailbox, a list of UIDs with their \<^verbatim>\<open>\\Deleted\<close> flag in the order of their sequence
  numbers. A bare set in \<^verbatim>\<open>UID SEARCH\<close> is a set of sequence numbers (RFC 3501, 6.4.4), a range that
  ends in \<open>*\<close> always includes the last message.\<close>

type_synonym demo_state = "(u32 \<times> bool) list"

definition demo_fetch :: "u32 \<Rightarrow> Fetch" where
  "demo_fetch u = \<lparr>fe_uid = Some u, fe_flags = [''Seen''], fe_size = None, fe_header = None, fe_body = None\<rparr>"

definition demo_search :: "string \<Rightarrow> demo_state \<Rightarrow> u32 list" where
  "demo_search q s =
     (if q = ''DELETED'' then map fst (filter snd s)
      else let n = unat (parse_u32_or0 (hd (split_on (CHR '':'') q)))
           in map fst (drop (min (n - 1) (length s - 1)) s))"

definition demo_server :: "demo_state ImapServer" where
  "demo_server = \<lparr>
     sv_connect = (\<lambda>cfg s. (Some (Inr []), s)),
     sv_list = (\<lambda>r p s. (Answer [\<lparr>fo_name = ''INBOX'', fo_delimiter = None, fo_attributes = []\<rparr>], s)),
     sv_select = (\<lambda>f s. (Answer (Some 1, None), s)),
     sv_uid_search = (\<lambda>q s. (Answer (demo_search q s), s)),
     sv_uid_fetch = (\<lambda>us q s. (Answer (map demo_fetch (filter (in_uid_set us) (map fst s))), s)),
     sv_uid_store = (\<lambda>u q s. (Answer (), map (\<lambda>(v, b). (v, b \<or> v = parse_u32_or0 u)) s)),
     sv_uid_expunge = (\<lambda>u s. (Answer (), filter (\<lambda>(v, b). \<not> (b \<and> v = parse_u32_or0 u)) s)),
     sv_expunge = (\<lambda>s. (Answer (), filter (\<lambda>(v, b). \<not> b) s)),
     sv_uid_mv = (\<lambda>u d s. (Answer (), filter (\<lambda>(v, b). v \<noteq> parse_u32_or0 u) s)),
     sv_uid_copy = (\<lambda>u d s. (Answer (), s)),
     sv_append = (\<lambda>m f c s. (Answer (), s)),
     sv_run_command = (\<lambda>c s. (Answer (), s)),
     sv_logout = (\<lambda>s. (Answer (), s)),
     sv_parse_header_metadata = (\<lambda>h. default_metadata),
     sv_extract_mime_parts = (\<lambda>b. (None, None, 0))\<rparr>"

definition demo_conn :: "demo_state \<Rightarrow> demo_state Conn" where
  "demo_conn s = \<lparr>co_client = \<lparr>cl_capabilities = [],
     cl_config = \<lparr>ic_host = ''h'', ic_port = 993, ic_security = SecTls, ic_username = ''u'',
       ic_password = ''p'', ic_xoauth2 = False\<rparr>, cl_selected = Some ''INBOX''\<rparr>, co_server = s\<rparr>"

text \<open>The flags of a UID in that server: of duplicates, which a server never has, any counts.\<close>

definition demo_flags :: "demo_state \<Rightarrow> (u32 \<rightharpoonup> bool)" where
  "demo_flags s u = (if (u, True) \<in> set s then Some True else if (u, False) \<in> set s then Some False else None)"

lemma demo_server_rfc: "rfc_deletion demo_server demo_flags"
  by (auto simp: rfc_deletion_def demo_server_def demo_flags_def demo_search_def fun_eq_iff
      intro: rev_image_eqI split: if_splits)

theorem delete_uid_spares_others_witness:
  "demo_flags (co_server (snd (delete_uid demo_server 2 (demo_conn [(1, True), (2, False), (3, False)])))) 1 = Some True"
proof -
  let ?c = "demo_conn [(1, True), (2, False), (3, False)]"
  have "demo_flags (co_server (snd (delete_uid demo_server 2 ?c))) 1 = demo_flags (co_server ?c) 1"
    by (rule delete_uid_spares_others [OF demo_server_rfc, of 2 ?c "fst (delete_uid demo_server 2 ?c)"]) simp_all
  then show ?thesis by (simp add: demo_conn_def demo_flags_def)
qed

end
