(* ===== verification/Lyra_Netsec.thy ===== *)
theory Lyra_Netsec
  imports Lyra_Kernel "HOL-Library.Word"
begin

text \<open>
  The guards on outbound connections: \<^verbatim>\<open>netsec.rs\<close> (domain names, blocked addresses, security modes,
  server URLs, origins), the redirect policy of JMAP discovery (\<^verbatim>\<open>sync/jmap_client.rs\<close>) and the DAV
  client's redirects (\<^verbatim>\<open>dav.rs\<close>, \<^verbatim>\<open>dav_protocol.rs\<close>).

  The address parser and the address predicates of \<^verbatim>\<open>std::net\<close> are modelled as the standard library
  defines them. The URL parser is a library: it is an argument that gives the parts the code reads.
\<close>

unbundle bit_operations_syntax

type_synonym u8 = "8 word"
type_synonym u16 = "16 word"

section \<open>Addresses\<close>

datatype IpAddr = V4 u8 u8 u8 u8 | V6 u16 u16 u16 u16 u16 u16 u16 u16

text \<open>\<^verbatim>\<open>core::net::parser\<close>: a reader takes the rest of the text and gives a value and what is left.\<close>

definition hex_digit :: "char \<Rightarrow> nat option" where
  "hex_digit c =
     (if is_ascii_digit c then Some (byte c - 48)
      else if 97 \<le> byte c \<and> byte c \<le> 102 then Some (byte c - 87)
      else if 65 \<le> byte c \<and> byte c \<le> 70 then Some (byte c - 55)
      else None)"

fun read_digits :: "nat \<Rightarrow> nat \<Rightarrow> nat \<Rightarrow> string \<Rightarrow> (nat \<times> string) option" where
  "read_digits radix limit acc [] = Some (acc, [])"
| "read_digits radix limit acc (c # cs) =
     (case hex_digit c of
        None \<Rightarrow> Some (acc, c # cs)
      | Some d \<Rightarrow> if radix \<le> d then Some (acc, c # cs)
          else (case limit of 0 \<Rightarrow> None | Suc l \<Rightarrow> read_digits radix l (acc * radix + d) cs))"

text \<open>\<^verbatim>\<open>read_number\<close>: at least one digit, at most \<open>max_digits\<close>, a value in range, and for an octet no leading
  zero.\<close>

definition read_number :: "nat \<Rightarrow> nat \<Rightarrow> bool \<Rightarrow> nat \<Rightarrow> string \<Rightarrow> (nat \<times> string) option" where
  "read_number radix max_digits allow_zero_prefix maxv s =
     (case read_digits radix max_digits 0 s of
        None \<Rightarrow> None
      | Some (n, rest) \<Rightarrow>
          if length rest = length s then None
          else if \<not> allow_zero_prefix \<and> hd s = CHR ''0'' \<and> 1 < length s - length rest then None
          else if maxv < n then None
          else Some (n, rest))"

definition read_sep :: "char \<Rightarrow> bool \<Rightarrow> string \<Rightarrow> string option" where
  "read_sep sep needed s =
     (if \<not> needed then Some s else case s of c # cs \<Rightarrow> if c = sep then Some cs else None | [] \<Rightarrow> None)"

fun read_octets :: "nat \<Rightarrow> bool \<Rightarrow> string \<Rightarrow> (nat list \<times> string) option" where
  "read_octets 0 sep s = Some ([], s)"
| "read_octets (Suc n) sep s =
     (case read_sep (CHR ''.'') sep s of
        None \<Rightarrow> None
      | Some s1 \<Rightarrow>
          (case read_number 10 3 False 255 s1 of
             None \<Rightarrow> None
           | Some (v, s2) \<Rightarrow>
               (case read_octets n True s2 of None \<Rightarrow> None | Some (vs, s3) \<Rightarrow> Some (v # vs, s3))))"

text \<open>\<^verbatim>\<open>read_groups\<close>: up to \<open>n\<close> groups, the last two of which may be written as an IPv4 address; the flag says
  that they were.\<close>

fun read_groups :: "nat \<Rightarrow> bool \<Rightarrow> string \<Rightarrow> nat list \<times> bool \<times> string" where
  "read_groups 0 sep s = ([], False, s)"
| "read_groups (Suc n) sep s =
     (let v4 = (if n = 0 then None
                else case read_sep (CHR '':'') sep s of
                       None \<Rightarrow> None | Some s1 \<Rightarrow> read_octets 4 False s1)
      in case v4 of
           Some ([a, b, c, d], s2) \<Rightarrow> ([a * 256 + b, c * 256 + d], True, s2)
         | _ \<Rightarrow>
             (case read_sep (CHR '':'') sep s of
                None \<Rightarrow> ([], False, s)
              | Some s1 \<Rightarrow>
                  (case read_number 16 4 True 65535 s1 of
                     None \<Rightarrow> ([], False, s)
                   | Some (g, s2) \<Rightarrow>
                       (case read_groups n True s2 of (gs, v4, s3) \<Rightarrow> (g # gs, v4, s3)))))"

definition read_ipv6 :: "string \<Rightarrow> (nat list \<times> string) option" where
  "read_ipv6 s =
     (case read_groups 8 False s of
        (head, v4, s1) \<Rightarrow>
          if length head = 8 then Some (head, s1)
          else if v4 then None
          else (case s1 of
                  CHR '':'' # CHR '':'' # s2 \<Rightarrow>
                    (case read_groups (8 - (length head + 1)) False s2 of
                       (tail, _, s3) \<Rightarrow>
                         Some (head @ replicate (8 - length head - length tail) 0 @ tail, s3))
                | _ \<Rightarrow> None))"

definition parse_ip :: "string \<Rightarrow> IpAddr option" where
  "parse_ip s =
     (case read_octets 4 False s of
        Some ([a, b, c, d], rest) \<Rightarrow>
          if rest = [] then Some (V4 (of_nat a) (of_nat b) (of_nat c) (of_nat d)) else None
      | _ \<Rightarrow>
          (case read_ipv6 s of
             Some ([a, b, c, d, e, f, g, h], []) \<Rightarrow>
               Some (V6 (of_nat a) (of_nat b) (of_nat c) (of_nat d) (of_nat e) (of_nat f) (of_nat g) (of_nat h))
           | _ \<Rightarrow> None))"

definition blocked_v4 :: "u8 \<Rightarrow> u8 \<Rightarrow> u8 \<Rightarrow> u8 \<Rightarrow> bool" where
  "blocked_v4 a b c d \<longleftrightarrow>
     a = 127
     \<or> (a = 10 \<or> (a = 172 \<and> 16 \<le> b \<and> b \<le> 31) \<or> (a = 192 \<and> b = 168))
     \<or> (a = 169 \<and> b = 254)
     \<or> (a = 0 \<and> b = 0 \<and> c = 0 \<and> d = 0)
     \<or> a = 0
     \<or> (a = 255 \<and> b = 255 \<and> c = 255 \<and> d = 255)
     \<or> (a = 100 \<and> 64 \<le> b \<and> b \<le> 127)
     \<or> ((a = 192 \<and> b = 0 \<and> c = 2) \<or> (a = 198 \<and> b = 51 \<and> c = 100) \<or> (a = 203 \<and> b = 0 \<and> c = 113))
     \<or> (a = 198 \<and> b AND 0xFE = 18)
     \<or> 240 \<le> a
     \<or> (224 \<le> a \<and> a \<le> 239)"

definition hi_byte :: "u16 \<Rightarrow> u8" where "hi_byte s = ucast (drop_bit 8 s)"
definition lo_byte :: "u16 \<Rightarrow> u8" where "lo_byte s = ucast s"

fun is_blocked_addr :: "IpAddr \<Rightarrow> bool" where
  "is_blocked_addr (V4 a b c d) = blocked_v4 a b c d"
| "is_blocked_addr (V6 s0 s1 s2 s3 s4 s5 s6 s7) =
     (if s0 = 0 \<and> s1 = 0 \<and> s2 = 0 \<and> s3 = 0 \<and> s4 = 0 \<and> (s5 = 0xFFFF \<or> s5 = 0)
      then blocked_v4 (hi_byte s6) (lo_byte s6) (hi_byte s7) (lo_byte s7)
      else if s0 = 0x2002
      then blocked_v4 (hi_byte s1) (lo_byte s1) (hi_byte s2) (lo_byte s2)
      else if s0 = 0x2001 \<and> s1 = 0
      then blocked_v4 (NOT (hi_byte s6)) (NOT (lo_byte s6)) (NOT (hi_byte s7)) (NOT (lo_byte s7))
      else (s0 = 0 \<and> s1 = 0 \<and> s2 = 0 \<and> s3 = 0 \<and> s4 = 0 \<and> s5 = 0 \<and> s6 = 0 \<and> s7 = 1)
        \<or> (s0 = 0 \<and> s1 = 0 \<and> s2 = 0 \<and> s3 = 0 \<and> s4 = 0 \<and> s5 = 0 \<and> s6 = 0 \<and> s7 = 0)
        \<or> s0 AND 0xFF00 = 0xFF00
        \<or> s0 AND 0xFE00 = 0xFC00
        \<or> s0 AND 0xFFC0 = 0xFE80
        \<or> (s0 = 0x2001 \<and> s1 = 0x0DB8)
        \<or> (s0 = 0x0064 \<and> s1 = 0xFF9B \<and> s2 = 1))"

definition filter_public_addrs :: "IpAddr list \<Rightarrow> IpAddr list" where
  "filter_public_addrs addrs = filter (\<lambda>a. \<not> is_blocked_addr a) addrs"

section \<open>Names and modes\<close>

text \<open>The checks of one label, in the order of the code: the text of the first that fails.\<close>

definition label_error :: "string \<Rightarrow> string \<Rightarrow> string option" where
  "label_error domain label =
     (let q = CHR 0x27 # domain @ [CHR 0x27]
      in if label = [] then Some (''domain '' @ q @ '' contains an empty label'')
         else if 63 < length label then Some (''domain '' @ q @ '' has a label over 63 bytes'')
         else if hd label = CHR ''-'' \<or> last label = CHR ''-''
           then Some (''domain '' @ q @ '' has a label starting/ending with '' @ [CHR 0x27] @ ''-'' @ [CHR 0x27])
         else if \<not> list_all (\<lambda>b. is_ascii_alphanumeric b \<or> b = CHR ''-'') label
           then Some (''domain '' @ q @ '' contains non-DNS characters'')
         else None)"

fun first_some :: "('a \<Rightarrow> 'b option) \<Rightarrow> 'a list \<Rightarrow> 'b option" where
  "first_some f [] = None"
| "first_some f (x # xs) = (case f x of Some y \<Rightarrow> Some y | None \<Rightarrow> first_some f xs)"

definition validate_domain :: "string \<Rightarrow> string + string" where
  "validate_domain domain =
     (let d = to_ascii_lowercase (trim_end_char (CHR ''.'') (trim domain));
          q = CHR 0x27 # domain @ [CHR 0x27]
      in if d = [] then Inl ''domain is empty''
         else if 253 < length d then Inl (''domain '' @ q @ '' is too long'')
         else if parse_ip d \<noteq> None \<or> CHR '':'' \<in> set d \<or> CHR ''['' \<in> set d \<or> CHR '']'' \<in> set d
           then Inl (''domain '' @ q @ '' is an IP literal, not a DNS name'')
         else (case first_some (label_error domain) (split_on (CHR ''.'') d) of
                 Some e \<Rightarrow> Inl e
               | None \<Rightarrow> Inr d))"

definition normalize_security_mode :: "string \<Rightarrow> string + string" where
  "normalize_security_mode value =
     (let other = to_ascii_lowercase value
      in if other = ''tls'' then Inr ''tls''
         else if other = ''starttls'' then Inr ''starttls''
         else Inl (''unsupported security mode '' @ [CHR 0x27] @ other @ [CHR 0x27] @ '': only '' @ [CHR 0x27]
           @ ''tls'' @ [CHR 0x27] @ '' and '' @ [CHR 0x27] @ ''starttls'' @ [CHR 0x27]
           @ '' are supported (insecure plaintext mode was removed); update the account to fix this''))"

section \<open>URLs\<close>

record Url =
  url_scheme :: string
  url_host :: "string option"
  url_port :: "nat option"

text \<open>\<^verbatim>\<open>reqwest::Url\<close>: parsing (an error is its text), and joining a reference to a base.\<close>

record UrlEnv =
  ue_parse :: "string \<Rightarrow> string + Url"
  ue_join :: "string \<Rightarrow> string \<Rightarrow> string + string"

definition quoted :: "string \<Rightarrow> string" where "quoted s = CHR 0x27 # s @ [CHR 0x27]"

definition host_is_local :: "string \<Rightarrow> bool" where
  "host_is_local host =
     (let bare = rev (dropWhile (\<lambda>c. c = CHR ''['' \<or> c = CHR '']'')
                   (rev (dropWhile (\<lambda>c. c = CHR ''['' \<or> c = CHR '']'') host)))
      in to_ascii_lowercase bare = ''localhost'' \<or> ends_with (to_ascii_lowercase bare) ''.localhost''
         \<or> (case parse_ip bare of Some ip \<Rightarrow> is_blocked_addr ip | None \<Rightarrow> False))"

definition validate_server_url :: "UrlEnv \<Rightarrow> string \<Rightarrow> string + unit" where
  "validate_server_url U url =
     (case ue_parse U url of
        Inl e \<Rightarrow> Inl (''invalid server URL '' @ quoted url @ '': '' @ e)
      | Inr parsed \<Rightarrow>
          if url_scheme parsed \<noteq> ''http'' \<and> url_scheme parsed \<noteq> ''https''
          then Inl (''server URL '' @ quoted url @ '' uses unsupported scheme '' @ quoted (url_scheme parsed)
                    @ '': use https://'')
          else (case url_host parsed of
                  None \<Rightarrow> Inl (''server URL '' @ quoted url @ '' has no host'')
                | Some host \<Rightarrow>
                    if url_scheme parsed = ''http'' \<and> \<not> host_is_local host
                    then Inl (''server URL '' @ quoted url
                              @ '' uses insecure http:// for a public host: use https://'')
                    else Inr ()))"

definition origin_of :: "UrlEnv \<Rightarrow> string \<Rightarrow> string + string" where
  "origin_of U url =
     (case ue_parse U url of
        Inl e \<Rightarrow> Inl (''invalid URL '' @ quoted url @ '': '' @ e)
      | Inr parsed \<Rightarrow>
          if url_scheme parsed \<noteq> ''http'' \<and> url_scheme parsed \<noteq> ''https''
          then Inl (''URL '' @ quoted url @ '' uses unsupported scheme '' @ quoted (url_scheme parsed))
          else (case url_host parsed of
                  None \<Rightarrow> Inl (''URL '' @ quoted url @ '' has no host'')
                | Some host \<Rightarrow>
                    (case url_port parsed of
                       None \<Rightarrow> Inl (''URL '' @ quoted url @ '' has no usable port'')
                     | Some port \<Rightarrow> Inr (url_scheme parsed @ ''://'' @ host @ '':'' @ show_nat port))))"

section \<open>Redirects of JMAP discovery\<close>

text \<open>The closure \<^verbatim>\<open>host\<close> of \<^verbatim>\<open>same_registrable_domain\<close>.\<close>

definition registrable_domain :: "UrlEnv \<Rightarrow> string \<Rightarrow> string" where
  "registrable_domain U origin =
     (let host = (case ue_parse U origin of
                    Inr u \<Rightarrow> (case url_host u of Some h \<Rightarrow> h | None \<Rightarrow> origin)
                  | Inl _ \<Rightarrow> origin);
          labels = split_on (CHR ''.'') (trim_end_char (CHR ''.'') host)
      in if 2 \<le> length labels
         then to_ascii_lowercase (join_with ''.'' (drop (length labels - 2) labels))
         else to_ascii_lowercase host)"

definition same_registrable_domain :: "UrlEnv \<Rightarrow> string \<Rightarrow> string \<Rightarrow> bool" where
  "same_registrable_domain U a b \<longleftrightarrow> registrable_domain U a = registrable_domain U b"

definition resolve_discovery_redirect :: "UrlEnv \<Rightarrow> string \<Rightarrow> string \<Rightarrow> string \<Rightarrow> JmapError + string" where
  "resolve_discovery_redirect U current_url location origin =
     (case ue_parse U current_url of
        Inl e \<Rightarrow> Inl (JmapSessionDiscovery (''invalid current URL '' @ quoted current_url @ '': '' @ e))
      | Inr _ \<Rightarrow>
          (case ue_join U current_url location of
             Inl e \<Rightarrow> Inl (JmapSessionDiscovery (''invalid redirect target '' @ quoted location @ '': '' @ e))
           | Inr resolved \<Rightarrow>
               (case origin_of U resolved of
                  Inl e \<Rightarrow> Inl (JmapInvalidServerUrl e)
                | Inr target_origin \<Rightarrow>
                    if target_origin \<noteq> origin
                       \<and> \<not> (starts_with target_origin ''https://'' \<and> same_registrable_domain U target_origin origin)
                    then Inl (JmapCrossOrigin resolved)
                    else Inr resolved)))"

fun validate_session_urls :: "UrlEnv \<Rightarrow> string list \<Rightarrow> JmapError + unit" where
  "validate_session_urls U [] = Inr ()"
| "validate_session_urls U (url # urls) =
     (if url = [] then validate_session_urls U urls
      else case validate_server_url U url of
             Inl e \<Rightarrow> Inl (JmapInvalidServerUrl e)
           | Inr _ \<Rightarrow>
               (case origin_of U url of
                  Inl e \<Rightarrow> Inl (JmapInvalidServerUrl e)
                | Inr _ \<Rightarrow> validate_session_urls U urls))"

section \<open>Redirects of the DAV client\<close>

record DavClient =
  dc_username :: string
  dc_password :: string
  dc_origin :: string

text \<open>A request as it leaves the client: its URL and, if it carries the credentials, the user name and the
  password its \<^verbatim>\<open>Authorization\<close> header holds.\<close>

record HttpRequest =
  rq_method :: string
  rq_url :: string
  rq_auth :: "(string \<times> string) option"

datatype HttpResponse = Redirect "string option" | Success string | OtherStatus string

datatype DavError = DavHttp string | DavProtocol string

definition dav_new :: "UrlEnv \<Rightarrow> string \<Rightarrow> string \<Rightarrow> string \<Rightarrow> DavError + DavClient" where
  "dav_new U username password base_url =
     (case validate_server_url U base_url of
        Inl e \<Rightarrow> Inl (DavProtocol e)
      | Inr _ \<Rightarrow>
          (case origin_of U base_url of
             Inl e \<Rightarrow> Inl (DavProtocol e)
           | Inr origin \<Rightarrow> Inr \<lparr>dc_username = username, dc_password = password, dc_origin = origin\<rparr>))"

definition resolve_href :: "UrlEnv \<Rightarrow> string \<Rightarrow> string \<Rightarrow> string" where
  "resolve_href U base href =
     (if starts_with href ''http://'' \<or> starts_with href ''https://'' then href
      else case ue_parse U base of
             Inl _ \<Rightarrow> href
           | Inr _ \<Rightarrow> (case ue_join U base href of Inl _ \<Rightarrow> href | Inr joined \<Rightarrow> joined))"

text \<open>The loop of \<^verbatim>\<open>propfind_text\<close> with its three rounds; the server answers by \<open>http\<close>, and the requests made
  are collected.\<close>

fun propfind_rounds ::
  "UrlEnv \<Rightarrow> (HttpRequest \<Rightarrow> string + HttpResponse) \<Rightarrow> DavClient \<Rightarrow> nat \<Rightarrow> string \<Rightarrow> string \<Rightarrow>
     (DavError + string) \<times> HttpRequest list" where
  "propfind_rounds U http c 0 url current =
     (Inl (DavProtocol (''PROPFIND '' @ url @ '': too many redirects'')), [])"
| "propfind_rounds U http c (Suc n) url current =
     (let req = \<lparr>rq_method = ''PROPFIND'', rq_url = current, rq_auth = Some (dc_username c, dc_password c)\<rparr>
      in case http req of
           Inl e \<Rightarrow> (Inl (DavHttp e), [req])
         | Inr (Redirect None) \<Rightarrow>
             (Inl (DavProtocol (''PROPFIND '' @ current @ '': redirect without Location'')), [req])
         | Inr (Redirect (Some loc)) \<Rightarrow>
             (case propfind_rounds U http c n url (resolve_href U (dc_origin c) loc) of
                (r, reqs) \<Rightarrow> (r, req # reqs))
         | Inr (OtherStatus st) \<Rightarrow>
             (Inl (DavProtocol (''PROPFIND '' @ current @ '': '' @ st)), [req])
         | Inr (Success body) \<Rightarrow> (Inr body, [req]))"

definition propfind_text where
  "propfind_text U http c url = propfind_rounds U http c 3 url url"

section \<open>The address filter\<close>

text \<open>The address as one number, and the networks RFC 6890 and its companions reserve, each by base and
  prefix length.\<close>

definition v4_number :: "nat \<Rightarrow> nat \<Rightarrow> nat \<Rightarrow> nat \<Rightarrow> nat" where
  "v4_number a b c d = a * 2 ^ 24 + b * 2 ^ 16 + c * 2 ^ 8 + d"

definition reserved_networks :: "(nat \<times> nat) list" where
  "reserved_networks =
     [(v4_number 0 0 0 0, 8), (v4_number 10 0 0 0, 8), (v4_number 100 64 0 0, 10), (v4_number 127 0 0 0, 8),
      (v4_number 169 254 0 0, 16), (v4_number 172 16 0 0, 12), (v4_number 192 0 2 0, 24),
      (v4_number 192 168 0 0, 16), (v4_number 198 18 0 0, 15), (v4_number 198 51 100 0, 24),
      (v4_number 203 0 113 0, 24), (v4_number 224 0 0 0, 4), (v4_number 240 0 0 0, 4)]"

definition in_network :: "nat \<Rightarrow> nat \<times> nat \<Rightarrow> bool" where
  "in_network n net \<longleftrightarrow> fst net \<le> n \<and> n < fst net + 2 ^ (32 - snd net)"

lemma octet_lt: "unat (a :: u8) < 256"
proof -
  have "unat a < 2 ^ LENGTH(8)" by (rule unsigned_less)
  then show ?thesis by simp
qed

lemma and_even_mask: "b AND 0xFE = (18 :: u8) \<longleftrightarrow> unat b = 18 \<or> unat b = 19"
proof -
  have lt: "unat b < 256" by (rule octet_lt)
  have "unat (b AND 0xFE) = unat b AND 254"
    by (simp add: unsigned_and_eq)
  also have "\<dots> = 2 * ((unat b div 2) AND 127)"
    by (subst and_rec) simp
  also have "(unat b div 2) AND 127 = take_bit 7 (unat b div 2)"
    by (simp add: take_bit_eq_mask mask_numeral)
  also have "\<dots> = unat b div 2"
    using lt by (simp add: take_bit_nat_eq_self_iff)
  finally have u: "unat (b AND 0xFE) = 2 * (unat b div 2)" .
  have "b AND 0xFE = 18 \<longleftrightarrow> unat (b AND 0xFE) = 18"
    by (simp add: word_unat_eq_iff)
  then show ?thesis using u by auto
qed


lemma octet_eq: "a = (n :: u8) \<longleftrightarrow> unat a = unat n"
  by (simp add: word_unat_eq_iff)

lemma octet_le: "a \<le> (n :: u8) \<longleftrightarrow> unat a \<le> unat n"
  by (simp add: word_le_nat_alt)

text \<open>The test in numbers, octet by octet.\<close>

definition blocked_octets :: "nat \<Rightarrow> nat \<Rightarrow> nat \<Rightarrow> nat \<Rightarrow> bool" where
  "blocked_octets a b c d \<longleftrightarrow> a = 127 \<or> a = 10 \<or> (a = 172 \<and> 16 \<le> b \<and> b \<le> 31) \<or> (a = 192 \<and> b = 168)
     \<or> (a = 169 \<and> b = 254) \<or> a = 0 \<or> (a = 100 \<and> 64 \<le> b \<and> b \<le> 127)
     \<or> (a = 192 \<and> b = 0 \<and> c = 2) \<or> (a = 198 \<and> b = 51 \<and> c = 100) \<or> (a = 203 \<and> b = 0 \<and> c = 113)
     \<or> (a = 198 \<and> (b = 18 \<or> b = 19)) \<or> 224 \<le> a"

lemma blocked_v4_octets: "blocked_v4 a b c d \<longleftrightarrow> blocked_octets (unat a) (unat b) (unat c) (unat d)"
proof -
  have "A = 127 \<or> (A = 10 \<or> A = 172 \<and> 16 \<le> B \<and> B \<le> 31 \<or> A = 192 \<and> B = 168) \<or> A = 169 \<and> B = 254
      \<or> A = 0 \<and> B = 0 \<and> C = 0 \<and> D = 0 \<or> A = 0 \<or> A = 255 \<and> B = 255 \<and> C = 255 \<and> D = 255
      \<or> A = 100 \<and> 64 \<le> B \<and> B \<le> 127
      \<or> (A = 192 \<and> B = 0 \<and> C = 2 \<or> A = 198 \<and> B = 51 \<and> C = 100 \<or> A = 203 \<and> B = 0 \<and> C = 113)
      \<or> A = 198 \<and> (B = 18 \<or> B = 19) \<or> 240 \<le> A \<or> 224 \<le> A \<and> A \<le> 239
    \<longleftrightarrow> blocked_octets A B C D" for A B C D :: nat
  proof -
    have h: "240 \<le> A \<or> 224 \<le> A \<and> A \<le> 239 \<longleftrightarrow> 224 \<le> A" by auto
    show ?thesis
      unfolding blocked_octets_def h by (rule iffI; elim disjE conjE; simp)
  qed
  then show ?thesis
    unfolding blocked_v4_def and_even_mask unfolding octet_eq octet_le by simp
qed

lemma network_4: "a < 256 \<Longrightarrow> b < 256 \<Longrightarrow> c < 256 \<Longrightarrow> d < 256 \<Longrightarrow>
    in_network (v4_number a b c d) (v4_number x 0 0 0, 4) \<longleftrightarrow> x \<le> a \<and> a < x + 16"
  by (auto simp: in_network_def v4_number_def)

lemma network_8: "a < 256 \<Longrightarrow> b < 256 \<Longrightarrow> c < 256 \<Longrightarrow> d < 256 \<Longrightarrow>
    in_network (v4_number a b c d) (v4_number x 0 0 0, 8) \<longleftrightarrow> a = x"
  by (auto simp: in_network_def v4_number_def)

lemma first_octet:
  fixes a b c d x lo hi :: nat
  assumes "b < 256" "c < 256" "d < 256" "hi \<le> 16777216"
    and "x * 16777216 + lo \<le> a * 16777216 + b * 65536 + c * 256 + d"
    and "a * 16777216 + b * 65536 + c * 256 + d < x * 16777216 + hi"
  shows "a = x"
proof (rule antisym)
  show "a \<le> x" using assms by linarith
  show "x \<le> a" using assms by linarith
qed

lemma network_second:
  assumes "a < 256" "b < 256" "c < 256" "d < 256" "y + w \<le> 256" "2 ^ (32 - k) = w * 65536"
  shows "in_network (v4_number a b c d) (v4_number x y 0 0, k) \<longleftrightarrow> a = x \<and> y \<le> b \<and> b < y + w"
proof
  assume net: "in_network (v4_number a b c d) (v4_number x y 0 0, k)"
  then have "a = x"
    using first_octet [of b c d "(y + w) * 65536" x "y * 65536" a] assms
    by (simp add: in_network_def v4_number_def algebra_simps)
  with net assms show "a = x \<and> y \<le> b \<and> b < y + w"
    by (simp add: in_network_def v4_number_def)
next
  assume "a = x \<and> y \<le> b \<and> b < y + w"
  with assms show "in_network (v4_number a b c d) (v4_number x y 0 0, k)"
    by (simp add: in_network_def v4_number_def)
qed

lemma network_24:
  assumes "a < 256" "b < 256" "c < 256" "d < 256" "y < 256" "z < 256"
  shows "in_network (v4_number a b c d) (v4_number x y z 0, 24) \<longleftrightarrow> a = x \<and> b = y \<and> c = z"
proof
  assume net: "in_network (v4_number a b c d) (v4_number x y z 0, 24)"
  then have a: "a = x"
    using first_octet [of b c d "y * 65536 + z * 256 + 256" x "y * 65536 + z * 256" a] assms
    by (simp add: in_network_def v4_number_def)
  with net have "y * 65536 + z * 256 \<le> b * 65536 + c * 256 + d" "b * 65536 + c * 256 + d < y * 65536 + z * 256 + 256"
    by (simp_all add: in_network_def v4_number_def)
  moreover from this assms have "b = y"
    by (intro antisym) linarith+
  ultimately show "a = x \<and> b = y \<and> c = z"
    using a assms by simp
next
  assume "a = x \<and> b = y \<and> c = z"
  with assms show "in_network (v4_number a b c d) (v4_number x y z 0, 24)"
    by (simp add: in_network_def v4_number_def)
qed

lemma reserved_octets:
  assumes "a < 256" "b < 256" "c < 256" "d < 256"
  shows "list_ex (in_network (v4_number a b c d)) reserved_networks \<longleftrightarrow> blocked_octets a b c d"
proof -
  let ?n = "v4_number a b c d"
  have 1: "in_network ?n (v4_number 100 64 0 0, 10) \<longleftrightarrow> a = 100 \<and> 64 \<le> b \<and> b < 128"
    using network_second [OF assms, of 64 64 10 100] by simp
  have 2: "in_network ?n (v4_number 169 254 0 0, 16) \<longleftrightarrow> a = 169 \<and> 254 \<le> b \<and> b < 255"
    using network_second [OF assms, of 254 1 16 169] by simp
  have 3: "in_network ?n (v4_number 172 16 0 0, 12) \<longleftrightarrow> a = 172 \<and> 16 \<le> b \<and> b < 32"
    using network_second [OF assms, of 16 16 12 172] by simp
  have 4: "in_network ?n (v4_number 192 168 0 0, 16) \<longleftrightarrow> a = 192 \<and> 168 \<le> b \<and> b < 169"
    using network_second [OF assms, of 168 1 16 192] by simp
  have 5: "in_network ?n (v4_number 198 18 0 0, 15) \<longleftrightarrow> a = 198 \<and> 18 \<le> b \<and> b < 20"
    using network_second [OF assms, of 18 2 15 198] by simp
  have 6: "in_network ?n (v4_number 192 0 2 0, 24) \<longleftrightarrow> a = 192 \<and> b = 0 \<and> c = 2"
    "in_network ?n (v4_number 198 51 100 0, 24) \<longleftrightarrow> a = 198 \<and> b = 51 \<and> c = 100"
    "in_network ?n (v4_number 203 0 113 0, 24) \<longleftrightarrow> a = 203 \<and> b = 0 \<and> c = 113"
    using network_24 [OF assms] by simp_all
  have 7: "240 \<le> a \<and> a < 240 + 16 \<longleftrightarrow> 240 \<le> a" using assms(1) by auto
  show ?thesis
    unfolding reserved_networks_def blocked_octets_def list_ex_iff set_simps bex_simps 1 2 3 4 5 6
      network_4 [OF assms] network_8 [OF assms] 7
    by (rule iffI; elim disjE conjE; simp; linarith?)
qed

text \<open>The IPv6 addresses that stand for an IPv4 address: mapped, 6to4, Teredo.\<close>

definition seg :: "u8 \<Rightarrow> u8 \<Rightarrow> u16" where
  "seg a b = push_bit 8 (ucast a) OR ucast b"

definition embeddings :: "u8 \<Rightarrow> u8 \<Rightarrow> u8 \<Rightarrow> u8 \<Rightarrow> IpAddr set" where
  "embeddings a b c d =
     {V4 a b c d, V6 0 0 0 0 0 0xFFFF (seg a b) (seg c d)}
     \<union> {V6 0x2002 (seg a b) (seg c d) s3 s4 s5 s6 s7 |s3 s4 s5 s6 s7. True}
     \<union> {V6 0x2001 0 s2 s3 s4 s5 (seg (NOT a) (NOT b)) (seg (NOT c) (NOT d)) |s2 s3 s4 s5. True}"

lemma seg_bytes: "hi_byte (seg a b) = a" "lo_byte (seg a b) = b"
proof -
  show "hi_byte (seg a b) = a"
    unfolding hi_byte_def seg_def by (rule bit_word_eqI) (auto simp: bit_simps dest: bit_imp_le_length)
  show "lo_byte (seg a b) = b"
    unfolding lo_byte_def seg_def by (rule bit_word_eqI) (auto simp: bit_simps)
qed

lemma embedded_blocked: "ip \<in> embeddings a b c d \<Longrightarrow> is_blocked_addr ip \<longleftrightarrow> blocked_v4 a b c d"
  by (auto simp: embeddings_def seg_bytes)

text \<open>C37: the address filter is the table of reserved networks: an IPv4 address, written as such or
  embedded in an IPv6 address (mapped, 6to4 or Teredo), passes the filter for outbound connections
  exactly when its number lies in none of the reserved, private and local networks.\<close>

theorem public_filter_exact:
  assumes "ip \<in> embeddings a b c d"
  shows "ip \<in> set (filter_public_addrs addrs) \<longleftrightarrow>
    ip \<in> set addrs \<and> \<not> list_ex (in_network (v4_number (unat a) (unat b) (unat c) (unat d))) reserved_networks"
  using embedded_blocked [OF assms] reserved_octets [OF octet_lt octet_lt octet_lt octet_lt, of a b c d]
  by (simp add: filter_public_addrs_def blocked_v4_octets)

theorem public_filter_exact_witness:
  "V6 0x2002 0x0A00 0x0001 0 0 0 0 1 \<notin> set (filter_public_addrs [V6 0x2002 0x0A00 0x0001 0 0 0 0 1, V4 8 8 8 8])"
proof -
  have e: "V6 0x2002 0x0A00 0x0001 0 0 0 0 1 \<in> embeddings 10 0 0 1"
    by (simp add: embeddings_def seg_def)
  have "list_ex (in_network (v4_number (unat (10 :: u8)) (unat (0 :: u8)) (unat (0 :: u8)) (unat (1 :: u8)))) reserved_networks"
    by (simp add: reserved_networks_def in_network_def v4_number_def)
  with public_filter_exact [OF e, of "[V6 0x2002 0x0A00 0x0001 0 0 0 0 1, V4 8 8 8 8]"] show ?thesis by simp
qed

section \<open>Domain names\<close>

text \<open>A DNS name in normal form.\<close>

definition dns_label :: "string \<Rightarrow> bool" where
  "dns_label l \<longleftrightarrow> l \<noteq> [] \<and> length l \<le> 63 \<and> hd l \<noteq> CHR ''-'' \<and> last l \<noteq> CHR ''-''
     \<and> list_all (\<lambda>c. is_ascii_lowercase c \<or> is_ascii_digit c \<or> c = CHR ''-'') l"

definition dns_name :: "string \<Rightarrow> bool" where
  "dns_name d \<longleftrightarrow> d \<noteq> [] \<and> length d \<le> 253 \<and> parse_ip d = None \<and> list_all dns_label (split_on (CHR ''.'') d)"

lemma first_some_None: "first_some f xs = None \<longleftrightarrow> (\<forall>x \<in> set xs. f x = None)"
  by (induction xs) (auto split: option.splits)

lemma split_on_set: "x \<in> set s \<Longrightarrow> x = sep \<or> (\<exists>p \<in> set (split_on sep s). x \<in> set p)"
proof (induction s)
  case (Cons c s)
  then show ?case by (cases "split_on sep s") auto
qed simp

lemma label_ok:
  assumes "label_error domain l = None" and "\<forall>c \<in> set l. \<not> is_ascii_uppercase c"
  shows "dns_label l"
  using assms
  by (auto simp: label_error_def dns_label_def list_all_iff is_ascii_alphanumeric_def is_ascii_alphabetic_def Let_def
      split: if_splits)

lemma dns_label_error: "dns_label l \<Longrightarrow> label_error domain l = None"
  by (auto simp: label_error_def dns_label_def list_all_iff is_ascii_alphanumeric_def is_ascii_alphabetic_def)

lemma split_on_chars: "p \<in> set (split_on sep s) \<Longrightarrow> set p \<subseteq> set s"
proof (induction s arbitrary: p)
  case (Cons c s)
  then show ?case by (cases "split_on sep s") (fastforce split: if_splits)+
qed simp

lemma dns_name_chars:
  assumes "dns_name d" and "c \<in> set d"
  shows "is_ascii_lowercase c \<or> is_ascii_digit c \<or> c = CHR ''-'' \<or> c = CHR ''.''"
  using assms split_on_set [of c d "CHR ''.''"]
  by (auto simp: dns_name_def dns_label_def list_all_iff)

lemma dns_name_ends:
  assumes "dns_name d"
  shows "last d \<noteq> CHR ''.''"
proof
  assume l: "last d = CHR ''.''"
  have "d \<noteq> []" using assms by (simp add: dns_name_def)
  then obtain s where "d = s @ [CHR ''.'']" using l by (metis append_butlast_last_id)
  then have "last (split_on (CHR ''.'') d) = []"
    using split_on_last [of "CHR ''.''" "[]" s] by simp
  then have "[] \<in> set (split_on (CHR ''.'') d)"
    using last_in_set [OF split_on_not_Nil, of "CHR ''.''" d] by simp
  with assms show False
    by (auto simp: dns_name_def list_all_iff dns_label_def)
qed

lemma plain_graphic:
  "is_ascii_lowercase c \<or> is_ascii_digit c \<or> c = CHR ''-'' \<or> c = CHR ''.'' \<Longrightarrow> graphic c"
  by (auto simp: graphic_def lyra_simps)

lemma lower_plain:
  assumes "\<And>c. c \<in> set s \<Longrightarrow> is_ascii_lowercase c \<or> is_ascii_digit c \<or> c = CHR ''-'' \<or> c = CHR ''.''"
  shows "to_ascii_lowercase s = s"
proof -
  have "\<not> is_ascii_uppercase c" if "c \<in> set s" for c
    using assms [OF that] by (auto simp: lyra_simps)
  then show ?thesis
    by (simp add: to_ascii_lowercase_def ascii_lower_def map_idI)
qed

lemma validate_dns_name:
  assumes "dns_name d"
  shows "validate_domain d = Inr d"
proof -
  have ne: "d \<noteq> []" using assms by (simp add: dns_name_def)
  have "trim_end_char (CHR ''.'') d = d"
    using dns_name_ends [OF assms] ne by (cases d rule: rev_cases) (auto simp: trim_end_char_def)
  then have "to_ascii_lowercase (trim_end_char (CHR ''.'') (trim d)) = d"
    using trim_graphic [OF ne] plain_graphic dns_name_chars [OF assms] lower_plain ne by simp
  moreover have "CHR '':'' \<notin> set d" "CHR ''['' \<notin> set d" "CHR '']'' \<notin> set d"
    using dns_name_chars [OF assms, of "CHR '':''"] dns_name_chars [OF assms, of "CHR ''[''"]
      dns_name_chars [OF assms, of "CHR '']''"] by (auto simp: lyra_simps)
  moreover have "first_some (label_error d) (split_on (CHR ''.'') d) = None"
    using assms by (auto simp: first_some_None dns_name_def list_all_iff dns_label_error)
  ultimately show ?thesis
    using assms by (simp add: validate_domain_def dns_name_def Let_def)
qed

lemma validated_dns_name:
  assumes "validate_domain raw = Inr d"
  shows "dns_name d"
proof -
  let ?d = "to_ascii_lowercase (trim_end_char (CHR ''.'') (trim raw))"
  have ne': "?d \<noteq> []"
    using assms by (cases "?d = []") (simp_all add: validate_domain_def Let_def)
  have len': "length ?d \<le> 253"
    using assms ne' by (cases "253 < length ?d") (simp_all add: validate_domain_def Let_def)
  have ip': "parse_ip ?d = None \<and> CHR '':'' \<notin> set ?d \<and> CHR ''['' \<notin> set ?d \<and> CHR '']'' \<notin> set ?d"
    using assms ne' len'
    by (cases "parse_ip ?d \<noteq> None \<or> CHR '':'' \<in> set ?d \<or> CHR ''['' \<in> set ?d \<or> CHR '']'' \<in> set ?d")
       (simp_all add: validate_domain_def Let_def)
  have lab': "first_some (label_error raw) (split_on (CHR ''.'') ?d) = None \<and> d = ?d"
    using assms ne' len' ip'
    by (cases "first_some (label_error raw) (split_on (CHR ''.'') ?d)") (simp_all add: validate_domain_def Let_def)
  then have d: "d = ?d" by blast
  have ne: "d \<noteq> []" "length d \<le> 253" and ip: "parse_ip d = None"
    and lab: "first_some (label_error raw) (split_on (CHR ''.'') d) = None"
    using ne' len' ip' lab' by (simp_all only: simp_thms)
  have "\<not> is_ascii_uppercase c" if "c \<in> set d" for c
    using that by (auto simp: d to_ascii_lowercase_def)
  then have "dns_label l" if "l \<in> set (split_on (CHR ''.'') d)" for l
    using lab that split_on_chars [OF that] by (intro label_ok [of raw]) (auto simp: first_some_None)
  with ne ip show ?thesis
    by (simp add: dns_name_def list_all_iff)
qed

lemma parse_ip_letter:
  assumes "hex_digit c = None" and "c \<noteq> CHR '':''"
  shows "parse_ip (c # cs) = None"
proof -
  have "read_octets 4 False (c # cs) = None" "read_groups 8 False (c # cs) = ([], False, c # cs)"
    using assms by (simp_all add: eval_nat_numeral read_sep_def read_number_def)
  with assms show ?thesis
    by (simp add: parse_ip_def read_ipv6_def split: char.split bool.split)
qed

text \<open>A validated host is a DNS name in normal form: at most 253 bytes, labels of 1 to 63 lower-case
  letters, digits and inner dashes, and no IP literal; and validation is stable, so that a stored host
  validates to itself.\<close>

theorem validated_domain_normal:
  "validate_domain raw = Inr d \<Longrightarrow> dns_name d \<and> validate_domain d = Inr d"
  by (simp add: validated_dns_name validate_dns_name)

theorem validated_domain_normal_witness:
  "dns_name ''mail.example.com'' \<and> validate_domain ''mail.example.com'' = Inr ''mail.example.com''"
proof (rule validated_domain_normal)
  have "to_ascii_lowercase (trim_end_char (CHR ''.'') (trim '' Mail.Example.COM. '')) = ''mail.example.com''"
    by code_simp
  moreover have "parse_ip ''mail.example.com'' = None"
    by (rule parse_ip_letter) (simp_all add: hex_digit_def is_ascii_digit_def)
  moreover have "first_some (label_error '' Mail.Example.COM. '') (split_on (CHR ''.'') ''mail.example.com'') = None"
    by (simp add: label_error_def lyra_simps)
  ultimately show "validate_domain '' Mail.Example.COM. '' = Inr ''mail.example.com''"
    by (simp add: validate_domain_def)
qed

section \<open>Redirects\<close>

lemma discovery_redirect_pinned:
  "resolve_discovery_redirect U cur loc origin = Inr url \<Longrightarrow>
     \<exists>target. origin_of U url = Inr target \<and> (target = origin \<or>
       (starts_with target ''https://'' \<and> registrable_domain U target = registrable_domain U origin))"
  by (auto simp: resolve_discovery_redirect_def same_registrable_domain_def split: sum.splits if_splits)

text \<open>Two sites under a public suffix of two labels count as one site.\<close>

lemma registrable_domain_suffix:
  assumes "\<And>h. ue_parse U (''https://'' @ h @ '':443'') = Inr \<lparr>url_scheme = ''https'', url_host = Some h, url_port = Some 443\<rparr>"
  shows "same_registrable_domain U ''https://victim.co.uk:443'' ''https://evil.co.uk:443''"
  using assms [of "''victim.co.uk''"] assms [of "''evil.co.uk''"]
  by (simp add: same_registrable_domain_def registrable_domain_def trim_end_char_def to_ascii_lowercase_def)

text \<open>A redirect of a PROPFIND to an absolute URL is followed with the credentials, whatever its origin.\<close>

lemma propfind_sends_credentials_anywhere:
  assumes "http \<lparr>rq_method = ''PROPFIND'', rq_url = url, rq_auth = Some (dc_username c, dc_password c)\<rparr> = Inr (Redirect (Some loc))"
    and "starts_with loc ''https://''"
  shows "\<lparr>rq_method = ''PROPFIND'', rq_url = loc, rq_auth = Some (dc_username c, dc_password c)\<rparr>
    \<in> set (snd (propfind_text U http c url))"
  using assms
  by (simp add: propfind_text_def numeral_eq_Suc resolve_href_def Let_def split: prod.split sum.split HttpResponse.split option.split)

end
