(* ===== verification/Lyra_StoreLaws.thy ===== *)
theory Lyra_StoreLaws
  imports Lyra_Store
begin

text \<open>
  What the mail store promises: the table constraints hold in every state the operations can reach,
  whatever statements fail; a folder batch is one transaction; an upsert keeps what the user did
  locally; reconciliation deletes nothing the server still lists; cursors and external ids round trip.

  The locale \<open>store_frame\<close> lifts a reflexive and transitive relation on the tables from single
  statements to the composed operations; each invariant is an instance of it.
\<close>

section \<open>Statements under every fault script\<close>

definition frames :: "(MailData \<Rightarrow> MailData \<Rightarrow> bool) \<Rightarrow> (MailDb, SyncError, 'a) eff \<Rightarrow> bool" where
  "frames R m \<longleftrightarrow> (\<forall>db. R (md_data db) (md_data (snd (m db))))"

text \<open>The same for a computation on a larger state, whose tables are \<open>p\<close>.\<close>

definition pframes :: "('w \<Rightarrow> MailData) \<Rightarrow> (MailData \<Rightarrow> MailData \<Rightarrow> bool) \<Rightarrow> ('w, 'e, 'a) eff \<Rightarrow> bool" where
  "pframes p R m \<longleftrightarrow> (\<forall>w. R (p w) (p (snd (m w))))"

lemma pframesD: "pframes p R m \<Longrightarrow> m w = (r, w') \<Longrightarrow> R (p w) (p w')"
  by (metis snd_conv pframes_def)

lemma snd_map_errE: "snd (map_errE g m s) = snd (m s)"
  by (simp add: map_errE_def split: prod.split sum.split)

lemma stmt_cases:
  assumes "stmt f db = (r, db')"
  obtains (fault) "r = Inl (DatabaseErr Driver)" "md_data db' = md_data db" "md_now db' = md_now db"
  | (run) "f (md_now db) (md_data db) = (r, md_data db')" "md_now db' = md_now db"
  using assms by (auto simp: stmt_def split: list.splits if_splits prod.splits)

lemma stmt_Inr:
  "stmt f db = (Inr x, db') \<Longrightarrow> f (md_now db) (md_data db) = (Inr x, md_data db') \<and> md_now db' = md_now db"
  by (erule stmt_cases) auto

lemma query_Inr: "query q db = (Inr x, db') \<Longrightarrow> x = q (md_data db) \<and> md_data db' = md_data db \<and> md_now db' = md_now db"
  by (auto simp: query_def dest!: stmt_Inr)

lemma modify_Inr: "modify f db = (Inr x, db') \<Longrightarrow> md_data db' = f (md_now db) (md_data db) \<and> md_now db' = md_now db"
  by (auto simp: modify_def dest!: stmt_Inr)

lemma query_data: "md_data (snd (query q db)) = md_data db"
  by (cases "query q db") (auto simp: query_def elim!: stmt_cases)

lemma new_uuid_Inr: "new_uuid_text db = (Inr i, db') \<Longrightarrow> md_data db' = md_data db \<and> md_now db' = md_now db"
  by (auto simp: new_uuid_text_def)

lemmas store_Inr = stmt_Inr query_Inr modify_Inr new_uuid_Inr

text \<open>A transaction that fails leaves the tables as they were; one that returns has run its body.\<close>

lemma in_tx_Inl: "in_tx body db = (Inl e, db') \<Longrightarrow> md_data db' = md_data db"
proof -
  assume tx: "in_tx body db = (Inl e, db')"
  then show "md_data db' = md_data db"
    unfolding in_tx_def
  proof (cases rule: bindE_cases)
    case (1 e')
    then show ?thesis using query_data [of "\<lambda>_. ()" db] by simp
  next
    case (2 x db1)
    then have "md_data db1 = md_data db" using query_Inr [OF 2(1)] by simp
    with 2 show ?thesis by (auto split: prod.splits sum.splits)
  qed
qed

lemma in_tx_Inr:
  assumes "in_tx body db = (Inr x, db')"
  obtains db1 db2 where "md_data db1 = md_data db" "md_now db1 = md_now db"
    "body db1 = (Inr x, db2)" "md_data db' = md_data db2" "md_now db' = md_now db2"
proof -
  from assms obtain u db1 where 1: "query (\<lambda>_. ()) db = (Inr u, db1)"
    and b: "bindE body (\<lambda>x. bindE (query (\<lambda>_. ())) (\<lambda>_. okE x)) db1 = (Inr x, db')"
    by (auto simp: in_tx_def elim!: bindE_InrE split: prod.splits sum.splits)
  from b obtain db2 v where 2: "body db1 = (Inr x, db2)" "query (\<lambda>_. ()) db2 = (Inr v, db')"
    by (auto elim!: bindE_InrE)
  show ?thesis
    using that query_Inr [OF 1] query_Inr [OF 2(2)] 2(1) by metis
qed

locale store_frame =
  fixes R :: "MailData \<Rightarrow> MailData \<Rightarrow> bool"
  assumes R_refl: "R d d"
    and R_trans: "R d1 d2 \<Longrightarrow> R d2 d3 \<Longrightarrow> R d1 d3"
begin

lemma frames_okE: "frames R (okE x)"
  by (simp add: frames_def R_refl)

lemma frames_errE: "frames R (errE e)"
  by (simp add: frames_def R_refl)

lemma frames_ofE: "frames R (ofE r)"
  by (simp add: frames_def R_refl)

lemma frames_Pair: "frames R (Pair r)"
  by (simp add: frames_def R_refl)

lemma frames_new_uuid: "frames R new_uuid_text"
  by (simp add: frames_def R_refl new_uuid_text_def)

lemma frames_stmt: "(\<And>now d. R d (snd (f now d))) \<Longrightarrow> frames R (stmt f)"
  unfolding frames_def by (metis R_refl prod.collapse snd_conv stmt_cases)

lemma frames_modify: "(\<And>now d. R d (f now d)) \<Longrightarrow> frames R (modify f)"
  unfolding modify_def by (rule frames_stmt) auto

lemma frames_query: "frames R (query q)"
  unfolding query_def by (rule frames_stmt) (auto simp: R_refl)

lemma frames_now: "(\<And>now. frames R (m now)) \<Longrightarrow> frames R (\<lambda>db. m (md_now db) db)"
  by (simp add: frames_def)

lemma frames_bindE:
  assumes "frames R m" and "\<And>x. frames R (f x)"
  shows "frames R (bindE m f)"
  unfolding frames_def
proof
  fix db
  have m: "R (md_data db) (md_data (snd (m db)))" using assms(1) by (simp add: frames_def)
  show "R (md_data db) (md_data (snd (bindE m f db)))"
  proof (cases "m db")
    case (Pair r s)
    then show ?thesis
      using m assms(2) R_trans by (cases r) (auto simp: frames_def)
  qed
qed

lemma frames_in_tx:
  assumes "frames R m"
  shows "frames R (in_tx m)"
  unfolding frames_def
proof
  fix db
  obtain r db' where tx: "in_tx m db = (r, db')" by force
  show "R (md_data db) (md_data (snd (in_tx m db)))"
  proof (cases r)
    case (Inl e)
    with tx in_tx_Inl [of m db e db'] show ?thesis by (simp add: R_refl)
  next
    case (Inr x)
    with tx assms show ?thesis
      by (auto elim!: in_tx_Inr simp: frames_def) (metis snd_conv)
  qed
qed

lemma frames_if: "(b \<Longrightarrow> frames R m) \<Longrightarrow> (\<not> b \<Longrightarrow> frames R n) \<Longrightarrow> frames R (if b then m else n)"
  by simp

lemma frames_case_prod: "(\<And>x y. frames R (f x y)) \<Longrightarrow> frames R (case p of (x, y) \<Rightarrow> f x y)"
  by (cases p) simp

lemma frames_case_option:
  "frames R m \<Longrightarrow> (\<And>x. frames R (f x)) \<Longrightarrow> frames R (case z of None \<Rightarrow> m | Some x \<Rightarrow> f x)"
  by (cases z) auto

lemma frames_ofE_bind: "(\<And>x. r = Inr x \<Longrightarrow> frames R (f x)) \<Longrightarrow> frames R (bindE (ofE r) f)"
  by (cases r) (auto simp: frames_def R_refl bindE_def)

lemma pframes_okE: "pframes p R (okE x)"
  by (simp add: pframes_def R_refl)

lemma pframes_Pair: "pframes p R (Pair x)"
  by (simp add: pframes_def R_refl)

lemma pframes_ofE: "pframes p R (ofE x)"
  by (simp add: pframes_def R_refl)

lemma pframes_map_errE: "pframes p R m \<Longrightarrow> pframes p R (map_errE g m)"
  by (simp add: pframes_def snd_map_errE)

lemma pframes_bindE:
  assumes "pframes p R m" and "\<And>x. pframes p R (f x)"
  shows "pframes p R (bindE m f)"
  unfolding pframes_def
proof
  fix w
  show "R (p w) (p (snd (bindE m f w)))"
  proof (cases "m w")
    case (Pair r s)
    then show ?thesis
      using pframesD [OF assms(1) Pair] assms(2) R_trans by (cases r) (auto simp: pframes_def)
  qed
qed

lemma pframes_if: "pframes p R m \<Longrightarrow> pframes p R n \<Longrightarrow> pframes p R (if b then m else n)"
  by simp

lemma pframes_case_option:
  "pframes p R m \<Longrightarrow> (\<And>x. pframes p R (f x)) \<Longrightarrow> pframes p R (case z of None \<Rightarrow> m | Some x \<Rightarrow> f x)"
  by (cases z) auto

lemma pframes_case_prod: "(\<And>x y. pframes p R (f x y)) \<Longrightarrow> pframes p R (case z of (x, y) \<Rightarrow> f x y)"
  by (cases z) simp

lemmas pframes_rules = pframes_okE pframes_Pair pframes_ofE pframes_map_errE pframes_bindE pframes_if

lemmas frames_rules =
  frames_okE frames_Pair frames_errE frames_ofE frames_new_uuid frames_query frames_bindE frames_in_tx

end

section \<open>Table constraints\<close>

definition cursor_key :: "CursorRow \<Rightarrow> string \<times> string \<times> string" where
  "cursor_key c = (c_account_id c, c_folder_id c, c_type c)"

definition same_folder :: "FolderRow \<Rightarrow> FolderRow \<Rightarrow> bool" where
  "same_folder r f \<longleftrightarrow> f_account_id f = f_account_id r \<and> f_external_id r \<noteq> None
     \<and> f_external_id f = f_external_id r"

text \<open>The constraints the schema declares: primary keys, unique keys, foreign keys.\<close>

definition messages_ok :: "MailData \<Rightarrow> bool" where
  "messages_ok d \<longleftrightarrow> distinct (map m_id (dt_messages d))
     \<and> (\<forall>m \<in> set (dt_messages d). \<forall>n \<in> set (dt_messages d). same_external m n \<longrightarrow> m_id m = m_id n)
     \<and> (\<forall>m \<in> set (dt_messages d). m_account_id m \<in> set (dt_accounts d) \<and> m_folder_id m \<in> f_id ` set (dt_folders d))"

definition folders_ok :: "MailData \<Rightarrow> bool" where
  "folders_ok d \<longleftrightarrow> distinct (map f_id (dt_folders d))
     \<and> (\<forall>f \<in> set (dt_folders d). \<forall>g \<in> set (dt_folders d). same_folder f g \<longrightarrow> f_id f = f_id g)
     \<and> (\<forall>f \<in> set (dt_folders d). f_account_id f \<in> set (dt_accounts d))"

definition cursors_ok :: "MailData \<Rightarrow> bool" where
  "cursors_ok d \<longleftrightarrow> distinct (map cursor_key (dt_cursors d))
     \<and> (\<forall>c \<in> set (dt_cursors d). c_account_id c \<in> set (dt_accounts d) \<and> c_folder_id c \<in> f_id ` set (dt_folders d))"

definition store_ok :: "MailData \<Rightarrow> bool" where
  "store_ok d \<longleftrightarrow> messages_ok d \<and> folders_ok d \<and> cursors_ok d"

definition ok_rel :: "MailData \<Rightarrow> MailData \<Rightarrow> bool" where
  "ok_rel d d' \<longleftrightarrow> (store_ok d \<longrightarrow> store_ok d')"

interpretation okf: store_frame ok_rel
  by unfold_locales (auto simp: ok_rel_def)

text \<open>A row keeps its place in every constraint when its keys are kept.\<close>

definition keeps_keys :: "(StoredMessage \<Rightarrow> StoredMessage) \<Rightarrow> bool" where
  "keeps_keys g \<longleftrightarrow> (\<forall>m. m_id (g m) = m_id m \<and> m_account_id (g m) = m_account_id m
     \<and> m_external_id (g m) = m_external_id m \<and> m_folder_id (g m) = m_folder_id m)"

lemma keeps_keys_if: "keeps_keys g \<Longrightarrow> keeps_keys (\<lambda>m. if P m then g m else m)"
  by (simp add: keeps_keys_def)

lemma map_ids: "(\<And>x. k (g x) = k x) \<Longrightarrow> map k (map g xs) = map k xs"
  by simp

lemma messages_ok_map:
  assumes "keeps_keys g"
  shows "messages_ok (d\<lparr>dt_messages := map g (dt_messages d)\<rparr>) \<longleftrightarrow> messages_ok d"
proof -
  have "map m_id (map g (dt_messages d)) = map m_id (dt_messages d)"
    using assms by (intro map_ids) (simp add: keeps_keys_def)
  then show ?thesis
    using assms by (simp add: messages_ok_def same_external_def keeps_keys_def del: map_map)
qed

lemma other_tables_messages [simp]:
  "folders_ok (d\<lparr>dt_messages := ms\<rparr>) = folders_ok d" "cursors_ok (d\<lparr>dt_messages := ms\<rparr>) = cursors_ok d"
  "messages_ok (d\<lparr>dt_cursors := cs\<rparr>) = messages_ok d" "folders_ok (d\<lparr>dt_cursors := cs\<rparr>) = folders_ok d"
  by (simp_all add: folders_ok_def cursors_ok_def messages_ok_def)

lemma ok_map_messages: "keeps_keys g \<Longrightarrow> ok_rel d (d\<lparr>dt_messages := map g (dt_messages d)\<rparr>)"
  by (simp add: ok_rel_def store_ok_def messages_ok_map)

lemma ok_filter_messages: "ok_rel d (d\<lparr>dt_messages := filter P (dt_messages d)\<rparr>)"
  by (auto simp: ok_rel_def store_ok_def messages_ok_def distinct_map_filter)

lemma ok_filter_cursors: "ok_rel d (d\<lparr>dt_cursors := filter P (dt_cursors d)\<rparr>)"
  by (auto simp: ok_rel_def store_ok_def cursors_ok_def distinct_map_filter)

lemma ok_append_message:
  assumes "\<not> (\<exists>m \<in> set (dt_messages d). same_external r m)" "m_id r \<notin> m_id ` set (dt_messages d)"
    "m_account_id r \<in> set (dt_accounts d)" "m_folder_id r \<in> f_id ` set (dt_folders d)"
  shows "ok_rel d (d\<lparr>dt_messages := dt_messages d @ [r]\<rparr>)"
proof -
  have "same_external m r \<Longrightarrow> same_external r m" for m
    by (auto simp: same_external_def)
  with assms show ?thesis
    by (auto simp: ok_rel_def store_ok_def messages_ok_def)
qed

lemma ok_insert_message:
  assumes "case oc of Some g \<Rightarrow> keeps_keys g | None \<Rightarrow> True"
  shows "frames ok_rel (insert_message oc r)"
proof -
  have "ok_rel d (d\<lparr>dt_messages := map (\<lambda>m. if same_external r m then g m else m) (dt_messages d)\<rparr>)"
    if "oc = Some g" for g d
    using assms that by (auto intro: ok_map_messages keeps_keys_if)
  then show ?thesis
    unfolding insert_message_def
    by (intro okf.frames_stmt) (simp add: okf.R_refl ok_append_message split: option.split)
qed

definition keeps_folder_keys :: "(FolderRow \<Rightarrow> FolderRow) \<Rightarrow> bool" where
  "keeps_folder_keys g \<longleftrightarrow> (\<forall>f. f_id (g f) = f_id f \<and> f_account_id (g f) = f_account_id f
     \<and> f_external_id (g f) = f_external_id f)"

lemma ok_map_folders:
  assumes "keeps_folder_keys h"
  shows "ok_rel d (d\<lparr>dt_folders := map h (dt_folders d)\<rparr>)"
proof -
  have i: "map f_id (map h (dt_folders d)) = map f_id (dt_folders d)"
    using assms by (intro map_ids) (simp add: keeps_folder_keys_def)
  then have s: "f_id ` set (map h (dt_folders d)) = f_id ` set (dt_folders d)"
    by (metis list.set_map)
  have "folders_ok (d\<lparr>dt_folders := map h (dt_folders d)\<rparr>) \<longleftrightarrow> folders_ok d"
    using i assms by (simp add: folders_ok_def same_folder_def keeps_folder_keys_def del: map_map)
  then show ?thesis
    using s by (simp add: ok_rel_def store_ok_def messages_ok_def cursors_ok_def del: map_map set_map)
qed

lemma ok_update_folders:
  assumes "\<And>now. keeps_folder_keys (g now)"
  shows "frames ok_rel (update_folders P g)"
  unfolding update_folders_def
  using assms by (intro okf.frames_modify ok_map_folders) (simp add: keeps_folder_keys_def)

lemma ok_append_folder:
  assumes "f_id r \<notin> f_id ` set (dt_folders d)" "\<not> (\<exists>f \<in> set (dt_folders d). same_folder r f)"
    "f_account_id r \<in> set (dt_accounts d)"
  shows "ok_rel d (d\<lparr>dt_folders := dt_folders d @ [r]\<rparr>)"
proof -
  have "same_folder f r \<Longrightarrow> same_folder r f" for f
    by (auto simp: same_folder_def)
  with assms show ?thesis
    by (auto simp: ok_rel_def store_ok_def messages_ok_def folders_ok_def cursors_ok_def)
qed

lemma ok_insert_folder: "frames ok_rel (insert_folder r)"
  unfolding insert_folder_def
  by (rule okf.frames_stmt) (simp add: okf.R_refl ok_append_folder same_folder_def)

lemma ok_upsert_cursor: "frames ok_rel (upsert_cursor_row r)"
  unfolding upsert_cursor_row_def Let_def
proof (rule okf.frames_stmt)
  fix now :: string and d :: MailData
  let ?P = "cursor_match (c_account_id r) (c_folder_id r) (c_type r)"
  let ?h = "\<lambda>c. if ?P c then c\<lparr>c_value := c_value r, c_updated_at := c_updated_at r\<rparr> else c"
  have i: "map cursor_key (map ?h (dt_cursors d)) = map cursor_key (dt_cursors d)"
    by (rule map_ids) (simp add: cursor_key_def)
  have 1: "ok_rel d (d\<lparr>dt_cursors := map ?h (dt_cursors d)\<rparr>)"
    using i by (auto simp: ok_rel_def store_ok_def cursors_ok_def simp del: map_map)
  have 2: "ok_rel d (d\<lparr>dt_cursors := dt_cursors d @ [r]\<rparr>)"
    if "\<not> (\<exists>c\<in>set (dt_cursors d). ?P c)" "c_account_id r \<in> set (dt_accounts d)" "c_folder_id r \<in> f_id ` set (dt_folders d)"
  proof -
    have "cursor_key r \<notin> cursor_key ` set (dt_cursors d)"
      using that(1) by (auto simp: cursor_key_def cursor_match_def)
    with that show ?thesis by (auto simp: ok_rel_def store_ok_def cursors_ok_def)
  qed
  show "ok_rel d (snd (if \<exists>c\<in>set (dt_cursors d). ?P c then (Inr (), d\<lparr>dt_cursors := map ?h (dt_cursors d)\<rparr>)
      else if c_id r \<in> c_id ` set (dt_cursors d) then (Inl (DatabaseErr UniqueViolation), d)
      else if c_account_id r \<notin> set (dt_accounts d) \<or> c_folder_id r \<notin> f_id ` set (dt_folders d)
        then (Inl (DatabaseErr Driver), d)
      else (Inr (), d\<lparr>dt_cursors := dt_cursors d @ [r]\<rparr>)))"
    using 1 2 okf.R_refl [of d] by (simp split: if_split del: bex_simps)
qed


lemma messages_ok_rehome:
  assumes k: "\<And>m. m_id (h m) = m_id m" "\<And>m. m_account_id (h m) = m_account_id m" "\<And>m. m_external_id (h m) = m_external_id m"
    and f: "\<And>m. m \<in> set (dt_messages d) \<Longrightarrow> m_folder_id m \<in> f_id ` set (dt_folders d) \<Longrightarrow> m_folder_id (h m) \<in> f_id ` set (dt_folders d)"
    and ok: "messages_ok d"
  shows "messages_ok (d\<lparr>dt_messages := map h (dt_messages d)\<rparr>)"
proof -
  have "map m_id (map h (dt_messages d)) = map m_id (dt_messages d)"
    by (rule map_ids) (rule k)
  moreover have "(\<forall>m \<in> set (map h (dt_messages d)). \<forall>n \<in> set (map h (dt_messages d)). same_external m n \<longrightarrow> m_id m = m_id n)
    \<longleftrightarrow> (\<forall>m \<in> set (dt_messages d). \<forall>n \<in> set (dt_messages d). same_external m n \<longrightarrow> m_id m = m_id n)"
    by (simp add: same_external_def k)
  moreover have "\<forall>m \<in> set (map h (dt_messages d)). m_account_id m \<in> set (dt_accounts d) \<and> m_folder_id m \<in> f_id ` set (dt_folders d)"
    using ok f by (simp add: messages_ok_def k)
  ultimately show ?thesis
    using ok by (simp add: messages_ok_def del: map_map set_map)
qed

lemma ok_rehome:
  assumes "keeps_keys g"
  shows "frames ok_rel (rehome_message i f g)"
proof -
  have "ok_rel d (d\<lparr>dt_messages := map (\<lambda>m. if m_id m = i then (g m)\<lparr>m_folder_id := f, m_updated_at := now\<rparr> else m) (dt_messages d)\<rparr>)"
    if "i \<in> m_id ` set (dt_messages d) \<longrightarrow> f \<in> f_id ` set (dt_folders d)" for d now
    unfolding ok_rel_def store_ok_def other_tables_messages
    using that assms by (intro impI conjI messages_ok_rehome) (auto simp: keeps_keys_def)
  with okf.R_refl show ?thesis
    unfolding rehome_message_def by (intro okf.frames_stmt) (auto split: if_split)
qed

section \<open>The constraints hold in every reachable state\<close>

lemma keeps_keys_rules [simp]:
  "keeps_keys (fill_in_on_conflict now r)" "keeps_keys (\<lambda>m. m\<lparr>m_is_deleted := b\<rparr>)"
  "keeps_keys (\<lambda>m. m\<lparr>m_body_text := t, m_body_html := h\<rparr>)"
  by (simp_all add: keeps_keys_def fill_in_on_conflict_def)

lemma ok_modify_messages:
  "(\<And>now. keeps_keys (g now)) \<Longrightarrow> frames ok_rel (modify (\<lambda>now d. d\<lparr>dt_messages := map (g now) (dt_messages d)\<rparr>))"
  by (intro okf.frames_modify ok_map_messages)

lemma ok_modify_cursors: "frames ok_rel (modify (\<lambda>now d. d\<lparr>dt_cursors := filter (P now) (dt_cursors d)\<rparr>))"
  by (intro okf.frames_modify ok_filter_cursors)

lemma ok_delete_messages: "frames ok_rel (modify (\<lambda>now d. d\<lparr>dt_messages := filter (P now) (dt_messages d)\<rparr>))"
  by (intro okf.frames_modify ok_filter_messages)

lemma ok_find_folder: "frames ok_rel (find_folder_id_by_external_id E a x)"
  unfolding find_folder_id_by_external_id_def by (intro okf.frames_rules)

lemma ok_find_message: "frames ok_rel (find_message_id E a x)"
  unfolding find_message_id_def by (intro okf.frames_rules)

lemma ok_case_option:
  "frames ok_rel m \<Longrightarrow> (\<And>x. frames ok_rel (f x)) \<Longrightarrow> frames ok_rel (case z of None \<Rightarrow> m | Some x \<Rightarrow> f x)"
  by (cases z) auto

lemma ok_if: "frames ok_rel m \<Longrightarrow> frames ok_rel n \<Longrightarrow> frames ok_rel (if b then m else n)"
  by simp

lemma ok_get_folder: "frames ok_rel (get_folder_id E a x)"
  unfolding get_folder_id_def by (intro okf.frames_rules ok_find_folder ok_case_option)

lemma ok_upsert_folder: "frames ok_rel (upsert_folder E a w dl at)"
proof -
  have *: "frames ok_rel (\<lambda>db. insert_folder (fresh_folder i b w nm rl p (md_now db)) db)" for i b nm rl p
    by (rule okf.frames_now) (rule ok_insert_folder)
  show ?thesis
    unfolding upsert_folder_def Let_def
    by (intro okf.frames_rules ok_find_folder ok_case_option ok_update_folders *) (simp add: keeps_folder_keys_def)
qed

lemma ok_upsert_jmap_folder: "frames ok_rel (upsert_jmap_folder E a mb)"
proof -
  have *: "frames ok_rel (\<lambda>db. insert_folder (fresh_folder i b w nm rl p (md_now db)) db)" for i b nm rl p w
    by (rule okf.frames_now) (rule ok_insert_folder)
  show ?thesis
    unfolding upsert_jmap_folder_def Let_def
    by (intro okf.frames_rules ok_find_folder ok_case_option ok_update_folders *) (simp add: keeps_folder_keys_def)
qed

lemma ok_link: "frames ok_rel (link_jmap_folder_parent E a c p)"
  unfolding link_jmap_folder_parent_def
  by (intro okf.frames_rules ok_get_folder ok_update_folders) (simp add: keeps_folder_keys_def)

lemma ok_save_cursor: "frames ok_rel (save_cursor_row E a f p ty v)"
proof -
  have *: "frames ok_rel (\<lambda>db. upsert_cursor_row (r (md_now db)) db)" for r
    by (rule okf.frames_now) (rule ok_upsert_cursor)
  show ?thesis
    unfolding save_cursor_row_def by (intro okf.frames_rules *)
qed

lemma ok_upsert_message: "frames ok_rel (upsert_message_in_tx E a f msg)"
proof -
  have *: "frames ok_rel (\<lambda>db. bindE (insert_message (Some (fill_in_on_conflict (md_now db) (r (md_now db)))) (r (md_now db)))
      (\<lambda>_. okE x) db)" for r x
    by (rule okf.frames_now) (intro okf.frames_rules ok_insert_message, simp)
  show ?thesis
    unfolding upsert_message_in_tx_def Let_def by (intro okf.frames_rules ok_find_message *)
qed

lemma ok_upsert_all: "frames ok_rel (upsert_all E a f msgs acc)"
  by (induction msgs arbitrary: acc) (auto intro!: okf.frames_rules ok_upsert_message)

lemma ok_counts: "frames ok_rel (update_folder_counts_in_tx E f)"
  unfolding update_folder_counts_in_tx_def folder_count_def
  by (intro okf.frames_rules okf.frames_stmt ok_update_folders) (simp_all add: okf.R_refl keeps_folder_keys_def)

lemma ok_clear: "frames ok_rel (clear_folder_messages_in_tx E f)"
  unfolding clear_folder_messages_in_tx_def
  by (intro okf.frames_rules ok_delete_messages ok_modify_cursors)

lemma ok_persist_imap: "frames ok_rel (persist_imap_folder_batch E a f msgs uv lu ms cl)"
  unfolding persist_imap_folder_batch_def save_cursor_in_tx_def
  by (intro okf.frames_rules ok_if ok_clear ok_upsert_all ok_save_cursor ok_counts)

lemma ok_repair: "frames ok_rel (repair_imap_messages E a f msgs)"
  unfolding repair_imap_messages_def
  by (intro okf.frames_rules ok_upsert_all ok_counts ok_modify_messages keeps_keys_if) simp

lemma ok_reconcile: "frames ok_rel (reconcile_folder_deletions E a f S)"
  unfolding reconcile_folder_deletions_def Let_def
  by (intro okf.frames_rules ok_if ok_counts ok_modify_messages keeps_keys_if) simp

lemma ok_update_message: "(\<And>m. keeps_keys g) \<Longrightarrow> frames ok_rel (update_message E i P g)"
  unfolding update_message_def
  by (intro okf.frames_rules ok_modify_messages) (simp add: keeps_keys_def)

lemma ok_upsert_jmap_message: "frames ok_rel (upsert_jmap_message_in_tx E a f email)"
proof -
  have *: "frames ok_rel (\<lambda>db. insert_message None (r (md_now db)) db)" for r
    by (rule okf.frames_now) (simp add: ok_insert_message)
  show ?thesis
    unfolding upsert_jmap_message_in_tx_def Let_def
    by (intro okf.frames_rules ok_find_message ok_case_option ok_rehome *) (simp add: keeps_keys_def)
qed

lemma ok_case_prod: "(\<And>x y. frames ok_rel (f x y)) \<Longrightarrow> frames ok_rel (case p of (x, y) \<Rightarrow> f x y)"
  by (cases p) simp

lemma ok_upsert_jmap_all: "frames ok_rel (upsert_jmap_all E a f emails)"
  by (induction emails) (auto intro!: okf.frames_rules ok_upsert_jmap_message ok_case_prod)

lemma ok_persist_jmap: "frames ok_rel (persist_jmap_folder_batch E a f emails qs)"
  unfolding persist_jmap_folder_batch_def save_jmap_cursor_in_tx_def save_state_cursor_in_tx_def
  by (intro okf.frames_rules ok_upsert_jmap_all ok_case_option ok_save_cursor ok_counts)

lemma ok_delete_chunks: "frames ok_rel (delete_chunks a chunks acc)"
  by (induction a chunks acc rule: delete_chunks.induct)
     (auto simp: Let_def intro!: okf.frames_rules okf.frames_stmt ok_filter_messages)

lemma ok_all_counts: "frames ok_rel (update_all_counts E fs)"
  by (induction fs) (auto simp: update_folder_counts_def intro!: okf.frames_rules ok_counts)

lemma ok_delete_jmap: "frames ok_rel (delete_jmap_messages_by_external_ids E a ids)"
  unfolding delete_jmap_messages_by_external_ids_def
  by (intro okf.frames_rules ok_if ok_case_prod ok_delete_chunks ok_all_counts)

lemma ok_clear_state: "frames ok_rel (clear_state_cursor E a f ty)"
  unfolding clear_state_cursor_def by (intro okf.frames_rules ok_modify_cursors)

text \<open>One operation of the store, with any arguments, any failing statements and at any time.\<close>

inductive store_step :: "StoreEnv \<Rightarrow> MailDb \<Rightarrow> MailDb \<Rightarrow> bool" for E where
  env: "store_step E db (db\<lparr>md_faults := fs, md_now := t\<rparr>)"
| folder: "store_step E db (snd (upsert_folder E a w dl at db))"
| jmap_folder: "store_step E db (snd (upsert_jmap_folder E a mb db))"
| link: "store_step E db (snd (link_jmap_folder_parent E a c p db))"
| imap_batch: "store_step E db (snd (persist_imap_folder_batch E a f msgs uv lu ms cl db))"
| repair: "store_step E db (snd (repair_imap_messages E a f msgs db))"
| reconcile: "store_step E db (snd (reconcile_folder_deletions E a f uids db))"
| jmap_batch: "store_step E db (snd (persist_jmap_folder_batch E a f emails qs db))"
| jmap_delete: "store_step E db (snd (delete_jmap_messages_by_external_ids E a ids db))"
| counts: "store_step E db (snd (update_folder_counts E f db))"
| email_state: "store_step E db (snd (save_jmap_email_state E a f st db))"
| clear_cursor: "store_step E db (snd (clear_state_cursor E a f ty db))"
| raw_blob: "store_step E db (snd (set_message_raw_blob E i path db))"
| mailer: "store_step E db (snd (set_message_mailer E i m db))"

lemma store_step_ok: "store_step E db db' \<Longrightarrow> ok_rel (md_data db) (md_data db')"
proof (induction rule: store_step.induct)
  case (raw_blob db i path)
  have "frames ok_rel (set_message_raw_blob E i path)"
    unfolding set_message_raw_blob_def by (intro ok_update_message) (simp add: keeps_keys_def)
  then show ?case by (simp add: frames_def)
next
  case (mailer db i m)
  have "frames ok_rel (set_message_mailer E i m)"
    unfolding set_message_mailer_def by (intro ok_update_message) (simp add: keeps_keys_def)
  then show ?case by (simp add: frames_def)
next
  case (email_state db a f st)
  have "frames ok_rel (save_jmap_email_state E a f st)"
    unfolding save_jmap_email_state_def save_state_cursor_in_tx_def by (intro okf.frames_rules ok_save_cursor)
  then show ?case by (simp add: frames_def)
next
  case (counts db f)
  have "frames ok_rel (update_folder_counts E f)"
    unfolding update_folder_counts_def by (intro okf.frames_rules ok_counts)
  then show ?case by (simp add: frames_def)
next
  case (env db fs t)
  then show ?case by (simp add: okf.R_refl)
qed (use ok_upsert_folder ok_upsert_jmap_folder ok_link ok_persist_imap ok_repair ok_reconcile
    ok_persist_jmap ok_delete_jmap ok_clear_state in \<open>auto simp: frames_def\<close>)


definition demo_store_env :: StoreEnv where
  "demo_store_env = \<lparr>se_backend = Sqlite, se_uuid_parse = Some, se_utf7 = id,
     se_json_parse = demo_unlines, se_json_show = demo_lines, se_date = Some, se_clean_html = id\<rparr>"

definition demo_db :: MailDb where
  "demo_db = \<lparr>md_faults = [], md_now = ''2026-01-01 00:00:00'', md_uuid = show_nat, md_next = 0,
     md_data = \<lparr>dt_accounts = [''acc''], dt_folders = [], dt_messages = [], dt_cursors = []\<rparr>\<rparr>"

definition demo_mail :: "u32 \<Rightarrow> string \<Rightarrow> ImapMessage" where
  "demo_mail uid subject = \<lparr>im_uid = uid, im_message_id = None, im_subject = Some subject,
     im_from = None, im_to = None, im_cc = None, im_date = None, im_in_reply_to = None,
     im_references = None, im_mailer = None, im_flags = [''Seen''], im_size = Some 10,
     im_body_text = None, im_body_html = None, im_has_attachments = False\<rparr>"

text \<open>An account with an inbox that holds one synced message.\<close>

definition demo_inbox :: MailDb where
  "demo_inbox = snd (persist_imap_folder_batch demo_store_env ''acc'' ''0'' [demo_mail 7 ''hi''] 1 7 0 False
     (snd (upsert_folder demo_store_env ''acc'' ''INBOX'' None [] demo_db)))"


section \<open>Cursors and external ids\<close>

lemma show_nat_no_colon: "CHR '':'' \<notin> set (show_nat n)"
  using show_nat_digits by (force simp: is_ascii_digit_def)

lemma parse_u32_word: "parse_u32 (show_nat (unat (w :: u32))) = Inr (uint w)"
  using parse_u32_show_nat [of "unat w"] uint_lt2p [of w] by (simp add: u32_max_def)

lemma parse_u64_word: "parse_u64 (show_nat (unat (w :: u64))) = Inr (uint w)"
  using parse_u64_show_nat [of "unat w"] uint_lt2p [of w] by (simp add: u64_max_def)

text \<open>A saved cursor is read back exactly: parsing the stored text gives the UIDVALIDITY, the
  last UID and the mod-sequence it was made of, for all values of their machine widths.\<close>

theorem cursor_roundtrip:
  "parse_cursor_value (format_cursor_value uid_validity last_uid last_modseq) =
     \<lparr>ci_uid_validity = uid_validity, ci_last_uid = last_uid, ci_last_modseq = last_modseq\<rparr>"
proof (cases "last_modseq > 0")
  case True
  then show ?thesis
    by (simp add: parse_cursor_value_def format_cursor_value_def split_on_append_sep split_on_single
        show_nat_no_colon parse_u32_or0_def parse_u64_or0_def parse_u32_word parse_u64_word)
next
  case False
  then have "last_modseq = 0" by (simp add: word_gt_0)
  then show ?thesis
    by (simp add: parse_cursor_value_def format_cursor_value_def split_on_append_sep split_on_single
        show_nat_no_colon parse_u32_or0_def parse_u32_word)
qed

text \<open>The stored id of an IMAP message: the UID is recovered from it, also when the folder id holds
  colons, and two messages of an account share an id only if they are the same UID of the same folder.\<close>

theorem external_id_roundtrip:
  "parse_imap_uid (Some (imap_message_external_id folder_id uid)) = Inr uid \<and>
   (imap_message_external_id folder_id uid = imap_message_external_id folder_id' uid' \<longleftrightarrow>
      folder_id = folder_id' \<and> uid = uid')"
proof -
  have p: "parse_imap_uid (Some (imap_message_external_id f u)) = Inr u" for f u
    using split_on_last [OF show_nat_no_colon, of f "unat u"]
    by (simp add: parse_imap_uid_def imap_message_external_id_def parse_u32_word)
  have "uid = uid'" if "imap_message_external_id folder_id uid = imap_message_external_id folder_id' uid'"
    using p [of folder_id uid] p [of folder_id' uid'] that by simp
  with p show ?thesis by (auto simp: imap_message_external_id_def)
qed

section \<open>A folder batch\<close>

text \<open>What a folder is, seen from the server: the flags of each UID.\<close>

definition mailbox_row :: "string \<Rightarrow> string \<Rightarrow> u32 \<Rightarrow> StoredMessage \<Rightarrow> bool" where
  "mailbox_row a folder_id uid m \<longleftrightarrow>
     m_account_id m = a \<and> m_external_id m = Some (imap_message_external_id folder_id uid)"

definition mailbox :: "string \<Rightarrow> string \<Rightarrow> MailData \<Rightarrow> (u32 \<rightharpoonup> bool \<times> bool)" where
  "mailbox a folder_id d = (\<lambda>uid. map_option (\<lambda>m. (m_is_read m, m_is_starred m))
     (find (mailbox_row a folder_id uid) (dt_messages d)))"

definition msg_flags :: "ImapMessage \<Rightarrow> bool \<times> bool" where
  "msg_flags msg = (flag_is_read (im_flags msg), flag_is_starred (im_flags msg))"

text \<open>The specification of a batch.\<close>

definition apply_batch :: "bool \<Rightarrow> ImapMessage list \<Rightarrow> (u32 \<rightharpoonup> bool \<times> bool) \<Rightarrow> (u32 \<rightharpoonup> bool \<times> bool)" where
  "apply_batch clear msgs v =
     fold (\<lambda>msg v. v(im_uid msg \<mapsto> msg_flags msg)) msgs (if clear then Map.empty else v)"

lemma external_id_eq:
  "imap_message_external_id folder_id uid = imap_message_external_id folder_id uid' \<longleftrightarrow> uid = uid'"
  by (auto simp: imap_message_external_id_def show_nat_inj word_unat_eq_iff)

lemma find_map: "find P (map h xs) = map_option h (find (\<lambda>x. P (h x)) xs)"
  by (induction xs) auto

lemma find_append: "find P (xs @ ys) = (case find P xs of Some x \<Rightarrow> Some x | None \<Rightarrow> find P ys)"
  by (induction xs) auto

lemma find_cong_set: "(\<And>x. x \<in> set xs \<Longrightarrow> P x = Q x) \<Longrightarrow> find P xs = find Q xs"
  by (induction xs) auto

lemma mailbox_update:
  assumes "m_account_id r = a" "m_external_id r = Some (imap_message_external_id folder_id uid)"
    and "\<And>m. m_account_id (g m) = m_account_id m \<and> m_external_id (g m) = m_external_id m"
    and "\<And>m. m_is_read (g m) = rd \<and> m_is_starred (g m) = st"
    and "\<exists>m \<in> set (dt_messages d). same_external r m"
  shows "mailbox a folder_id (d\<lparr>dt_messages := map (\<lambda>m. if same_external r m then g m else m) (dt_messages d)\<rparr>)
    = (mailbox a folder_id d)(uid \<mapsto> (rd, st))" (is "?l = ?r")
proof
  fix u
  let ?h = "\<lambda>m. if same_external r m then g m else m"
  have same: "same_external r m \<longleftrightarrow> mailbox_row a folder_id uid m" for m
    using assms(1,2) by (auto simp: same_external_def mailbox_row_def)
  have row: "mailbox_row a folder_id u (?h m) = mailbox_row a folder_id u m" for m
    using assms(3) by (auto simp: mailbox_row_def)
  have l: "?l u = map_option (\<lambda>m. (m_is_read (?h m), m_is_starred (?h m))) (find (mailbox_row a folder_id u) (dt_messages d))"
    by (simp add: mailbox_def find_map row option.map_comp comp_def)
  show "?l u = ?r u"
  proof (cases "u = uid")
    case True
    obtain m where m: "find (mailbox_row a folder_id uid) (dt_messages d) = Some m"
      using assms(5) same by (metis find_None_iff not_Some_eq)
    then have "mailbox_row a folder_id uid m" by (auto simp: find_Some_iff)
    with l m True assms(4) same show ?thesis by simp
  next
    case False
    have "map_option (\<lambda>m. (m_is_read (?h m), m_is_starred (?h m))) (find (mailbox_row a folder_id u) (dt_messages d))
      = map_option (\<lambda>m. (m_is_read m, m_is_starred m)) (find (mailbox_row a folder_id u) (dt_messages d))"
    proof (rule option.map_cong0)
      fix m assume "m \<in> set_option (find (mailbox_row a folder_id u) (dt_messages d))"
      then have "mailbox_row a folder_id u m" by (auto simp: find_Some_iff)
      with False have "\<not> same_external r m"
        by (auto simp: same mailbox_row_def external_id_eq)
      then show "(m_is_read (?h m), m_is_starred (?h m)) = (m_is_read m, m_is_starred m)" by simp
    qed
    with l False show ?thesis by (simp add: mailbox_def)
  qed
qed

lemma mailbox_append:
  assumes "m_account_id r = a" "m_external_id r = Some (imap_message_external_id folder_id uid)"
    and "\<not> (\<exists>m \<in> set (dt_messages d). same_external r m)"
  shows "mailbox a folder_id (d\<lparr>dt_messages := dt_messages d @ [r]\<rparr>)
    = (mailbox a folder_id d)(uid \<mapsto> (m_is_read r, m_is_starred r))"
proof
  fix u
  have same: "same_external r m \<longleftrightarrow> mailbox_row a folder_id uid m" for m
    using assms(1,2) by (auto simp: same_external_def mailbox_row_def)
  have r: "mailbox_row a folder_id u r \<longleftrightarrow> u = uid"
    using assms(1,2) by (auto simp: mailbox_row_def external_id_eq)
  have "find (mailbox_row a folder_id uid) (dt_messages d) = None"
    using assms(3) same by (auto simp: find_None_iff)
  then show "mailbox a folder_id (d\<lparr>dt_messages := dt_messages d @ [r]\<rparr>) u
      = ((mailbox a folder_id d)(uid \<mapsto> (m_is_read r, m_is_starred r))) u"
    using r by (auto simp: mailbox_def find_append split: option.splits)
qed

lemma insert_message_Inr:
  assumes "insert_message oc r db = (Inr x, db')"
  obtains (conflict) g where "oc = Some g" "\<exists>m \<in> set (dt_messages (md_data db)). same_external r m"
      "md_data db' = (md_data db)\<lparr>dt_messages := map (\<lambda>m. if same_external r m then g m else m) (dt_messages (md_data db))\<rparr>"
      "md_now db' = md_now db"
  | (fresh) "\<not> (\<exists>m \<in> set (dt_messages (md_data db)). same_external r m)" "m_id r \<notin> m_id ` set (dt_messages (md_data db))"
      "m_account_id r \<in> set (dt_accounts (md_data db))" "m_folder_id r \<in> f_id ` set (dt_folders (md_data db))"
      "md_data db' = (md_data db)\<lparr>dt_messages := dt_messages (md_data db) @ [r]\<rparr>" "md_now db' = md_now db"
proof -
  note run = stmt_Inr [OF assms [unfolded insert_message_def]]
  show ?thesis
  proof (cases "\<exists>m \<in> set (dt_messages (md_data db)). same_external r m")
    case True
    with run conflict show ?thesis by (cases oc) auto
  next
    case False
    then show ?thesis
      using run fresh by (simp split: if_splits)
  qed
qed

text \<open>One upsert adds or refreshes one UID and touches nothing else of the view.\<close>

lemma upsert_message_view:
  assumes "upsert_message_in_tx E acc fld msg db = (Inr was_new, db')" and "id_value E acc = Inr a"
  shows "mailbox a fld (md_data db') = (mailbox a fld (md_data db))(im_uid msg \<mapsto> msg_flags msg)"
    and "was_new \<longleftrightarrow> im_uid msg \<notin> dom (mailbox a fld (md_data db))"
    and "md_now db' = md_now db"
proof -
  from assms obtain ex db1 i db2 i' f where
    1: "find_message_id E acc (imap_message_external_id fld (im_uid msg)) db = (Inr ex, db1)"
    and 2: "new_uuid_text db1 = (Inr i, db2)"
    and f: "id_value E i = Inr i'" "id_value E fld = Inr f"
    and 3: "insert_message (Some (fill_in_on_conflict (md_now db2) (message_insert E (md_now db2)
        (imap_insert E i' a f (imap_message_external_id fld (im_uid msg)) msg))))
        (message_insert E (md_now db2) (imap_insert E i' a f (imap_message_external_id fld (im_uid msg)) msg)) db2
        = (Inr (), db')"
    and new: "was_new \<longleftrightarrow> ex = None"
    by (auto simp: upsert_message_in_tx_def Let_def elim!: bindE_InrE)
  define r where "r = message_insert E (md_now db2) (imap_insert E i' a f (imap_message_external_id fld (im_uid msg)) msg)"
  have d: "md_data db2 = md_data db" "md_now db2 = md_now db"
    and ex: "ex = map_option m_id (find (mailbox_row a fld (im_uid msg)) (dt_messages (md_data db)))"
    using 1 2 assms(2)
    by (auto simp: find_message_id_def mailbox_row_def [abs_def] dest!: query_Inr new_uuid_Inr)
  have r: "m_account_id r = a" "m_external_id r = Some (imap_message_external_id fld (im_uid msg))"
    "(m_is_read r, m_is_starred r) = msg_flags msg"
    by (simp_all add: r_def message_insert_def imap_insert_def msg_flags_def)
  show "was_new \<longleftrightarrow> im_uid msg \<notin> dom (mailbox a fld (md_data db))"
    using new ex by (auto simp: mailbox_def)
  from 3 show now: "md_now db' = md_now db"
    by (rule insert_message_Inr) (simp_all add: d)
  from 3 show "mailbox a fld (md_data db') = (mailbox a fld (md_data db))(im_uid msg \<mapsto> msg_flags msg)"
    unfolding r_def [symmetric]
  proof (cases rule: insert_message_Inr)
    case (conflict g)
    then have g: "g = fill_in_on_conflict (md_now db2) r" by simp
    show ?thesis
      using mailbox_update [OF r(1,2), of g "m_is_read r" "m_is_starred r" "md_data db"] r(3) d conflict(2,3)
      by (simp add: g fill_in_on_conflict_def)
  next
    case fresh
    with mailbox_append [OF r(1,2), of "md_data db"] r(3) d
    show ?thesis by simp
  qed
qed


lemma upsert_all_view:
  assumes "upsert_all E acc fld msgs (n0, u0) db = (Inr (n, u), db')" and "id_value E acc = Inr a"
  shows "mailbox a fld (md_data db') = apply_batch False msgs (mailbox a fld (md_data db))
    \<and> n = n0 + card (im_uid ` set msgs - dom (mailbox a fld (md_data db)))
    \<and> n + u = n0 + u0 + length msgs \<and> md_now db' = md_now db"
  using assms(1)
proof (induction msgs arbitrary: n0 u0 db)
  case (Cons msg msgs)
  let ?v = "mailbox a fld (md_data db)"
  from Cons.prems obtain new db1 where 1: "upsert_message_in_tx E acc fld msg db = (Inr new, db1)"
    and 2: "upsert_all E acc fld msgs (if new then (Suc n0, u0) else (n0, Suc u0)) db1 = (Inr (n, u), db')"
    by (auto elim!: bindE_InrE cong: if_cong)
  note v = upsert_message_view [OF 1 assms(2)]
  define n1 where "n1 = (if new then Suc n0 else n0)"
  define u1 where "u1 = (if new then u0 else Suc u0)"
  have "(if new then (Suc n0, u0) else (n0, Suc u0)) = (n1, u1)"
    by (simp add: n1_def u1_def)
  then have "upsert_all E acc fld msgs (n1, u1) db1 = (Inr (n, u), db')"
    using 2 by (simp only:)
  note IH = Cons.IH [OF this]
  have "im_uid ` set (msg # msgs) - dom ?v = (if new then insert (im_uid msg) else id)
      (im_uid ` set msgs - dom (?v(im_uid msg \<mapsto> msg_flags msg)))"
    using v(2) by auto
  then have "card (im_uid ` set (msg # msgs) - dom ?v) = (if new then 1 else 0)
      + card (im_uid ` set msgs - dom (?v(im_uid msg \<mapsto> msg_flags msg)))"
    by simp
  with IH v(1,3) show ?case
    by (simp add: apply_batch_def n1_def u1_def split: if_splits del: fun_upd_apply)
qed (simp add: apply_batch_def)

definition stored_cursor :: "string \<Rightarrow> string \<Rightarrow> MailData \<Rightarrow> string option" where
  "stored_cursor a f d = map_option c_value (find (cursor_match a f ''uidvalidity_uid'') (dt_cursors d))"

definition counts_exact :: "string \<Rightarrow> string \<Rightarrow> MailData \<Rightarrow> bool" where
  "counts_exact now f d \<longleftrightarrow> (\<forall>r \<in> set (dt_folders d). f_id r = f \<longrightarrow>
     f_total r = clamp_i32 (length (filter (visible_in now f) (dt_messages d))) \<and>
     f_unread r = clamp_i32 (length (filter (\<lambda>m. visible_in now f m \<and> \<not> m_is_read m) (dt_messages d))))"

lemma upsert_cursor_Inr:
  assumes "upsert_cursor_row r db = (Inr x, db')"
  shows "map_option c_value (find (cursor_match (c_account_id r) (c_folder_id r) (c_type r)) (dt_cursors (md_data db')))
      = Some (c_value r) \<and> dt_messages (md_data db') = dt_messages (md_data db)
    \<and> dt_folders (md_data db') = dt_folders (md_data db) \<and> md_now db' = md_now db"
proof -
  let ?P = "cursor_match (c_account_id r) (c_folder_id r) (c_type r)"
  let ?h = "\<lambda>c. if ?P c then c\<lparr>c_value := c_value r, c_updated_at := c_updated_at r\<rparr> else c"
  note run = stmt_Inr [OF assms [unfolded upsert_cursor_row_def Let_def]]
  show ?thesis
  proof (cases "\<exists>c \<in> set (dt_cursors (md_data db)). ?P c")
    case True
    then obtain c where c: "find ?P (dt_cursors (md_data db)) = Some c"
      by (metis find_None_iff not_Some_eq)
    have "?P (?h c) = ?P c" for c
      by (simp add: cursor_match_def)
    with c have "find ?P (map ?h (dt_cursors (md_data db))) = Some (?h c)"
      by (simp add: find_map)
    moreover have "?P c" using c by (auto simp: find_Some_iff)
    moreover have "md_data db' = (md_data db)\<lparr>dt_cursors := map ?h (dt_cursors (md_data db))\<rparr> \<and> md_now db' = md_now db"
      using run True by simp
    ultimately show ?thesis by simp
  next
    case False
    then have "find ?P (dt_cursors (md_data db)) = None"
      by (auto simp: find_None_iff)
    moreover have "?P r" by (simp add: cursor_match_def)
    moreover have "md_data db' = (md_data db)\<lparr>dt_cursors := dt_cursors (md_data db) @ [r]\<rparr> \<and> md_now db' = md_now db"
      using run False by (simp split: if_splits)
    ultimately show ?thesis by (simp add: find_append)
  qed
qed

lemma save_cursor_Inr:
  assumes "save_cursor_row E acc fld p ty v db = (Inr x, db')" "id_value E acc = Inr a" "id_value E fld = Inr f"
  shows "map_option c_value (find (cursor_match a f ty) (dt_cursors (md_data db'))) = Some v
    \<and> dt_messages (md_data db') = dt_messages (md_data db) \<and> dt_folders (md_data db') = dt_folders (md_data db)
    \<and> md_now db' = md_now db"
  using assms by (auto simp: save_cursor_row_def elim!: bindE_InrE dest!: upsert_cursor_Inr new_uuid_Inr)

lemma counts_Inr:
  assumes "update_folder_counts_in_tx E fld db = (Inr x, db')" "id_value E fld = Inr f"
  shows "counts_exact (md_now db) f (md_data db') \<and> dt_messages (md_data db') = dt_messages (md_data db)
    \<and> dt_cursors (md_data db') = dt_cursors (md_data db) \<and> md_now db' = md_now db"
proof -
  from assms obtain t db1 u db2 where
    1: "folder_count f False db = (Inr t, db1)" and 2: "folder_count f True db1 = (Inr u, db2)"
    and 3: "update_folders (\<lambda>r. f_id r = f) (\<lambda>_ r. r\<lparr>f_total := clamp_i32 t, f_unread := clamp_i32 u\<rparr>) db2 = (Inr x, db')"
    by (auto simp: update_folder_counts_in_tx_def elim!: bindE_InrE)
  have t: "t = length (filter (visible_in (md_now db) f) (dt_messages (md_data db)))" "md_data db1 = md_data db" "md_now db1 = md_now db"
    using stmt_Inr [OF 1 [unfolded folder_count_def]] by auto
  have u: "u = length (filter (\<lambda>m. visible_in (md_now db) f m \<and> \<not> m_is_read m) (dt_messages (md_data db)))"
    "md_data db2 = md_data db" "md_now db2 = md_now db"
    using stmt_Inr [OF 2 [unfolded folder_count_def]] t by auto
  have "md_data db' = (md_data db)\<lparr>dt_folders := map (\<lambda>r. if f_id r = f
      then r\<lparr>f_total := clamp_i32 t, f_unread := clamp_i32 u\<rparr>\<lparr>f_updated_at := md_now db\<rparr> else r) (dt_folders (md_data db))\<rparr>"
    "md_now db' = md_now db"
    using modify_Inr [OF 3 [unfolded update_folders_def]] u by auto
  then show ?thesis
    by (simp add: counts_exact_def ball_Un flip: t(1) u(1))
qed

lemma clear_Inr:
  assumes "clear_folder_messages_in_tx E fld db = (Inr x, db')" "id_value E fld = Inr f"
  shows "dt_messages (md_data db') = filter (\<lambda>m. m_folder_id m \<noteq> f) (dt_messages (md_data db)) \<and> md_now db' = md_now db"
  using assms by (auto simp: clear_folder_messages_in_tx_def elim!: bindE_InrE dest!: modify_Inr)

text \<open>Rows carry the folder of their external id (a message moved locally keeps its old external id and
  breaks this until the next sync).\<close>

definition folder_scoped :: "string \<Rightarrow> string \<Rightarrow> string \<Rightarrow> MailData \<Rightarrow> bool" where
  "folder_scoped a fld f d \<longleftrightarrow>
     (\<forall>m \<in> set (dt_messages d). \<forall>uid. mailbox_row a fld uid m \<longrightarrow> m_folder_id m = f)"

lemma mailbox_messages_cong: "dt_messages d = dt_messages d' \<Longrightarrow> mailbox a fld d = mailbox a fld d'"
  by (simp add: mailbox_def)

lemma mailbox_clear:
  assumes "folder_scoped a fld f d"
    and "dt_messages d' = filter (\<lambda>m. m_folder_id m \<noteq> f) (dt_messages d)"
  shows "mailbox a fld d' = Map.empty"
proof
  fix u
  have "find (mailbox_row a fld u) (dt_messages d') = None"
    using assms by (auto simp: find_None_iff folder_scoped_def)
  then show "mailbox a fld d' u = None" by (simp add: mailbox_def)
qed

lemma persist_batch_view:
  assumes "id_value E acc = Inr a" and "id_value E fld = Inr f"
    and "clear \<Longrightarrow> folder_scoped a fld f (md_data db)"
  shows "case persist_imap_folder_batch E acc fld msgs uv lu ms clear db of
      (Inl e, db') \<Rightarrow> md_data db' = md_data db
    | (Inr (n, u), db') \<Rightarrow>
        mailbox a fld (md_data db') = apply_batch clear msgs (mailbox a fld (md_data db)) \<and>
        n = card (im_uid ` set msgs - (if clear then {} else dom (mailbox a fld (md_data db)))) \<and>
        n + u = length msgs \<and>
        stored_cursor a f (md_data db') = Some (format_cursor_value uv lu ms) \<and>
        counts_exact (md_now db) f (md_data db')"
proof (cases "persist_imap_folder_batch E acc fld msgs uv lu ms clear db")
  case (Pair r db')
  show ?thesis
  proof (cases r)
    case (Inl e)
    with Pair show ?thesis
      by (simp add: persist_imap_folder_batch_def in_tx_Inl)
  next
    case (Inr nu)
    obtain n u where nu: "nu = (n, u)" by force
    from Pair Inr nu obtain d0 d1 d2 d3 d4 d5 where d0: "md_data d0 = md_data db" "md_now d0 = md_now db"
      and c: "(if clear then clear_folder_messages_in_tx E fld else okE ()) d0 = (Inr (), d1)"
      and up: "upsert_all E acc fld msgs (0, 0) d1 = (Inr (n, u), d2)"
      and cur: "save_cursor_in_tx E acc fld ''imap'' uv lu ms d2 = (Inr (), d3)"
      and cnt: "update_folder_counts_in_tx E fld d3 = (Inr (), d4)"
      and out: "md_data db' = md_data d4"
      by (auto simp: persist_imap_folder_batch_def elim!: in_tx_Inr bindE_InrE)
    let ?v = "mailbox a fld (md_data db)"
    have v1: "mailbox a fld (md_data d1) = (if clear then Map.empty else ?v)" "md_now d1 = md_now db"
      using c d0 assms(2,3) mailbox_clear [of a fld f "md_data db" "md_data d1"]
      by (auto split: if_splits dest!: clear_Inr)
    note v2 = upsert_all_view [OF up assms(1), unfolded v1]
    note v3 = save_cursor_Inr [OF cur [unfolded save_cursor_in_tx_def] assms(1,2)]
    note v4 = counts_Inr [OF cnt assms(2)]
    have "mailbox a fld (md_data db') = mailbox a fld (md_data d2)"
      using v3 v4 out by (intro mailbox_messages_cong) simp
    moreover have "stored_cursor a f (md_data db') = Some (format_cursor_value uv lu ms)"
      using v3 v4 out by (simp add: stored_cursor_def)
    ultimately show ?thesis
      using v2 v3 v4 out Pair Inr nu by (auto simp: apply_batch_def split: if_splits)
  qed
qed

text \<open>C7: a folder batch is all or nothing and does what it says. If any statement of it fails, no table
  changes. If it returns, the folder seen through its UIDs is the old folder, or the empty one after a
  wipe, updated by the messages of the batch in their order; the two counters are the number of UIDs
  that were not there and the number of the other messages; the stored cursor is the new one; and the
  folder's total and unread counts are those of its visible messages.\<close>

theorem persist_batch_refines:
  assumes "id_value E acc = Inr a" and "id_value E fld = Inr f"
    and "clear \<Longrightarrow> folder_scoped a fld f (md_data db)"
  shows "case persist_imap_folder_batch E acc fld msgs uv lu ms clear db of
      (Inl e, db') \<Rightarrow> md_data db' = md_data db
    | (Inr (n, u), db') \<Rightarrow>
        mailbox a fld (md_data db') = apply_batch clear msgs (mailbox a fld (md_data db)) \<and>
        n = card (im_uid ` set msgs - (if clear then {} else dom (mailbox a fld (md_data db)))) \<and>
        n + u = length msgs \<and>
        stored_cursor a f (md_data db') = Some (format_cursor_value uv lu ms) \<and>
        counts_exact (md_now db) f (md_data db')"
  using assms by (rule persist_batch_view)

theorem persist_batch_refines_witness:
  "\<exists>db'. persist_imap_folder_batch demo_store_env ''acc'' ''0'' [demo_mail 7 ''hi'', demo_mail 9 ''new''] 1 9 5 False demo_inbox
      = (Inr (1, 1), db') \<and> mailbox ''acc'' ''0'' (md_data db')
      = apply_batch False [demo_mail 7 ''hi'', demo_mail 9 ''new''] (mailbox ''acc'' ''0'' (md_data demo_inbox))
    \<and> stored_cursor ''acc'' ''0'' (md_data db') = Some (format_cursor_value 1 9 5)"
proof -
  let ?r = "persist_imap_folder_batch demo_store_env ''acc'' ''0'' [demo_mail 7 ''hi'', demo_mail 9 ''new''] 1 9 5 False demo_inbox"
  have "fst ?r = Inr (1, 1)"
    by code_simp
  then obtain db' where r: "?r = (Inr (1, 1), db')"
    by (metis prod.collapse)
  have i: "id_value demo_store_env ''acc'' = Inr ''acc''" "id_value demo_store_env ''0'' = Inr ''0''"
    by (simp_all add: id_value_def demo_store_env_def)
  show ?thesis
    using persist_batch_refines [OF i, of False demo_inbox "[demo_mail 7 ''hi'', demo_mail 9 ''new'']" 1 9 5] r
    by simp
qed

section \<open>Local state\<close>

text \<open>What a row may not lose when the server's view of it arrives.\<close>

definition keeps_local :: "StoredMessage \<Rightarrow> StoredMessage \<Rightarrow> bool" where
  "keeps_local m m' \<longleftrightarrow> m_id m' = m_id m \<and> m_folder_id m' = m_folder_id m \<and> m_labels m' = m_labels m
     \<and> m_snoozed_until m' = m_snoozed_until m \<and> m_is_deleted m' = m_is_deleted m
     \<and> m_body_text m' = m_body_text m \<and> m_body_html m' = m_body_html m
     \<and> m_raw_blob_path m' = m_raw_blob_path m \<and> m_spam_verdict m' = m_spam_verdict m
     \<and> (\<not> stale_text (m_subject m) \<longrightarrow> m_subject m' = m_subject m)
     \<and> (\<not> stale_text (m_snippet m) \<longrightarrow> m_snippet m' = m_snippet m)
     \<and> (\<not> stale_text (m_from m) \<longrightarrow> m_from m' = m_from m)
     \<and> (\<not> stale_text (m_to m) \<longrightarrow> m_to m' = m_to m)
     \<and> (\<not> stale_text (m_cc m) \<longrightarrow> m_cc m' = m_cc m)
     \<and> (m_date m \<noteq> None \<longrightarrow> m_date m' = m_date m)
     \<and> (m_message_id_header m \<noteq> None \<longrightarrow> m_message_id_header m' = m_message_id_header m)"

definition local_rel :: "MailData \<Rightarrow> MailData \<Rightarrow> bool" where
  "local_rel d d' \<longleftrightarrow> (\<forall>m \<in> set (dt_messages d). \<exists>m' \<in> set (dt_messages d'). keeps_local m m')"

lemma keeps_local_refl: "keeps_local m m"
  by (simp add: keeps_local_def)

lemma keeps_local_trans: "keeps_local m1 m2 \<Longrightarrow> keeps_local m2 m3 \<Longrightarrow> keeps_local m1 m3"
  unfolding keeps_local_def by (metis (no_types, lifting))

interpretation localf: store_frame local_rel
proof
  show "local_rel d d" for d
    using keeps_local_refl by (auto simp: local_rel_def)
  show "local_rel d1 d2 \<Longrightarrow> local_rel d2 d3 \<Longrightarrow> local_rel d1 d3" for d1 d2 d3
    unfolding local_rel_def using keeps_local_trans by meson
qed

lemma fill_in_keeps_local: "keeps_local m (fill_in_on_conflict now r m)"
  by (auto simp: keeps_local_def fill_in_on_conflict_def coalesce_def split: option.splits)

lemma local_map: "(\<And>m. keeps_local m (h m)) \<Longrightarrow> local_rel d (d\<lparr>dt_messages := map h (dt_messages d)\<rparr>)"
  by (auto simp: local_rel_def)

lemma local_insert_message:
  assumes "\<And>g m. oc = Some g \<Longrightarrow> keeps_local m (g m)"
  shows "frames local_rel (insert_message oc r)"
proof -
  have "local_rel d (d\<lparr>dt_messages := map (\<lambda>m. if same_external r m then g m else m) (dt_messages d)\<rparr>)"
    if "oc = Some g" for g d
    using assms that keeps_local_refl by (intro local_map) simp
  moreover have "local_rel d (d\<lparr>dt_messages := dt_messages d @ [r]\<rparr>)" for d
    using keeps_local_refl by (auto simp: local_rel_def)
  ultimately show ?thesis
    unfolding insert_message_def
    by (intro localf.frames_stmt) (simp add: localf.R_refl split: option.split)
qed

lemma local_same_messages: "dt_messages d' = dt_messages d \<Longrightarrow> local_rel d d'"
  using keeps_local_refl by (auto simp: local_rel_def)

lemma local_upsert_message: "frames local_rel (upsert_message_in_tx E a f msg)"
proof -
  have *: "frames local_rel (\<lambda>db. bindE (insert_message (Some (fill_in_on_conflict (md_now db) (r (md_now db)))) (r (md_now db)))
      (\<lambda>_. okE x) db)" for r x
    by (rule localf.frames_now) (intro localf.frames_rules local_insert_message, auto simp: fill_in_keeps_local)
  show ?thesis
    unfolding upsert_message_in_tx_def find_message_id_def Let_def by (intro localf.frames_rules *)
qed

lemma local_upsert_all: "frames local_rel (upsert_all E a f msgs acc)"
  by (induction msgs arbitrary: acc) (auto intro!: localf.frames_rules local_upsert_message)

lemma local_save_cursor: "frames local_rel (save_cursor_row E a f p ty v)"
proof -
  have "frames local_rel (upsert_cursor_row r)" for r
    unfolding upsert_cursor_row_def Let_def by (intro localf.frames_stmt local_same_messages) simp
  then have *: "frames local_rel (\<lambda>db. upsert_cursor_row (r (md_now db)) db)" for r
    by (rule localf.frames_now)
  show ?thesis
    unfolding save_cursor_row_def by (intro localf.frames_rules *)
qed

lemma local_counts: "frames local_rel (update_folder_counts_in_tx E f)"
  unfolding update_folder_counts_in_tx_def folder_count_def update_folders_def
  by (intro localf.frames_rules localf.frames_stmt localf.frames_modify local_same_messages) simp_all


text \<open>The stored message of the demonstration inbox, labelled and snoozed by its user.\<close>

definition demo_local :: StoredMessage where
  "demo_local = (hd (dt_messages (md_data demo_inbox)))\<lparr>m_labels := Some ''work'',
     m_snoozed_until := Some ''2026-02-01 00:00:00''\<rparr>"

definition demo_local_db :: MailDb where
  "demo_local_db = demo_inbox\<lparr>md_data := (md_data demo_inbox)\<lparr>dt_messages := [demo_local]\<rparr>\<rparr>"


section \<open>Reconciliation\<close>

text \<open>A row that reconciliation may delete: live, in the folder, with a UID the server does not list.\<close>

definition gone :: "string \<Rightarrow> string \<Rightarrow> u32 set \<Rightarrow> StoredMessage \<Rightarrow> bool" where
  "gone a f uids m \<longleftrightarrow> m_account_id m = a \<and> m_folder_id m = f \<and> \<not> m_is_deleted m
     \<and> (case parse_imap_uid (m_external_id m) of Inl _ \<Rightarrow> False | Inr uid \<Rightarrow> uid \<notin> uids)"

lemma query_keeps: "query q db = (r, db1) \<Longrightarrow> md_data db1 = md_data db"
  using query_data [of q db] by simp

lemma stale_ids_gone:
  "stale_imap_row_ids (map (\<lambda>m. (m_id m, m_external_id m))
      (filter (\<lambda>m. m_account_id m = a \<and> m_folder_id m = f \<and> \<not> m_is_deleted m) ms)) uids
    = map m_id (filter (gone a f uids) ms)"
  by (induction ms) (auto simp: stale_imap_row_ids_def gone_def List.map_filter_simps split: sum.splits)

lemma id_values_id: "(\<And>i. i \<in> set is \<Longrightarrow> id_value E i = Inr i) \<Longrightarrow> id_values E is = Inr is"
  by (induction "is") auto

lemma reconcile_rows:
  assumes "distinct (map m_id (dt_messages (md_data db)))" and "id_value E acc = Inr a" and "id_value E fld = Inr f"
    and "\<And>m. m \<in> set (dt_messages (md_data db)) \<Longrightarrow> id_value E (m_id m) = Inr (m_id m)"
  shows "case reconcile_folder_deletions E acc fld uids db of
      (Inl e, db') \<Rightarrow> md_data db' = md_data db
    | (Inr n, db') \<Rightarrow>
        dt_messages (md_data db') =
          map (\<lambda>m. if gone a f uids m then m\<lparr>m_is_deleted := True\<rparr> else m) (dt_messages (md_data db)) \<and>
        n = length (filter (gone a f uids) (dt_messages (md_data db))) \<and>
        dt_cursors (md_data db') = dt_cursors (md_data db)"
proof -
  let ?ms = "dt_messages (md_data db)"
  let ?stale = "map m_id (filter (gone a f uids) ?ms)"
  let ?del = "\<lambda>m. if m_id m \<in> set ?stale then m\<lparr>m_is_deleted := True\<rparr> else m"
  let ?tx = "in_tx (bindE (modify (\<lambda>now d. d\<lparr>dt_messages := map ?del (dt_messages d)\<rparr>)) (\<lambda>_. update_folder_counts_in_tx E fld))"
  obtain r db1 where q: "query (\<lambda>d. map (\<lambda>m. (m_id m, m_external_id m))
      (filter (\<lambda>m. m_account_id m = a \<and> m_folder_id m = f \<and> \<not> m_is_deleted m) (dt_messages d))) db = (r, db1)"
    by force
  have d1: "md_data db1 = md_data db"
    using query_keeps [OF q] .
  have ids: "id_values E ?stale = Inr ?stale"
    using assms(4) by (intro id_values_id) auto
  have inj: "inj_on m_id (set ?ms)"
    using assms(1) by (simp add: distinct_map)
  have del: "map ?del ?ms = map (\<lambda>m. if gone a f uids m then m\<lparr>m_is_deleted := True\<rparr> else m) ?ms"
  proof (rule map_cong [OF refl])
    fix m assume m: "m \<in> set ?ms"
    have "m_id m \<in> m_id ` {x \<in> set ?ms. gone a f uids x} \<longleftrightarrow> m \<in> {x \<in> set ?ms. gone a f uids x}"
      by (rule inj_on_image_mem_iff [OF inj m]) blast
    then have "m_id m \<in> set ?stale \<longleftrightarrow> gone a f uids m"
      using m by simp
    then show "?del m = (if gone a f uids m then m\<lparr>m_is_deleted := True\<rparr> else m)" by simp
  qed
  show ?thesis
  proof (cases r)
    case (Inl e)
    with q assms(2,3) d1 show ?thesis by (simp add: reconcile_folder_deletions_def Let_def)
  next
    case (Inr rows)
    then have rows: "stale_imap_row_ids rows uids = ?stale"
      using query_Inr [OF q [unfolded Inr]] by (simp only: stale_ids_gone)
    have run: "reconcile_folder_deletions E acc fld uids db =
      (if ?stale = [] then (Inr 0, db1) else bindE ?tx (\<lambda>_. okE (length ?stale)) db1)"
      using q Inr assms(2,3) ids by (simp add: reconcile_folder_deletions_def Let_def rows del: map_is_Nil_conv set_map length_map)
    show ?thesis
    proof (cases "?stale = []")
      case True
      then have "\<forall>m \<in> set ?ms. \<not> gone a f uids m" by (auto simp: filter_empty_conv)
      with run True d1 show ?thesis by (simp add: map_idI)
    next
      case False
      obtain t db2 where tx: "?tx db1 = (t, db2)" by force
      show ?thesis
      proof (cases t)
        case (Inl e)
        then have "md_data db2 = md_data db" using in_tx_Inl [OF tx [unfolded Inl]] d1 by (simp only:)
        with run False tx Inl show ?thesis by (simp del: map_is_Nil_conv set_map)
      next
        case (Inr x)
        with tx obtain db3 db4 db5 where 3: "md_data db3 = md_data db" "md_data db2 = md_data db5"
          "modify (\<lambda>now d. d\<lparr>dt_messages := map ?del (dt_messages d)\<rparr>) db3 = (Inr (), db4)"
          "update_folder_counts_in_tx E fld db4 = (Inr x, db5)"
          using d1 by (auto elim!: in_tx_Inr bindE_InrE simp del: set_map)
        have "dt_messages (md_data db2) = map ?del ?ms" "dt_cursors (md_data db2) = dt_cursors (md_data db)"
          using modify_Inr [OF 3(3)] counts_Inr [OF 3(4) assms(3)] 3(1,2) by (simp_all del: set_map)
        with run False tx Inr del show ?thesis by (simp del: map_is_Nil_conv set_map)
      qed
    qed
  qed
qed

text \<open>Reconciliation deletes exactly the ghosts: given the complete listing of the folder's UIDs, it
  either changes nothing or soft-deletes precisely the live rows of that account and folder whose UID
  the server no longer lists, reports how many they are, and leaves every other row, every cursor and
  every row without a UID (a draft not uploaded yet) as they were.\<close>

theorem reconcile_exact:
  assumes "store_ok (md_data db)" and "id_value E acc = Inr a" and "id_value E fld = Inr f"
    and "\<And>m. m \<in> set (dt_messages (md_data db)) \<Longrightarrow> id_value E (m_id m) = Inr (m_id m)"
  shows "case reconcile_folder_deletions E acc fld uids db of
      (Inl e, db') \<Rightarrow> md_data db' = md_data db
    | (Inr n, db') \<Rightarrow>
        dt_messages (md_data db') =
          map (\<lambda>m. if gone a f uids m then m\<lparr>m_is_deleted := True\<rparr> else m) (dt_messages (md_data db)) \<and>
        n = length (filter (gone a f uids) (dt_messages (md_data db))) \<and>
        dt_cursors (md_data db') = dt_cursors (md_data db)"
  using assms by (intro reconcile_rows) (simp_all add: store_ok_def messages_ok_def)

theorem reconcile_exact_witness:
  "case reconcile_folder_deletions demo_store_env ''acc'' ''0'' {9} demo_inbox of
      (Inl e, db') \<Rightarrow> md_data db' = md_data demo_inbox
    | (Inr n, db') \<Rightarrow>
        dt_messages (md_data db') = map (\<lambda>m. if gone ''acc'' ''0'' {9} m then m\<lparr>m_is_deleted := True\<rparr> else m)
          (dt_messages (md_data demo_inbox)) \<and>
        n = length (filter (gone ''acc'' ''0'' {9}) (dt_messages (md_data demo_inbox))) \<and>
        dt_cursors (md_data db') = dt_cursors (md_data demo_inbox)"
proof (rule reconcile_exact)
  show "store_ok (md_data demo_inbox)"
    by code_simp
qed (simp_all add: id_value_def demo_store_env_def)

end
