(* ===== verification/Lyra_ImapSync.thy ===== *)
theory Lyra_ImapSync
  imports Lyra_Imap Lyra_Netsec Lyra_StoreLaws
begin

text \<open>
  The IMAP pass of \<^verbatim>\<open>sync/imap_loop.rs\<close>: connect, mirror the folder list, then for each folder select it,
  repair undecodable rows, reconcile deletions against the server's UID list, and fetch new and changed
  messages in chunks that are persisted as they arrive.

  The pass runs on the mail store of \<^verbatim>\<open>Lyra_Store\<close> and the connection of \<^verbatim>\<open>Lyra_Imap\<close> together. Errors of
  the connection are soft for a folder or end the pass; errors of the store end it.
\<close>

section \<open>The pass\<close>

record 's SyncWorld =
  sw_db :: MailDb
  sw_conn :: "'s Conn"

definition on_db :: "(MailDb, 'e, 'a) eff \<Rightarrow> ('s SyncWorld, 'e, 'a) eff" where
  "on_db f w = (case f (sw_db w) of (r, d) \<Rightarrow> (r, w\<lparr>sw_db := d\<rparr>))"

definition on_imap :: "('s Conn, 'e, 'a) eff \<Rightarrow> ('s SyncWorld, 'e, 'a) eff" where
  "on_imap f w = (case f (sw_conn w) of (r, c) \<Rightarrow> (r, w\<lparr>sw_conn := c\<rparr>))"

record AccountSyncRow =
  as_email_address :: string
  as_imap_host :: "string option"
  as_imap_port :: "int option"
  as_imap_security :: "string option"

record SyncResponse =
  rs_account_id :: string
  rs_status :: string
  rs_folders_synced :: nat
  rs_messages_synced :: nat
  rs_messages_updated :: nat
  rs_messages_deleted :: nat

fun session_may_be_poisoned :: "ImapError \<Rightarrow> bool" where
  "session_may_be_poisoned ImapTimeout = True"
| "session_may_be_poisoned (ImapImap e) = True"
| "session_may_be_poisoned (ImapConnection e) = True"
| "session_may_be_poisoned (ImapTls e) = True"
| "session_may_be_poisoned (ImapLogin e) = False"
| "session_may_be_poisoned (ImapProtocol e) = False"
| "session_may_be_poisoned (ImapCrypto e) = False"

definition repair_folder_mojibake ::
  "StoreEnv \<Rightarrow> 's ImapServer \<Rightarrow> string \<Rightarrow> string \<Rightarrow> ('s SyncWorld, SyncError, nat) eff" where
  "repair_folder_mojibake E V account_id folder_id =
     bindE (on_db (mojibake_message_uids E folder_id 200)) (\<lambda>uids.
       if uids = [] then okE 0
       else bindE (map_errE ImapErr (on_imap (fetch_metadata V uids))) (\<lambda>fetched.
         if fetched = [] then okE 0
         else on_db (repair_imap_messages E account_id folder_id fetched)))"

text \<open>The listing and the reconciliation, whose failures are only logged; the count of deletions.\<close>

definition reconcile_vanished ::
  "StoreEnv \<Rightarrow> 's ImapServer \<Rightarrow> string \<Rightarrow> string \<Rightarrow> 's SyncWorld \<Rightarrow> nat \<times> 's SyncWorld" where
  "reconcile_vanished E V account_id folder_id w =
     (case on_imap (search_uids V None) w of
        (Inl err, w1) \<Rightarrow> (0, w1)
      | (Inr server_uids, w1) \<Rightarrow>
          (case on_db (reconcile_folder_deletions E account_id folder_id (set server_uids)) w1 of
             (Inl err, w2) \<Rightarrow> (0, w2)
           | (Inr n, w2) \<Rightarrow> (n, w2)))"

text \<open>How a folder ends: the pass goes on, or a poisoned session ends it (\<^verbatim>\<open>break 'folder\<close>).\<close>

datatype FolderEnd = NextFolder | EndPass ImapError

definition skip_or_end :: "ImapError \<Rightarrow> FolderEnd" where
  "skip_or_end err = (if session_may_be_poisoned err then EndPass err else NextFolder)"

text \<open>\<^verbatim>\<open>iter().map(|m| m.uid).max().unwrap_or(0)\<close>.\<close>

definition max_uid :: "ImapMessage list \<Rightarrow> u32" where
  "max_uid msgs = fold (\<lambda>m u. max u (im_uid m)) msgs 0"

text \<open>The loop \<^verbatim>\<open>'chunks\<close>: the cursor, whether the old rows were cleared, and the counts so far; it ends
  with the error that poisons the session, if one does.\<close>

fun sync_chunks ::
  "StoreEnv \<Rightarrow> 's ImapServer \<Rightarrow> string \<Rightarrow> string \<Rightarrow> u32 \<Rightarrow> u64 \<Rightarrow> bool \<Rightarrow> u32 list list \<Rightarrow> u32 \<Rightarrow> bool \<Rightarrow> nat \<times> nat \<Rightarrow>
     ('s SyncWorld, SyncError, FolderEnd \<times> u32 \<times> bool \<times> nat \<times> nat) eff" where
  "sync_chunks E V account_id folder_id uid_validity new_modseq changed [] chunk_cursor cleared tot =
     okE (NextFolder, chunk_cursor, cleared, tot)"
| "sync_chunks E V account_id folder_id uid_validity new_modseq changed (chunk # chunks) chunk_cursor cleared tot =
     (\<lambda>w. case on_imap (fetch_metadata V chunk) w of
        (Inl err, w1) \<Rightarrow> (Inr (skip_or_end err, chunk_cursor, cleared, tot), w1)
      | (Inr msgs, w1) \<Rightarrow>
          if msgs = []
          then sync_chunks E V account_id folder_id uid_validity new_modseq changed chunks chunk_cursor cleared tot w1
          else (let cursor' = max chunk_cursor (max_uid msgs)
                in bindE (on_db (persist_imap_folder_batch E account_id folder_id msgs uid_validity cursor'
                     new_modseq (changed \<and> \<not> cleared))) (\<lambda>(n, u).
                   sync_chunks E V account_id folder_id uid_validity new_modseq changed chunks cursor' True
                     (fst tot + n, snd tot + u)) w1))"

text \<open>After the chunks: the changed messages, or only the new cursor.\<close>

definition finish_folder ::
  "StoreEnv \<Rightarrow> string \<Rightarrow> string \<Rightarrow> u32 \<Rightarrow> u64 \<Rightarrow> u64 \<Rightarrow> bool \<Rightarrow> ImapMessage list \<Rightarrow> u32 \<Rightarrow> bool \<Rightarrow> nat \<times> nat \<Rightarrow>
     (MailDb, SyncError, nat \<times> nat) eff" where
  "finish_folder E account_id folder_id uid_validity new_modseq stored_modseq changed messages chunk_cursor cleared tot =
     (if messages = []
      then if changed \<and> \<not> cleared
           then bindE (persist_imap_folder_batch E account_id folder_id [] uid_validity 0 new_modseq True)
                  (\<lambda>_. okE tot)
           else if stored_modseq < new_modseq
           then bindE (persist_imap_folder_batch E account_id folder_id [] uid_validity chunk_cursor new_modseq False)
                  (\<lambda>_. okE tot)
           else okE tot
      else bindE (persist_imap_folder_batch E account_id folder_id messages uid_validity
             (max (max_uid messages) chunk_cursor) new_modseq changed)
             (\<lambda>(n, u). okE (fst tot + n, snd tot + u)))"

text \<open>From the cursor on: the search for new UIDs, the changed messages, the chunks and the end.\<close>

definition sync_messages ::
  "StoreEnv \<Rightarrow> 's ImapServer \<Rightarrow> string \<Rightarrow> string \<Rightarrow> ImapSelectResult \<Rightarrow> SyncCursorInfo option \<Rightarrow>
     ('s SyncWorld, SyncError, FolderEnd \<times> nat \<times> nat) eff" where
  "sync_messages E V account_id folder_id sel cursor w =
     (let uid_validity = sr_uid_validity sel;
          highest_modseq = (case sr_highest_modseq sel of Some h \<Rightarrow> h | None \<Rightarrow> 0);
          changed = (case cursor of None \<Rightarrow> False | Some c \<Rightarrow> ci_uid_validity c \<noteq> uid_validity);
          after_uid = (if changed then None else map_option ci_last_uid cursor);
          stored_modseq = (if changed then 0 else case cursor of None \<Rightarrow> 0 | Some c \<Rightarrow> ci_last_modseq c)
      in case on_imap (search_uids V after_uid) w of
           (Inl err, w1) \<Rightarrow> (Inr (skip_or_end err, 0, 0), w1)
         | (Inr new_uids, w1) \<Rightarrow>
             (case (if supports_condstore (co_client (sw_conn w1)) \<and> 0 < stored_modseq
                    then on_imap (fetch_changed_since V stored_modseq) w1 else (Inr [], w1)) of
                (Inl err, w2) \<Rightarrow> (Inr (skip_or_end err, 0, 0), w2)
              | (Inr messages, w2) \<Rightarrow>
                  (let fetch_uids = filter (\<lambda>uid. uid \<notin> set (map im_uid messages)) new_uids;
                       new_modseq = (if supports_condstore (co_client (sw_conn w2)) \<and> 0 < highest_modseq
                                     then highest_modseq else 0);
                       start = (case cursor of None \<Rightarrow> 0 | Some c \<Rightarrow> ci_last_uid c)
                   in bindE (sync_chunks E V account_id folder_id uid_validity new_modseq changed
                               (chunks_of METADATA_CHUNK fetch_uids) start False (0, 0))
                        (\<lambda>(fin, chunk_cursor, cleared, tot).
                           case fin of
                             EndPass err \<Rightarrow> okE (EndPass err, tot)
                           | NextFolder \<Rightarrow>
                               bindE (on_db (finish_folder E account_id folder_id uid_validity new_modseq
                                        stored_modseq changed messages chunk_cursor cleared tot))
                                 (\<lambda>tot. okE (NextFolder, tot))) w2)))"

text \<open>One turn of the loop \<^verbatim>\<open>'folder\<close>; the counts are new, updated and deleted messages.\<close>

definition sync_folder ::
  "StoreEnv \<Rightarrow> 's ImapServer \<Rightarrow> string \<Rightarrow> ImapFolder \<Rightarrow>
     ('s SyncWorld, SyncError, FolderEnd \<times> nat \<times> nat \<times> nat) eff" where
  "sync_folder E V account_id folder =
     (if list_ex (\<lambda>a. contains_str a ''Noselect'') (fo_attributes folder)
      then okE (NextFolder, 0, 0, 0)
      else bindE (on_db (get_folder_id E account_id (fo_name folder))) (\<lambda>folder_id w.
        case on_imap (select V (fo_name folder)) w of
          (Inl err, w1) \<Rightarrow> (Inr (skip_or_end err, 0, 0, 0), w1)
        | (Inr sel, w1) \<Rightarrow>
            (case reconcile_vanished E V account_id folder_id
                    (snd (repair_folder_mojibake E V account_id folder_id w1)) of
               (deleted, w2) \<Rightarrow>
                 bindE (on_db (load_cursor E account_id folder_id)) (\<lambda>cursor.
                 bindE (sync_messages E V account_id folder_id sel cursor) (\<lambda>(fin, n, u).
                   okE (fin, n, u, deleted))) w2)))"

fun sync_folders ::
  "StoreEnv \<Rightarrow> 's ImapServer \<Rightarrow> string \<Rightarrow> ImapFolder list \<Rightarrow> nat \<times> nat \<times> nat \<Rightarrow>
     ('s SyncWorld, SyncError, ImapError option \<times> nat \<times> nat \<times> nat) eff" where
  "sync_folders E V account_id [] tot = okE (None, tot)"
| "sync_folders E V account_id (folder # folders) tot =
     bindE (sync_folder E V account_id folder) (\<lambda>(fin, n, u, d).
       let tot' = (fst tot + n, fst (snd tot) + u, snd (snd tot) + d)
       in case fin of
            EndPass err \<Rightarrow> okE (Some err, tot')
          | NextFolder \<Rightarrow> sync_folders E V account_id folders tot')"

fun upsert_folders ::
  "StoreEnv \<Rightarrow> string \<Rightarrow> ImapFolder list \<Rightarrow> (MailDb, SyncError, nat) eff" where
  "upsert_folders E account_id [] = okE 0"
| "upsert_folders E account_id (folder # folders) =
     bindE (upsert_folder E account_id (fo_name folder) (fo_delimiter folder) (fo_attributes folder)) (\<lambda>_.
     bindE (upsert_folders E account_id folders) (\<lambda>n. okE (Suc n)))"

definition imap_config_of :: "AccountSyncRow \<Rightarrow> string \<Rightarrow> bool \<Rightarrow> SyncError + ImapConfig" where
  "imap_config_of row password xoauth2 =
     (case as_imap_host row of
        None \<Rightarrow> Inl (CryptoErr ''IMAP host not configured'')
      | Some host \<Rightarrow>
          (let p = (case as_imap_port row of Some p \<Rightarrow> p | None \<Rightarrow> 993);
               port = (if 0 \<le> p \<and> p \<le> 65535 then nat p else 993)
           in case (case as_imap_security row of
                      None \<Rightarrow> Inr SecTls
                    | Some s \<Rightarrow>
                        (case normalize_security_mode s of
                           Inl e \<Rightarrow> Inl (InvalidInput e)
                         | Inr m \<Rightarrow> Inr (if m = ''starttls'' then SecStarttls else SecTls))) of
                Inl e \<Rightarrow> Inl e
              | Inr security \<Rightarrow>
                  Inr \<lparr>ic_host = host, ic_port = port, ic_security = security,
                       ic_username = as_email_address row, ic_password = password, ic_xoauth2 = xoauth2\<rparr>))"

text \<open>The pass on a connection that stands.\<close>

definition sync_session ::
  "StoreEnv \<Rightarrow> 's ImapServer \<Rightarrow> string \<Rightarrow> ('s SyncWorld, SyncError, SyncResponse) eff" where
  "sync_session E V account_id =
     bindE (map_errE ImapErr (on_imap (list_folders V))) (\<lambda>listed.
     let folders = sort_key (\<lambda>f. imap_folder_depth (fo_name f) (fo_delimiter f)) listed
     in bindE (on_db (upsert_folders E account_id folders)) (\<lambda>folders_synced.
        bindE (sync_folders E V account_id folders (0, 0, 0)) (\<lambda>(poison, n, u, d) w.
          let w1 = snd (on_imap (logout V) w)
          in case poison of
               Some err \<Rightarrow> (Inl (ImapErr err), w1)
             | None \<Rightarrow>
                 (Inr \<lparr>rs_account_id = account_id, rs_status = ''completed'', rs_folders_synced = folders_synced,
                       rs_messages_synced = n, rs_messages_updated = u, rs_messages_deleted = d\<rparr>, w1))))"

definition run_imap_sync ::
  "StoreEnv \<Rightarrow> 's ImapServer \<Rightarrow> string \<Rightarrow> AccountSyncRow \<Rightarrow> string \<Rightarrow> bool \<Rightarrow> MailDb \<times> 's \<Rightarrow>
     (SyncError + SyncResponse) \<times> MailDb \<times> 's" where
  "run_imap_sync E V account_id row password xoauth2 = (\<lambda>(db, s).
     case imap_config_of row password xoauth2 of
       Inl e \<Rightarrow> (Inl e, db, s)
     | Inr config \<Rightarrow>
         (case connect V config s of
            (Inl e, s1) \<Rightarrow> (Inl (ImapErr e), db, s1)
          | (Inr conn, s1) \<Rightarrow>
              (case sync_session E V account_id \<lparr>sw_db = db, sw_conn = conn\<rparr> of
                 (r, w) \<Rightarrow> (r, sw_db w, co_server (sw_conn w)))))"

definition outcome_from_response :: "SyncResponse \<Rightarrow> SyncOutcome" where
  "outcome_from_response result =
     (let clamp = (\<lambda>n. if int n \<le> u32_max then n else nat u32_max)
      in \<lparr>folders_synced = clamp (rs_folders_synced result),
          messages_synced = clamp (rs_messages_synced result)\<rparr>)"

section \<open>Frames over store and connection\<close>

text \<open>The relations on the tables, for computations on store and connection.\<close>

abbreviation wframes :: "(MailData \<Rightarrow> MailData \<Rightarrow> bool) \<Rightarrow> ('s SyncWorld, 'e, 'a) eff \<Rightarrow> bool" where
  "wframes \<equiv> pframes (\<lambda>w. md_data (sw_db w))"

lemma wframes_on_db: "frames R m \<Longrightarrow> wframes R (on_db m)"
  by (auto simp: pframes_def frames_def on_db_def split: prod.split) (metis snd_conv)

lemma timed_Inr: "timed cmd c = (Inr x, c') \<Longrightarrow> cmd (co_server c) = (Answer x, co_server c') \<and> co_client c' = co_client c"
  by (auto simp: timed_def split: prod.splits Reply.splits)

context store_frame
begin

lemma wframes_on_imap: "wframes R (on_imap f)"
  by (auto simp: pframes_def on_imap_def R_refl split: prod.split)

lemmas wframes_rules = wframes_on_imap pframes_rules

end


section \<open>No mail is lost\<close>

text \<open>The server answered a complete UID listing that lacks the row's UID.\<close>

definition listed_without :: "'s ImapServer \<Rightarrow> StoredMessage \<Rightarrow> bool" where
  "listed_without V m \<longleftrightarrow> (\<exists>s uids s' uid. sv_uid_search V ''1:*'' s = (Answer uids, s')
     \<and> parse_imap_uid (m_external_id m) = Inr uid \<and> uid \<notin> set uids)"

definition survives :: "'s ImapServer \<Rightarrow> StoredMessage \<Rightarrow> StoredMessage \<Rightarrow> bool" where
  "survives V m m' \<longleftrightarrow> m_id m' = m_id m \<and> m_account_id m' = m_account_id m \<and> m_folder_id m' = m_folder_id m
     \<and> m_external_id m' = m_external_id m \<and> (m_is_deleted m' \<longrightarrow> m_is_deleted m \<or> listed_without V m)"

text \<open>The ids of the rows are distinct and in the form the backend binds them.\<close>

definition good_ids :: "StoreEnv \<Rightarrow> MailData \<Rightarrow> bool" where
  "good_ids E d \<longleftrightarrow> distinct (map m_id (dt_messages d)) \<and> (\<forall>m \<in> set (dt_messages d). id_value E (m_id m) = Inr (m_id m))"

text \<open>\<open>X\<close> is the set of folders that may be cleared.\<close>

definition kept_rel :: "StoreEnv \<Rightarrow> 's ImapServer \<Rightarrow> string set \<Rightarrow> MailData \<Rightarrow> MailData \<Rightarrow> bool" where
  "kept_rel E V X d d' \<longleftrightarrow> (good_ids E d \<longrightarrow> good_ids E d' \<and>
     (\<forall>m \<in> set (dt_messages d). m_folder_id m \<in> X \<or> (\<exists>m' \<in> set (dt_messages d'). survives V m m')))"

lemma survives_refl: "survives V m m"
  by (simp add: survives_def)

lemma survives_trans: "survives V m1 m2 \<Longrightarrow> survives V m2 m3 \<Longrightarrow> survives V m1 m3"
  by (auto simp: survives_def listed_without_def)

interpretation keptf: store_frame "kept_rel E V X" for E V X
proof
  show "kept_rel E V X d d" for d
    using survives_refl by (auto simp: kept_rel_def)
  show "kept_rel E V X d1 d2 \<Longrightarrow> kept_rel E V X d2 d3 \<Longrightarrow> kept_rel E V X d1 d3" for d1 d2 d3
    unfolding kept_rel_def using survives_trans by (metis survives_def)
qed

lemma kept_same: "dt_messages d' = dt_messages d \<Longrightarrow> kept_rel E V X d d'"
  using survives_refl by (auto simp: kept_rel_def good_ids_def)

lemma kept_map:
  assumes "\<And>m. m \<in> set (dt_messages d) \<Longrightarrow> survives V m (g m)"
  shows "kept_rel E V X d (d\<lparr>dt_messages := map g (dt_messages d)\<rparr>)"
proof -
  have ids: "map m_id (map g (dt_messages d)) = map m_id (dt_messages d)"
    using assms by (simp add: survives_def)
  have "good_ids E (d\<lparr>dt_messages := map g (dt_messages d)\<rparr>) = good_ids E d"
    using assms by (simp add: good_ids_def survives_def ids del: map_map)
  then show ?thesis using assms by (auto simp: kept_rel_def)
qed

lemma kept_append:
  assumes "m_id r \<notin> m_id ` set (dt_messages d)" and "id_value E (m_id r) = Inr (m_id r)"
  shows "kept_rel E V X d (d\<lparr>dt_messages := dt_messages d @ [r]\<rparr>)"
  using assms by (auto simp: kept_rel_def good_ids_def intro: survives_refl)

lemma kept_filter: "f \<in> X \<Longrightarrow> kept_rel E V X d (d\<lparr>dt_messages := filter (\<lambda>m. m_folder_id m \<noteq> f) (dt_messages d)\<rparr>)"
  using survives_refl by (auto simp: kept_rel_def good_ids_def distinct_map_filter)

lemma fill_in_survives: "survives V m (fill_in_on_conflict now r m)"
  by (simp add: survives_def fill_in_on_conflict_def)

lemma kept_insert:
  assumes "id_value E (m_id r) = Inr (m_id r)"
  shows "frames (kept_rel E V X) (insert_message (Some (fill_in_on_conflict now r)) r)"
proof -
  have "kept_rel E V X d (d\<lparr>dt_messages := map (\<lambda>m. if same_external r m then fill_in_on_conflict now r m else m) (dt_messages d)\<rparr>)" for d
    by (rule kept_map) (simp add: survives_refl fill_in_survives)
  then show ?thesis
    unfolding insert_message_def
    by (intro keptf.frames_stmt) (simp add: keptf.R_refl kept_append assms)
qed

text \<open>Binding an id twice is binding it once: \<^verbatim>\<open>Uuid::parse_str\<close> of a UUID's own text.\<close>

definition id_value_idem :: "StoreEnv \<Rightarrow> bool" where
  "id_value_idem E \<longleftrightarrow> (\<forall>i v. id_value E i = Inr v \<longrightarrow> id_value E v = Inr v)"

lemma kept_upsert_message:
  assumes "id_value_idem E"
  shows "frames (kept_rel E V X) (upsert_message_in_tx E a f msg)"
proof -
  have *: "frames (kept_rel E V X) (\<lambda>db. bindE (insert_message (Some (fill_in_on_conflict (md_now db) (r (md_now db)))) (r (md_now db)))
      (\<lambda>_. okE x) db)" if "\<And>now. id_value E (m_id (r now)) = Inr (m_id (r now))" for r x
    by (rule keptf.frames_now) (rule keptf.frames_bindE [OF kept_insert [OF that] keptf.frames_okE])
  have i: "id_value E v = Inr v" if "id_value E j = Inr v" for j v
    using assms that unfolding id_value_idem_def by blast
  show ?thesis
    unfolding upsert_message_in_tx_def find_message_id_def Let_def
    by (rule keptf.frames_bindE, intro keptf.frames_rules, rule keptf.frames_bindE, rule keptf.frames_new_uuid,
        (rule keptf.frames_ofE_bind)+, rule *)
       (simp only: message_insert_def imap_insert_def StoredMessage.select_convs MessageInsert.select_convs, erule i)
qed

lemma kept_upsert_all: "id_value_idem E \<Longrightarrow> frames (kept_rel E V X) (upsert_all E a f msgs acc)"
  by (induction msgs arbitrary: acc) (auto intro!: keptf.frames_rules kept_upsert_message)

lemma kept_save_cursor: "frames (kept_rel E V X) (save_cursor_row E a f p ty v)"
proof -
  have "frames (kept_rel E V X) (upsert_cursor_row r)" for r
    unfolding upsert_cursor_row_def Let_def by (intro keptf.frames_stmt kept_same) simp
  then have *: "frames (kept_rel E V X) (\<lambda>db. upsert_cursor_row (r (md_now db)) db)" for r
    by (rule keptf.frames_now)
  show ?thesis
    unfolding save_cursor_row_def by (intro keptf.frames_rules *)
qed

lemma kept_counts: "frames (kept_rel E V X) (update_folder_counts_in_tx E f)"
  unfolding update_folder_counts_in_tx_def folder_count_def update_folders_def
  by (intro keptf.frames_rules keptf.frames_stmt keptf.frames_modify kept_same) simp_all

lemma kept_clear:
  assumes "\<And>f. id_value E fld = Inr f \<Longrightarrow> f \<in> X"
  shows "frames (kept_rel E V X) (clear_folder_messages_in_tx E fld)"
  unfolding clear_folder_messages_in_tx_def
  by (intro keptf.frames_ofE_bind keptf.frames_bindE keptf.frames_modify kept_filter) (simp_all add: assms kept_same)

lemma kept_persist:
  assumes "id_value_idem E" and "\<And>f. cl \<Longrightarrow> id_value E fld = Inr f \<Longrightarrow> f \<in> X"
  shows "frames (kept_rel E V X) (persist_imap_folder_batch E acc fld msgs uv lu ms cl)"
proof -
  have "frames (kept_rel E V X) (if cl then clear_folder_messages_in_tx E fld else okE ())"
    using assms(2) by (simp add: kept_clear keptf.frames_okE)
  then show ?thesis
    unfolding persist_imap_folder_batch_def save_cursor_in_tx_def
    by (intro keptf.frames_rules kept_upsert_all kept_save_cursor kept_counts assms(1))
qed

lemma kept_repair:
  assumes "id_value_idem E"
  shows "frames (kept_rel E V X) (repair_imap_messages E acc fld msgs)"
proof -
  have "frames (kept_rel E V X) (modify (\<lambda>now d. d\<lparr>dt_messages :=
      map (\<lambda>m. if P m then m\<lparr>m_body_text := None, m_body_html := None\<rparr> else m) (dt_messages d)\<rparr>))" for P
    by (intro keptf.frames_modify kept_map) (simp add: survives_def)
  then show ?thesis
    unfolding repair_imap_messages_def
    by (intro keptf.frames_rules kept_upsert_all kept_counts assms)
qed


lemma kept_reconcile:
  assumes "sv_uid_search V ''1:*'' s = (Answer uids, s')"
  shows "frames (kept_rel E V X) (reconcile_folder_deletions E acc fld (set uids))"
  unfolding frames_def
proof
  fix db
  let ?run = "reconcile_folder_deletions E acc fld (set uids) db"
  obtain r db' where run: "?run = (r, db')" by force
  have gone: "listed_without V m" if "gone a f (set uids) m" for a f m
    using that assms unfolding gone_def listed_without_def by (auto split: sum.splits)
  have "kept_rel E V X (md_data db) (md_data db')" if "good_ids E (md_data db)"
  proof (cases "\<exists>a f. id_value E acc = Inr a \<and> id_value E fld = Inr f")
    case True
    then obtain a f where i: "id_value E acc = Inr a" "id_value E fld = Inr f" by blast
    have rows: "case ?run of (Inl e, db') \<Rightarrow> md_data db' = md_data db
      | (Inr n, db') \<Rightarrow> dt_messages (md_data db') =
          map (\<lambda>m. if gone a f (set uids) m then m\<lparr>m_is_deleted := True\<rparr> else m) (dt_messages (md_data db)) \<and>
          n = length (filter (gone a f (set uids)) (dt_messages (md_data db))) \<and>
          dt_cursors (md_data db') = dt_cursors (md_data db)"
      using that i by (intro reconcile_rows) (simp_all add: good_ids_def)
    show ?thesis
    proof (cases r)
      case (Inl e)
      with rows run show ?thesis by (simp add: keptf.R_refl)
    next
      case (Inr n)
      let ?g = "\<lambda>m. if gone a f (set uids) m then m\<lparr>m_is_deleted := True\<rparr> else m"
      have "dt_messages (md_data db') = map ?g (dt_messages (md_data db))"
        using rows run Inr by simp
      moreover have "kept_rel E V X (md_data db) ((md_data db)\<lparr>dt_messages := map ?g (dt_messages (md_data db))\<rparr>)"
        by (rule kept_map) (auto simp: survives_def gone)
      ultimately show ?thesis
        by (simp add: kept_rel_def good_ids_def)
    qed
  next
    case False
    with run have "db' = db"
      by (cases "id_value E acc"; cases "id_value E fld") (auto simp: reconcile_folder_deletions_def bindE_def)
    then show ?thesis by (simp add: keptf.R_refl)
  qed
  then show "kept_rel E V X (md_data db) (md_data (snd ?run))"
    unfolding run by (auto simp: kept_rel_def)
qed

lemma kept_vanished: "kept_rel E V X (md_data (sw_db w)) (md_data (sw_db (snd (reconcile_vanished E V acc fld w))))"
proof -
  obtain r w1 where s: "on_imap (search_uids V None) w = (r, w1)" by force
  have d: "sw_db w1 = sw_db w"
    using s by (auto simp: on_imap_def split: prod.splits)
  show ?thesis
  proof (cases r)
    case (Inl e)
    with s d show ?thesis by (simp add: reconcile_vanished_def keptf.R_refl)
  next
    case (Inr uids)
    have "timed (sv_uid_search V ''1:*'') (sw_conn w) = (Inr uids, sw_conn w1)"
      using s unfolding Inr by (auto simp: on_imap_def search_uids_def search_query_def split: prod.splits)
    then have "wframes (kept_rel E V X) (on_db (reconcile_folder_deletions E acc fld (set uids)))"
      by (intro wframes_on_db kept_reconcile) (drule timed_Inr, erule conjunct1)
    moreover obtain r2 w2 where "on_db (reconcile_folder_deletions E acc fld (set uids)) w1 = (r2, w2)" by force
    ultimately show ?thesis
      using s d Inr pframesD by (cases r2) (fastforce simp: reconcile_vanished_def)+
  qed
qed

lemma kept_repair_folder:
  assumes "id_value_idem E"
  shows "wframes (kept_rel E V X) (repair_folder_mojibake E V acc fld)"
proof -
  have "frames (kept_rel E V X) (mojibake_message_uids E fld n)" for n
    unfolding mojibake_message_uids_def by (intro keptf.frames_rules)
  then show ?thesis
    unfolding repair_folder_mojibake_def
    by (intro keptf.wframes_rules wframes_on_db kept_repair assms)
qed


text \<open>The folders the pass may clear: its own, when the server announced another UIDVALIDITY.\<close>

definition resets :: "StoreEnv \<Rightarrow> bool \<Rightarrow> string \<Rightarrow> string set" where
  "resets E changed fld = {f. changed \<and> id_value E fld = Inr f}"

lemma kept_persist_resets:
  assumes "id_value_idem E" and "cl \<Longrightarrow> changed"
  shows "wframes (kept_rel E V (resets E changed fld)) (on_db (persist_imap_folder_batch E acc fld msgs uv lu ms cl))"
  using assms by (intro wframes_on_db kept_persist) (simp_all add: resets_def)

lemma kept_chunks:
  assumes "id_value_idem E"
  shows "wframes (kept_rel E V (resets E changed fld)) (sync_chunks E V acc fld uv ms changed chunks cur cleared tot)"
proof (induction chunks arbitrary: cur cleared tot)
  case Nil
  then show ?case by (simp add: keptf.pframes_Pair)
next
  case (Cons chunk chunks)
  let ?R = "kept_rel E V (resets E changed fld)"
  show ?case
    unfolding pframes_def
  proof
    fix w
    obtain r w1 where f: "on_imap (fetch_metadata V chunk) w = (r, w1)" by force
    have d: "?R (md_data (sw_db w)) (md_data (sw_db w1))"
      using pframesD [OF keptf.wframes_on_imap f] .
    have "wframes ?R (bindE (on_db (persist_imap_folder_batch E acc fld msgs uv lu ms (changed \<and> \<not> cleared)))
        (\<lambda>(n, u). sync_chunks E V acc fld uv ms changed chunks lu True (fst tot + n, snd tot + u)))" for msgs lu
      by (intro keptf.pframes_bindE kept_persist_resets assms) (auto intro: Cons.IH)
    then show "?R (md_data (sw_db w)) (md_data (sw_db (snd
        (sync_chunks E V acc fld uv ms changed (chunk # chunks) cur cleared tot w))))"
      using f d Cons.IH keptf.R_trans [OF d]
      by (cases r) (auto simp: pframes_def Let_def)
  qed
qed

lemma kept_finish:
  assumes "id_value_idem E"
  shows "wframes (kept_rel E V (resets E changed fld))
    (on_db (finish_folder E acc fld uv ms sm changed messages cur cleared tot))"
proof -
  let ?R = "kept_rel E V (resets E changed fld)"
  have p: "frames ?R (persist_imap_folder_batch E acc fld msgs uv lu ms cl)" if "cl \<longrightarrow> changed" for msgs lu cl
    using that by (intro kept_persist assms) (simp add: resets_def)
  have "frames ?R (finish_folder E acc fld uv ms sm changed messages cur cleared tot)"
    unfolding finish_folder_def
    by (intro keptf.frames_rules keptf.frames_if keptf.frames_case_prod p) simp_all
  then show ?thesis by (rule wframes_on_db)
qed


lemma kept_sync_messages:
  assumes "id_value_idem E"
  shows "wframes (kept_rel E V (resets E (case cursor of None \<Rightarrow> False | Some c \<Rightarrow> ci_uid_validity c \<noteq> sr_uid_validity sel) fld))
    (sync_messages E V acc fld sel cursor)" (is "wframes (kept_rel E V (resets E ?ch fld)) _")
  unfolding pframes_def
proof
  let ?R = "kept_rel E V (resets E ?ch fld)"
  fix w
  let ?after = "if ?ch then None else map_option ci_last_uid cursor"
  let ?sm = "if ?ch then 0 else case cursor of None \<Rightarrow> 0 | Some c \<Rightarrow> ci_last_modseq c"
  obtain r w1 where s: "on_imap (search_uids V ?after) w = (r, w1)" by force
  have 1: "?R (md_data (sw_db w)) (md_data (sw_db w1))"
    using pframesD [OF keptf.wframes_on_imap s] .
  obtain r2 w2 where c: "(if supports_condstore (co_client (sw_conn w1)) \<and> 0 < ?sm
      then on_imap (fetch_changed_since V ?sm) w1 else (Inr [], w1)) = (r2, w2)" by force
  have 2: "?R (md_data (sw_db w)) (md_data (sw_db w2))"
  proof (rule keptf.R_trans [OF 1])
    have "wframes ?R (if supports_condstore (co_client (sw_conn w1)) \<and> 0 < ?sm
      then on_imap (fetch_changed_since V ?sm) else Pair (Inr []))"
      by (intro keptf.pframes_if keptf.wframes_on_imap keptf.pframes_Pair)
    from pframesD [OF this, of w1 r2 w2] c show "?R (md_data (sw_db w1)) (md_data (sw_db w2))"
      by (simp split: if_splits)
  qed
  have 3: "wframes ?R (bindE (sync_chunks E V acc fld uv ms ?ch chunks start False (0, 0))
      (\<lambda>(fin, cur, cleared, tot). case fin of EndPass err \<Rightarrow> okE (EndPass err, tot)
         | NextFolder \<Rightarrow> bindE (on_db (finish_folder E acc fld uv ms ?sm ?ch messages cur cleared tot))
             (\<lambda>tot. okE (NextFolder, tot))))" for uv ms chunks start messages
    by (intro keptf.pframes_bindE kept_chunks assms)
       (auto split: prod.split FolderEnd.split intro!: keptf.wframes_rules kept_finish assms)
  show "?R (md_data (sw_db w)) (md_data (sw_db (snd (sync_messages E V acc fld sel cursor w))))"
  proof (cases r)
    case (Inl e)
    with s 1 show ?thesis by (simp add: sync_messages_def)
  next
    case (Inr uids)
    show ?thesis
    proof (cases r2)
      case (Inl e)
      with s Inr c 2 show ?thesis by (simp add: sync_messages_def)
    next
      case r2: (Inr messages)
      show ?thesis
        unfolding sync_messages_def Let_def s Inr prod.case sum.case c r2
        by (rule keptf.R_trans [OF 2 3 [unfolded pframes_def, rule_format]])
    qed
  qed
qed


text \<open>Repair and reconciliation leave the cursors alone.\<close>

definition same_cursors :: "MailData \<Rightarrow> MailData \<Rightarrow> bool" where
  "same_cursors d d' \<longleftrightarrow> dt_cursors d' = dt_cursors d"

interpretation curf: store_frame same_cursors
  by unfold_locales (simp_all add: same_cursors_def)

lemma cur_modify_messages: "frames same_cursors (modify (\<lambda>now d. d\<lparr>dt_messages := g now d\<rparr>))"
  by (intro curf.frames_modify) (simp add: same_cursors_def)

lemma cur_counts: "frames same_cursors (update_folder_counts_in_tx E f)"
  unfolding update_folder_counts_in_tx_def folder_count_def update_folders_def
  by (intro curf.frames_rules curf.frames_stmt curf.frames_modify) (simp_all add: same_cursors_def)

lemma cur_upsert_all: "frames same_cursors (upsert_all E a f msgs acc)"
proof -
  have ins: "frames same_cursors (insert_message oc r)" for oc r
    unfolding insert_message_def by (intro curf.frames_stmt) (simp add: same_cursors_def split: option.split)
  have *: "frames same_cursors (\<lambda>db. bindE (insert_message (Some (fill_in_on_conflict (md_now db) (r (md_now db)))) (r (md_now db)))
      (\<lambda>_. okE x) db)" for r x
    by (rule curf.frames_now) (rule curf.frames_bindE [OF ins curf.frames_okE])
  have "frames same_cursors (upsert_message_in_tx E a f msg)" for msg
    unfolding upsert_message_in_tx_def find_message_id_def Let_def by (intro curf.frames_rules *)
  then show ?thesis
    by (induction msgs arbitrary: acc) (auto intro!: curf.frames_rules)
qed

lemma cur_repair_folder: "wframes same_cursors (repair_folder_mojibake E V acc fld)"
proof -
  have "frames same_cursors (repair_imap_messages E acc fld msgs)" for msgs
    unfolding repair_imap_messages_def by (intro curf.frames_rules cur_upsert_all cur_modify_messages cur_counts)
  moreover have "frames same_cursors (mojibake_message_uids E fld n)" for n
    unfolding mojibake_message_uids_def by (intro curf.frames_rules)
  ultimately show ?thesis
    unfolding repair_folder_mojibake_def by (intro curf.wframes_rules wframes_on_db)
qed

lemma cur_vanished: "same_cursors (md_data (sw_db w)) (md_data (sw_db (snd (reconcile_vanished E V acc fld w))))"
proof -
  have "frames same_cursors (reconcile_folder_deletions E acc fld S)" for S
    unfolding reconcile_folder_deletions_def Let_def
    by (intro curf.frames_rules curf.frames_if cur_modify_messages cur_counts)
  then have r: "wframes same_cursors (on_db (reconcile_folder_deletions E acc fld S))" for S
    by (rule wframes_on_db)
  obtain r1 w1 where s: "on_imap (search_uids V None) w = (r1, w1)" by force
  have 1: "same_cursors (md_data (sw_db w)) (md_data (sw_db w1))"
    using pframesD [OF curf.wframes_on_imap s] .
  show ?thesis
  proof (cases r1)
    case (Inl e)
    with s 1 show ?thesis by (simp add: reconcile_vanished_def)
  next
    case (Inr uids)
    obtain r2 w2 where d: "on_db (reconcile_folder_deletions E acc fld (set uids)) w1 = (r2, w2)" by force
    with curf.R_trans [OF 1 pframesD [OF r d]] s Inr show ?thesis
      by (cases r2) (simp_all add: reconcile_vanished_def)
  qed
qed

text \<open>Lookups change nothing.\<close>

interpretation eqf: store_frame "(=)"
  by unfold_locales simp_all

lemma reads_get_folder: "frames (=) (get_folder_id E acc name)"
proof -
  have "frames (=) (case r of None \<Rightarrow> errE e | Some i \<Rightarrow> okE i)" for r :: "string option" and e
    by (cases r) (simp_all add: eqf.frames_rules)
  then show ?thesis
    unfolding get_folder_id_def find_folder_id_by_external_id_def by (intro eqf.frames_rules)
qed

lemma reads_load_cursor: "frames (=) (load_cursor E acc fld)"
  unfolding load_cursor_def load_cursor_value_def by (intro eqf.frames_rules)

text \<open>The server announced, on selecting the folder, another UIDVALIDITY than the stored cursor has.\<close>

definition uidvalidity_reset :: "StoreEnv \<Rightarrow> 's ImapServer \<Rightarrow> string \<Rightarrow> ImapFolder \<Rightarrow> MailData \<Rightarrow> string \<Rightarrow> bool" where
  "uidvalidity_reset E V acc folder d f \<longleftrightarrow> (\<exists>a v s uv hm s'. id_value E acc = Inr a \<and> stored_cursor a f d = Some v
     \<and> sv_select V (fo_name folder) s = (Answer (uv, hm), s')
     \<and> ci_uid_validity (parse_cursor_value v) \<noteq> (case uv of Some u \<Rightarrow> u | None \<Rightarrow> 0))"

lemma on_db_same: "on_db m w = (r, w') \<Longrightarrow> md_data (snd (m (sw_db w))) = md_data (sw_db w) \<Longrightarrow> md_data (sw_db w') = md_data (sw_db w)"
  by (auto simp: on_db_def split: prod.splits)

lemma load_cursor_Inr:
  assumes "load_cursor E acc fld db = (Inr cursor, db')"
  obtains a f where "id_value E acc = Inr a" "id_value E fld = Inr f"
    "cursor = map_option parse_cursor_value (stored_cursor a f (md_data db))"
  using assms
  by (auto simp: load_cursor_def load_cursor_value_def stored_cursor_def elim!: bindE_InrE dest!: query_Inr)

lemma select_Inr:
  "select V name c = (Inr sel, c') \<Longrightarrow> \<exists>s uv hm s'. sv_select V name s = (Answer (uv, hm), s')
     \<and> sr_uid_validity sel = (case uv of Some u \<Rightarrow> u | None \<Rightarrow> 0)"
  by (fastforce simp: select_def elim!: bindE_InrE dest!: timed_Inr)


text \<open>The part of a folder's turn after \<^verbatim>\<open>SELECT\<close>.\<close>

lemma kept_selected:
  assumes "id_value_idem E" and "select V (fo_name folder) c = (Inr sel, c')"
    and "reconcile_vanished E V acc fld (snd (repair_folder_mojibake E V acc fld w)) = (deleted, w2)"
    and "bindE (on_db (load_cursor E acc fld)) (\<lambda>cursor. bindE (sync_messages E V acc fld sel cursor) g) w2 = (r, w')"
    and "\<And>x w. snd (g x w) = w"
  shows "\<exists>X. kept_rel E V X (md_data (sw_db w)) (md_data (sw_db w')) \<and> (\<forall>f \<in> X. uidvalidity_reset E V acc folder (md_data (sw_db w)) f)"
proof -
  let ?w1 = "snd (repair_folder_mojibake E V acc fld w)"
  have K: "kept_rel E V X (md_data (sw_db w)) (md_data (sw_db w2))" for X
    using kept_repair_folder [OF assms(1), of V X acc fld] kept_vanished [of E V X ?w1 acc fld] keptf.R_trans assms(3)
    unfolding pframes_def by (metis snd_conv)
  have C: "dt_cursors (md_data (sw_db w2)) = dt_cursors (md_data (sw_db w))"
    using cur_repair_folder [of E V acc fld] cur_vanished [of ?w1 E V acc fld] assms(3)
    unfolding pframes_def same_cursors_def by (metis snd_conv)
  have same: "md_data (sw_db w3) = md_data (sw_db w2)" if "on_db (load_cursor E acc fld) w2 = (r3, w3)" for r3 w3
    using pframesD [OF wframes_on_db [OF reads_load_cursor] that] by simp
  from assms(4) show ?thesis
  proof (cases rule: bindE_cases)
    case (1 e)
    then show ?thesis using K [of "{}"] same by (intro exI [of _ "{}"]) simp
  next
    case (2 cursor w3)
    let ?ch = "case cursor of None \<Rightarrow> False | Some c \<Rightarrow> ci_uid_validity c \<noteq> sr_uid_validity sel"
    let ?X = "resets E ?ch fld"
    have load: "load_cursor E acc fld (sw_db w2) = (Inr cursor, sw_db w3)"
      using 2(1) by (auto simp: on_db_def split: prod.splits)
    have "kept_rel E V ?X (md_data (sw_db w3)) (md_data (sw_db w'))"
    proof -
      obtain r4 w4 where m: "sync_messages E V acc fld sel cursor w3 = (r4, w4)" by force
      have "w' = w4"
        using 2(2) m assms(5) by (cases r4) (auto, metis snd_conv)
      with pframesD [OF kept_sync_messages [OF assms(1)] m] show ?thesis by simp
    qed
    then have "kept_rel E V ?X (md_data (sw_db w)) (md_data (sw_db w'))"
      using keptf.R_trans [OF K] same [OF 2(1)] by simp
    moreover have "uidvalidity_reset E V acc folder (md_data (sw_db w)) f" if "f \<in> ?X" for f
    proof -
      obtain s uv hm s' where sel: "sv_select V (fo_name folder) s = (Answer (uv, hm), s')"
        "sr_uid_validity sel = (case uv of Some u \<Rightarrow> u | None \<Rightarrow> 0)"
        using select_Inr [OF assms(2)] by blast
      obtain a f' where i: "id_value E acc = Inr a" "id_value E fld = Inr f'"
        "cursor = map_option parse_cursor_value (stored_cursor a f' (md_data (sw_db w2)))"
        using load by (rule load_cursor_Inr)
      with that have "f' = f" and ?ch by (auto simp: resets_def)
      with i(3) C obtain v where "stored_cursor a f (md_data (sw_db w)) = Some v"
        "ci_uid_validity (parse_cursor_value v) \<noteq> sr_uid_validity sel"
        by (auto simp: stored_cursor_def split: option.splits)
      with sel i(1) show ?thesis
        unfolding uidvalidity_reset_def by metis
    qed
    ultimately show ?thesis by blast
  qed
qed

lemma sync_folder_kept:
  assumes "id_value_idem E" and "sync_folder E V acc folder w = (r, w')"
  shows "\<exists>X. kept_rel E V X (md_data (sw_db w)) (md_data (sw_db w')) \<and> (\<forall>f \<in> X. uidvalidity_reset E V acc folder (md_data (sw_db w)) f)"
proof (cases "list_ex (\<lambda>a. contains_str a ''Noselect'') (fo_attributes folder)")
  case True
  with assms(2) have "w' = w" by (simp add: sync_folder_def)
  then show ?thesis by (intro exI [of _ "{}"]) (simp add: keptf.R_refl)
next
  case False
  obtain r1 w1 where g: "on_db (get_folder_id E acc (fo_name folder)) w = (r1, w1)" by force
  have 1: "md_data (sw_db w1) = md_data (sw_db w)"
    using pframesD [OF wframes_on_db [OF reads_get_folder] g] by simp
  show ?thesis
  proof (cases r1)
    case (Inl e)
    with False g assms(2) have "w' = w1" by (simp add: sync_folder_def)
    with 1 show ?thesis by (intro exI [of _ "{}"]) (simp add: keptf.R_refl)
  next
    case (Inr fld)
    obtain r2 w2 where s: "on_imap (select V (fo_name folder)) w1 = (r2, w2)" by force
    then have 2: "md_data (sw_db w2) = md_data (sw_db w)"
      using 1 by (auto simp: on_imap_def split: prod.splits)
    show ?thesis
    proof (cases r2)
      case (Inl e)
      with False g s Inr assms(2) have "w' = w2" by (simp add: sync_folder_def)
      with 2 show ?thesis by (intro exI [of _ "{}"]) (simp add: keptf.R_refl)
    next
      case r2: (Inr sel)
      then have sel: "select V (fo_name folder) (sw_conn w1) = (Inr sel, sw_conn w2)"
        using s by (auto simp: on_imap_def split: prod.splits)
      obtain dl w3 where v: "reconcile_vanished E V acc fld (snd (repair_folder_mojibake E V acc fld w2)) = (dl, w3)" by force
      have "bindE (on_db (load_cursor E acc fld)) (\<lambda>cursor. bindE (sync_messages E V acc fld sel cursor)
          (\<lambda>(fin, n, u). okE (fin, n, u, dl))) w3 = (r, w')"
        using assms(2) False g Inr s r2 v by (simp add: sync_folder_def)
      from kept_selected [OF assms(1) sel v this] 2 show ?thesis by (auto split: prod.split)
    qed
  qed
qed



definition demo_sync_world :: "demo_state \<Rightarrow> demo_state SyncWorld" where
  "demo_sync_world s = \<lparr>sw_db = demo_inbox, sw_conn = demo_conn s\<rparr>"

definition demo_inbox_folder :: ImapFolder where
  "demo_inbox_folder = \<lparr>fo_name = ''INBOX'', fo_delimiter = None, fo_attributes = []\<rparr>"


text \<open>A timeout of the UID listing, which leaves the session in an unknown state, does not end the pass.\<close>

lemma listing_timeout_goes_on:
  assumes "sv_uid_search V ''1:*'' (co_server (sw_conn w)) = (Elapsed, s')"
  shows "reconcile_vanished E V acc fld w = (0, w\<lparr>sw_conn := (sw_conn w)\<lparr>co_server := s'\<rparr>\<rparr>)"
  using assms by (simp add: reconcile_vanished_def on_imap_def search_uids_def search_query_def timed_def)

text \<open>The search after UID 3 in a mailbox of the messages 3, 4 and 5 finds 5 only: the range \<^verbatim>\<open>4:*\<close> counts
  sequence numbers. Saving 5 as the cursor then hides message 4.\<close>

lemma search_misses_new_mail:
  "fst (search_uids demo_server (Some 3) (demo_conn [(3, False), (4, False), (5, False)])) = Inr [5]"
  by code_simp

text \<open>A chunk as the pass makes it is never retried.\<close>

lemma chunk_not_retried: "length uids \<le> METADATA_CHUNK \<Longrightarrow> fetch_metadata V uids = fetch_metadata_once V uids"
  by (simp add: fetch_metadata_def)

end
