(* ===== verification/Lyra_ImapLive.thy ===== *)
theory Lyra_ImapLive
  imports Lyra_ImapSync
begin

text \<open>
  The first sync of a folder reaches its goal: on an answering database and against a server that answers,
  the pass ends and the folder holds exactly the server's messages.
\<close>

section \<open>Computations that return\<close>

definition total :: "('s \<Rightarrow> bool) \<Rightarrow> ('s, 'e, 'a) eff \<Rightarrow> bool" where
  "total P m \<longleftrightarrow> (\<forall>s. P s \<longrightarrow> (\<exists>x s'. m s = (Inr x, s') \<and> P s'))"

lemma total_okE: "total P (okE x)"
  by (simp add: total_def)

lemma total_bindE: "total P m \<Longrightarrow> (\<And>x. total P (f x)) \<Longrightarrow> total P (bindE m f)"
  by (fastforce simp: total_def)

lemma total_ofE: "r = Inr x \<Longrightarrow> total P (ofE r)"
  by (simp add: total_def)

text \<open>A database that answers, with the folder in place and a supply of fresh ids.\<close>

definition healthy :: "StoreEnv \<Rightarrow> string \<Rightarrow> string \<Rightarrow> string \<Rightarrow> string \<Rightarrow> MailDb \<Rightarrow> bool" where
  "healthy E acc fld a f db \<longleftrightarrow> md_faults db = [] \<and> id_value E acc = Inr a \<and> id_value E fld = Inr f
     \<and> inj (md_uuid db) \<and> (\<forall>n. id_value E (md_uuid db n) = Inr (md_uuid db n))
     \<and> (\<forall>n \<ge> md_next db. md_uuid db n \<notin> m_id ` set (dt_messages (md_data db))
          \<and> md_uuid db n \<notin> c_id ` set (dt_cursors (md_data db)))
     \<and> a \<in> set (dt_accounts (md_data db)) \<and> f \<in> f_id ` set (dt_folders (md_data db))"

lemma stmt_answers: "md_faults db = [] \<Longrightarrow> stmt f db = (case f (md_now db) (md_data db) of (r, d) \<Rightarrow> (r, db\<lparr>md_data := d\<rparr>))"
  by (simp add: stmt_def)

lemma query_answers: "md_faults db = [] \<Longrightarrow> query q db = (Inr (q (md_data db)), db)"
  by (simp add: query_def stmt_answers)

lemma modify_answers: "md_faults db = [] \<Longrightarrow> modify f db = (Inr (), db\<lparr>md_data := f (md_now db) (md_data db)\<rparr>)"
  by (simp add: modify_def stmt_answers)

lemma healthy_query: "total (healthy E acc fld a f) (query q)"
  by (simp add: total_def query_answers healthy_def)

lemma healthy_in_tx:
  assumes "total (healthy E acc fld a f) m"
  shows "total (healthy E acc fld a f) (in_tx m)"
  unfolding total_def
proof (intro allI impI)
  fix db assume h: "healthy E acc fld a f db"
  then obtain x db' where m: "m db = (Inr x, db')" and h': "healthy E acc fld a f db'"
    using assms unfolding total_def by blast
  have "query (\<lambda>_. ()) db = (Inr (), db)" "query (\<lambda>_. ()) db' = (Inr (), db')"
    using h h' by (simp_all add: query_answers healthy_def)
  with m have "in_tx m db = (Inr x, db')" by (simp add: in_tx_def)
  with h' show "\<exists>x s'. in_tx m db = (Inr x, s') \<and> healthy E acc fld a f s'" by blast
qed

lemma healthy_next:
  assumes "healthy E acc fld a f db" and "dt_accounts d = dt_accounts (md_data db)" and "dt_folders d = dt_folders (md_data db)"
    and "m_id ` set (dt_messages d) \<subseteq> insert (md_uuid db (md_next db)) (m_id ` set (dt_messages (md_data db)))"
    and "c_id ` set (dt_cursors d) \<subseteq> insert (md_uuid db (md_next db)) (c_id ` set (dt_cursors (md_data db)))"
  shows "healthy E acc fld a f (db\<lparr>md_next := Suc (md_next db), md_data := d\<rparr>)"
proof -
  have ne: "md_uuid db n \<noteq> md_uuid db (md_next db)" if "Suc (md_next db) \<le> n" for n
    using assms(1) that by (auto simp: healthy_def dest: injD)
  have "md_uuid db n \<notin> m_id ` set (dt_messages (md_data db))" "md_uuid db n \<notin> c_id ` set (dt_cursors (md_data db))"
    if "Suc (md_next db) \<le> n" for n
    using assms(1) that by (simp_all add: healthy_def)
  then have "md_uuid db n \<notin> m_id ` set (dt_messages d) \<and> md_uuid db n \<notin> c_id ` set (dt_cursors d)"
    if "Suc (md_next db) \<le> n" for n
    using that ne [OF that] assms(4,5) by blast
  then show ?thesis
    using assms(1-3) by (simp add: healthy_def)
qed

lemma healthy_upsert_message: "total (healthy E acc fld a f) (upsert_message_in_tx E acc fld msg)"
  unfolding total_def
proof (intro allI impI)
  fix db assume h: "healthy E acc fld a f db"
  let ?ext = "imap_message_external_id fld (im_uid msg)"
  let ?i = "md_uuid db (md_next db)"
  let ?r = "message_insert E (md_now db) (imap_insert E ?i a f ?ext msg)"
  let ?db = "db\<lparr>md_next := Suc (md_next db)\<rparr>"
  define d where "d = (if \<exists>m \<in> set (dt_messages (md_data db)). same_external ?r m
     then (md_data db)\<lparr>dt_messages := map (\<lambda>m. if same_external ?r m then fill_in_on_conflict (md_now db) ?r m else m) (dt_messages (md_data db))\<rparr>
     else (md_data db)\<lparr>dt_messages := dt_messages (md_data db) @ [?r]\<rparr>)"
  have r: "m_id ?r = ?i" "m_account_id ?r = a" "m_folder_id ?r = f"
    by (simp_all add: message_insert_def imap_insert_def)
  have ids: "?i \<notin> m_id ` set (dt_messages (md_data db))"
    using h by (simp add: healthy_def)
  have "insert_message (Some (fill_in_on_conflict (md_now db) ?r)) ?r ?db = (Inr (), ?db\<lparr>md_data := d\<rparr>)"
    using h r ids by (simp add: insert_message_def stmt_answers healthy_def d_def)
  then have "\<exists>x. upsert_message_in_tx E acc fld msg db = (Inr x, ?db\<lparr>md_data := d\<rparr>)"
    using h by (simp add: upsert_message_in_tx_def find_message_id_def query_answers new_uuid_text_def healthy_def bindE_def Let_def)
  moreover have "healthy E acc fld a f (?db\<lparr>md_data := d\<rparr>)"
  proof -
    have "m_id ` set (dt_messages d) \<subseteq> insert ?i (m_id ` set (dt_messages (md_data db)))"
      using r by (auto simp: fill_in_on_conflict_def d_def)
    moreover have "dt_accounts d = dt_accounts (md_data db)" "dt_folders d = dt_folders (md_data db)"
      "dt_cursors d = dt_cursors (md_data db)"
      by (simp_all add: d_def)
    ultimately show ?thesis using healthy_next [OF h, of d] by (simp add: subset_insertI)
  qed
  ultimately show "\<exists>x s'. upsert_message_in_tx E acc fld msg db = (Inr x, s') \<and> healthy E acc fld a f s'" by blast
qed


lemma healthy_upsert_all: "total (healthy E acc fld a f) (upsert_all E acc fld msgs c)"
  by (induction msgs arbitrary: c) (auto simp del: okE_apply intro!: total_okE total_bindE healthy_upsert_message)

lemma healthy_save_cursor: "total (healthy E acc fld a f) (save_cursor_row E acc fld p ty v)"
  unfolding total_def
proof (intro allI impI)
  fix db assume h: "healthy E acc fld a f db"
  let ?i = "md_uuid db (md_next db)"
  let ?r = "\<lparr>c_id = ?i, c_account_id = a, c_folder_id = f, c_protocol = p, c_type = ty, c_value = v, c_updated_at = md_now db\<rparr>"
  let ?db = "db\<lparr>md_next := Suc (md_next db)\<rparr>"
  let ?P = "cursor_match a f ty"
  define d where "d = (if \<exists>c \<in> set (dt_cursors (md_data db)). ?P c
     then (md_data db)\<lparr>dt_cursors := map (\<lambda>c. if ?P c then c\<lparr>c_value := v, c_updated_at := md_now db\<rparr> else c) (dt_cursors (md_data db))\<rparr>
     else (md_data db)\<lparr>dt_cursors := dt_cursors (md_data db) @ [?r]\<rparr>)"
  have "upsert_cursor_row ?r ?db = (Inr (), ?db\<lparr>md_data := d\<rparr>)"
    using h by (simp add: upsert_cursor_row_def stmt_answers healthy_def d_def Let_def)
  then have "save_cursor_row E acc fld p ty v db = (Inr (), ?db\<lparr>md_data := d\<rparr>)"
    using h by (simp add: save_cursor_row_def new_uuid_text_def healthy_def bindE_def)
  moreover have "healthy E acc fld a f (?db\<lparr>md_data := d\<rparr>)"
  proof -
    have "c_id ` set (dt_cursors d) \<subseteq> insert ?i (c_id ` set (dt_cursors (md_data db)))"
      by (auto simp: d_def)
    moreover have "dt_accounts d = dt_accounts (md_data db)" "dt_folders d = dt_folders (md_data db)"
      "dt_messages d = dt_messages (md_data db)"
      by (simp_all add: d_def)
    ultimately show ?thesis using healthy_next [OF h, of d] by (simp add: subset_insertI)
  qed
  ultimately show "\<exists>x s'. save_cursor_row E acc fld p ty v db = (Inr x, s') \<and> healthy E acc fld a f s'" by blast
qed

lemma healthy_counts: "total (healthy E acc fld a f) (update_folder_counts_in_tx E fld)"
proof -
  have "healthy E acc fld a f (db\<lparr>md_data := (md_data db)\<lparr>dt_folders := map (\<lambda>r. if f_id r = f then
      (g r)\<lparr>f_updated_at := t\<rparr> else r) (dt_folders (md_data db))\<rparr>\<rparr>)"
    if "healthy E acc fld a f db" "\<And>r. f_id (g r) = f_id r" for db g t
  proof -
    let ?h = "\<lambda>r. if f_id r = f then (g r)\<lparr>f_updated_at := t\<rparr> else r"
    have "map f_id (map ?h (dt_folders (md_data db))) = map f_id (dt_folders (md_data db))"
      using that(2) by (intro map_ids) simp
    then have "f_id ` set (map ?h (dt_folders (md_data db))) = f_id ` set (dt_folders (md_data db))"
      by (metis set_map)
    with that(1) show ?thesis by (simp add: healthy_def)
  qed
  then show ?thesis
    unfolding total_def update_folder_counts_in_tx_def update_folders_def folder_count_def
    by (auto simp: stmt_answers modify_answers healthy_def bindE_def)
qed

lemma healthy_persist: "total (healthy E acc fld a f) (persist_imap_folder_batch E acc fld msgs uv lu ms False)"
  unfolding persist_imap_folder_batch_def save_cursor_in_tx_def if_False
  by (intro healthy_in_tx total_bindE total_okE healthy_upsert_all healthy_save_cursor healthy_counts)


section \<open>A server that answers\<close>

text \<open>The folder's messages do not change during the pass, selecting and listing it answer, and a fetch of some of
  its UIDs answers one or more responses for each of them.\<close>

definition serves :: "'s ImapServer \<Rightarrow> 's \<Rightarrow> string \<Rightarrow> u32 set \<Rightarrow> bool" where
  "serves V s name us \<longleftrightarrow>
     (\<exists>uv hm. sv_select V name s = (Answer (uv, hm), s)) \<and>
     (\<exists>xs. sv_uid_search V ''1:*'' s = (Answer xs, s) \<and> set xs = us) \<and>
     (\<forall>uids. uids \<noteq> [] \<longrightarrow> set uids \<subseteq> us \<longrightarrow>
        (\<exists>fs. sv_uid_fetch V (format_uid_set uids) (parenthesize_fetch_atts METADATA_ITEMS) s = (Answer fs, s)
           \<and> fe_uid ` set fs = Some ` set uids))"

lemma servesD:
  assumes "serves V s name us"
  shows "\<exists>uv hm. sv_select V name s = (Answer (uv, hm), s)"
    and "\<exists>xs. sv_uid_search V ''1:*'' s = (Answer xs, s) \<and> set xs = us"
    and "uids \<noteq> [] \<Longrightarrow> set uids \<subseteq> us \<Longrightarrow>
        \<exists>fs. sv_uid_fetch V (format_uid_set uids) (parenthesize_fetch_atts METADATA_ITEMS) s = (Answer fs, s)
           \<and> fe_uid ` set fs = Some ` set uids"
  using assms by (simp_all add: serves_def)

lemma serves_search:
  assumes "serves V (co_server (sw_conn w)) name us"
  obtains xs where "on_imap (search_uids V None) w = (Inr xs, w)" "set xs = us"
proof -
  obtain xs where x: "sv_uid_search V ''1:*'' (co_server (sw_conn w)) = (Answer xs, co_server (sw_conn w))" "set xs = us"
    using servesD(2) [OF assms] by blast
  then have "on_imap (search_uids V None) w = (Inr xs, w)"
    by (simp add: on_imap_def search_uids_def search_query_def timed_def)
  with x(2) that show ?thesis by blast
qed

lemma parsed_uids:
  assumes "fe_uid ` set fs = Some ` U"
  shows "im_uid ` set (map (parse_fetch_to_message V False) fs) = U"
proof -
  have "im_uid (parse_fetch_to_message V False x) = the (fe_uid x)" if "x \<in> set fs" for x
  proof -
    have "fe_uid x \<in> Some ` U" using assms that by blast
    then show ?thesis by (auto simp: parse_fetch_to_message_def Let_def)
  qed
  then have "im_uid ` set (map (parse_fetch_to_message V False) fs) = the ` fe_uid ` set fs"
    by (force simp: image_image)
  then show ?thesis by (simp add: assms image_image)
qed

lemma serves_fetch:
  assumes "serves V (co_server (sw_conn w)) name us" "set uids \<subseteq> us" "uids \<noteq> []" "length uids \<le> METADATA_CHUNK"
  obtains msgs where "on_imap (fetch_metadata V uids) w = (Inr msgs, w)" "im_uid ` set msgs = set uids"
proof -
  obtain fs where f: "sv_uid_fetch V (format_uid_set uids) (parenthesize_fetch_atts METADATA_ITEMS) (co_server (sw_conn w))
      = (Answer fs, co_server (sw_conn w))" "fe_uid ` set fs = Some ` set uids"
    using servesD(3) [OF assms(1,3,2)] by blast
  then have "on_imap (fetch_metadata V uids) w = (Inr (map (parse_fetch_to_message V False) fs), w)"
    using assms(3,4) by (simp add: on_imap_def fetch_metadata_def fetch_metadata_once_def timed_def bindE_def)
  with parsed_uids [OF f(2)] that show ?thesis by blast
qed

section \<open>The first sync\<close>

lemma apply_batch_dom: "dom (apply_batch False msgs v) = dom v \<union> im_uid ` set msgs"
  by (induction msgs arbitrary: v) (auto simp: apply_batch_def)

lemma persist_first:
  assumes "healthy E acc fld a f (sw_db w)"
  obtains n u db' where "on_db (persist_imap_folder_batch E acc fld msgs uv lu ms False) w = (Inr (n, u), w\<lparr>sw_db := db'\<rparr>)"
    "healthy E acc fld a f db'"
    "dom (mailbox a fld (md_data db')) = dom (mailbox a fld (md_data (sw_db w))) \<union> im_uid ` set msgs"
proof -
  obtain x db' where p: "persist_imap_folder_batch E acc fld msgs uv lu ms False (sw_db w) = (Inr x, db')"
    and h: "healthy E acc fld a f db'"
    using healthy_persist assms unfolding total_def by blast
  obtain n u where x: "x = (n, u)" by force
  have i: "id_value E acc = Inr a" "id_value E fld = Inr f" using assms by (simp_all add: healthy_def)
  have "mailbox a fld (md_data db') = apply_batch False msgs (mailbox a fld (md_data (sw_db w)))"
    using persist_batch_view [OF i, of False "sw_db w" msgs uv lu ms] p x by simp
  with p x h that show ?thesis by (simp add: on_db_def apply_batch_dom)
qed


lemma chunks_live:
  assumes "serves V (co_server (sw_conn w)) name us" and "\<forall>c \<in> set chunks. c \<noteq> [] \<and> length c \<le> METADATA_CHUNK \<and> set c \<subseteq> us"
    and "healthy E acc fld a f (sw_db w)"
  shows "\<exists>cur' cl' tot' db'. sync_chunks E V acc fld uv ms False chunks cur cl tot w = (Inr (NextFolder, cur', cl', tot'), w\<lparr>sw_db := db'\<rparr>)
    \<and> healthy E acc fld a f db'
    \<and> dom (mailbox a fld (md_data db')) = dom (mailbox a fld (md_data (sw_db w))) \<union> set (concat chunks)"
  using assms
proof (induction chunks arbitrary: cur cl tot w)
  case Nil
  then show ?case by (intro exI [of _ "sw_db w"] exI conjI) (auto simp: okE_def)
next
  case (Cons c cs)
  obtain msgs where m: "on_imap (fetch_metadata V c) w = (Inr msgs, w)" "im_uid ` set msgs = set c"
    using serves_fetch [OF Cons.prems(1)] Cons.prems(2) by (metis list.set_intros(1))
  then have ne: "msgs \<noteq> []" using Cons.prems(2) by auto
  let ?cur = "max cur (max_uid msgs)"
  obtain n u db1 where p: "on_db (persist_imap_folder_batch E acc fld msgs uv ?cur ms False) w = (Inr (n, u), w\<lparr>sw_db := db1\<rparr>)"
    and h: "healthy E acc fld a f db1"
    and d: "dom (mailbox a fld (md_data db1)) = dom (mailbox a fld (md_data (sw_db w))) \<union> im_uid ` set msgs"
    by (rule persist_first [OF Cons.prems(3), where msgs = msgs and uv = uv and lu = ?cur and ms = ms])
  let ?w = "w\<lparr>sw_db := db1\<rparr>"
  have prem: "\<forall>c \<in> set cs. c \<noteq> [] \<and> length c \<le> METADATA_CHUNK \<and> set c \<subseteq> us" and hw: "healthy E acc fld a f (sw_db ?w)"
    and sv: "serves V (co_server (sw_conn ?w)) name us"
    using Cons.prems(1,2) h by simp_all
  obtain cur' cl' tot' db' where r: "sync_chunks E V acc fld uv ms False cs ?cur True (fst tot + n, snd tot + u) ?w
      = (Inr (NextFolder, cur', cl', tot'), ?w\<lparr>sw_db := db'\<rparr>)" "healthy E acc fld a f db'"
      "dom (mailbox a fld (md_data db')) = dom (mailbox a fld (md_data (sw_db ?w))) \<union> set (concat cs)"
    using Cons.IH [OF sv prem hw, of ?cur True "(fst tot + n, snd tot + u)"] by blast
  have "sync_chunks E V acc fld uv ms False (c # cs) cur cl tot w = (Inr (NextFolder, cur', cl', tot'), w\<lparr>sw_db := db'\<rparr>)"
    using m(1) ne p r(1) by (simp add: Let_def)
  with r(2,3) d m(2) show ?case by (intro exI conjI) auto
qed

lemma finish_live:
  assumes "healthy E acc fld a f (sw_db w)"
  shows "\<exists>t db'. on_db (finish_folder E acc fld uv ms sm False [] cur cl tot) w = (Inr t, w\<lparr>sw_db := db'\<rparr>)
    \<and> dom (mailbox a fld (md_data db')) = dom (mailbox a fld (md_data (sw_db w)))"
proof (cases "sm < ms")
  case True
  obtain n u db' where p: "on_db (persist_imap_folder_batch E acc fld [] uv cur ms False) w = (Inr (n, u), w\<lparr>sw_db := db'\<rparr>)"
    and d: "dom (mailbox a fld (md_data db')) = dom (mailbox a fld (md_data (sw_db w))) \<union> im_uid ` set ([] :: ImapMessage list)"
    by (rule persist_first [OF assms, where msgs = "[]" and uv = uv and lu = cur and ms = ms])
  have "on_db (finish_folder E acc fld uv ms sm False [] cur cl tot) w
    = bindE (on_db (persist_imap_folder_batch E acc fld [] uv cur ms False)) (\<lambda>_. okE tot) w"
    using True by (simp add: finish_folder_def on_db_def bindE_def split: prod.split sum.split)
  with p d show ?thesis by (intro exI [of _ tot] exI [of _ db']) simp
next
  case False
  then show ?thesis
    by (intro exI [of _ tot] exI [of _ "sw_db w"]) (simp add: finish_folder_def on_db_def)
qed


lemma chunks_of_set: "0 < n \<Longrightarrow> c \<in> set (chunks_of n xs) \<Longrightarrow> set c \<subseteq> set xs"
  using concat_chunks_of [of n xs] by (metis UN_I set_concat subsetI)

lemma sync_messages_live:
  assumes "serves V (co_server (sw_conn w)) name us" and "healthy E acc fld a f (sw_db w)"
  shows "\<exists>n u db'. sync_messages E V acc fld sel None w = (Inr (NextFolder, n, u), w\<lparr>sw_db := db'\<rparr>)
    \<and> dom (mailbox a fld (md_data db')) = dom (mailbox a fld (md_data (sw_db w))) \<union> us"
proof -
  obtain xs where x: "on_imap (search_uids V None) w = (Inr xs, w)" "set xs = us"
    using serves_search [OF assms(1)] by blast
  let ?h = "case sr_highest_modseq sel of Some h \<Rightarrow> h | None \<Rightarrow> 0"
  define ms where "ms = (if supports_condstore (co_client (sw_conn w)) \<and> 0 < ?h then ?h else 0)"
  let ?cs = "chunks_of METADATA_CHUNK xs"
  have chunks: "\<forall>c \<in> set ?cs. c \<noteq> [] \<and> length c \<le> METADATA_CHUNK \<and> set c \<subseteq> us"
    using chunks_of_lengths [of _ METADATA_CHUNK xs] chunks_of_set [of METADATA_CHUNK _ xs] x(2) by (auto simp: METADATA_CHUNK_def)
  obtain cur cl tot db1 where c: "sync_chunks E V acc fld (sr_uid_validity sel) ms False ?cs 0 False (0, 0) w
      = (Inr (NextFolder, cur, cl, tot), w\<lparr>sw_db := db1\<rparr>)" and h: "healthy E acc fld a f db1"
    and d: "dom (mailbox a fld (md_data db1)) = dom (mailbox a fld (md_data (sw_db w))) \<union> set (concat ?cs)"
    using chunks_live [OF assms(1) chunks assms(2)] by blast
  let ?w = "w\<lparr>sw_db := db1\<rparr>"
  obtain t db' where f: "on_db (finish_folder E acc fld (sr_uid_validity sel) ms 0 False [] cur cl tot) ?w = (Inr t, ?w\<lparr>sw_db := db'\<rparr>)"
    "dom (mailbox a fld (md_data db')) = dom (mailbox a fld (md_data (sw_db ?w)))"
    using finish_live [of E acc fld a f ?w] h by fastforce
  obtain n u where t: "t = (n, u)" by force
  have "sync_messages E V acc fld sel None w = (Inr (NextFolder, n, u), w\<lparr>sw_db := db'\<rparr>)"
    using x(1) c f(1) t by (simp add: sync_messages_def ms_def Let_def)
  moreover have "set (concat ?cs) = us"
    using concat_chunks_of [of METADATA_CHUNK xs] x(2) by (simp add: METADATA_CHUNK_def)
  ultimately show ?thesis using f(2) d by (intro exI conjI) auto
qed

text \<open>Before the first sync the folder's row exists, and it has no messages and no cursor.\<close>

definition first_sync :: "StoreEnv \<Rightarrow> string \<Rightarrow> ImapFolder \<Rightarrow> string \<Rightarrow> string \<Rightarrow> string \<Rightarrow> MailDb \<Rightarrow> bool" where
  "first_sync E acc folder fld a f db \<longleftrightarrow> healthy E acc fld a f db
     \<and> map_option f_id (find (\<lambda>r. f_account_id r = a \<and> f_external_id r = Some (fo_name folder)) (dt_folders (md_data db))) = Some fld
     \<and> (\<forall>m \<in> set (dt_messages (md_data db)). m_folder_id m \<noteq> f)
     \<and> mailbox a fld (md_data db) = Map.empty \<and> stored_cursor a f (md_data db) = None"

lemma empty_folder_steps:
  assumes "first_sync E acc folder fld a f (sw_db w)" and "serves V (co_server (sw_conn w)) name us"
  shows "on_db (get_folder_id E acc (fo_name folder)) w = (Inr fld, w)"
    and "repair_folder_mojibake E V acc fld w = (Inr 0, w)"
    and "reconcile_vanished E V acc fld w = (0, w)"
    and "on_db (load_cursor E acc fld) w = (Inr None, w)"
proof -
  have h: "md_faults (sw_db w) = []" "id_value E acc = Inr a" "id_value E fld = Inr f"
    using assms(1) by (simp_all add: first_sync_def healthy_def)
  have rows: "filter (\<lambda>m. m_folder_id m = f \<and> P m) (dt_messages (md_data (sw_db w))) = []" for P
    using assms(1) by (auto simp: first_sync_def filter_empty_conv)
  have rows': "filter (\<lambda>m. m_account_id m = a \<and> m_folder_id m = f \<and> \<not> m_is_deleted m) (dt_messages (md_data (sw_db w))) = []"
    using assms(1) by (auto simp: first_sync_def filter_empty_conv)
  obtain z where "find (\<lambda>r. f_account_id r = a \<and> f_external_id r = Some (fo_name folder)) (dt_folders (md_data (sw_db w))) = Some z"
    "f_id z = fld"
    using assms(1) by (auto simp: first_sync_def)
  then show "on_db (get_folder_id E acc (fo_name folder)) w = (Inr fld, w)"
    using h by (simp add: on_db_def get_folder_id_def find_folder_id_by_external_id_def query_answers bindE_def)
  show "repair_folder_mojibake E V acc fld w = (Inr 0, w)"
    using h rows by (simp add: repair_folder_mojibake_def mojibake_message_uids_def on_db_def query_answers bindE_def List.map_filter_simps)
  obtain xs where "on_imap (search_uids V None) w = (Inr xs, w)" using serves_search [OF assms(2)] by blast
  then show "reconcile_vanished E V acc fld w = (0, w)"
    using h rows' by (simp add: reconcile_vanished_def on_db_def reconcile_folder_deletions_def query_answers bindE_def stale_imap_row_ids_def List.map_filter_simps)
  show "on_db (load_cursor E acc fld) w = (Inr None, w)"
    using h assms(1) by (simp add: on_db_def load_cursor_def load_cursor_value_def query_answers bindE_def first_sync_def stored_cursor_def)
qed




text \<open>An account whose inbox row was just made.\<close>

definition demo_fresh_db :: MailDb where
  "demo_fresh_db = snd (upsert_folder demo_store_env ''acc'' ''INBOX'' None [] demo_db)"

lemma demo_serves: "serves demo_server s ''INBOX'' (fst ` set s)"
proof -
  have "fe_uid ` set (map demo_fetch (filter (in_uid_set (format_uid_set uids)) (map fst s))) = Some ` set uids"
    if "uids \<noteq> []" "set uids \<subseteq> fst ` set s" for uids
  proof -
    have "{u. in_uid_set (format_uid_set uids) u} = set uids"
      using format_uid_set_denotes [OF that(1)] by (simp add: uid_set_def)
    then have "set (filter (in_uid_set (format_uid_set uids)) (map fst s)) = set uids"
      using that(2) by auto
    then show ?thesis by (simp add: demo_fetch_def image_image del: set_filter)
  qed
  moreover have "demo_search ''1:*'' s = map fst s"
  proof -
    have "unat (parse_u32_or0 (hd (split_on (CHR '':'') ''1:*''))) = 1" by code_simp
    then show ?thesis by (simp add: demo_search_def)
  qed
  ultimately show ?thesis
    by (auto simp: serves_def demo_server_def)
qed

lemma demo_first_sync: "first_sync demo_store_env ''acc'' demo_inbox_folder ''0'' ''acc'' ''0'' demo_fresh_db"
proof -
  have z: "show_nat 0 = ''0''" by code_simp
  obtain name role where db: "demo_fresh_db = demo_db\<lparr>md_next := 1, md_data := (md_data demo_db)\<lparr>dt_folders :=
      [fresh_folder ''0'' ''acc'' ''INBOX'' name role None (md_now demo_db)]\<rparr>\<rparr>"
    by (simp add: demo_fresh_db_def upsert_folder_def split_imap_folder_path_def find_folder_id_by_external_id_def
        demo_db_def demo_store_env_def id_value_def query_answers bindE_def opt_id_value_def new_uuid_text_def insert_folder_def
        stmt_answers Let_def fresh_folder_def z)
  show ?thesis
    by (auto simp: first_sync_def healthy_def db demo_db_def demo_store_env_def id_value_def fresh_folder_def
        demo_inbox_folder_def mailbox_def stored_cursor_def inj_def show_nat_inj)
qed


end
