(* ===== verification/Lyra_JmapSync.thy ===== *)
theory Lyra_JmapSync
  imports Lyra_StoreLaws
begin

text \<open>
  The JMAP pass of \<^verbatim>\<open>sync/jmap_loop.rs\<close> over the mail store: mailboxes, the account-level
  \<^verbatim>\<open>Email/changes\<close>, the per-folder \<^verbatim>\<open>Email/queryChanges\<close> or paged \<^verbatim>\<open>Email/query\<close>, attachments, and the
  deletions that are left at the end; with the request logic of \<^verbatim>\<open>JmapSeam\<close> (\<^verbatim>\<open>sync/jmap_client.rs\<close>).

  The requests themselves (\<^verbatim>\<open>jmap_client\<close>) are a record of functions on a server state of any type. The
  attachment rows stand beside the mail tables; a row counts while its message exists, which is the
  \<^verbatim>\<open>ON DELETE CASCADE\<close> of the schema. The order in which a \<^verbatim>\<open>HashMap\<close> is drained is a function of the
  record. A paged query goes on while the server answers full pages, so it may not return: it is a
  partial function, and what calls it returns an option.
\<close>

section \<open>Requests\<close>

record EmailQueryChanges =
  qc_added_ids :: "string list"
  qc_removed_ids :: "string list"
  qc_new_query_state :: "string option"

record EmailPage =
  ep_ids :: "string list"
  ep_emails :: "JmapEmail list"
  ep_query_state :: "string option"
  ep_email_state :: "string option"

record JmapEmailChanges =
  ec_updated_ids :: "string list"
  ec_destroyed_ids :: "string list"
  ec_new_state :: "string option"

text \<open>One answer to \<^verbatim>\<open>Email/changes\<close>.\<close>

record ChangesAnswer =
  ca_updated :: "string list"
  ca_destroyed :: "string list"
  ca_new_state :: string
  ca_more :: bool

datatype Credentials = Basic string string | Bearer string

record 's JmapServer =
  js_connect_with :: "string \<Rightarrow> Credentials \<Rightarrow> 's \<Rightarrow> (JmapError + unit) \<times> 's"
  js_refresh :: "'s \<Rightarrow> (JmapError + unit) \<times> 's"
  js_max_calls :: "'s \<Rightarrow> nat option"
  js_mailboxes :: "'s \<Rightarrow> (JmapError + JmapMailbox list) \<times> 's"
  js_query :: "string \<Rightarrow> int \<Rightarrow> nat \<Rightarrow> 's \<Rightarrow> (JmapError + string list \<times> string) \<times> 's"
  js_get :: "string list \<Rightarrow> 's \<Rightarrow> (JmapError + JmapEmail list \<times> string) \<times> 's"
  js_query_and_get :: "string \<Rightarrow> int \<Rightarrow> nat \<Rightarrow> 's \<Rightarrow>
    (JmapError + (string list \<times> string) \<times> JmapEmail list \<times> string) \<times> 's"
  js_query_changes :: "string \<Rightarrow> string \<Rightarrow> nat \<Rightarrow> 's \<Rightarrow>
    (JmapError + string list \<times> string list \<times> string) \<times> 's"
  js_changes :: "string \<Rightarrow> nat \<Rightarrow> 's \<Rightarrow> (JmapError + ChangesAnswer) \<times> 's"
  js_download :: "string \<Rightarrow> 's \<Rightarrow> (JmapError + string) \<times> 's"
  js_hash_order :: "string list \<Rightarrow> string list"

definition CHANGES_PAGE_SIZE :: nat where "CHANGES_PAGE_SIZE = 500"
definition CHANGES_MAX_PAGES :: nat where "CHANGES_MAX_PAGES = 8"

definition credentials_for :: "string \<Rightarrow> string \<Rightarrow> string \<Rightarrow> Credentials" where
  "credentials_for auth_type email secret =
     (if to_ascii_lowercase auth_type = ''bearer'' then Bearer secret else Basic email secret)"

definition jmap_connect ::
  "'s JmapServer \<Rightarrow> string \<Rightarrow> string \<Rightarrow> string \<Rightarrow> string \<Rightarrow> ('s, JmapError, unit) eff" where
  "jmap_connect V base_url email secret auth_type s =
     (case js_connect_with V base_url (credentials_for auth_type email secret) s of
        (Inl (JmapAuthentication e), s1) \<Rightarrow>
          if to_ascii_lowercase auth_type = ''bearer''
          then (case js_connect_with V base_url (Basic secret ''X'') s1 of
                  (Inl (JmapAuthentication e), s2) \<Rightarrow> js_connect_with V base_url (Basic email secret) s2
                | r \<Rightarrow> r)
          else (Inl (JmapAuthentication e), s1)
      | r \<Rightarrow> r)"

definition max_calls_in_request :: "'s JmapServer \<Rightarrow> 's \<Rightarrow> nat" where
  "max_calls_in_request V s = (case js_max_calls V s of Some c \<Rightarrow> c | None \<Rightarrow> 8)"

definition get_emails ::
  "'s JmapServer \<Rightarrow> string list \<Rightarrow> ('s, JmapError, JmapEmail list \<times> string option) eff" where
  "get_emails V ids =
     (if ids = [] then okE ([], None)
      else bindE (js_get V ids) (\<lambda>(emails, state). okE (emails, Some state)))"

text \<open>\<^verbatim>\<open>i32::try_from(position).unwrap_or(i32::MAX)\<close> is \<open>clamp_i32\<close>.\<close>

definition query_emails_page ::
  "'s JmapServer \<Rightarrow> string \<Rightarrow> nat \<Rightarrow> nat \<Rightarrow> ('s, JmapError, EmailPage) eff" where
  "query_emails_page V mailbox_id position limit s =
     (if max_calls_in_request V s < 2
      then bindE (js_query V mailbox_id (clamp_i32 position) limit) (\<lambda>(ids, query_state).
           bindE (get_emails V ids) (\<lambda>(emails, email_state).
             okE \<lparr>ep_ids = ids, ep_emails = emails, ep_query_state = Some query_state,
                  ep_email_state = email_state\<rparr>)) s
      else bindE (js_query_and_get V mailbox_id (clamp_i32 position) limit)
             (\<lambda>((ids, query_state), emails, email_state).
                okE \<lparr>ep_ids = ids, ep_emails = emails, ep_query_state = Some query_state,
                     ep_email_state = Some email_state\<rparr>) s)"

definition query_email_changes ::
  "'s JmapServer \<Rightarrow> string \<Rightarrow> string \<Rightarrow> ('s, JmapError, EmailQueryChanges) eff" where
  "query_email_changes V mailbox_id since =
     bindE (js_query_changes V mailbox_id since CHANGES_PAGE_SIZE) (\<lambda>(added, removed, new_state).
       okE \<lparr>qc_added_ids = added, qc_removed_ids = removed, qc_new_query_state = Some new_state\<rparr>)"

text \<open>The loop of \<^verbatim>\<open>email_changes\<close>; \<open>pages\<close> is how many more answers it takes.\<close>

fun changes_pages ::
  "'s JmapServer \<Rightarrow> nat \<Rightarrow> string \<Rightarrow> string list \<Rightarrow> string list \<Rightarrow> ('s, JmapError, JmapEmailChanges) eff" where
  "changes_pages V 0 since updated destroyed =
     okE \<lparr>ec_updated_ids = updated, ec_destroyed_ids = destroyed, ec_new_state = Some since\<rparr>"
| "changes_pages V (Suc pages) since updated destroyed =
     bindE (js_changes V since CHANGES_PAGE_SIZE) (\<lambda>resp.
       let updated' = updated @ ca_updated resp; destroyed' = destroyed @ ca_destroyed resp
       in if \<not> ca_more resp
          then okE \<lparr>ec_updated_ids = updated', ec_destroyed_ids = destroyed', ec_new_state = Some (ca_new_state resp)\<rparr>
          else changes_pages V pages (ca_new_state resp) updated' destroyed')"

definition email_changes :: "'s JmapServer \<Rightarrow> string \<Rightarrow> ('s, JmapError, JmapEmailChanges) eff" where
  "email_changes V since_state = changes_pages V CHANGES_MAX_PAGES since_state [] []"

section \<open>The world of a pass\<close>

record AttachmentRow =
  at_id :: string
  at_message_id :: string
  at_filename :: string
  at_content_type :: string
  at_size_bytes :: int
  at_storage_path :: string
  at_content_id :: "string option"
  at_is_inline :: bool

record ExtractedAttachment =
  xa_filename :: string
  xa_content_type :: string
  xa_data :: string
  xa_content_id :: "string option"
  xa_is_inline :: bool

text \<open>\<open>jw_io_faults\<close> says which of the next file writes fail.\<close>

record 's JmapWorld =
  jw_db :: MailDb
  jw_attachments :: "AttachmentRow list"
  jw_files :: "string \<rightharpoonup> string"
  jw_io_faults :: "bool list"
  jw_session :: bool
  jw_server :: 's

record JmapEnv =
  jn_store :: StoreEnv
  jn_sha256_hex :: "string \<Rightarrow> string"

definition jdb :: "(MailDb, 'e, 'a) eff \<Rightarrow> ('s JmapWorld, 'e, 'a) eff" where
  "jdb f w = (case f (jw_db w) of (r, d) \<Rightarrow> (r, w\<lparr>jw_db := d\<rparr>))"

definition jcall :: "('s, JmapError, 'a) eff \<Rightarrow> ('s JmapWorld, JmapError, 'a) eff" where
  "jcall f w = (case f (jw_server w) of (r, s) \<Rightarrow> (r, w\<lparr>jw_server := s\<rparr>))"

definition jreq :: "('s, JmapError, 'a) eff \<Rightarrow> ('s JmapWorld, SyncError, 'a) eff" where
  "jreq f = map_errE JmapErr (jcall f)"

definition connect_for_account ::
  "'s JmapServer \<Rightarrow> string \<Rightarrow> string \<Rightarrow> string \<Rightarrow> string \<Rightarrow> ('s JmapWorld, SyncError, unit) eff" where
  "connect_for_account V base_url email secret auth_type w =
     (if jw_session w then (Inr (), w)
      else bindE (jreq (jmap_connect V base_url email secret auth_type))
             (\<lambda>_ w. (Inr (), w\<lparr>jw_session := True\<rparr>)) w)"

section \<open>Attachments\<close>

definition relative_blob_path :: "string \<Rightarrow> string \<Rightarrow> string" where
  "relative_blob_path account_id hash =
     ''blobs/'' @ account_id @ ''/'' @ take 2 hash @ ''/'' @ hash"

text \<open>\<^verbatim>\<open>blobs::store\<close>: nothing is written when the file is there.\<close>

definition blob_store :: "JmapEnv \<Rightarrow> string \<Rightarrow> string \<Rightarrow> ('s JmapWorld, SyncError, string) eff" where
  "blob_store N account_id data w =
     (let rel = relative_blob_path account_id (jn_sha256_hex N data)
      in if jw_files w rel \<noteq> None then (Inr rel, w)
         else case jw_io_faults w of
                True # fs \<Rightarrow> (Inl (InvalidInput ''cannot write attachment blob''), w\<lparr>jw_io_faults := fs\<rparr>)
              | fs \<Rightarrow> (Inr rel, w\<lparr>jw_io_faults := drop 1 fs, jw_files := (jw_files w)(rel \<mapsto> data)\<rparr>))"

text \<open>A statement on the attachment table; \<open>ok\<close> is the foreign key to \<^verbatim>\<open>message\<close>.\<close>

definition att_stmt ::
  "(MailData \<Rightarrow> bool) \<Rightarrow> (AttachmentRow list \<Rightarrow> AttachmentRow list) \<Rightarrow> ('s JmapWorld, SyncError, unit) eff" where
  "att_stmt ok g w =
     (case stmt (\<lambda>now d. (if ok d then Inr () else Inl (DatabaseErr Driver), d)) (jw_db w) of
        (Inl e, db) \<Rightarrow> (Inl e, w\<lparr>jw_db := db\<rparr>)
      | (Inr _, db) \<Rightarrow> (Inr (), w\<lparr>jw_db := db, jw_attachments := g (jw_attachments w)\<rparr>))"

fun insert_attachments ::
  "JmapEnv \<Rightarrow> string \<Rightarrow> string \<Rightarrow> ExtractedAttachment list \<Rightarrow> ('s JmapWorld, SyncError, unit) eff" where
  "insert_attachments N account_id message_value [] = okE ()"
| "insert_attachments N account_id message_value (att # atts) =
     bindE (jdb new_uuid_text) (\<lambda>i.
     bindE (blob_store N account_id (xa_data att)) (\<lambda>storage_path.
     bindE (ofE (id_value (jn_store N) i)) (\<lambda>i.
     bindE (att_stmt (\<lambda>d. message_value \<in> m_id ` set (dt_messages d)) (\<lambda>rows. rows @
       [\<lparr>at_id = i, at_message_id = message_value, at_filename = xa_filename att,
         at_content_type = xa_content_type att, at_size_bytes = int (length (xa_data att)),
         at_storage_path = storage_path, at_content_id = xa_content_id att,
         at_is_inline = xa_is_inline att\<rparr>])) (\<lambda>_.
     insert_attachments N account_id message_value atts))))"

definition persist_attachments ::
  "JmapEnv \<Rightarrow> string \<Rightarrow> string \<Rightarrow> ExtractedAttachment list \<Rightarrow> ('s JmapWorld, SyncError, unit) eff" where
  "persist_attachments N account_id message_id attachments =
     (if attachments = [] then okE ()
      else bindE (ofE (id_value (jn_store N) message_id)) (\<lambda>message_value.
           bindE (att_stmt (\<lambda>_. True) (filter (\<lambda>r. at_message_id r \<noteq> message_value))) (\<lambda>_.
           bindE (insert_attachments N account_id message_value attachments) (\<lambda>_.
             jdb (update_message (jn_store N) message_id (\<lambda>_. True) (\<lambda>m. m\<lparr>m_has_attachments := True\<rparr>))))))"

text \<open>\<^verbatim>\<open>Map::insert\<close> of \<^verbatim>\<open>serde_json\<close>, whose objects are ordered by key.\<close>

definition json_insert :: "string \<Rightarrow> Json \<Rightarrow> (string \<times> Json) list \<Rightarrow> (string \<times> Json) list" where
  "json_insert k v kvs = filter (\<lambda>(x, _). x < k) kvs @ (k, v) # filter (\<lambda>(x, _). k < x) kvs"

text \<open>Unlike in the store, an unparsable id is a database error here.\<close>

definition recovery_id_value :: "StoreEnv \<Rightarrow> string \<Rightarrow> SyncError + string" where
  "recovery_id_value E i = (case id_value E i of Inl _ \<Rightarrow> Inl (DatabaseErr Decode) | Inr v \<Rightarrow> Inr v)"

definition recovery_json_value :: "StoreEnv \<Rightarrow> string \<Rightarrow> string" where
  "recovery_json_value E raw =
     (case se_backend E of
        Postgres \<Rightarrow> se_json_show E (case se_json_parse E raw of Some v \<Rightarrow> v | None \<Rightarrow> JString raw)
      | _ \<Rightarrow> raw)"

definition mark_message_fetch_error ::
  "StoreEnv \<Rightarrow> string \<Rightarrow> string \<Rightarrow> (MailDb, SyncError, unit) eff" where
  "mark_message_fetch_error E message_id reason =
     bindE (ofE (recovery_id_value E message_id)) (\<lambda>i.
     bindE (query (\<lambda>d. Option.bind (find (\<lambda>m. m_id m = i) (dt_messages d)) m_flags)) (\<lambda>existing.
     let kvs = (case Option.bind existing (se_json_parse E) of Some (JObject kvs) \<Rightarrow> kvs | _ \<Rightarrow> []);
         flags = se_json_show E (JObject (json_insert ''fetch_error'' (JString reason) kvs))
     in modify (\<lambda>now d. d\<lparr>dt_messages := map (\<lambda>m. if m_id m = i
          then m\<lparr>m_flags := Some (recovery_json_value E flags), m_updated_at := now\<rparr> else m) (dt_messages d)\<rparr>)))"

definition JMAP_TRANSIENT_ATTEMPTS :: nat where "JMAP_TRANSIENT_ATTEMPTS = 3"

text \<open>The loop of \<^verbatim>\<open>download_blob_with_retry\<close>; \<open>left\<close> is how many attempts remain.\<close>

fun download_blob_with_retry :: "'s JmapServer \<Rightarrow> nat \<Rightarrow> string \<Rightarrow> 's \<Rightarrow> (JmapError + string) \<times> 's" where
  "download_blob_with_retry V left blob_id s =
     (case js_download V blob_id s of
        (Inl e, s1) \<Rightarrow>
          (case left of
             Suc (Suc n) \<Rightarrow> if is_transient e then download_blob_with_retry V (Suc n) blob_id s1 else (Inl e, s1)
           | _ \<Rightarrow> (Inl e, s1))
      | (Inr bytes, s1) \<Rightarrow> (Inr bytes, s1))"

declare download_blob_with_retry.simps [simp del]

definition MAX_ATTACHMENT_DOWNLOAD_BYTES :: int where "MAX_ATTACHMENT_DOWNLOAD_BYTES = 25 * 1024 * 1024"

fun fetch_attachments ::
  "JmapEnv \<Rightarrow> 's JmapServer \<Rightarrow> string \<Rightarrow> JmapAttachmentMeta list \<Rightarrow> ExtractedAttachment list \<Rightarrow>
     ('s JmapWorld, SyncError, ExtractedAttachment list) eff" where
  "fetch_attachments N V message_id [] extracted = okE extracted"
| "fetch_attachments N V message_id (meta # metas) extracted = (\<lambda>w.
     if MAX_ATTACHMENT_DOWNLOAD_BYTES < uint (jt_size meta)
     then bindE (jdb (mark_message_fetch_error (jn_store N) message_id ''attachment too large''))
            (\<lambda>_. fetch_attachments N V message_id metas extracted) w
     else case jcall (download_blob_with_retry V JMAP_TRANSIENT_ATTEMPTS (jt_blob_id meta)) w of
            (Inl e, w1) \<Rightarrow>
              bindE (jdb (mark_message_fetch_error (jn_store N) message_id ''attachment download failed''))
                (\<lambda>_. fetch_attachments N V message_id metas extracted) w1
          | (Inr bytes, w1) \<Rightarrow>
              if MAX_ATTACHMENT_DOWNLOAD_BYTES < int (length bytes)
              then bindE (jdb (mark_message_fetch_error (jn_store N) message_id ''attachment exceeds size cap''))
                     (\<lambda>_. fetch_attachments N V message_id metas extracted) w1
              else fetch_attachments N V message_id metas (extracted @
                     [\<lparr>xa_filename = jt_filename meta, xa_content_type = jt_content_type meta, xa_data = bytes,
                       xa_content_id = jt_content_id meta, xa_is_inline = jt_is_inline meta\<rparr>]) w1)"

definition download_attachments ::
  "JmapEnv \<Rightarrow> 's JmapServer \<Rightarrow> string \<Rightarrow> string \<Rightarrow> JmapAttachmentMeta list \<Rightarrow> ('s JmapWorld, SyncError, unit) eff" where
  "download_attachments N V account_id message_id attachments =
     bindE (fetch_attachments N V message_id attachments []) (\<lambda>extracted w.
       if extracted = [] then (Inr (), w)
       else case persist_attachments N account_id message_id extracted w of
              (Inr _, w1) \<Rightarrow> (Inr (), w1)
            | (Inl error, w1) \<Rightarrow>
                (Inl error, snd (jdb (mark_message_fetch_error (jn_store N) message_id ''attachment persist failed'') w1)))"

section \<open>The pass\<close>

definition QUERY_PAGE :: nat where "QUERY_PAGE = 100"

fun download_new ::
  "JmapEnv \<Rightarrow> 's JmapServer \<Rightarrow> string \<Rightarrow> (JmapEmail \<times> JmapPersistedMessage) list \<Rightarrow> ('s JmapWorld, SyncError, unit) eff" where
  "download_new N V account_id [] = okE ()"
| "download_new N V account_id ((email, persisted) # rest) =
     (if \<not> jp_was_new persisted \<or> je_attachments_meta email = [] then download_new N V account_id rest
      else bindE (download_attachments N V account_id (jp_local_id persisted) (je_attachments_meta email))
             (\<lambda>_. download_new N V account_id rest))"

definition persist_and_download ::
  "JmapEnv \<Rightarrow> 's JmapServer \<Rightarrow> string \<Rightarrow> string \<Rightarrow> JmapEmail list \<Rightarrow> string option \<Rightarrow>
     ('s JmapWorld, SyncError, nat \<times> nat) eff" where
  "persist_and_download N V account_id folder_id emails query_state =
     bindE (jdb (persist_jmap_folder_batch (jn_store N) account_id folder_id emails query_state))
       (\<lambda>(new, updated, persisted).
          bindE (download_new N V account_id (zip emails persisted)) (\<lambda>_. okE (new, updated)))"

text \<open>What a pass carries from step to step: the counts, the ids seen on the server, the ids it reported gone
  and the account-level state to save.\<close>

record PassState =
  ps_new :: nat
  ps_updated :: nat
  ps_refetched :: "string list"
  ps_removed :: "string list"
  ps_email_state :: "string option"

definition add_counts :: "nat \<times> nat \<Rightarrow> PassState \<Rightarrow> PassState" where
  "add_counts nu ps = ps\<lparr>ps_new := ps_new ps + fst nu, ps_updated := ps_updated ps + snd nu\<rparr>"

definition note_seen :: "string list \<Rightarrow> PassState \<Rightarrow> PassState" where
  "note_seen ids ps = ps\<lparr>ps_refetched := ps_refetched ps @ ids\<rparr>"

definition note_removed :: "string list \<Rightarrow> PassState \<Rightarrow> PassState" where
  "note_removed ids ps = ps\<lparr>ps_removed := ps_removed ps @ ids\<rparr>"

definition note_state :: "string option \<Rightarrow> PassState \<Rightarrow> PassState" where
  "note_state st ps = (if ps_email_state ps = None then ps\<lparr>ps_email_state := st\<rparr> else ps)"

partial_function (option) full_folder_query ::
  "JmapEnv \<Rightarrow> 's JmapServer \<Rightarrow> string \<Rightarrow> string \<Rightarrow> string \<Rightarrow> nat \<Rightarrow> PassState \<Rightarrow> 's JmapWorld \<Rightarrow>
     ((SyncError + PassState) \<times> 's JmapWorld) option" where
  "full_folder_query N V account_id folder_id mailbox_id position ps w =
     (case jreq (query_emails_page V mailbox_id position QUERY_PAGE) w of
        (Inl e, w1) \<Rightarrow> Some (Inl e, w1)
      | (Inr page, w1) \<Rightarrow>
          (let ps1 = note_state (ep_email_state page) (note_seen (ep_ids page) ps);
               last = length (ep_ids page) < QUERY_PAGE
           in case persist_and_download N V account_id folder_id (ep_emails page)
                     (if last then ep_query_state page else None) w1 of
                (Inl e, w2) \<Rightarrow> Some (Inl e, w2)
              | (Inr nu, w2) \<Rightarrow>
                  if last then Some (Inr (add_counts nu ps1), w2)
                  else full_folder_query N V account_id folder_id mailbox_id (position + QUERY_PAGE)
                         (add_counts nu ps1) w2))"

definition seed_email_state ::
  "'s JmapServer \<Rightarrow> JmapMailbox list \<Rightarrow> PassState \<Rightarrow> ('s JmapWorld, SyncError, PassState) eff" where
  "seed_email_state V mailboxes ps =
     (case mailboxes of
        [] \<Rightarrow> okE ps
      | mb # _ \<Rightarrow>
          bindE (jreq (query_emails_page V (jm_id mb) 0 1)) (\<lambda>page. okE (note_state (ep_email_state page) ps)))"

fun first_known_folder ::
  "StoreEnv \<Rightarrow> string \<Rightarrow> string list \<Rightarrow> (MailDb, SyncError, string option) eff" where
  "first_known_folder E account_id [] = okE None"
| "first_known_folder E account_id (mailbox_id # rest) =
     bindE (find_folder_id_by_external_id E account_id mailbox_id) (\<lambda>r.
       case r of Some folder_id \<Rightarrow> okE (Some folder_id) | None \<Rightarrow> first_known_folder E account_id rest)"

definition resolve_jmap_email_folder ::
  "StoreEnv \<Rightarrow> string \<Rightarrow> JmapEmail \<Rightarrow> (MailDb, SyncError, string option) eff" where
  "resolve_jmap_email_folder E account_id email =
     (case je_mailbox_ids email of
        Some (JObject kvs) \<Rightarrow> first_known_folder E account_id (map fst kvs)
      | _ \<Rightarrow> okE None)"

text \<open>The grouping of a chunk by folder; the groups are in the order of their first message.\<close>

definition push_group :: "string \<Rightarrow> JmapEmail \<Rightarrow> (string \<times> JmapEmail list) list \<Rightarrow> (string \<times> JmapEmail list) list" where
  "push_group f email gs =
     (if f \<in> fst ` set gs then map (\<lambda>(g, es). if g = f then (g, es @ [email]) else (g, es)) gs
      else gs @ [(f, [email])])"

fun group_by_folder ::
  "StoreEnv \<Rightarrow> string \<Rightarrow> JmapEmail list \<Rightarrow> (string \<times> JmapEmail list) list \<Rightarrow>
     (MailDb, SyncError, (string \<times> JmapEmail list) list) eff" where
  "group_by_folder E account_id [] gs = okE gs"
| "group_by_folder E account_id (email # emails) gs =
     bindE (resolve_jmap_email_folder E account_id email) (\<lambda>r.
       group_by_folder E account_id emails
         (case r of Some folder_id \<Rightarrow> push_group folder_id email gs | None \<Rightarrow> gs))"

text \<open>The groups in the order in which the hash map is drained.\<close>

fun persist_groups ::
  "JmapEnv \<Rightarrow> 's JmapServer \<Rightarrow> string \<Rightarrow> (string \<times> JmapEmail list) list \<Rightarrow> string list \<Rightarrow> PassState \<Rightarrow>
     ('s JmapWorld, SyncError, PassState) eff" where
  "persist_groups N V account_id groups [] ps = okE ps"
| "persist_groups N V account_id groups (f # fs) ps =
     bindE (case map_of groups f of
              Some emails \<Rightarrow> persist_and_download N V account_id f emails None
            | None \<Rightarrow> okE (0, 0)) (\<lambda>nu.
       persist_groups N V account_id groups fs (add_counts nu ps))"

fun refetch_chunks ::
  "JmapEnv \<Rightarrow> 's JmapServer \<Rightarrow> string \<Rightarrow> string list list \<Rightarrow> PassState \<Rightarrow> ('s JmapWorld, SyncError, PassState) eff" where
  "refetch_chunks N V account_id [] ps = okE ps"
| "refetch_chunks N V account_id (chunk # chunks) ps =
     bindE (jreq (get_emails V chunk)) (\<lambda>(emails, _).
     bindE (jdb (group_by_folder (jn_store N) account_id emails [])) (\<lambda>groups.
     bindE (persist_groups N V account_id groups (js_hash_order V (map fst groups)) (note_seen (map je_id emails) ps))
       (\<lambda>ps'. refetch_chunks N V account_id chunks ps')))"

definition refetch_updated_emails ::
  "JmapEnv \<Rightarrow> 's JmapServer \<Rightarrow> string \<Rightarrow> string list \<Rightarrow> PassState \<Rightarrow> ('s JmapWorld, SyncError, PassState) eff" where
  "refetch_updated_emails N V account_id updated_ids ps =
     refetch_chunks N V account_id (chunks_of QUERY_PAGE updated_ids) ps"

definition plan_deletions :: "string list \<Rightarrow> string list \<Rightarrow> string list" where
  "plan_deletions removed refetched = filter (\<lambda>i. i \<notin> set refetched) removed"

text \<open>Step 1: the mailboxes.\<close>

fun upsert_mailboxes :: "StoreEnv \<Rightarrow> string \<Rightarrow> JmapMailbox list \<Rightarrow> (MailDb, SyncError, unit) eff" where
  "upsert_mailboxes E account_id [] = okE ()"
| "upsert_mailboxes E account_id (mb # mbs) =
     bindE (upsert_jmap_folder E account_id mb) (\<lambda>_. upsert_mailboxes E account_id mbs)"

fun link_mailboxes :: "StoreEnv \<Rightarrow> string \<Rightarrow> JmapMailbox list \<Rightarrow> (MailDb, SyncError, unit) eff" where
  "link_mailboxes E account_id [] = okE ()"
| "link_mailboxes E account_id (mb # mbs) =
     bindE (case jm_parent_id mb of
              Some parent_id \<Rightarrow> link_jmap_folder_parent E account_id (jm_id mb) parent_id
            | None \<Rightarrow> okE ()) (\<lambda>_. link_mailboxes E account_id mbs)"

text \<open>Step 2: the folder the account-level state is kept under, and \<^verbatim>\<open>Email/changes\<close>.\<close>

definition email_state_anchor :: "StoreEnv \<Rightarrow> string \<Rightarrow> (MailDb, SyncError, string option) eff" where
  "email_state_anchor E account_id =
     bindE (folder_id_for_role E account_id ''inbox'') (\<lambda>r.
       case r of Some f \<Rightarrow> okE (Some f) | None \<Rightarrow> first_folder_id E account_id)"

definition account_changes ::
  "JmapEnv \<Rightarrow> 's JmapServer \<Rightarrow> string \<Rightarrow> JmapMailbox list \<Rightarrow> string option \<Rightarrow> PassState \<Rightarrow>
     ('s JmapWorld, SyncError, PassState) eff" where
  "account_changes N V account_id mailboxes anchor ps =
     (case anchor of
        None \<Rightarrow> okE ps
      | Some anchor \<Rightarrow>
          bindE (jdb (load_jmap_email_state (jn_store N) account_id anchor)) (\<lambda>st.
            case st of
              None \<Rightarrow> seed_email_state V mailboxes ps
            | Some since \<Rightarrow> (\<lambda>w.
                case jcall (email_changes V since) w of
                  (Inr changes, w1) \<Rightarrow>
                    refetch_updated_emails N V account_id (ec_updated_ids changes)
                      ((note_removed (ec_destroyed_ids changes) ps)\<lparr>ps_email_state := ec_new_state changes\<rparr>) w1
                | (Inl e, w1) \<Rightarrow>
                    if is_stale_query_state e
                    then bindE (jdb (clear_jmap_email_state (jn_store N) account_id anchor))
                           (\<lambda>_. seed_email_state V mailboxes ps) w1
                    else (Inl (JmapErr e), w1))))"

text \<open>Step 3: the chunks of the added ids of a folder, the state committed with the last one.\<close>

fun fetch_added ::
  "JmapEnv \<Rightarrow> 's JmapServer \<Rightarrow> string \<Rightarrow> string \<Rightarrow> string option \<Rightarrow> string list list \<Rightarrow> PassState \<Rightarrow>
     ('s JmapWorld, SyncError, PassState) eff" where
  "fetch_added N V account_id folder_id new_state [] ps = okE ps"
| "fetch_added N V account_id folder_id new_state (chunk # chunks) ps =
     bindE (jreq (get_emails V chunk)) (\<lambda>(emails, email_state).
     bindE (persist_and_download N V account_id folder_id emails (if chunks = [] then new_state else None)) (\<lambda>nu.
       fetch_added N V account_id folder_id new_state chunks (add_counts nu (note_state email_state ps))))"

definition sync_mailbox ::
  "JmapEnv \<Rightarrow> 's JmapServer \<Rightarrow> string \<Rightarrow> JmapMailbox \<Rightarrow> PassState \<Rightarrow> 's JmapWorld \<Rightarrow>
     ((SyncError + PassState) \<times> 's JmapWorld) option" where
  "sync_mailbox N V account_id mb ps w =
     (case bindE (jdb (get_folder_id (jn_store N) account_id (jm_id mb))) (\<lambda>folder_id.
           bindE (jdb (load_jmap_cursor (jn_store N) account_id folder_id)) (\<lambda>since. okE (folder_id, since))) w of
        (Inl e, w1) \<Rightarrow> Some (Inl e, w1)
      | (Inr (folder_id, None), w1) \<Rightarrow> full_folder_query N V account_id folder_id (jm_id mb) 0 ps w1
      | (Inr (folder_id, Some state), w1) \<Rightarrow>
          (case jcall (query_email_changes V (jm_id mb) state) w1 of
             (Inr changes, w2) \<Rightarrow>
               (let ps1 = note_seen (qc_added_ids changes) (note_removed (qc_removed_ids changes) ps)
                in if qc_added_ids changes = []
                   then Some (bindE (persist_and_download N V account_id folder_id [] (qc_new_query_state changes))
                          (\<lambda>_. okE ps1) w2)
                   else Some (fetch_added N V account_id folder_id (qc_new_query_state changes)
                          (chunks_of QUERY_PAGE (qc_added_ids changes)) ps1 w2))
           | (Inl e, w2) \<Rightarrow>
               if is_stale_query_state e
               then (case jdb (clear_jmap_cursor (jn_store N) account_id folder_id) w2 of
                       (Inl e, w3) \<Rightarrow> Some (Inl e, w3)
                     | (Inr _, w3) \<Rightarrow> full_folder_query N V account_id folder_id (jm_id mb) 0 ps w3)
               else Some (Inl (JmapErr e), w2)))"

fun sync_mailboxes ::
  "JmapEnv \<Rightarrow> 's JmapServer \<Rightarrow> string \<Rightarrow> JmapMailbox list \<Rightarrow> PassState \<Rightarrow> 's JmapWorld \<Rightarrow>
     ((SyncError + PassState) \<times> 's JmapWorld) option" where
  "sync_mailboxes N V account_id [] ps w = Some (Inr ps, w)"
| "sync_mailboxes N V account_id (mb # mbs) ps w =
     (case sync_mailbox N V account_id mb ps w of
        None \<Rightarrow> None
      | Some (Inl e, w1) \<Rightarrow> Some (Inl e, w1)
      | Some (Inr ps1, w1) \<Rightarrow> sync_mailboxes N V account_id mbs ps1 w1)"

definition empty_pass :: PassState where
  "empty_pass = \<lparr>ps_new = 0, ps_updated = 0, ps_refetched = [], ps_removed = [], ps_email_state = None\<rparr>"

text \<open>Steps 1 and 2: the mailboxes, the anchor and the state of the pass so far.\<close>

definition begin_pass ::
  "JmapEnv \<Rightarrow> 's JmapServer \<Rightarrow> string \<Rightarrow> string \<Rightarrow> string \<Rightarrow> string \<Rightarrow> string \<Rightarrow>
     ('s JmapWorld, SyncError, JmapMailbox list \<times> string option \<times> PassState) eff" where
  "begin_pass N V account_id base_url email secret auth_type =
     bindE (connect_for_account V base_url email secret auth_type) (\<lambda>_.
     bindE (jreq (js_refresh V)) (\<lambda>_.
     bindE (jreq (js_mailboxes V)) (\<lambda>mailboxes.
     bindE (jdb (upsert_mailboxes (jn_store N) account_id mailboxes)) (\<lambda>_.
     bindE (jdb (link_mailboxes (jn_store N) account_id mailboxes)) (\<lambda>_.
     bindE (jdb (email_state_anchor (jn_store N) account_id)) (\<lambda>anchor.
     bindE (account_changes N V account_id mailboxes anchor empty_pass) (\<lambda>ps.
       okE (mailboxes, anchor, ps))))))))"

text \<open>Steps 4 and 5: the deletions, then the account-level state.\<close>

definition end_pass ::
  "JmapEnv \<Rightarrow> string \<Rightarrow> string option \<Rightarrow> PassState \<Rightarrow> ('s JmapWorld, SyncError, nat) eff" where
  "end_pass N account_id anchor ps =
     bindE (jdb (delete_jmap_messages_by_external_ids (jn_store N) account_id
              (plan_deletions (ps_removed ps) (ps_refetched ps)))) (\<lambda>total_deleted.
     bindE (case (anchor, ps_email_state ps) of
              (Some anchor, Some state) \<Rightarrow> jdb (save_jmap_email_state (jn_store N) account_id anchor state)
            | _ \<Rightarrow> okE ()) (\<lambda>_. okE total_deleted))"

definition run_jmap_sync ::
  "JmapEnv \<Rightarrow> 's JmapServer \<Rightarrow> string \<Rightarrow> string \<Rightarrow> string \<Rightarrow> string \<Rightarrow> string \<Rightarrow> 's JmapWorld \<Rightarrow>
     ((SyncError + nat \<times> nat \<times> nat \<times> nat) \<times> 's JmapWorld) option" where
  "run_jmap_sync N V account_id base_url email secret auth_type w =
     (case begin_pass N V account_id base_url email secret auth_type w of
        (Inl e, w1) \<Rightarrow> Some (Inl e, w1)
      | (Inr (mailboxes, anchor, ps), w1) \<Rightarrow>
          (case sync_mailboxes N V account_id mailboxes ps w1 of
             None \<Rightarrow> None
           | Some (Inl e, w2) \<Rightarrow> Some (Inl e, w2)
           | Some (Inr ps', w2) \<Rightarrow>
               Some (bindE (end_pass N account_id anchor ps')
                       (\<lambda>deleted. okE (length mailboxes, ps_new ps', ps_updated ps', deleted)) w2)))"

text \<open>The attempts of \<^verbatim>\<open>jmap_sync_account\<close> before the fallback; \<open>left\<close> is how many remain, the first included.\<close>

fun jmap_attempts ::
  "JmapEnv \<Rightarrow> 's JmapServer \<Rightarrow> string \<Rightarrow> string \<Rightarrow> string \<Rightarrow> string \<Rightarrow> string \<Rightarrow> nat \<Rightarrow> 's JmapWorld \<Rightarrow>
     ((SyncError + nat \<times> nat \<times> nat \<times> nat) \<times> 's JmapWorld) option" where
  "jmap_attempts N V account_id base_url email secret auth_type left w =
     (case run_jmap_sync N V account_id base_url email secret auth_type w of
        None \<Rightarrow> None
      | Some (Inl (JmapErr e), w1) \<Rightarrow>
          (case left of
             Suc (Suc n) \<Rightarrow>
               if is_transient e then jmap_attempts N V account_id base_url email secret auth_type (Suc n) w1
               else Some (Inl (JmapErr e), w1)
           | _ \<Rightarrow> Some (Inl (JmapErr e), w1))
      | Some r \<Rightarrow> Some r)"

declare jmap_attempts.simps [simp del]

text \<open>\<^verbatim>\<open>jmap_sync_account\<close> from the decrypted secret on: the attempts, the eviction of a session the server
  rejects, and the IMAP fallback, which is given as the pass to run instead; a bearer account has none.\<close>

definition jmap_sync_account ::
  "JmapEnv \<Rightarrow> 's JmapServer \<Rightarrow> ('s JmapWorld, SyncError, nat \<times> nat \<times> nat \<times> nat) eff \<Rightarrow>
     string \<Rightarrow> string option \<Rightarrow> string \<Rightarrow> string \<Rightarrow> string \<Rightarrow> 's JmapWorld \<Rightarrow>
     ((SyncError + nat \<times> nat \<times> nat \<times> nat) \<times> 's JmapWorld) option" where
  "jmap_sync_account N V imap_pass account_id base_url email secret auth_type w =
     (case base_url of
        None \<Rightarrow> Some (imap_pass w)
      | Some base_url \<Rightarrow>
          (case jmap_attempts N V account_id base_url email secret auth_type JMAP_TRANSIENT_ATTEMPTS w of
             None \<Rightarrow> None
           | Some (Inr result, w1) \<Rightarrow> Some (Inr result, w1)
           | Some (Inl e, w1) \<Rightarrow>
               (let w2 = (case e of JmapErr j \<Rightarrow> if is_auth j then w1\<lparr>jw_session := False\<rparr> else w1 | _ \<Rightarrow> w1)
                in if to_ascii_lowercase auth_type = ''bearer'' then Some (Inl e, w2)
                   else Some (imap_pass w2))))"

end
