(* ===== verification/Lyra_JmapLaws.thy ===== *)
theory Lyra_JmapLaws
  imports Lyra_JmapSync
begin

text \<open>
  What the JMAP pass guarantees: which stored messages it may remove, that a folder's state is saved only
  behind its mail, and that it ends. The locale \<open>jmail_frame\<close> collects what the statements of a pass do to
  any relation between states that tolerates new rows and harmless updates; it is interpreted for
  \<open>jkept\<close>, under which rows survive, and for unchanged cursors.
\<close>

section \<open>Statements inside a pass\<close>

abbreviation jframes :: "(MailData \<Rightarrow> MailData \<Rightarrow> bool) \<Rightarrow> ('s JmapWorld, 'e, 'a) eff \<Rightarrow> bool" where
  "jframes \<equiv> pframes (\<lambda>w. md_data (jw_db w))"

lemma jframes_jdb: "frames R m \<Longrightarrow> jframes R (jdb m)"
  by (auto simp: pframes_def frames_def jdb_def split: prod.split) (metis snd_conv)

context store_frame
begin

lemma jframes_jcall: "jframes R (jcall f)"
  by (auto simp: pframes_def jcall_def R_refl split: prod.split)

lemma jframes_jreq: "jframes R (jreq f)"
  unfolding jreq_def by (intro pframes_map_errE jframes_jcall)

lemma jframes_connect: "jframes R (connect_for_account V base_url email secret auth_type)"
proof -
  have s: "jframes R (\<lambda>w. (Inr (), w\<lparr>jw_session := True\<rparr>))"
    by (simp add: pframes_def R_refl)
  have "jframes R (bindE (jreq (jmap_connect V base_url email secret auth_type)) (\<lambda>_ w. (Inr (), w\<lparr>jw_session := True\<rparr>)))"
    by (intro pframes_bindE jframes_jreq s)
  then show ?thesis
    by (simp add: pframes_def connect_for_account_def R_refl)
qed

lemma blob_store_db: "jw_db (snd (blob_store N a data w)) = jw_db w"
proof (cases "jw_io_faults w")
  case Nil
  then show ?thesis by (simp add: blob_store_def Let_def)
next
  case (Cons b fs)
  then show ?thesis by (cases b) (simp_all add: blob_store_def Let_def)
qed

lemma jframes_blob: "jframes R (blob_store N a data)"
  by (simp add: pframes_def blob_store_db R_refl)

lemma jframes_att: "jframes R (att_stmt ok g)"
proof -
  let ?s = "stmt (\<lambda>now d. (if ok d then Inr () else Inl (DatabaseErr Driver), d)) :: (MailDb, SyncError, unit) eff"
  have f: "frames R ?s"
    by (intro frames_stmt) (simp add: R_refl)
  have *: "R (md_data (jw_db w)) (md_data (jw_db (snd (att_stmt ok g w))))" for w :: "'b JmapWorld"
  proof -
    obtain r db where s: "?s (jw_db w) = (r, db)"
      by fastforce
    then have "R (md_data (jw_db w)) (md_data db)"
      using f [unfolded frames_def, THEN spec, of "jw_db w"] by simp
    with s show ?thesis
      by (cases r) (simp_all add: att_stmt_def)
  qed
  show ?thesis unfolding pframes_def by (intro allI *)
qed

lemmas jframes_rules = jframes_jreq jframes_jcall jframes_connect jframes_blob jframes_att pframes_rules

end

section \<open>What a pass deletes\<close>

text \<open>A row that is still there, with what is local to it.\<close>

definition jsame :: "StoredMessage \<Rightarrow> StoredMessage \<Rightarrow> bool" where
  "jsame m m' \<longleftrightarrow> m_id m' = m_id m \<and> m_account_id m' = m_account_id m \<and> m_external_id m' = m_external_id m
     \<and> m_labels m' = m_labels m \<and> m_snoozed_until m' = m_snoozed_until m \<and> m_is_deleted m' = m_is_deleted m
     \<and> m_body_text m' = m_body_text m \<and> m_body_html m' = m_body_html m \<and> m_raw_blob_path m' = m_raw_blob_path m
     \<and> m_spam_verdict m' = m_spam_verdict m"

definition jkept :: "MailData \<Rightarrow> MailData \<Rightarrow> bool" where
  "jkept d d' \<longleftrightarrow> (\<forall>m \<in> set (dt_messages d). \<exists>m' \<in> set (dt_messages d'). jsame m m')"

lemma jsame_refl: "jsame m m"
  by (simp add: jsame_def)

lemma jsame_trans: "jsame m1 m2 \<Longrightarrow> jsame m2 m3 \<Longrightarrow> jsame m1 m3"
  by (simp add: jsame_def)

text \<open>What the message and folder statements of a pass promise to a relation between states that allows new
  rows, changed folders, and changes of a row outside of what \<open>jsame\<close> fixes.\<close>

locale jmail_frame = store_frame +
  assumes keep_map: "(\<And>m. jsame m (g m)) \<Longrightarrow> R d (d\<lparr>dt_messages := map g (dt_messages d)\<rparr>)"
    and keep_new: "R d (d\<lparr>dt_messages := dt_messages d @ [m]\<rparr>)"
    and keep_folders_field: "R d (d\<lparr>dt_folders := fs\<rparr>)"
begin

lemma keep_modify: "(\<And>now m. jsame m (g now m)) \<Longrightarrow> frames R (modify (\<lambda>now d. d\<lparr>dt_messages := map (g now) (dt_messages d)\<rparr>))"
  by (intro frames_modify keep_map)

lemma keep_folders: "frames R (update_folders P g)"
  unfolding update_folders_def by (intro frames_modify keep_folders_field)

lemma keep_insert_folder: "frames R (insert_folder r)"
  unfolding insert_folder_def by (intro frames_stmt) (simp add: keep_folders_field R_refl)

lemma keep_insert_message: "frames R (insert_message None r)"
  unfolding insert_message_def by (intro frames_stmt) (simp add: keep_new R_refl)

lemma keep_rehome:
  assumes "\<And>m. jsame m (g m)"
  shows "frames R (rehome_message i f g)"
proof -
  have *: "jsame m (if m_id m = i then (g m)\<lparr>m_folder_id := f, m_updated_at := now\<rparr> else m)" for m now
    using assms [of m] by (simp add: jsame_def)
  show ?thesis
    unfolding rehome_message_def
    by (rule frames_stmt) (simp add: R_refl keep_map [OF *])
qed

lemma keep_find_folder: "frames R (find_folder_id_by_external_id E a e)"
  unfolding find_folder_id_by_external_id_def by (intro frames_rules)

lemma keep_find_message: "frames R (find_message_id E a e)"
  unfolding find_message_id_def by (intro frames_rules)

lemma keep_get_folder: "frames R (get_folder_id E a e)"
  unfolding get_folder_id_def by (intro frames_rules keep_find_folder frames_case_option)

lemma keep_upsert_folder: "frames R (upsert_jmap_folder E a mb)"
proof -
  have *: "frames R (\<lambda>db. insert_folder (r (md_now db)) db)" for r
    by (rule frames_now) (rule keep_insert_folder)
  show ?thesis
    unfolding upsert_jmap_folder_def Let_def
    by (intro frames_rules keep_find_folder frames_case_option keep_folders *)
qed

lemma keep_upsert_mailboxes: "frames R (upsert_mailboxes E a mbs)"
  by (induction mbs) (auto intro!: frames_rules keep_upsert_folder)

lemma keep_link: "frames R (link_jmap_folder_parent E a x y)"
  unfolding link_jmap_folder_parent_def
  by (intro frames_rules keep_get_folder keep_folders)

lemma keep_link_mailboxes: "frames R (link_mailboxes E a mbs)"
  by (induction mbs) (auto intro!: frames_rules frames_case_option keep_link)

lemma keep_anchor: "frames R (email_state_anchor E a)"
  unfolding email_state_anchor_def folder_id_for_role_def first_folder_id_def
  by (intro frames_rules frames_case_option)

lemma keep_load: "frames R (load_cursor_value E a f n)"
  unfolding load_cursor_value_def by (intro frames_rules)

lemma keep_counts: "frames R (update_folder_counts_in_tx E f)"
  unfolding update_folder_counts_in_tx_def folder_count_def
  by (intro frames_rules frames_stmt keep_folders) (simp_all add: R_refl)

lemma keep_all_counts: "frames R (update_all_counts E fs)"
  by (induction fs) (auto simp: update_folder_counts_def intro!: frames_rules keep_counts)

lemma keep_upsert_message: "frames R (upsert_jmap_message_in_tx E a f email)"
proof -
  have *: "frames R (\<lambda>db. insert_message None (message_insert E (md_now db) r) db)" for r
    by (rule frames_now) (rule keep_insert_message)
  show ?thesis
    unfolding upsert_jmap_message_in_tx_def Let_def
    by (intro frames_rules keep_find_message frames_case_option keep_rehome *) (simp add: jsame_def)
qed

lemma keep_upsert_all: "frames R (upsert_jmap_all E a f emails)"
  by (induction emails) (auto intro!: frames_rules keep_upsert_message frames_case_prod)

lemma keep_update_message:
  assumes "\<And>m. jsame m (g m)"
  shows "frames R (update_message E i P g)"
proof -
  have *: "jsame m (if m_id m = j \<and> P m then (g m)\<lparr>m_updated_at := now\<rparr> else m)" for m j now
    using assms [of m] by (simp add: jsame_def)
  show ?thesis
    unfolding update_message_def by (intro frames_rules keep_modify *)
qed

lemma keep_mark: "frames R (mark_message_fetch_error E i reason)"
proof -
  have *: "jsame m (if m_id m = j then m\<lparr>m_flags := x, m_updated_at := now\<rparr> else m)" for m j x now
    by (simp add: jsame_def)
  show ?thesis
    unfolding mark_message_fetch_error_def Let_def by (intro frames_rules keep_modify *)
qed

lemma jframes_if_app: "jframes R m \<Longrightarrow> jframes R n \<Longrightarrow> jframes R (\<lambda>w. if b then m w else n w)"
  by (cases b) simp_all

lemma jframes_cases:
  assumes "jframes R m" "\<And>e. jframes R (f e)" "\<And>x. jframes R (g x)" 
  shows "jframes R (\<lambda>w. case m w of (Inl e, w1) \<Rightarrow> f e w1 | (Inr x, w1) \<Rightarrow> g x w1)"
  unfolding pframes_def
proof
  fix w
  obtain z w1 where m: "m w = (z, w1)" by fastforce
  have "R (md_data (jw_db w)) (md_data (jw_db w1))"
    using pframesD [OF assms(1) m] .
  moreover have "R (md_data (jw_db w1)) (md_data (jw_db (snd (f e w1))))" "R (md_data (jw_db w1)) (md_data (jw_db (snd (g x w1))))" for e x
    using assms(2,3) by (simp_all add: pframes_def)
  ultimately show "R (md_data (jw_db w)) (md_data (jw_db (snd (case m w of (Inl e, w1) \<Rightarrow> f e w1 | (Inr x, w1) \<Rightarrow> g x w1))))"
    using R_trans by (cases z) (auto simp: m)
qed

lemmas keep_rules = jframes_jdb jframes_rules

lemma keep_insert: "jframes R (insert_attachments N a i atts)"
  by (induction atts) (auto intro!: keep_rules frames_rules)

lemma keep_persist_attachments: "jframes R (persist_attachments N a i atts)"
  unfolding persist_attachments_def
  by (intro keep_rules keep_insert keep_update_message) (simp add: jsame_def)

lemma keep_fetch: "jframes R (fetch_attachments N V i metas ex)"
proof (induction metas arbitrary: ex)
  case Nil
  then show ?case by (simp add: pframes_Pair)
next
  case (Cons meta metas)
  have mark: "jframes R (bindE (jdb (mark_message_fetch_error (jn_store N) i t)) (\<lambda>_. fetch_attachments N V i metas ex))" for t
    by (intro keep_rules keep_mark Cons.IH)
  show ?case
  proof (cases "MAX_ATTACHMENT_DOWNLOAD_BYTES < uint (jt_size meta)")
    case True
    then show ?thesis using mark by simp
  next
    case False
    show ?thesis
      unfolding fetch_attachments.simps if_not_P [OF False]
      by (rule jframes_cases)
        (rule jframes_jcall mark jframes_if_app Cons.IH)+
  qed
qed

lemma keep_download: "jframes R (download_attachments N V a i metas)"
proof -
  have "jframes R (\<lambda>w. case persist_attachments N a i ex w of
      (Inr u, w1) \<Rightarrow> (Inr (), w1)
    | (Inl error, w1) \<Rightarrow> (Inl error, snd (jdb (mark_message_fetch_error (jn_store N) i t) w1)))" for ex t
  proof -
    have "jframes R (\<lambda>w. (Inl error, snd (jdb (mark_message_fetch_error (jn_store N) i t) w)))" for error
      using jframes_jdb [OF keep_mark, of "jn_store N" i t] by (simp add: pframes_def)
    then show ?thesis
      by (rule jframes_cases [OF keep_persist_attachments _ pframes_Pair])
  qed
  then show ?thesis
    unfolding download_attachments_def
    by (intro pframes_bindE keep_fetch jframes_if_app pframes_Pair)
qed

lemma keep_download_new: "jframes R (download_new N V a xs)"
proof (induction xs)
  case Nil
  show ?case unfolding download_new.simps by (rule pframes_okE)
next
  case (Cons x xs)
  then show ?case
    by (cases x) (simp only: download_new.simps, intro pframes_rules keep_download)
qed

lemma keep_persist_None: "frames R (persist_jmap_folder_batch E a f emails None)"
  unfolding persist_jmap_folder_batch_def option.case
  by (intro frames_rules keep_upsert_all keep_counts)

end


interpretation jk: jmail_frame jkept
proof
  show "jkept d d" for d
    using jsame_refl by (auto simp: jkept_def)
  show "jkept d1 d2 \<Longrightarrow> jkept d2 d3 \<Longrightarrow> jkept d1 d3" for d1 d2 d3
    unfolding jkept_def using jsame_trans by meson
qed (auto simp: jkept_def intro: jsame_refl)

interpretation jc: jmail_frame "\<lambda>d d'. dt_cursors d' = dt_cursors d"
  by unfold_locales simp_all

lemma jk_same: "dt_messages d' = dt_messages d \<Longrightarrow> jkept d d'"
  using jsame_refl by (auto simp: jkept_def)

lemma jk_clear: "frames jkept (clear_state_cursor E a f n)"
  unfolding clear_state_cursor_def by (intro jk.frames_rules jk.frames_modify jk_same) simp

lemma jk_save: "frames jkept (save_cursor_row E a f n t v)"
proof -
  have "frames jkept (upsert_cursor_row r)" for r
    unfolding upsert_cursor_row_def Let_def by (intro jk.frames_stmt jk_same) simp
  then have *: "frames jkept (\<lambda>db. upsert_cursor_row (r (md_now db)) db)" for r
    by (rule jk.frames_now)
  show ?thesis
    unfolding save_cursor_row_def by (intro jk.frames_rules *)
qed

lemma jk_save_state: "frames jkept (save_state_cursor_in_tx E a f n v)"
  unfolding save_state_cursor_in_tx_def by (rule jk_save)

lemma jk_persist: "frames jkept (persist_jmap_folder_batch E a f emails qs)"
  unfolding persist_jmap_folder_batch_def save_jmap_cursor_in_tx_def
  by (intro jk.frames_rules jk.keep_upsert_all jk.frames_case_option jk_save_state jk.keep_counts)

lemma jkeep_persist: "jframes jkept (persist_and_download N V a f emails qs)"
  unfolding persist_and_download_def
  by (intro jk.pframes_rules jk.pframes_case_prod jframes_jdb jk_persist jk.keep_download_new)

lemma jkeep_groups: "jframes jkept (persist_groups N V a gs fs ps)"
proof (induction fs arbitrary: ps)
  case Nil
  show ?case unfolding persist_groups.simps by (rule jk.pframes_okE)
next
  case (Cons f fs)
  then show ?case
    unfolding persist_groups.simps
    by (intro jk.pframes_rules jk.pframes_case_option jkeep_persist)
qed

lemma jk_group_by: "frames jkept (group_by_folder E a emails gs)"
proof -
  have "frames jkept (first_known_folder E a ids)" for ids
  proof (induction ids)
    case Nil
    show ?case unfolding first_known_folder.simps by (rule jk.frames_okE)
  next
    case (Cons i ids)
    then show ?case
      unfolding first_known_folder.simps
      by (intro jk.frames_bindE jk.keep_find_folder jk.frames_case_option jk.frames_okE)
  qed
  then have *: "frames jkept (resolve_jmap_email_folder E a email)" for email
    unfolding resolve_jmap_email_folder_def
    by (cases "je_mailbox_ids email") (auto intro: jk.frames_okE split: Json.split simp del: first_known_folder.simps)
  show ?thesis
  proof (induction emails arbitrary: gs)
    case Nil
    show ?case unfolding group_by_folder.simps by (rule jk.frames_okE)
  next
    case (Cons e es)
    then show ?case unfolding group_by_folder.simps by (intro jk.frames_bindE *)
  qed
qed

lemma jkeep_refetch: "jframes jkept (refetch_chunks N V a chunks ps)"
proof (induction chunks arbitrary: ps)
  case Nil
  show ?case unfolding refetch_chunks.simps by (rule jk.pframes_okE)
next
  case (Cons c cs)
  then show ?case
    unfolding refetch_chunks.simps
    by (intro jk.pframes_bindE jk.pframes_case_prod jk.jframes_jreq jframes_jdb jk_group_by jkeep_groups)
qed

lemma jkeep_seed: "jframes jkept (seed_email_state V mbs ps)"
  unfolding seed_email_state_def
  by (cases mbs) (simp_all only: list.case, (rule jk.pframes_okE), intro jk.pframes_bindE jk.jframes_jreq jk.pframes_okE)

lemma jkeep_changes: "jframes jkept (account_changes N V a mbs anchor ps)"
proof -
  have stale: "jframes jkept (bindE (jdb (clear_jmap_email_state (jn_store N) a f)) (\<lambda>_. seed_email_state V mbs ps))" for f
    unfolding clear_jmap_email_state_def by (intro jk.pframes_bindE jframes_jdb jk_clear jkeep_seed)
  have "jframes jkept (\<lambda>w. case jcall (email_changes V since) w of
      (Inr changes, w1) \<Rightarrow> refetch_updated_emails N V a (ec_updated_ids changes)
         ((note_removed (ec_destroyed_ids changes) ps)\<lparr>ps_email_state := ec_new_state changes\<rparr>) w1
    | (Inl e, w1) \<Rightarrow> if is_stale_query_state e
        then bindE (jdb (clear_jmap_email_state (jn_store N) a f)) (\<lambda>_. seed_email_state V mbs ps) w1
        else (Inl (JmapErr e), w1))" for since f
    unfolding refetch_updated_emails_def
    by (rule jk.jframes_cases)
      (rule jk.jframes_jcall stale jk.jframes_if_app jk.pframes_Pair jkeep_refetch)+
  then show ?thesis
    unfolding account_changes_def load_jmap_email_state_def
    by (intro jk.pframes_case_option jk.pframes_okE jk.pframes_bindE jframes_jdb jk.keep_load jkeep_seed)
qed

lemma jkeep_begin: "jframes jkept (begin_pass N V a u e s t)"
  unfolding begin_pass_def
  by (intro jk.pframes_bindE jk.jframes_connect jk.jframes_jreq jframes_jdb jk.keep_upsert_mailboxes jk.keep_link_mailboxes
      jk.keep_anchor jkeep_changes jk.pframes_okE)

lemma jkeep_added: "jframes jkept (fetch_added N V a f st chunks ps)"
proof (induction chunks arbitrary: ps)
  case Nil
  show ?case unfolding fetch_added.simps by (rule jk.pframes_okE)
next
  case (Cons c cs)
  then show ?case
    unfolding fetch_added.simps
    by (intro jk.pframes_bindE jk.pframes_case_prod jk.jframes_jreq jkeep_persist)
qed

text \<open>What a successful step does to the ids of the pass: the seen ones grow, and the removed ones grow by ids the
  server reported.\<close>

definition reported :: "'s JmapServer \<Rightarrow> string \<Rightarrow> bool" where
  "reported V i \<longleftrightarrow>
     (\<exists>since s resp s'. js_changes V since CHANGES_PAGE_SIZE s = (Inr resp, s') \<and> i \<in> set (ca_destroyed resp))
   \<or> (\<exists>b since s added removed st s'. js_query_changes V b since CHANGES_PAGE_SIZE s = (Inr (added, removed, st), s')
        \<and> i \<in> set removed)"

definition grows :: "'s JmapServer \<Rightarrow> PassState \<Rightarrow> PassState \<Rightarrow> bool" where
  "grows V ps ps' \<longleftrightarrow> set (ps_refetched ps) \<subseteq> set (ps_refetched ps')
     \<and> (\<forall>i \<in> set (ps_removed ps'). i \<in> set (ps_removed ps) \<or> reported V i)"

definition yields :: "('r \<Rightarrow> bool) \<Rightarrow> ('w, 'e, 'r) eff \<Rightarrow> bool" where
  "yields Q m \<longleftrightarrow> (\<forall>w x w'. m w = (Inr x, w') \<longrightarrow> Q x)"

lemma yieldsD: "yields Q m \<Longrightarrow> m w = (Inr x, w') \<Longrightarrow> Q x"
  by (auto simp: yields_def)

lemma yields_True: "yields (\<lambda>_. True) m"
  by (simp add: yields_def)

lemma yields_okE: "Q x \<Longrightarrow> yields Q (okE x)"
  by (simp add: yields_def)

lemma yields_bindE: "yields P m \<Longrightarrow> (\<And>x. P x \<Longrightarrow> yields Q (f x)) \<Longrightarrow> yields Q (bindE m f)"
  unfolding yields_def bindE_def
  by (clarsimp split: prod.split_asm sum.split_asm) metis

lemmas yields_bind = yields_bindE [OF yields_True]

lemma yields_cases:
  "yields P m \<Longrightarrow> (\<And>e. yields Q (f e)) \<Longrightarrow> (\<And>x. P x \<Longrightarrow> yields Q (g x)) \<Longrightarrow>
   yields Q (\<lambda>w. case m w of (Inl e, w1) \<Rightarrow> f e w1 | (Inr x, w1) \<Rightarrow> g x w1)"
  unfolding yields_def by (clarsimp split: prod.split_asm sum.split_asm) metis+

lemma yields_if: "(b \<Longrightarrow> yields Q m) \<Longrightarrow> (\<not> b \<Longrightarrow> yields Q n) \<Longrightarrow> yields Q (\<lambda>w. if b then m w else n w)"
  by (cases b) simp_all

lemma yields_Inl: "yields Q (Pair (Inl e))"
  by (simp add: yields_def)

lemma yields_jdb: "yields Q m \<Longrightarrow> yields Q (jdb m)"
  unfolding yields_def jdb_def by (clarsimp split: prod.split_asm) metis

lemma yields_jcall: "yields Q m \<Longrightarrow> yields Q (jcall m)"
  unfolding yields_def jcall_def by (clarsimp split: prod.split_asm) metis

lemma grows_refl: "grows V ps ps"
  by (simp add: grows_def)

lemma grows_trans: "grows V ps1 ps2 \<Longrightarrow> grows V ps2 ps3 \<Longrightarrow> grows V ps1 ps3"
  by (auto simp: grows_def)

lemma grows_notes [simp]:
  "grows V ps0 (add_counts nu ps) = grows V ps0 ps"
  "grows V ps0 (note_state st ps) = grows V ps0 ps"
  "grows V ps0 (ps\<lparr>ps_email_state := st\<rparr>) = grows V ps0 ps"
  by (simp_all add: grows_def add_counts_def note_state_def)

lemma grows_seen: "grows V ps0 ps \<Longrightarrow> grows V ps0 (note_seen ids ps)"
  by (auto simp: grows_def note_seen_def)

lemma grows_removed: "grows V ps0 ps \<Longrightarrow> (\<And>i. i \<in> set ids \<Longrightarrow> reported V i) \<Longrightarrow> grows V ps0 (note_removed ids ps)"
  by (auto simp: grows_def note_removed_def)

lemma grows_groups: "grows V ps0 ps \<Longrightarrow> yields (grows V ps0) (persist_groups N V a gs fs ps)"
proof (induction fs arbitrary: ps)
  case Nil
  then show ?case unfolding persist_groups.simps by (rule yields_okE)
next
  case (Cons f fs)
  show ?case
    unfolding persist_groups.simps by (rule yields_bind, rule Cons.IH) (simp add: Cons.prems)
qed

lemma grows_refetch: "grows V ps0 ps \<Longrightarrow> yields (grows V ps0) (refetch_chunks N V a chunks ps)"
proof (induction chunks arbitrary: ps)
  case Nil
  then show ?case unfolding refetch_chunks.simps by (rule yields_okE)
next
  case (Cons c cs)
  have "yields (grows V ps0) (persist_groups N V a gs fs (note_seen ids ps))" for gs fs ids
    by (intro grows_groups grows_seen Cons.prems)
  then show ?case
    unfolding refetch_chunks.simps case_prod_beta
    by (intro yields_bind yields_bindE [OF _ Cons.IH])
qed

lemma grows_added: "grows V ps0 ps \<Longrightarrow> yields (grows V ps0) (fetch_added N V a f st chunks ps)"
proof (induction chunks arbitrary: ps)
  case Nil
  then show ?case unfolding fetch_added.simps by (rule yields_okE)
next
  case (Cons c cs)
  show ?case
    unfolding fetch_added.simps case_prod_beta
    by (intro yields_bind Cons.IH) (simp add: Cons.prems)
qed

lemma grows_seed: "grows V ps0 ps \<Longrightarrow> yields (grows V ps0) (seed_email_state V mbs ps)"
  unfolding seed_email_state_def
  by (cases mbs) (simp_all only: list.case, rule yields_okE, assumption, rule yields_bind, rule yields_okE, simp)

lemma changes_reported:
  "\<forall>i \<in> set destroyed. reported V i \<Longrightarrow>
   yields (\<lambda>c. \<forall>i \<in> set (ec_destroyed_ids c). reported V i) (changes_pages V n since updated destroyed)"
proof (induction n arbitrary: since updated destroyed)
  case 0
  then show ?case unfolding changes_pages.simps by (intro yields_okE) simp
next
  case (Suc n)
  have "yields (\<lambda>resp. \<forall>i \<in> set (ca_destroyed resp). reported V i) (js_changes V since CHANGES_PAGE_SIZE)"
    by (auto simp: yields_def reported_def)
  then show ?case
    unfolding changes_pages.simps Let_def
  proof (rule yields_bindE)
    fix resp assume "\<forall>i \<in> set (ca_destroyed resp). reported V i"
    with Suc.prems have *: "\<forall>i \<in> set (destroyed @ ca_destroyed resp). reported V i" by auto
    show "yields (\<lambda>c. \<forall>i \<in> set (ec_destroyed_ids c). reported V i)
      (if \<not> ca_more resp then okE \<lparr>ec_updated_ids = updated @ ca_updated resp,
           ec_destroyed_ids = destroyed @ ca_destroyed resp, ec_new_state = Some (ca_new_state resp)\<rparr>
       else changes_pages V n (ca_new_state resp) (updated @ ca_updated resp) (destroyed @ ca_destroyed resp))"
      using * Suc.IH [OF *] by (auto intro: yields_okE simp: yields_def)
  qed
qed

lemma grows_changes: "yields (grows V ps) (account_changes N V a mbs anchor ps)"
proof -
  have seed: "yields (grows V ps) (seed_email_state V mbs ps)"
    by (intro grows_seed grows_refl)
  have ec: "yields (\<lambda>c. \<forall>i \<in> set (ec_destroyed_ids c). reported V i) (jcall (email_changes V since))" for since
    unfolding email_changes_def by (intro yields_jcall changes_reported) simp
  have re: "yields (grows V ps) (refetch_updated_emails N V a (ec_updated_ids c)
      ((note_removed (ec_destroyed_ids c) ps)\<lparr>ps_email_state := ec_new_state c\<rparr>))"
    if "\<forall>i \<in> set (ec_destroyed_ids c). reported V i" for c
    unfolding refetch_updated_emails_def using that by (intro grows_refetch) (simp add: grows_removed grows_refl)
  have "yields (grows V ps) (\<lambda>w. case jcall (email_changes V since) w of
      (Inr changes, w1) \<Rightarrow> refetch_updated_emails N V a (ec_updated_ids changes)
         ((note_removed (ec_destroyed_ids changes) ps)\<lparr>ps_email_state := ec_new_state changes\<rparr>) w1
    | (Inl e, w1) \<Rightarrow> if is_stale_query_state e
        then bindE (jdb (clear_jmap_email_state (jn_store N) a f)) (\<lambda>_. seed_email_state V mbs ps) w1
        else (Inl (JmapErr e), w1))" for since f
    by (rule yields_cases [OF ec]) (intro yields_if yields_bind seed yields_Inl, erule re)
  then show ?thesis
    unfolding account_changes_def
    by (auto intro!: yields_okE grows_refl yields_bind seed split: option.split)
qed

text \<open>A mailbox announces an id when every listing of changes adds it and every first page holds it.\<close>

definition announces :: "'s JmapServer \<Rightarrow> string \<Rightarrow> string \<Rightarrow> bool" where
  "announces V b i \<longleftrightarrow>
     (\<forall>since n s added removed st s'. js_query_changes V b since n s = (Inr (added, removed, st), s') \<longrightarrow> i \<in> set added)
   \<and> (\<forall>n s ids st s'. js_query V b 0 n s = (Inr (ids, st), s') \<longrightarrow> i \<in> set ids)
   \<and> (\<forall>n s ids st es st' s'. js_query_and_get V b 0 n s = (Inr ((ids, st), es, st'), s') \<longrightarrow> i \<in> set ids)"

definition listed :: "'s JmapServer \<Rightarrow> string \<Rightarrow> bool" where
  "listed V b \<longleftrightarrow> (\<forall>s mbs s'. js_mailboxes V s = (Inr mbs, s') \<longrightarrow> b \<in> jm_id ` set mbs)"

lemma announces_page:
  assumes "announces V b i"
  shows "yields (\<lambda>page. i \<in> set (ep_ids page)) (query_emails_page V b 0 n)"
proof -
  have *: "clamp_i32 0 = 0" by (simp add: clamp_i32_def)
  show ?thesis
    using assms unfolding yields_def announces_def query_emails_page_def *
    by (fastforce elim!: bindE_InrE split: if_splits prod.splits)
qed

lemma yields_jreq: "yields Q m \<Longrightarrow> yields Q (jreq m)"
  unfolding jreq_def by (drule yields_jcall) (auto simp: yields_def map_errE_def split: prod.splits sum.splits)

text \<open>The rule by which a returning query is analysed: a page that cannot be read, one that cannot be stored, the
  last one, and one that is followed by more.\<close>

lemma full_query_induct [consumes 1, case_names unread unstored last more]:
  fixes V :: "'s JmapServer"
  assumes "full_folder_query N V a f b pos ps w = Some z"
    and "\<And>pos ps w e w1. jreq (query_emails_page V b pos QUERY_PAGE) w = (Inl e, w1) \<Longrightarrow> P pos ps w (Inl e, w1)"
    and "\<And>pos ps w page w1 e w2. jreq (query_emails_page V b pos QUERY_PAGE) w = (Inr page, w1) \<Longrightarrow>
      persist_and_download N V a f (ep_emails page) (if length (ep_ids page) < QUERY_PAGE then ep_query_state page else None) w1
        = (Inl e, w2) \<Longrightarrow> P pos ps w (Inl e, w2)"
    and "\<And>pos ps w page w1 nu w2. jreq (query_emails_page V b pos QUERY_PAGE) w = (Inr page, w1) \<Longrightarrow>
      length (ep_ids page) < QUERY_PAGE \<Longrightarrow>
      persist_and_download N V a f (ep_emails page) (ep_query_state page) w1 = (Inr nu, w2) \<Longrightarrow>
      P pos ps w (Inr (add_counts nu (note_state (ep_email_state page) (note_seen (ep_ids page) ps))), w2)"
    and "\<And>pos ps w page w1 nu w2 z. jreq (query_emails_page V b pos QUERY_PAGE) w = (Inr page, w1) \<Longrightarrow>
      \<not> length (ep_ids page) < QUERY_PAGE \<Longrightarrow>
      persist_and_download N V a f (ep_emails page) None w1 = (Inr nu, w2) \<Longrightarrow>
      P (pos + QUERY_PAGE) (add_counts nu (note_state (ep_email_state page) (note_seen (ep_ids page) ps))) w2 z \<Longrightarrow>
      P pos ps w z"
  shows "P pos ps w z"
proof -
  have "N = N \<longrightarrow> V = V \<longrightarrow> a = a \<longrightarrow> f = f \<longrightarrow> b = b \<longrightarrow> P pos ps w z"
    using assms(1)
  proof (rule full_folder_query.raw_induct [where
      P = "\<lambda>N' V' a' f' b' pos ps w z. N' = N \<longrightarrow> V' = V \<longrightarrow> a' = a \<longrightarrow> f' = f \<longrightarrow> b' = b \<longrightarrow> P pos ps w z", rotated])
    fix fq :: "JmapEnv \<Rightarrow> 's JmapServer \<Rightarrow> string \<Rightarrow> string \<Rightarrow> string \<Rightarrow> nat \<Rightarrow> PassState \<Rightarrow> 's JmapWorld \<Rightarrow>
       ((SyncError + PassState) \<times> 's JmapWorld) option"
    fix N' V' a' f' b' pos ps w z
    assume IH: "\<And>N' V' a' f' b' pos ps w z. fq N' V' a' f' b' pos ps w = Some z \<Longrightarrow>
      N' = N \<longrightarrow> V' = V \<longrightarrow> a' = a \<longrightarrow> f' = f \<longrightarrow> b' = b \<longrightarrow> P pos ps w z"
    assume run: "(case jreq (query_emails_page V' b' pos QUERY_PAGE) w of (Inl e, w1) \<Rightarrow> Some (Inl e, w1)
      | (Inr page, w1) \<Rightarrow>
          (let ps1 = note_state (ep_email_state page) (note_seen (ep_ids page) ps);
               last = length (ep_ids page) < QUERY_PAGE
           in case persist_and_download N' V' a' f' (ep_emails page) (if last then ep_query_state page else None) w1 of
                (Inl e, w2) \<Rightarrow> Some (Inl e, w2)
              | (Inr nu, w2) \<Rightarrow> if last then Some (Inr (add_counts nu ps1), w2)
                  else fq N' V' a' f' b' (pos + QUERY_PAGE) (add_counts nu ps1) w2)) = Some z"
    show "N' = N \<longrightarrow> V' = V \<longrightarrow> a' = a \<longrightarrow> f' = f \<longrightarrow> b' = b \<longrightarrow> P pos ps w z"
    proof (intro impI)
      assume eqs: "N' = N" "V' = V" "a' = a" "f' = f" "b' = b"
      obtain r1 w1 where p: "jreq (query_emails_page V b pos QUERY_PAGE) w = (r1, w1)" by fastforce
      show "P pos ps w z"
      proof (cases r1)
        case (Inl e)
        with run p assms(2) show ?thesis by (auto simp: eqs)
      next
        case (Inr page)
        let ?last = "length (ep_ids page) < QUERY_PAGE"
        obtain r2 w2 where d: "persist_and_download N V a f (ep_emails page) (if ?last then ep_query_state page else None) w1 = (r2, w2)"
          by fastforce
        show ?thesis
        proof (cases r2)
          case (Inl e)
          with run p d assms(3) \<open>r1 = Inr page\<close> show ?thesis by (auto simp: eqs Let_def)
        next
          case r2: (Inr nu)
          note step = run [unfolded eqs p Inr Let_def prod.case sum.case d r2]
          show ?thesis
          proof (cases ?last)
            case True
            with assms(4) [OF p [unfolded Inr] True, of nu w2 ps] step d r2 show ?thesis by simp
          next
            case False
            with step IH have "P (pos + QUERY_PAGE) (add_counts nu (note_state (ep_email_state page) (note_seen (ep_ids page) ps))) w2 z"
              by auto
            with assms(5) [OF p [unfolded Inr] False, of nu w2 ps z] d r2 False show ?thesis by simp
          qed
        qed
      qed
    qed
  qed
  then show ?thesis by simp
qed

lemma full_query_step:
  assumes "full_folder_query N V a f b pos ps w = Some z"
  shows "jkept (md_data (jw_db w)) (md_data (jw_db (snd z))) \<and> (\<forall>ps'. fst z = Inr ps' \<longrightarrow> grows V ps ps')"
proof -
  let ?kept = "\<lambda>w w'. jkept (md_data (jw_db w)) (md_data (jw_db w'))"
  have k: "?kept w w2" if "jreq (query_emails_page V b pos QUERY_PAGE) w = (r1, w1)"
      "persist_and_download N V a f es st w1 = (r2, w2)" for w r1 w1 pos es st r2 w2
    using pframesD [OF jk.jframes_jreq that(1)] pframesD [OF jkeep_persist that(2)] by (rule jk.R_trans)
  show ?thesis
    using assms
  proof (induction rule: full_query_induct)
    case (unread pos ps w e w1)
    then show ?case using pframesD [OF jk.jframes_jreq unread] by simp
  next
    case (unstored pos ps w page w1 e w2)
    then show ?case using k by simp
  next
    case (last pos ps w page w1 nu w2)
    then show ?case using k by (simp add: grows_seen grows_refl)
  next
    case (more pos ps w page w1 nu w2 z)
    have "grows V ps (add_counts nu (note_state (ep_email_state page) (note_seen (ep_ids page) ps)))"
      by (simp add: grows_seen grows_refl)
    with more.IH k [OF more.hyps(1,3)] show ?case using jk.R_trans grows_trans by blast
  qed
qed

definition sees :: "'s JmapServer \<Rightarrow> string \<Rightarrow> PassState \<Rightarrow> bool" where
  "sees V b ps \<longleftrightarrow> (\<forall>i. announces V b i \<longrightarrow> i \<in> set (ps_refetched ps))"

lemma sees_grows: "sees V b ps \<Longrightarrow> grows V ps ps' \<Longrightarrow> sees V b ps'"
  by (auto simp: sees_def grows_def)

lemma sees_notes [simp]:
  "sees V b (add_counts nu ps) = sees V b ps" "sees V b (note_state st ps) = sees V b ps"
  by (simp_all add: sees_def add_counts_def note_state_def)

lemma full_query_sees:
  assumes "full_folder_query N V a f b 0 ps w = Some (Inr ps', w')"
  shows "sees V b ps'"
proof -
  obtain r1 w1 where p: "jreq (query_emails_page V b 0 QUERY_PAGE) w = (r1, w1)" by fastforce
  with assms obtain page where r1: "r1 = Inr page"
    by (subst (asm) full_folder_query.simps) (cases r1, auto)
  let ?last = "length (ep_ids page) < QUERY_PAGE"
  let ?ps = "note_state (ep_email_state page) (note_seen (ep_ids page) ps)"
  have s: "sees V b ?ps"
    using yieldsD [OF yields_jreq [OF announces_page] p [unfolded r1]] by (auto simp: sees_def note_seen_def note_state_def)
  obtain r2 w2 where d: "persist_and_download N V a f (ep_emails page) (if ?last then ep_query_state page else None) w1 = (r2, w2)"
    by fastforce
  with assms p r1 obtain nu where r2: "r2 = Inr nu"
    by (subst (asm) full_folder_query.simps) (cases r2, auto simp: Let_def)
  have "(if ?last then Some (Inr (add_counts nu ?ps), w2)
      else full_folder_query N V a f b (0 + QUERY_PAGE) (add_counts nu ?ps) w2) = Some (Inr ps', w')"
    using assms p d by (subst (asm) full_folder_query.simps) (simp add: r1 r2 Let_def)
  then have "grows V (add_counts nu ?ps) ps'"
    by (auto simp: grows_refl dest!: full_query_step split: if_splits)
  from sees_grows [OF _ this] s show ?thesis by simp
qed

lemma query_changes_reported:
  "yields (\<lambda>c. (\<forall>i \<in> set (qc_removed_ids c). reported V i) \<and> (\<forall>i. announces V b i \<longrightarrow> i \<in> set (qc_added_ids c)))
     (query_email_changes V b since)"
  unfolding query_email_changes_def yields_def reported_def announces_def
  by (fastforce elim!: bindE_InrE)

text \<open>The three things a turn leaves behind.\<close>

definition turn :: "'s JmapServer \<Rightarrow> string \<Rightarrow> PassState \<Rightarrow> 's JmapWorld \<Rightarrow> (SyncError + PassState) \<times> 's JmapWorld \<Rightarrow> bool" where
  "turn V b ps w z \<longleftrightarrow> jkept (md_data (jw_db w)) (md_data (jw_db (snd z)))
     \<and> (\<forall>ps'. fst z = Inr ps' \<longrightarrow> grows V ps ps' \<and> sees V b ps')"

lemma turn_full: "full_folder_query N V a f b 0 ps w = Some z \<Longrightarrow> turn V b ps w z"
  using full_query_sees [of N V a f b ps w _ "snd z"] full_query_step [of N V a f b 0 ps w z]
  by (cases z) (auto simp: turn_def)

lemma turn_before: "jkept (md_data (jw_db w0)) (md_data (jw_db w)) \<Longrightarrow> turn V b ps w z \<Longrightarrow> turn V b ps w0 z"
  unfolding turn_def using jk.R_trans by blast

lemma turn_error: "jkept (md_data (jw_db w)) (md_data (jw_db w')) \<Longrightarrow> turn V b ps w (Inl e, w')"
  by (simp add: turn_def)

lemma turn_eff:
  "jframes jkept m \<Longrightarrow> yields (grows V ps1) m \<Longrightarrow> grows V ps ps1 \<Longrightarrow> sees V b ps1 \<Longrightarrow> turn V b ps w (m w)"
  unfolding turn_def pframes_def
  by (metis grows_trans sees_grows yieldsD prod.collapse)

lemma turn_stale:
  fixes w :: "'s JmapWorld"
  assumes "(case jdb (clear_jmap_cursor (jn_store N) a f) w of
      (Inl e, w3) \<Rightarrow> Some (Inl e, w3)
    | (Inr _, w3) \<Rightarrow> full_folder_query N V a f b 0 ps w3) = Some z"
  shows "turn V b ps w z"
proof -
  obtain r3 w3 where c: "jdb (clear_jmap_cursor (jn_store N) a f) w = (r3, w3)" by fastforce
  have "jframes jkept (jdb (clear_jmap_cursor (jn_store N) a f) :: ('s JmapWorld, SyncError, unit) eff)"
    unfolding clear_jmap_cursor_def by (intro jframes_jdb jk_clear)
  from pframesD [OF this c] have k: "jkept (md_data (jw_db w)) (md_data (jw_db w3))" .
  with assms c show ?thesis
    by (cases r3) (auto intro: turn_error turn_before [OF _ turn_full])
qed

lemma turn_changes:
  assumes "\<forall>i \<in> set (qc_removed_ids ch). reported V i" "\<forall>i. announces V b i \<longrightarrow> i \<in> set (qc_added_ids ch)"
    and "(let ps1 = note_seen (qc_added_ids ch) (note_removed (qc_removed_ids ch) ps)
      in if qc_added_ids ch = []
         then Some (bindE (persist_and_download N V a f [] (qc_new_query_state ch)) (\<lambda>_. okE ps1) w)
         else Some (fetch_added N V a f (qc_new_query_state ch) (chunks_of QUERY_PAGE (qc_added_ids ch)) ps1 w)) = Some z"
  shows "turn V b ps w z"
proof -
  let ?ps = "note_seen (qc_added_ids ch) (note_removed (qc_removed_ids ch) ps)"
  have g: "grows V ps ?ps" "sees V b ?ps"
    using assms(1,2) by (auto simp: grows_def sees_def note_seen_def note_removed_def)
  have "turn V b ps w (bindE (persist_and_download N V a f [] st) (\<lambda>_. okE ?ps) w)" for st
    by (intro turn_eff [OF _ _ g] jk.pframes_bindE jkeep_persist jk.pframes_okE yields_bind yields_okE grows_refl)
  moreover have "turn V b ps w (fetch_added N V a f st chunks ?ps w)" for st chunks
    by (intro turn_eff [OF _ _ g] jkeep_added grows_added grows_refl)
  ultimately show ?thesis
    using assms(3) by (auto simp: Let_def split: if_splits)
qed

lemma sync_mailbox_turn:
  assumes "sync_mailbox N V a mb ps w = Some z"
  shows "turn V (jm_id mb) ps w z"
proof -
  let ?look = "bindE (jdb (get_folder_id (jn_store N) a (jm_id mb))) (\<lambda>folder_id.
      bindE (jdb (load_jmap_cursor (jn_store N) a folder_id)) (\<lambda>since. okE (folder_id, since)))"
  have look: "jframes jkept ?look"
    unfolding load_jmap_cursor_def
    by (intro jk.pframes_bindE jframes_jdb jk.keep_get_folder jk.keep_load jk.pframes_okE)
  obtain r1 w1 where l: "?look w = (r1, w1)" by fastforce
  note k1 = pframesD [OF look l]
  consider e where "r1 = Inl e" | f where "r1 = Inr (f, None)" | f state where "r1 = Inr (f, Some state)"
    by (metis old.sum.exhaust option.exhaust prod.collapse)
  then show ?thesis
  proof cases
    case 1
    with assms l k1 show ?thesis by (auto simp: sync_mailbox_def turn_error)
  next
    case (2 f)
    with assms l have "full_folder_query N V a f (jm_id mb) 0 ps w1 = Some z"
      by (simp add: sync_mailbox_def)
    with k1 show ?thesis by (blast intro: turn_before turn_full)
  next
    case (3 f state)
    obtain r2 w2 where q: "jcall (query_email_changes V (jm_id mb) state) w1 = (r2, w2)" by fastforce
    have "turn V (jm_id mb) ps w2 z"
    proof (cases r2)
      case (Inl e)
      with assms l 3 q show ?thesis
        by (auto simp: sync_mailbox_def turn_error jk.R_refl intro: turn_stale split: if_splits)
    next
      case (Inr ch)
      have "(\<forall>i \<in> set (qc_removed_ids ch). reported V i) \<and> (\<forall>i. announces V (jm_id mb) i \<longrightarrow> i \<in> set (qc_added_ids ch))"
        using yieldsD [OF yields_jcall [OF query_changes_reported] q [unfolded Inr]] .
      then show ?thesis
        using assms l 3 q Inr by (intro turn_changes [of ch]) (simp_all add: sync_mailbox_def)
    qed
    with jk.R_trans [OF k1 pframesD [OF jk.jframes_jcall q]] show ?thesis by (rule turn_before)
  qed
qed

lemma sync_mailboxes_turns:
  "sync_mailboxes N V a mbs ps w = Some z \<Longrightarrow>
   jkept (md_data (jw_db w)) (md_data (jw_db (snd z)))
   \<and> (\<forall>ps'. fst z = Inr ps' \<longrightarrow> grows V ps ps' \<and> (\<forall>mb \<in> set mbs. sees V (jm_id mb) ps'))"
proof (induction mbs arbitrary: ps w)
  case Nil
  then show ?case by (auto simp: jk.R_refl grows_refl)
next
  case (Cons mb mbs)
  then obtain r1 w1 where s: "sync_mailbox N V a mb ps w = Some (r1, w1)"
    by (auto split: option.splits)
  note t = sync_mailbox_turn [OF s]
  show ?case
  proof (cases r1)
    case (Inl e)
    with Cons.prems s t show ?thesis by (auto simp: turn_def)
  next
    case (Inr ps1)
    with Cons.prems s have "sync_mailboxes N V a mbs ps1 w1 = Some z" by simp
    from Cons.IH [OF this] t Inr show ?thesis
      by (auto simp: turn_def intro: jk.R_trans grows_trans sees_grows)
  qed
qed

text \<open>What a deletion by external ids may remove.\<close>

definition jdel :: "string \<Rightarrow> string set \<Rightarrow> MailData \<Rightarrow> MailData \<Rightarrow> bool" where
  "jdel a S d d' \<longleftrightarrow> (\<forall>m \<in> set (dt_messages d). (\<exists>m' \<in> set (dt_messages d'). jsame m m')
     \<or> (m_account_id m = a \<and> (\<exists>i \<in> S. m_external_id m = Some i)))"

lemma jkept_jdel: "jkept d d' \<Longrightarrow> jdel a S d d'"
  by (auto simp: jkept_def jdel_def)

lemma jdel_trans:
  assumes "jdel a S d1 d2" "jdel a S d2 d3"
  shows "jdel a S d1 d3"
  unfolding jdel_def
proof
  fix m assume m: "m \<in> set (dt_messages d1)"
  show "(\<exists>m' \<in> set (dt_messages d3). jsame m m') \<or> (m_account_id m = a \<and> (\<exists>i \<in> S. m_external_id m = Some i))"
  proof (cases "\<exists>m' \<in> set (dt_messages d2). jsame m m'")
    case True
    then obtain m2 where m2: "m2 \<in> set (dt_messages d2)" "jsame m m2" by blast
    then show ?thesis
      using assms(2) jsame_trans unfolding jdel_def by (metis jsame_def)
  qed (use assms(1) m in \<open>auto simp: jdel_def\<close>)
qed

interpretation jd: store_frame "jdel a S" for a S
  by unfold_locales (auto intro: jkept_jdel jk.R_refl jdel_trans)

lemma frames_jdel: "frames jkept m \<Longrightarrow> frames (jdel a S) m"
  by (simp add: frames_def jkept_jdel)

lemma jdel_filter:
  assumes "\<And>m. P m \<Longrightarrow> m_account_id m = a \<and> (\<exists>i \<in> S. m_external_id m = Some i)"
  shows "jdel a S d (d\<lparr>dt_messages := filter (\<lambda>m. \<not> P m) (dt_messages d)\<rparr>)"
  unfolding jdel_def
proof
  fix m assume "m \<in> set (dt_messages d)"
  then show "(\<exists>m' \<in> set (dt_messages (d\<lparr>dt_messages := filter (\<lambda>m. \<not> P m) (dt_messages d)\<rparr>)). jsame m m')
      \<or> (m_account_id m = a \<and> (\<exists>i \<in> S. m_external_id m = Some i))"
    using assms [of m] jsame_refl [of m] by (cases "P m") auto
qed

lemma jd_delete_chunks:
  "\<Union> (set ` set chunks) \<subseteq> S \<Longrightarrow> frames (jdel a S) (delete_chunks a chunks acc)"
proof (induction a chunks acc rule: delete_chunks.induct)
  case (1 a acc)
  then show ?case unfolding delete_chunks.simps by (intro jd.frames_okE)
next
  case (2 a chunk chunks folder_ids deleted)
  have d: "jdel a S d (d\<lparr>dt_messages := filter (\<lambda>m. \<not> (m_account_id m = a
      \<and> (case m_external_id m of Some x \<Rightarrow> x \<in> set chunk | None \<Rightarrow> False))) (dt_messages d)\<rparr>)" for d
    using "2.prems" by (intro jdel_filter) (auto split: option.splits)
  show ?case
    unfolding delete_chunks.simps Let_def
    by (intro jd.frames_bindE jd.frames_query jd.frames_stmt "2.IH" refl) (use d "2.prems" in auto)
qed

lemma jd_delete:
  assumes "id_value E account_id = Inr a" "set ids \<subseteq> S"
  shows "frames (jdel a S) (delete_jmap_messages_by_external_ids E account_id ids)"
proof -
  have "\<Union> (set ` set (chunks_of IDS_CHUNK ids)) \<subseteq> S"
    using concat_chunks_of [of IDS_CHUNK ids] assms(2) by (metis IDS_CHUNK_def set_concat zero_less_numeral)
  then show ?thesis
    unfolding delete_jmap_messages_by_external_ids_def assms(1)
    by (intro jd.frames_if jd.frames_okE jd.frames_ofE_bind)
      (auto intro!: jd.frames_bindE jd.frames_okE jd.frames_case_prod jd_delete_chunks frames_jdel [OF jk.keep_all_counts])
qed

lemma jd_end_pass:
  assumes "id_value (jn_store N) account_id = Inr a" "set (ps_removed ps) - set (ps_refetched ps) \<subseteq> S"
  shows "jframes (jdel a S) (end_pass N account_id anchor ps)"
proof -
  have "set (plan_deletions (ps_removed ps) (ps_refetched ps)) \<subseteq> S"
    using assms(2) by (auto simp: plan_deletions_def)
  then have d: "jframes (jdel a S) (jdb (delete_jmap_messages_by_external_ids (jn_store N) account_id
      (plan_deletions (ps_removed ps) (ps_refetched ps))))"
    by (intro jframes_jdb jd_delete assms(1))
  have s: "frames (jdel a S) (save_jmap_email_state (jn_store N) account_id f st)" for f st
    unfolding save_jmap_email_state_def by (intro frames_jdel jk.frames_in_tx jk_save_state)
  show ?thesis
    unfolding end_pass_def prod.case
    by (intro jd.pframes_bindE d jd.pframes_case_option jd.pframes_okE jframes_jdb s)
qed

lemma end_pass_bad_id:
  assumes "id_value (jn_store N) account_id = Inl e"
  shows "jframes jkept (end_pass N account_id anchor ps)"
proof -
  have "frames jkept (delete_jmap_messages_by_external_ids (jn_store N) account_id ids)" for ids
    unfolding delete_jmap_messages_by_external_ids_def assms
    by (intro jk.frames_if jk.frames_okE jk.frames_ofE_bind) simp
  moreover have "frames jkept (save_jmap_email_state (jn_store N) account_id f st)" for f st
    unfolding save_jmap_email_state_def by (intro jk.frames_in_tx jk_save_state)
  ultimately show ?thesis
    unfolding end_pass_def prod.case
    by (intro jk.pframes_bindE jk.pframes_case_option jk.pframes_okE jframes_jdb)
qed

lemma begin_pass_lists:
  "yields (\<lambda>(mbs, anchor, ps). (\<forall>b. listed V b \<longrightarrow> b \<in> jm_id ` set mbs) \<and> grows V empty_pass ps)
     (begin_pass N V account_id base_url email secret auth_type)"
proof -
  have "yields (\<lambda>mbs. \<forall>b. listed V b \<longrightarrow> b \<in> jm_id ` set mbs) (jreq (js_mailboxes V))"
    by (rule yields_jreq) (auto simp: yields_def listed_def)
  then show ?thesis
    unfolding begin_pass_def
    by - (rule yields_bind, rule yields_bind, erule yields_bindE, rule yields_bind, rule yields_bind,
        rule yields_bind, rule yields_bindE [OF grows_changes], rule yields_okE, simp)
qed

lemma jframes_snd: "jframes R f \<Longrightarrow> R (md_data (jw_db w)) (md_data (jw_db (snd (f w))))"
  by (simp add: pframes_def)

lemma end_pass_removes:
  assumes "set (ps_removed ps) - set (ps_refetched ps) \<subseteq> S" "jkept d (md_data (jw_db w))" "m \<in> set (dt_messages d)"
    and "w' = snd (bindE (end_pass N account_id anchor ps) (\<lambda>n. okE (g n)) w)"
  shows "(\<exists>m' \<in> set (dt_messages (md_data (jw_db w'))). jsame m m')
    \<or> (\<exists>i \<in> S. m_external_id m = Some i \<and> id_value (jn_store N) account_id = Inr (m_account_id m))"
proof (cases "id_value (jn_store N) account_id")
  case (Inl e)
  have "jkept (md_data (jw_db w)) (md_data (jw_db w'))"
    unfolding assms(4) by (intro jframes_snd jk.pframes_bindE end_pass_bad_id [OF Inl] jk.pframes_okE)
  with assms(2) have "jkept d (md_data (jw_db w'))" by (rule jk.R_trans)
  with assms(3) show ?thesis by (auto simp: jkept_def)
next
  case (Inr a)
  have "jdel a S (md_data (jw_db w)) (md_data (jw_db w'))"
    unfolding assms(4) by (intro jframes_snd jd.pframes_bindE jd_end_pass [OF Inr assms(1)] jd.pframes_okE)
  with assms(2) have "jdel a S d (md_data (jw_db w'))" by (blast intro: jkept_jdel jdel_trans)
  with assms(3) Inr show ?thesis by (auto simp: jdel_def)
qed


text \<open>An account with two mailboxes and one message, which the server moves from the first to the second.\<close>

definition demo_mailboxes :: "JmapMailbox list" where
  "demo_mailboxes = [\<lparr>jm_id = ''A'', jm_name = ''Inbox'', jm_role = Some ''inbox'', jm_parent_id = None\<rparr>,
     \<lparr>jm_id = ''B'', jm_name = ''Old'', jm_role = None, jm_parent_id = None\<rparr>]"

definition demo_email :: "string \<Rightarrow> JmapEmail" where
  "demo_email i = \<lparr>je_id = i, je_thread_id = None, je_mailbox_ids = None, je_keywords = None, je_size = None,
     je_received_at = None, je_message_id = None, je_in_reply_to = None, je_references = None, je_from = None,
     je_to = None, je_cc = None, je_subject = Some ''hi'', je_mailer = None, je_body_values = None, je_text_body = None,
     je_html_body = None, je_has_attachment = None, je_preview = None, je_attachments_meta = []\<rparr>"

definition demo_jmap :: "unit JmapServer" where
  "demo_jmap = \<lparr>js_connect_with = (\<lambda>u c. okE ()), js_refresh = okE (), js_max_calls = (\<lambda>_. None),
     js_mailboxes = okE demo_mailboxes,
     js_query = (\<lambda>b pos n. okE ([''x''], ''q'')),
     js_get = (\<lambda>ids. okE (map demo_email ids, ''e'')),
     js_query_and_get = (\<lambda>b pos n. okE (([''x''], ''q''), [demo_email ''x''], ''e'')),
     js_query_changes = (\<lambda>b since n. okE (if b = ''A'' then ([], [''x''], ''q'') else ([''x''], [], ''q''))),
     js_changes = (\<lambda>since n. okE \<lparr>ca_updated = [], ca_destroyed = [], ca_new_state = ''e'', ca_more = False\<rparr>),
     js_download = (\<lambda>b. okE []), js_hash_order = id\<rparr>"

definition demo_jmap_env :: JmapEnv where
  "demo_jmap_env = \<lparr>jn_store = demo_store_env, jn_sha256_hex = id\<rparr>"

definition demo_jmap_db :: MailDb where
  "demo_jmap_db = snd (bindE (upsert_mailboxes demo_store_env ''acc'' demo_mailboxes) (\<lambda>_.
     bindE (persist_jmap_folder_batch demo_store_env ''acc'' ''0'' [demo_email ''x''] (Some ''q'')) (\<lambda>_.
     persist_jmap_folder_batch demo_store_env ''acc'' ''1'' [] (Some ''q''))) demo_db)"

definition demo_jmap_world :: "unit JmapWorld" where
  "demo_jmap_world = \<lparr>jw_db = demo_jmap_db, jw_attachments = [], jw_files = (\<lambda>_. None), jw_io_faults = [],
     jw_session = False, jw_server = ()\<rparr>"

lemma demo_pass: "map_option fst (run_jmap_sync demo_jmap_env demo_jmap ''acc'' ''u'' ''e'' ''s'' ''basic'' demo_jmap_world)
   = Some (Inr (2, 0, 1, 0))"
  by code_simp

lemma demo_moved: "map m_external_id (dt_messages (md_data demo_jmap_db)) = [Some ''x'']"
  by code_simp


section \<open>When a folder's state is saved\<close>

definition stored :: "string \<Rightarrow> MailData \<Rightarrow> JmapEmail \<Rightarrow> bool" where
  "stored a d email \<longleftrightarrow> (\<exists>m \<in> set (dt_messages d). m_account_id m = a \<and> m_external_id m = Some (je_id email))"

lemma stored_kept: "jkept d d' \<Longrightarrow> stored a d email \<Longrightarrow> stored a d' email"
  unfolding stored_def jkept_def jsame_def by metis

lemma stored_frames: "frames jkept m \<Longrightarrow> m db = (r, db') \<Longrightarrow> stored a (md_data db) email \<Longrightarrow> stored a (md_data db') email"
  unfolding frames_def by (metis snd_conv stored_kept)

lemma find_Some_in: "find P xs = Some x \<Longrightarrow> x \<in> set xs \<and> P x"
  by (induction xs) (auto split: if_splits)

lemma find_message_stored:
  assumes "find_message_id E account_id (je_id email) db = (Inr (Some i), db')" "id_value E account_id = Inr a"
  shows "stored a (md_data db') email"
proof -
  let ?P = "\<lambda>m. m_account_id m = a \<and> m_external_id m = Some (je_id email)"
  have "query (\<lambda>d. map_option m_id (find ?P (dt_messages d))) db = (Inr (Some i), db')"
    using assms by (simp add: find_message_id_def)
  from query_Inr [OF this] obtain m where "find ?P (dt_messages (md_data db')) = Some m" by (metis map_option_eq_Some)
  from find_Some_in [OF this] show ?thesis unfolding stored_def by blast
qed

lemma upsert_stores:
  assumes "upsert_jmap_message_in_tx E account_id folder_id email db = (Inr x, db')" "id_value E account_id = Inr a"
  shows "stored a (md_data db') email"
proof -
  obtain existing db1 where f: "find_message_id E account_id (je_id email) db = (Inr existing, db1)"
    using assms(1) by (auto simp: upsert_jmap_message_in_tx_def Let_def elim: bindE_InrE)
  show ?thesis
  proof (cases existing)
    case (Some i)
    let ?up = "bindE (ofE (id_value E folder_id)) (\<lambda>f. bindE (ofE (id_value E i)) (\<lambda>bound.
      bindE (rehome_message bound f (\<lambda>m. m\<lparr>
          m_is_read := is_seen email, m_is_starred := is_flagged email,
          m_flags := opt_json_value E (Some (se_json_show E (case je_keywords email of Some k \<Rightarrow> k | None \<Rightarrow> JNull))),
          m_jmap_thread_id := je_thread_id email\<rparr>)) (\<lambda>_. okE (False, i))))"
    have "frames jkept ?up"
      by (intro jk.frames_rules jk.keep_rehome) (simp add: jsame_def)
    moreover have "?up db1 = (Inr x, db')"
      using assms(1) f Some by (simp add: upsert_jmap_message_in_tx_def Let_def)
    ultimately show ?thesis
      using find_message_stored [OF f [unfolded Some] assms(2)] stored_frames by blast
  next
    case None
    with assms(1) f obtain i db2 where "find_message_id E account_id (je_id email) db2 = (Inr (Some i), db')"
      by (auto simp: upsert_jmap_message_in_tx_def Let_def elim!: bindE_InrE split: option.splits)
    then show ?thesis using assms(2) by (rule find_message_stored)
  qed
qed

lemma upsert_all_stores:
  "upsert_jmap_all E account_id folder_id emails db = (Inr x, db') \<Longrightarrow> id_value E account_id = Inr a \<Longrightarrow>
   email \<in> set emails \<Longrightarrow> stored a (md_data db') email"
proof (induction emails arbitrary: db x)
  case (Cons e es)
  from Cons.prems(1) obtain y db1 z where u: "upsert_jmap_message_in_tx E account_id folder_id e db = (Inr y, db1)"
    and r: "upsert_jmap_all E account_id folder_id es db1 = (Inr z, db')"
    by (auto elim!: bindE_InrE split: prod.splits)
  show ?case
  proof (cases "email = e")
    case True
    then show ?thesis
      using upsert_stores [OF u Cons.prems(2)] stored_frames [OF jk.keep_upsert_all r] by simp
  qed (use Cons.IH [OF r Cons.prems(2)] Cons.prems(3) in simp)
qed simp

lemma persist_stores:
  assumes "persist_jmap_folder_batch E account_id folder_id emails qs db = (Inr x, db')" "id_value E account_id = Inr a"
    and "email \<in> set emails"
  shows "stored a (md_data db') email"
proof -
  from assms(1) obtain db1 db2 persisted db3
    where u: "upsert_jmap_all E account_id folder_id emails db1 = (Inr persisted, db2)" and d: "md_data db' = md_data db3"
      and r: "bindE (case qs of Some qs \<Rightarrow> save_jmap_cursor_in_tx E account_id folder_id qs | None \<Rightarrow> okE ()) (\<lambda>_.
       bindE (update_folder_counts_in_tx E folder_id) (\<lambda>_.
         okE (length (filter jp_was_new persisted), length (filter (\<lambda>p. \<not> jp_was_new p) persisted), persisted))) db2
       = (Inr x, db3)"
    unfolding persist_jmap_folder_batch_def by (elim in_tx_Inr) (erule bindE_InrE, blast)
  have "frames jkept (bindE (case qs of Some qs \<Rightarrow> save_jmap_cursor_in_tx E account_id folder_id qs | None \<Rightarrow> okE ()) (\<lambda>_.
       bindE (update_folder_counts_in_tx E folder_id) (\<lambda>_. okE y)))" for y
    unfolding save_jmap_cursor_in_tx_def
    by (intro jk.frames_bindE jk.frames_case_option jk_save_state jk.keep_counts jk.frames_okE)
  from stored_frames [OF this r upsert_all_stores [OF u assms(2,3)]] d show ?thesis by simp
qed

text \<open>A page is stored whole, or the step fails and no cursor has changed; without a state to save, none changes.\<close>

lemma page_commits:
  assumes "persist_and_download N V account_id f emails qs w = (r, w')" "id_value (jn_store N) account_id = Inr a"
  shows "(\<forall>email \<in> set emails. stored a (md_data (jw_db w')) email)
    \<or> (\<exists>e. r = Inl e) \<and> dt_cursors (md_data (jw_db w')) = dt_cursors (md_data (jw_db w))"
proof -
  let ?p = "persist_jmap_folder_batch (jn_store N) account_id f emails qs"
  obtain r1 db1 where p: "?p (jw_db w) = (r1, db1)" by fastforce
  show ?thesis
  proof (cases r1)
    case (Inl e)
    with p have "md_data db1 = md_data (jw_db w)"
      by (auto simp: persist_jmap_folder_batch_def intro: in_tx_Inl)
    with assms(1) p Inl show ?thesis by (auto simp: persist_and_download_def jdb_def bindE_def)
  next
    case (Inr z)
    obtain n u ps where z: "z = (n, u, ps)" by (cases z)
    have "bindE (download_new N V account_id (zip emails ps)) (\<lambda>_. okE (n, u)) (w\<lparr>jw_db := db1\<rparr>) = (r, w')"
      using assms(1) p Inr z by (simp add: persist_and_download_def jdb_def bindE_def)
    from pframesD [OF jk.pframes_bindE [OF jk.keep_download_new jk.pframes_okE] this]
    have "jkept (md_data db1) (md_data (jw_db w'))" by simp
    moreover have "\<forall>email \<in> set emails. stored a (md_data db1) email"
      using persist_stores [OF p [unfolded Inr] assms(2)] by blast
    ultimately show ?thesis using stored_kept by blast
  qed
qed

lemma page_keeps_cursors:
  assumes "persist_and_download N V account_id f emails None w = (r, w')"
  shows "dt_cursors (md_data (jw_db w')) = dt_cursors (md_data (jw_db w))"
proof -
  have "pframes (\<lambda>w. md_data (jw_db w)) (\<lambda>d d'. dt_cursors d' = dt_cursors d)
      (persist_and_download N V account_id f emails None)"
    unfolding persist_and_download_def
    by (intro jc.pframes_bindE jc.pframes_case_prod jframes_jdb jc.keep_persist_None jc.keep_download_new jc.pframes_okE)
  from pframesD [OF this assms] show ?thesis .
qed

text \<open>A mailbox that does not change while it is read: whatever request succeeds, a position shows one page.\<close>

definition shows_pages :: "'s JmapServer \<Rightarrow> string \<Rightarrow> (nat \<Rightarrow> EmailPage) \<Rightarrow> bool" where
  "shows_pages V b pg \<longleftrightarrow>
     (\<forall>pos s page s'. query_emails_page V b pos QUERY_PAGE s = (Inr page, s') \<longrightarrow> page = pg pos)"

definition full_pages_before :: "(nat \<Rightarrow> EmailPage) \<Rightarrow> nat \<Rightarrow> nat \<Rightarrow> bool" where
  "full_pages_before pg pos k \<longleftrightarrow> (\<forall>j<k. QUERY_PAGE \<le> length (ep_ids (pg (pos + j * QUERY_PAGE))))"

lemma full_pages_Suc:
  "full_pages_before pg pos (Suc k) \<longleftrightarrow> QUERY_PAGE \<le> length (ep_ids (pg pos)) \<and> full_pages_before pg (pos + QUERY_PAGE) k"
  by (auto simp: full_pages_before_def less_Suc_eq_0_disj algebra_simps)


text \<open>What holds once a query has succeeded or has moved a cursor: the pages up to the short one are stored.\<close>

definition pages_stored :: "(nat \<Rightarrow> EmailPage) \<Rightarrow> string \<Rightarrow> nat \<Rightarrow> MailData \<Rightarrow> bool" where
  "pages_stored pg a pos d \<longleftrightarrow> (\<forall>k. full_pages_before pg pos k \<longrightarrow>
     (\<forall>email \<in> set (ep_emails (pg (pos + k * QUERY_PAGE))). stored a d email))"

lemma pages_stored_last:
  assumes "length (ep_ids (pg pos)) < QUERY_PAGE" "\<forall>email \<in> set (ep_emails (pg pos)). stored a d email"
  shows "pages_stored pg a pos d"
  unfolding pages_stored_def
proof (intro allI impI)
  fix k assume "full_pages_before pg pos k"
  with assms(1) have "k = 0" by (cases k) (simp_all add: full_pages_Suc)
  with assms(2) show "\<forall>email \<in> set (ep_emails (pg (pos + k * QUERY_PAGE))). stored a d email" by simp
qed

lemma pages_stored_more:
  assumes "\<forall>email \<in> set (ep_emails (pg pos)). stored a d email" "pages_stored pg a (pos + QUERY_PAGE) d"
  shows "pages_stored pg a pos d"
  unfolding pages_stored_def
proof (intro allI impI)
  fix k assume k: "full_pages_before pg pos k"
  show "\<forall>email \<in> set (ep_emails (pg (pos + k * QUERY_PAGE))). stored a d email"
  proof (cases k)
    case 0
    with assms(1) show ?thesis by simp
  next
    case (Suc j)
    with k assms(2) show ?thesis by (auto simp: pages_stored_def full_pages_Suc algebra_simps)
  qed
qed

lemma shows_pagesD:
  assumes "shows_pages V b pg" "jreq (query_emails_page V b pos QUERY_PAGE) w = (Inr page, w1)"
  shows "page = pg pos"
proof -
  have "yields (\<lambda>page. page = pg pos) (query_emails_page V b pos QUERY_PAGE)"
    using assms(1) by (auto simp: shows_pages_def yields_def)
  from yieldsD [OF yields_jreq [OF this] assms(2)] show ?thesis .
qed

abbreviation cursors :: "'s JmapWorld \<Rightarrow> CursorRow list" where
  "cursors w \<equiv> dt_cursors (md_data (jw_db w))"

lemma full_query_pages:
  assumes "full_folder_query N V account_id f b pos ps w = Some z" "shows_pages V b pg"
    and "id_value (jn_store N) account_id = Inr a"
  shows "jkept (md_data (jw_db w)) (md_data (jw_db (snd z))) \<and>
    ((\<exists>ps'. fst z = Inr ps') \<or> cursors (snd z) \<noteq> cursors w \<longrightarrow> pages_stored pg a pos (md_data (jw_db (snd z))))"
  using assms(1)
proof (induction rule: full_query_induct)
  case (unread pos ps w e w1)
  from pframesD [OF jc.jframes_jreq unread] pframesD [OF jk.jframes_jreq unread] show ?case by simp
next
  case (unstored pos ps w page w1 e w2)
  have pg: "page = pg pos" and c: "cursors w1 = cursors w"
    using shows_pagesD [OF assms(2) unstored(1)] pframesD [OF jc.jframes_jreq unstored(1)] .
  note k = jk.R_trans [OF pframesD [OF jk.jframes_jreq unstored(1)] pframesD [OF jkeep_persist unstored(2)]]
  show ?case
  proof (cases "length (ep_ids page) < QUERY_PAGE")
    case True
    with page_commits [OF unstored(2) assms(3)] pg c k show ?thesis by (auto intro: pages_stored_last)
  next
    case False
    with page_keeps_cursors [of N V account_id f "ep_emails page" w1] unstored(2) c k show ?thesis by auto
  qed
next
  case (last pos ps w page w1 nu w2)
  note k = jk.R_trans [OF pframesD [OF jk.jframes_jreq last(1)] pframesD [OF jkeep_persist last(3)]]
  with last page_commits [OF last(3) assms(3)] shows_pagesD [OF assms(2) last(1)] show ?case
    by (auto intro: pages_stored_last)
next
  case (more pos ps w page w1 nu w2 z)
  note k = jk.R_trans [OF pframesD [OF jk.jframes_jreq more.hyps(1)] pframesD [OF jkeep_persist more.hyps(3)]]
  have pg: "page = pg pos" and c: "cursors w1 = cursors w"
    using shows_pagesD [OF assms(2) more.hyps(1)] pframesD [OF jc.jframes_jreq more.hyps(1)] .
  have "\<forall>email \<in> set (ep_emails (pg pos)). stored a (md_data (jw_db (snd z))) email"
    using page_commits [OF more.hyps(3) assms(3)] pg more.IH by (auto intro: stored_kept)
  with more.IH page_keeps_cursors [OF more.hyps(3)] c jk.R_trans [OF k] show ?case
    by (auto intro: pages_stored_more)
qed

text \<open>C38: the state of a folder is saved only behind its mail. When the paged query of a mailbox that does not change
  has moved a cursor, even if it then failed, or has succeeded, every message of every page up to the first short
  one is stored.\<close>

theorem jmap_state_after_mail:
  assumes "full_folder_query N V account_id folder_id b 0 ps w = Some (r, w')" "shows_pages V b pg"
    and "id_value (jn_store N) account_id = Inr a"
    and "cursors w' \<noteq> cursors w \<or> (\<exists>ps'. r = Inr ps')"
    and "full_pages_before pg 0 k" "email \<in> set (ep_emails (pg (k * QUERY_PAGE)))"
  shows "stored a (md_data (jw_db w')) email"
  using full_query_pages [OF assms(1-3)] assms(4-6) by (fastforce simp: pages_stored_def)

lemma demo_full_query:
  "map_option (\<lambda>z. isl (fst z)) (full_folder_query demo_jmap_env demo_jmap ''acc'' ''0'' ''A'' 0 empty_pass demo_jmap_world)
   = Some False"
  by (subst full_folder_query.simps) code_simp

theorem jmap_state_after_mail_witness:
  "\<exists>r w'. full_folder_query demo_jmap_env demo_jmap ''acc'' ''0'' ''A'' 0 empty_pass demo_jmap_world = Some (r, w')
     \<and> stored ''acc'' (md_data (jw_db w')) (demo_email ''x'')"
proof -
  let ?pg = "\<lambda>_. \<lparr>ep_ids = [''x''], ep_emails = [demo_email ''x''], ep_query_state = Some ''q'', ep_email_state = Some ''e''\<rparr>"
  obtain ps' w' where run: "full_folder_query demo_jmap_env demo_jmap ''acc'' ''0'' ''A'' 0 empty_pass demo_jmap_world = Some (Inr ps', w')"
    using demo_full_query by (auto simp: isl_def) (metis old.sum.exhaust)
  have "stored ''acc'' (md_data (jw_db w')) (demo_email ''x'')"
  proof (rule jmap_state_after_mail [OF run])
    show "shows_pages demo_jmap ''A'' ?pg"
      by (auto simp: shows_pages_def query_emails_page_def max_calls_in_request_def demo_jmap_def bindE_def)
    show "full_pages_before ?pg 0 0"
      by (simp add: full_pages_before_def)
  qed (simp_all add: demo_jmap_env_def demo_store_env_def id_value_def)
  with run show ?thesis by blast
qed

section \<open>A pass ends\<close>

text \<open>Mailboxes of at most \<open>n\<close> messages: a position from \<open>n\<close> on shows a short page. Positions are sent as
  32-bit numbers, so \<open>n\<close> has to be one.\<close>

definition finite_mailboxes :: "'s JmapServer \<Rightarrow> nat \<Rightarrow> bool" where
  "finite_mailboxes V n \<longleftrightarrow> n < 2 ^ 31 \<and>
     (\<forall>b pos s ids st s'. int n \<le> pos \<longrightarrow> js_query V b pos QUERY_PAGE s = (Inr (ids, st), s') \<longrightarrow> length ids < QUERY_PAGE) \<and>
     (\<forall>b pos s ids st es st' s'. int n \<le> pos \<longrightarrow>
        js_query_and_get V b pos QUERY_PAGE s = (Inr ((ids, st), es, st'), s') \<longrightarrow> length ids < QUERY_PAGE)"

lemma finite_page:
  assumes "finite_mailboxes V n" "n \<le> pos"
  shows "yields (\<lambda>page. length (ep_ids page) < QUERY_PAGE) (query_emails_page V b pos QUERY_PAGE)"
proof -
  have *: "int n \<le> clamp_i32 pos" using assms by (simp add: clamp_i32_def finite_mailboxes_def)
  show ?thesis
    using assms(1) * unfolding yields_def finite_mailboxes_def query_emails_page_def
    by (fastforce elim!: bindE_InrE split: if_splits prod.splits)
qed

lemma full_query_returns:
  assumes "finite_mailboxes V n"
  shows "\<exists>z. full_folder_query N V a f b pos ps w = Some z"
proof (induction "n - pos" arbitrary: pos ps w rule: less_induct)
  case less
  obtain r1 w1 where p: "jreq (query_emails_page V b pos QUERY_PAGE) w = (r1, w1)" by fastforce
  show ?case
  proof (cases r1)
    case (Inl e)
    with p show ?thesis by (subst full_folder_query.simps) simp
  next
    case (Inr page)
    have "\<exists>z. full_folder_query N V a f b (pos + QUERY_PAGE) ps1 w2 = Some z" if "\<not> length (ep_ids page) < QUERY_PAGE" for ps1 w2
    proof (rule less)
      have "\<not> n \<le> pos"
        using that yieldsD [OF yields_jreq [OF finite_page [OF assms]] p [unfolded Inr]] by blast
      then show "n - (pos + QUERY_PAGE) < n - pos" by (simp add: QUERY_PAGE_def)
    qed
    then show ?thesis
      using p Inr by (subst full_folder_query.simps) (auto simp: Let_def split: prod.split sum.split)
  qed
qed

lemma sync_mailboxes_returns:
  assumes "finite_mailboxes V n"
  shows "\<exists>z. sync_mailboxes N V a mbs ps w = Some z"
proof (induction mbs arbitrary: ps w)
  case (Cons mb mbs)
  have "\<exists>z. sync_mailbox N V a mb ps w = Some z"
    using full_query_returns [OF assms]
    by (auto simp: sync_mailbox_def Let_def split: prod.split sum.split option.split)
  with Cons show ?case by (auto split: sum.split)
qed simp

lemma run_jmap_sync_returns:
  assumes "finite_mailboxes V n"
  shows "\<exists>z. run_jmap_sync N V account_id u e s t w = Some z"
proof -
  have *: "(sync_mailboxes N V account_id mbs ps w = None) = False" for mbs ps w
    using sync_mailboxes_returns [OF assms, of N account_id mbs ps w] by auto
  show ?thesis
    by (auto simp: run_jmap_sync_def * split: prod.split sum.split option.split)
qed

lemma jmap_attempts_returns:
  "finite_mailboxes V n \<Longrightarrow> \<exists>z. jmap_attempts N V account_id u e s t left w = Some z"
proof (induction left arbitrary: w)
  case 0
  then show ?case using run_jmap_sync_returns [of V n N account_id u e s t w]
    by (subst jmap_attempts.simps) (auto split: sum.split SyncError.split)
next
  case (Suc left)
  then show ?case using run_jmap_sync_returns [of V n N account_id u e s t w]
    by (subst jmap_attempts.simps) (auto split: sum.split SyncError.split nat.split)
qed

text \<open>C39: the JMAP sync of an account ends, whatever fails on the way, when its mailboxes are finite: the paged
  queries reach a short page, and a transient error is retried a bounded number of times.\<close>

theorem jmap_sync_account_ends:
  assumes "finite_mailboxes V n"
  shows "\<exists>r w'. jmap_sync_account N V imap_pass account_id base_url email secret auth_type w = Some (r, w')"
proof -
  have *: "(jmap_attempts N V account_id u email secret auth_type k w = None) = False" for u k w
    using jmap_attempts_returns [OF assms, of N account_id u email secret auth_type k w] by auto
  have "jmap_sync_account N V imap_pass account_id base_url email secret auth_type w \<noteq> None"
    by (auto simp: jmap_sync_account_def Let_def * split: option.split prod.split sum.split)
  then show ?thesis by auto
qed

theorem jmap_sync_account_ends_witness:
  "\<exists>r w'. jmap_sync_account demo_jmap_env demo_jmap (\<lambda>w. (Inr (0, 0, 0, 0), w)) ''acc'' (Some ''u'') ''e'' ''s'' ''basic''
     demo_jmap_world = Some (r, w')"
proof (rule jmap_sync_account_ends)
  show "finite_mailboxes demo_jmap 1"
    by (simp add: finite_mailboxes_def demo_jmap_def QUERY_PAGE_def)
qed

end
