(* ===== verification/Lyra_Spam.thy ===== *)
theory Lyra_Spam
  imports Lyra_StoreLaws
begin

text \<open>
  The anti-spam engine of \<^verbatim>\<open>spam.rs\<close>: the verdict over an envelope, the settings and the sender lists
  with their tables, learning, and the handlers of the settings page.

  The tables stand beside the mail tables and share their script of faults. Lower-casing text
  (\<^verbatim>\<open>str::to_lowercase\<close>, which needs the Unicode tables) is a function of the environment. A task that is
  spawned to run later is recorded in the state.
\<close>

section \<open>Verdicts\<close>

datatype Sensitivity = Lenient | Standard | Strict

fun threshold :: "Sensitivity \<Rightarrow> nat" where
  "threshold Lenient = 3"
| "threshold Standard = 2"
| "threshold Strict = 1"

record SpamSettings =
  st_enabled :: bool
  st_learn :: bool
  st_auto_delete :: bool
  st_sensitivity :: Sensitivity

definition default_spam_settings :: SpamSettings where
  "default_spam_settings = \<lparr>st_enabled = False, st_learn = True, st_auto_delete = False, st_sensitivity = Standard\<rparr>"

datatype SenderList = Blocked | Allowed

record SenderEntry =
  en_email :: string
  en_list :: SenderList

record SpamEnvelope =
  ev_from_email :: "string option"
  ev_from_name :: "string option"
  ev_subject :: "string option"

datatype Verdict = Listed SenderList | Scored nat | Clean

fun is_spam :: "Verdict \<Rightarrow> bool" where
  "is_spam (Listed l) = (l = Blocked)"
| "is_spam (Scored n) = True"
| "is_spam Clean = False"

definition BAIT_KEYWORDS :: "string list" where
  "BAIT_KEYWORDS = [''viagra'', ''casino'', ''lottery'', ''crypto bonus'', ''bitcoin earnings'',
     ''wire transfer urgently'', ''claim your prize'', ''winner notification'', ''limited time offer'', ''act now'',
     ''100% free'', ''make money fast'', ''work from home millionaire'', ''no credit check'',
     ''unsubscribe click here'', ''seo services guaranteed'', ''cheap meds'',
     [CHR 0xE4, CHR 0xBB, CHR 0xA3, CHR 0xE5, CHR 0xBC, CHR 0x80, CHR 0xE5, CHR 0x8F, CHR 0x91, CHR 0xE7, CHR 0xA5, CHR 0xA8],
     [CHR 0xE4, CHR 0xB8, CHR 0xAD, CHR 0xE5, CHR 0xA5, CHR 0x96, CHR 0xE9, CHR 0x80, CHR 0x9A, CHR 0xE7, CHR 0x9F, CHR 0xA5],
     [CHR 0xE6, CHR 0x81, CHR 0xAD, CHR 0xE5, CHR 0x96, CHR 0x9C, CHR 0xE8, CHR 0x8E, CHR 0xB7, CHR 0xE5, CHR 0xBE, CHR 0x97],
     [CHR 0xE8, CHR 0xB5, CHR 0x8C, CHR 0xE5, CHR 0x8D, CHR 0x9A],
     [CHR 0xE8, CHR 0xB4, CHR 0xB7, CHR 0xE6, CHR 0xAC, CHR 0xBE, CHR 0xE7, CHR 0xA7, CHR 0x92, CHR 0xE6, CHR 0x89, CHR 0xB9]]"

definition or_empty :: "string option \<Rightarrow> string" where
  "or_empty t = (case t of Some s \<Rightarrow> s | None \<Rightarrow> [])"

text \<open>At most 3 for the keywords and one each for shouting and exclamation marks: the \<^verbatim>\<open>u8\<close> cannot overflow.\<close>

definition heuristic_score :: "(string \<Rightarrow> string) \<Rightarrow> SpamEnvelope \<Rightarrow> nat" where
  "heuristic_score lower env =
     (let subject = or_empty (ev_subject env); name = or_empty (ev_from_name env);
          haystack = lower (subject @ '' '' @ name);
          bait_hits = min (length (filter (contains_str haystack) BAIT_KEYWORDS)) 3;
          letters = filter is_ascii_alphabetic subject;
          caps = length (filter is_ascii_uppercase letters)
      in bait_hits
         + (if 8 \<le> length letters \<and> length letters * 8 \<le> caps * 10 then 1 else 0)
         + (if 3 \<le> length (filter (\<lambda>c. c = CHR ''!'') subject) then 1 else 0))"

definition sender_matches :: "(string \<Rightarrow> string) \<Rightarrow> string \<Rightarrow> string \<Rightarrow> bool" where
  "sender_matches lower entry_email sender =
     (let entry = lower (trim entry_email); sender = lower (trim sender);
          entry_domain = (case strip_prefix entry ''@'' of Some d \<Rightarrow> d | None \<Rightarrow> entry)
      in if entry = sender then True
         else if starts_with entry ''@'' \<or> CHR ''@'' \<notin> set entry
           then (let d = last (split_on (CHR ''@'') sender)
                 in d = entry_domain \<or> ends_with d (''.'' @ entry_domain))
         else False)"

definition spam_verdict ::
  "(string \<Rightarrow> string) \<Rightarrow> SpamEnvelope \<Rightarrow> SpamSettings \<Rightarrow> SenderEntry list \<Rightarrow> Verdict" where
  "spam_verdict lower env settings senders =
     (let from_addr = or_empty (ev_from_email env)
      in if from_addr = [] then Clean
         else if list_ex (\<lambda>s. en_list s = Allowed \<and> sender_matches lower (en_email s) from_addr) senders
           then Listed Allowed
         else if list_ex (\<lambda>s. en_list s = Blocked \<and> sender_matches lower (en_email s) from_addr) senders
           then Listed Blocked
         else if \<not> st_enabled settings then Clean
         else (let score = heuristic_score lower env
               in if threshold (st_sensitivity settings) \<le> score then Scored score else Clean))"

definition judge_message ::
  "(string \<Rightarrow> string) \<Rightarrow> SpamEnvelope \<Rightarrow> SpamSettings \<Rightarrow> SenderEntry list \<Rightarrow> string option" where
  "judge_message lower env settings senders =
     (case spam_verdict lower env settings senders of
        Listed Blocked \<Rightarrow> Some ''blocked'' | Listed Allowed \<Rightarrow> Some ''allowed''
      | Scored _ \<Rightarrow> Some ''spam'' | Clean \<Rightarrow> Some ''clean'')"

section \<open>Stored addresses\<close>

definition angled :: "string \<Rightarrow> string option" where
  "angled r = (case split_on (CHR ''<'') r of _ # a # _ \<Rightarrow> Some (hd (split_on (CHR ''>'') a)) | _ \<Rightarrow> None)"

definition extract_email :: "Json \<Rightarrow> string option" where
  "extract_email v =
     (case Option.bind (jget ''email'' v) as_str of
        Some e \<Rightarrow> Some e
      | None \<Rightarrow> Option.bind (Option.bind (jget ''raw'' v) as_str) (\<lambda>r.
          case angled r of
            Some a \<Rightarrow> Some a
          | None \<Rightarrow> if CHR ''@'' \<in> set r then Some (trim r) else None))"

definition from_json_email :: "(string \<Rightarrow> Json option) \<Rightarrow> string option \<Rightarrow> string option" where
  "from_json_email parse raw =
     Option.bind (Option.bind raw parse) (\<lambda>v.
       case v of
         JObject _ \<Rightarrow>
           (case extract_email v of
              Some e \<Rightarrow> Some e
            | None \<Rightarrow> Option.bind (Option.bind (jget ''raw'' v) as_str) angled)
       | JArray a \<Rightarrow> Option.bind (first a) extract_email
       | JString s \<Rightarrow> extract_email (JObject [(''raw'', JString s)])
       | _ \<Rightarrow> None)"

definition from_json_display_name :: "(string \<Rightarrow> Json option) \<Rightarrow> string option \<Rightarrow> string option" where
  "from_json_display_name parse raw =
     Option.bind (Option.bind (Option.bind (Option.bind raw parse) (jget ''raw'')) as_str) (\<lambda>r.
       let name = trim (hd (split_on (CHR ''<'') r))
       in if name = [] \<or> CHR ''@'' \<in> set name then None else Some name)"

section \<open>Tables\<close>

record SpamSettingsRow =
  sr_user_id :: string
  sr_enabled :: bool
  sr_learn :: bool
  sr_auto_delete :: bool
  sr_sensitivity :: string

text \<open>The rows of \<^verbatim>\<open>spam_sender\<close> in the order of \<^verbatim>\<open>created_at\<close>.\<close>

record SpamSenderRow =
  sn_id :: string
  sn_user_id :: string
  sn_list :: string
  sn_email :: string

record SpamTask =
  tk_user_id :: string
  tk_email :: string
  tk_list :: SenderList

record SpamDb =
  sd_db :: MailDb
  sd_users :: "string list"
  sd_settings :: "SpamSettingsRow list"
  sd_senders :: "SpamSenderRow list"
  sd_tasks :: "SpamTask list"

record SpamEnv =
  sx_store :: StoreEnv
  sx_lower :: "string \<Rightarrow> string"

datatype SpamStoreError = SpamInvalidId string | SpamDatabase SqlxError

definition spam_id_value :: "SpamEnv \<Rightarrow> string \<Rightarrow> SpamStoreError + string" where
  "spam_id_value X i =
     (case id_value (sx_store X) i of Inl _ \<Rightarrow> Inl (SpamInvalidId ''invalid id'') | Inr v \<Rightarrow> Inr v)"

definition spam_stmt :: "(SpamDb \<Rightarrow> (SpamStoreError + 'a) \<times> SpamDb) \<Rightarrow> (SpamDb, SpamStoreError, 'a) eff" where
  "spam_stmt f s =
     (case query (\<lambda>_. ()) (sd_db s) of
        (Inl _, db) \<Rightarrow> (Inl (SpamDatabase Driver), s\<lparr>sd_db := db\<rparr>)
      | (Inr _, db) \<Rightarrow> f (s\<lparr>sd_db := db\<rparr>))"

fun sensitivity_of :: "string \<Rightarrow> Sensitivity" where
  "sensitivity_of t = (if t = ''lenient'' then Lenient else if t = ''strict'' then Strict else Standard)"

fun sensitivity_text :: "Sensitivity \<Rightarrow> string" where
  "sensitivity_text Lenient = ''lenient''"
| "sensitivity_text Standard = ''standard''"
| "sensitivity_text Strict = ''strict''"

definition load_spam_settings :: "SpamEnv \<Rightarrow> string \<Rightarrow> (SpamDb, SpamStoreError, SpamSettings) eff" where
  "load_spam_settings X user_id =
     bindE (ofE (spam_id_value X user_id)) (\<lambda>user.
     bindE (spam_stmt (\<lambda>s. (Inr (find (\<lambda>r. sr_user_id r = user) (sd_settings s)), s))) (\<lambda>row.
       case row of
         None \<Rightarrow> okE default_spam_settings
       | Some r \<Rightarrow> okE \<lparr>st_enabled = sr_enabled r, st_learn = sr_learn r, st_auto_delete = sr_auto_delete r,
                       st_sensitivity = sensitivity_of (sr_sensitivity r)\<rparr>))"

definition save_spam_settings :: "SpamEnv \<Rightarrow> string \<Rightarrow> SpamSettings \<Rightarrow> (SpamDb, SpamStoreError, unit) eff" where
  "save_spam_settings X user_id settings =
     bindE (ofE (spam_id_value X user_id)) (\<lambda>user.
       let r = \<lparr>sr_user_id = user, sr_enabled = st_enabled settings, sr_learn = st_learn settings,
                sr_auto_delete = st_auto_delete settings,
                sr_sensitivity = sensitivity_text (st_sensitivity settings)\<rparr>
       in spam_stmt (\<lambda>s.
            if user \<notin> set (sd_users s) then (Inl (SpamDatabase Driver), s)
            else if user \<in> sr_user_id ` set (sd_settings s)
              then (Inr (), s\<lparr>sd_settings := map (\<lambda>q. if sr_user_id q = user then r else q) (sd_settings s)\<rparr>)
            else (Inr (), s\<lparr>sd_settings := sd_settings s @ [r]\<rparr>)))"

definition list_senders :: "SpamEnv \<Rightarrow> string \<Rightarrow> (SpamDb, SpamStoreError, SenderEntry list) eff" where
  "list_senders X user_id =
     bindE (ofE (spam_id_value X user_id)) (\<lambda>user.
       spam_stmt (\<lambda>s. (Inr (map (\<lambda>r. \<lparr>en_email = sn_email r,
           en_list = (if sn_list r = ''allowed'' then Allowed else Blocked)\<rparr>)
         (filter (\<lambda>r. sn_user_id r = user) (sd_senders s))), s)))"

fun list_text :: "SenderList \<Rightarrow> string" where
  "list_text Blocked = ''blocked''"
| "list_text Allowed = ''allowed''"

fun other_list :: "SenderList \<Rightarrow> SenderList" where
  "other_list Blocked = Allowed"
| "other_list Allowed = Blocked"

text \<open>The two statements of \<^verbatim>\<open>add_sender\<close>, which runs them without a transaction: the entry of the other list
  goes, then the new one comes, unless it is there.\<close>

definition drop_sender :: "string \<Rightarrow> string \<Rightarrow> string \<Rightarrow> (SpamDb, SpamStoreError, unit) eff" where
  "drop_sender user email l = spam_stmt (\<lambda>s. (Inr (), s\<lparr>sd_senders :=
     filter (\<lambda>r. \<not> (sn_user_id r = user \<and> sn_email r = email \<and> sn_list r = l)) (sd_senders s)\<rparr>))"

definition insert_sender :: "string \<Rightarrow> string \<Rightarrow> string \<Rightarrow> string \<Rightarrow> (SpamDb, SpamStoreError, unit) eff" where
  "insert_sender i user l email = spam_stmt (\<lambda>s.
     if \<exists>r \<in> set (sd_senders s). sn_user_id r = user \<and> sn_list r = l \<and> sn_email r = email then (Inr (), s)
     else if i \<in> sn_id ` set (sd_senders s) then (Inl (SpamDatabase UniqueViolation), s)
     else if user \<notin> set (sd_users s) then (Inl (SpamDatabase Driver), s)
     else (Inr (), s\<lparr>sd_senders := sd_senders s @
       [\<lparr>sn_id = i, sn_user_id = user, sn_list = l, sn_email = email\<rparr>]\<rparr>))"

definition spam_uuid :: "(SpamDb, SpamStoreError, string) eff" where
  "spam_uuid s = (Inr (md_uuid (sd_db s) (md_next (sd_db s))),
     s\<lparr>sd_db := (sd_db s)\<lparr>md_next := Suc (md_next (sd_db s))\<rparr>\<rparr>)"

definition add_sender :: "SpamEnv \<Rightarrow> string \<Rightarrow> string \<Rightarrow> SenderList \<Rightarrow> (SpamDb, SpamStoreError, unit) eff" where
  "add_sender X user_id email list =
     bindE (ofE (spam_id_value X user_id)) (\<lambda>user.
     let email = sx_lower X (trim email) in
     bindE (drop_sender user email (list_text (other_list list))) (\<lambda>_.
     bindE spam_uuid (\<lambda>i.
     bindE (ofE (spam_id_value X i)) (\<lambda>i.
       insert_sender i user (list_text list) email))))"

definition remove_sender :: "SpamEnv \<Rightarrow> string \<Rightarrow> string \<Rightarrow> (SpamDb, SpamStoreError, bool) eff" where
  "remove_sender X user_id email =
     bindE (ofE (spam_id_value X user_id)) (\<lambda>user.
     let P = (\<lambda>r. sn_user_id r = user \<and> sn_email r = sx_lower X (trim email))
     in spam_stmt (\<lambda>s. (Inr (\<exists>r \<in> set (sd_senders s). P r),
          s\<lparr>sd_senders := filter (\<lambda>r. \<not> P r) (sd_senders s)\<rparr>)))"

text \<open>\<^verbatim>\<open>learn_sender\<close>: an error is the answer \<open>False\<close>.\<close>

definition learn_sender :: "SpamEnv \<Rightarrow> string \<Rightarrow> string \<Rightarrow> bool \<Rightarrow> SpamDb \<Rightarrow> bool \<times> SpamDb" where
  "learn_sender X user_id email block s =
     (if trim email = [] \<or> CHR ''@'' \<notin> set email then (False, s)
      else case load_spam_settings X user_id s of
             (Inl _, s1) \<Rightarrow> (False, s1)
           | (Inr settings, s1) \<Rightarrow>
               if \<not> st_learn settings then (False, s1)
               else (case add_sender X user_id email (if block then Blocked else Allowed) s1 of
                       (Inl _, s2) \<Rightarrow> (False, s2)
                     | (Inr _, s2) \<Rightarrow> (True, s2)))"

section \<open>The settings page\<close>

fun spam_store_err :: "SpamStoreError \<Rightarrow> SyncError" where
  "spam_store_err (SpamInvalidId m) = InvalidInput m"
| "spam_store_err (SpamDatabase e) = DatabaseErr e"

record SpamSettingsResponse =
  rs_settings :: SpamSettings
  rs_senders :: "SenderEntry list"

definition response_for :: "SpamEnv \<Rightarrow> string \<Rightarrow> (SpamDb, SyncError, SpamSettingsResponse) eff" where
  "response_for X user_id =
     bindE (map_errE spam_store_err (load_spam_settings X user_id)) (\<lambda>settings.
     bindE (map_errE spam_store_err (list_senders X user_id)) (\<lambda>senders.
       okE \<lparr>rs_settings = settings, rs_senders = senders\<rparr>))"

definition get_spam :: "SpamEnv \<Rightarrow> string \<Rightarrow> (SpamDb, SyncError, SpamSettingsResponse) eff" where
  "get_spam X user_id = response_for X user_id"

definition put_spam :: "SpamEnv \<Rightarrow> string \<Rightarrow> SpamSettings \<Rightarrow> (SpamDb, SyncError, SpamSettingsResponse) eff" where
  "put_spam X user_id body =
     bindE (map_errE spam_store_err (save_spam_settings X user_id body)) (\<lambda>_. response_for X user_id)"

definition spawn_rejudge :: "string \<Rightarrow> string \<Rightarrow> SenderList \<Rightarrow> SpamDb \<Rightarrow> SpamDb" where
  "spawn_rejudge user_id email list s =
     s\<lparr>sd_tasks := sd_tasks s @ [\<lparr>tk_user_id = user_id, tk_email = email, tk_list = list\<rparr>]\<rparr>"

definition post_sender :: "SpamEnv \<Rightarrow> string \<Rightarrow> string \<Rightarrow> SenderList \<Rightarrow> (SpamDb, SyncError, SpamSettingsResponse) eff" where
  "post_sender X user_id body_email list =
     (let email = sx_lower X (trim body_email);
          address_like = CHR ''@'' \<in> set email \<or> email \<noteq> []
      in if \<not> address_like \<or> CHR '' '' \<in> set email
         then errE (InvalidInput ''email must be an address or a domain'')
         else bindE (map_errE spam_store_err (add_sender X user_id email list)) (\<lambda>_ s.
                response_for X user_id (spawn_rejudge user_id email list s)))"

definition delete_sender :: "SpamEnv \<Rightarrow> string \<Rightarrow> string \<Rightarrow> (SpamDb, SyncError, SpamSettingsResponse) eff" where
  "delete_sender X user_id email =
     bindE (map_errE spam_store_err (remove_sender X user_id email)) (\<lambda>_. response_for X user_id)"

section \<open>The sender lists\<close>

text \<open>A sender is on one list at most, and stored in normal form.\<close>

definition senders_ok :: "SpamEnv \<Rightarrow> SpamSenderRow list \<Rightarrow> bool" where
  "senders_ok X rows \<longleftrightarrow> distinct (map (\<lambda>r. (sn_user_id r, sn_email r)) rows) \<and> distinct (map sn_id rows)
     \<and> (\<forall>r \<in> set rows. sn_list r \<in> {''blocked'', ''allowed''} \<and> sx_lower X (trim (sn_email r)) = sn_email r)"

text \<open>Lower-casing trimmed text twice changes nothing more.\<close>

definition lower_idem :: "SpamEnv \<Rightarrow> bool" where
  "lower_idem X \<longleftrightarrow> (\<forall>s. sx_lower X (trim (sx_lower X (trim s))) = sx_lower X (trim s))"

inductive spam_step :: "SpamEnv \<Rightarrow> SpamDb \<Rightarrow> SpamDb \<Rightarrow> bool" for X where
  put: "spam_step X s (snd (put_spam X user_id settings s))"
| post: "spam_step X s (snd (post_sender X user_id email list s))"
| delete: "spam_step X s (snd (delete_sender X user_id email s))"
| learn: "spam_step X s (snd (learn_sender X user_id email block s))"
| other: "sd_senders s' = sd_senders s \<Longrightarrow> spam_step X s s'"

lemma senders_ok_filter: "senders_ok X rows \<Longrightarrow> senders_ok X (filter P rows)"
  by (auto simp: senders_ok_def distinct_map_filter)

lemma list_text_in [simp]: "list_text l \<in> {''blocked'', ''allowed''}"
  by (cases l) simp_all

lemma list_text_other: "sn_list r \<in> {''blocked'', ''allowed''} \<Longrightarrow> sn_list r = list_text l \<or> sn_list r = list_text (other_list l)"
  by (cases l) auto

lemma spam_stmt_cases:
  assumes "spam_stmt f s = (r, s')"
  obtains (fault) db where "r = Inl (SpamDatabase Driver)" "s' = s\<lparr>sd_db := db\<rparr>"
  | (run) db where "f (s\<lparr>sd_db := db\<rparr>) = (r, s')"
proof (cases "query (\<lambda>_. ()) (sd_db s)")
  case (Pair z db)
  with assms that show ?thesis by (cases z) (auto simp: spam_stmt_def)
qed

text \<open>Everything but the two writers leaves the lists alone.\<close>

definition spam_keeps :: "(SpamDb, 'e, 'a) eff \<Rightarrow> bool" where
  "spam_keeps m \<longleftrightarrow> (\<forall>s. sd_senders (snd (m s)) = sd_senders s)"

lemma spam_keeps_bindE: "spam_keeps m \<Longrightarrow> (\<And>x. spam_keeps (f x)) \<Longrightarrow> spam_keeps (bindE m f)"
  unfolding spam_keeps_def bindE_def by (auto split: prod.split sum.split) (metis snd_conv)+

lemma spam_keeps_ret: "spam_keeps (okE x)" "spam_keeps (ofE r)" "spam_keeps (errE e)"
  by (simp_all add: spam_keeps_def)

lemma spam_keeps_stmt: "(\<And>s. sd_senders (snd (f s)) = sd_senders s) \<Longrightarrow> spam_keeps (spam_stmt f)"
  unfolding spam_keeps_def
proof (intro allI)
  fix s assume f: "\<And>s. sd_senders (snd (f s)) = sd_senders s"
  obtain r s' where e: "spam_stmt f s = (r, s')" by fastforce
  then show "sd_senders (snd (spam_stmt f s)) = sd_senders s"
  proof (cases rule: spam_stmt_cases)
    case (run db)
    with f [of "s\<lparr>sd_db := db\<rparr>"] e show ?thesis by simp
  qed (simp add: e)
qed

lemma spam_keeps_map_err: "spam_keeps m \<Longrightarrow> spam_keeps (map_errE g m)"
  by (simp add: spam_keeps_def snd_map_errE)

lemmas spam_keeps_rules = spam_keeps_bindE spam_keeps_ret spam_keeps_stmt spam_keeps_map_err

lemma keeps_load_settings: "spam_keeps (load_spam_settings X u)"
  unfolding load_spam_settings_def by (intro spam_keeps_rules) (auto intro: spam_keeps_ret split: option.split)

lemma keeps_save_settings: "spam_keeps (save_spam_settings X u st)"
  unfolding save_spam_settings_def Let_def by (intro spam_keeps_rules) simp

lemma keeps_list_senders: "spam_keeps (list_senders X u)"
  unfolding list_senders_def by (intro spam_keeps_rules) simp

lemma keeps_response: "spam_keeps (response_for X u)"
  unfolding response_for_def by (intro spam_keeps_rules keeps_load_settings keeps_list_senders)

text \<open>What the writers do to the lists, whatever statement fails.\<close>

lemma drop_sender_result:
  assumes "drop_sender user email l s = (r, s')"
  shows "\<exists>P. sd_senders s' = filter P (sd_senders s)"
    and "r = Inr () \<Longrightarrow> \<not> (\<exists>q \<in> set (sd_senders s'). sn_user_id q = user \<and> sn_email q = email \<and> sn_list q = l)"
proof -
  have *: "sd_senders s' = sd_senders s \<and> r \<noteq> Inr () \<or> sd_senders s' =
      filter (\<lambda>r. \<not> (sn_user_id r = user \<and> sn_email r = email \<and> sn_list r = l)) (sd_senders s)"
    using assms unfolding drop_sender_def by (cases rule: spam_stmt_cases) auto
  then show "\<exists>P. sd_senders s' = filter P (sd_senders s)"
    by (metis filter_True)
  show "r = Inr () \<Longrightarrow> \<not> (\<exists>q \<in> set (sd_senders s'). sn_user_id q = user \<and> sn_email q = email \<and> sn_list q = l)"
    using * by auto
qed

lemma insert_sender_result:
  assumes "insert_sender i user l email s = (r, s')"
  obtains (same) "sd_senders s' = sd_senders s"
      "r = Inr () \<Longrightarrow> \<exists>q \<in> set (sd_senders s). sn_user_id q = user \<and> sn_list q = l \<and> sn_email q = email"
  | (new) "sd_senders s' = sd_senders s @ [\<lparr>sn_id = i, sn_user_id = user, sn_list = l, sn_email = email\<rparr>]"
      "i \<notin> sn_id ` set (sd_senders s)"
      "\<not> (\<exists>q \<in> set (sd_senders s). sn_user_id q = user \<and> sn_list q = l \<and> sn_email q = email)"
proof -
  from assms have "sd_senders s' = sd_senders s \<and> (r = Inr () \<longrightarrow> (\<exists>q \<in> set (sd_senders s). sn_user_id q = user \<and> sn_list q = l \<and> sn_email q = email))
    \<or> sd_senders s' = sd_senders s @ [\<lparr>sn_id = i, sn_user_id = user, sn_list = l, sn_email = email\<rparr>]
      \<and> i \<notin> sn_id ` set (sd_senders s)
      \<and> \<not> (\<exists>q \<in> set (sd_senders s). sn_user_id q = user \<and> sn_list q = l \<and> sn_email q = email)"
    unfolding insert_sender_def by (cases rule: spam_stmt_cases) (auto split: if_splits)
  then show thesis using that by blast
qed

text \<open>A successful \<^verbatim>\<open>add_sender\<close> leaves an entry on its list and none on the other one.\<close>

definition on_list :: "SpamSenderRow list \<Rightarrow> string \<Rightarrow> string \<Rightarrow> SenderList \<Rightarrow> bool" where
  "on_list rows user email l \<longleftrightarrow> (\<exists>q \<in> set rows. sn_user_id q = user \<and> sn_email q = email \<and> sn_list q = list_text l)"

lemma list_text_neq: "list_text l \<noteq> list_text (other_list l)"
  by (cases l) simp_all

lemma add_sender_steps:
  assumes "add_sender X user_id email l s = (r, s')"
  obtains (early) "r \<noteq> Inr ()" "\<exists>P. sd_senders s' = filter P (sd_senders s)"
  | (full) user s1 i s2 where "spam_id_value X user_id = Inr user"
      "drop_sender user (sx_lower X (trim email)) (list_text (other_list l)) s = (Inr (), s1)"
      "sd_senders s2 = sd_senders s1" "insert_sender i user (list_text l) (sx_lower X (trim email)) s2 = (r, s')"
proof (cases "spam_id_value X user_id")
  case (Inl e)
  with assms show ?thesis by (intro early) (auto simp: add_sender_def bindE_def intro: exI [of _ "\<lambda>_. True"])
next
  case (Inr user)
  obtain r1 s1 where d: "drop_sender user (sx_lower X (trim email)) (list_text (other_list l)) s = (r1, s1)" by fastforce
  obtain i s2 where u: "spam_uuid s1 = (Inr i, s2)" "sd_senders s2 = sd_senders s1" by (simp add: spam_uuid_def)
  show ?thesis
  proof (cases r1)
    case e: (Inl e)
    with assms Inr d drop_sender_result(1) [OF d] show ?thesis
      by (intro early) (auto simp: add_sender_def Let_def)
  next
    case ok: (Inr x)
    show ?thesis
    proof (cases "spam_id_value X i")
      case (Inl e)
      with assms \<open>spam_id_value X user_id = Inr user\<close> d ok u drop_sender_result(1) [OF d] show ?thesis
        by (intro early) (auto simp: add_sender_def bindE_def Let_def)
    next
      case j: (Inr j)
      have "insert_sender j user (list_text l) (sx_lower X (trim email)) s2 = (r, s')"
        using assms Inr d ok u j by (simp add: add_sender_def Let_def)
      with Inr d ok u show ?thesis by (intro full [of user s1 s2 j]) simp_all
    qed
  qed
qed

lemma senders_ok_add:
  assumes "senders_ok X rows" "i \<notin> sn_id ` set rows" "sx_lower X (trim email) = email"
    and "\<not> (\<exists>q \<in> set rows. sn_user_id q = user \<and> sn_list q = list_text l \<and> sn_email q = email)"
    and "\<not> (\<exists>q \<in> set rows. sn_user_id q = user \<and> sn_email q = email \<and> sn_list q = list_text (other_list l))"
  shows "senders_ok X (rows @ [\<lparr>sn_id = i, sn_user_id = user, sn_list = list_text l, sn_email = email\<rparr>])"
proof -
  have "(user, email) \<notin> (\<lambda>r. (sn_user_id r, sn_email r)) ` set rows"
    using assms(1,4,5) list_text_other [of _ l] by (fastforce simp: senders_ok_def)
  then show ?thesis
    using assms(1-3) list_text_in [of l] by (simp add: senders_ok_def)
qed

lemma add_sender_ok:
  assumes "lower_idem X" "senders_ok X (sd_senders s)" "add_sender X user_id email l s = (r, s')"
  shows "senders_ok X (sd_senders s')"
  using assms(3)
proof (cases rule: add_sender_steps)
  case early
  with assms(2) senders_ok_filter show ?thesis by metis
next
  case (full user s1 i s2)
  have ok1: "senders_ok X (sd_senders s2)"
    using drop_sender_result(1) [OF full(2)] assms(2) senders_ok_filter full(3) by metis
  from full(4) show ?thesis
  proof (cases rule: insert_sender_result)
    case new
    then show ?thesis
      using senders_ok_add [OF ok1 new(2) _ new(3)] drop_sender_result(2) [OF full(2)] full(3) assms(1)
      by (simp add: lower_idem_def)
  qed (use ok1 in simp)
qed

lemma add_sender_listed:
  assumes "add_sender X user_id email l s = (Inr (), s')" "spam_id_value X user_id = Inr user"
  shows "on_list (sd_senders s') user (sx_lower X (trim email)) l"
  using assms(1)
proof (cases rule: add_sender_steps)
  case (full user' s1 i s2)
  from full(4) show ?thesis
    by (cases rule: insert_sender_result) (use full assms(2) in \<open>auto simp: on_list_def\<close>)
qed simp

lemma remove_sender_filters: "\<exists>P. sd_senders (snd (remove_sender X user_id email s)) = filter P (sd_senders s)"
proof (cases "spam_id_value X user_id")
  case (Inl e)
  then show ?thesis by (auto simp: remove_sender_def bindE_def intro: exI [of _ "\<lambda>_. True"])
next
  case (Inr user)
  obtain r s' where e: "remove_sender X user_id email s = (r, s')" by fastforce
  then have "sd_senders s' = sd_senders s \<or> (\<exists>P. sd_senders s' = filter P (sd_senders s))"
    using Inr unfolding remove_sender_def Let_def by simp (elim spam_stmt_cases, auto)
  then have "\<exists>P. sd_senders s' = filter P (sd_senders s)"
    by (auto intro: exI [of _ "\<lambda>_. True"])
  with e show ?thesis by simp
qed


lemma spam_keepsD: "spam_keeps m \<Longrightarrow> sd_senders (snd (m s)) = sd_senders s"
  by (simp add: spam_keeps_def)

text \<open>A write followed by the answer of the settings page.\<close>

lemma then_response:
  "sd_senders (snd (bindE (map_errE g m) (\<lambda>_ s. response_for X u (h s)) s)) = sd_senders (snd (m s))"
  if "\<And>s. sd_senders (h s) = sd_senders s"
proof (cases "m s")
  case (Pair r s1)
  then show ?thesis
    using spam_keepsD [OF keeps_response, of X u "h s1"] that
    by (cases r) (simp_all add: bindE_def map_errE_def)
qed

lemma spam_step_ok:
  assumes "spam_step X s s'" "lower_idem X" "senders_ok X (sd_senders s)"
  shows "senders_ok X (sd_senders s')"
  using assms(1)
proof cases
  case (put user_id settings)
  have "spam_keeps (put_spam X user_id settings)"
    unfolding put_spam_def by (intro spam_keeps_rules keeps_save_settings keeps_response)
  with put assms(3) show ?thesis by (simp add: spam_keepsD)
next
  case (post user_id email list)
  have *: "sd_senders (spawn_rejudge u e l s) = sd_senders s" for u e l s
    by (simp add: spawn_rejudge_def)
  have add: "senders_ok X (sd_senders (snd (add_sender X u e l s)))" for u e l
    using add_sender_ok [OF assms(2,3), of u e l] by (metis prod.collapse)
  have "senders_ok X (sd_senders (snd (bindE (map_errE spam_store_err (add_sender X user_id e list))
      (\<lambda>_ s. response_for X user_id (spawn_rejudge user_id e list s)) s)))" for e
    by (subst then_response) (simp_all add: * add)
  with post assms(3) show ?thesis by (simp add: post_sender_def Let_def)
next
  case (delete user_id email)
  obtain P where "sd_senders (snd (remove_sender X user_id email s)) = filter P (sd_senders s)"
    using remove_sender_filters by blast
  moreover have "sd_senders s' = sd_senders (snd (remove_sender X user_id email s))"
    unfolding delete delete_sender_def by (rule then_response) simp
  ultimately show ?thesis using assms(3) by (simp add: senders_ok_filter)
next
  case (learn user_id email block)
  have add: "senders_ok X (sd_senders s2)" if "add_sender X u e l s1 = (r, s2)" "sd_senders s1 = sd_senders s" for u e l s1 r s2
    using add_sender_ok [OF assms(2) _ that(1)] that(2) assms(3) by simp
  have load: "sd_senders s1 = sd_senders s" if "load_spam_settings X user_id s = (r, s1)" for r s1
    using spam_keepsD [OF keeps_load_settings, of X user_id s] that by simp
  show ?thesis
    using learn assms(3) add load
    by (auto simp: learn_sender_def split: prod.splits sum.splits if_splits)
qed (use assms(3) in simp)


text \<open>The entry that was added decides over mail that matches it.\<close>

lemma sender_matches_normal: "lower_idem X \<Longrightarrow> sender_matches (sx_lower X) (sx_lower X (trim e)) f = sender_matches (sx_lower X) e f"
  by (simp add: sender_matches_def lower_idem_def)

definition entries :: "string \<Rightarrow> SpamDb \<Rightarrow> SenderEntry list" where
  "entries user s = map (\<lambda>r. \<lparr>en_email = sn_email r, en_list = (if sn_list r = ''allowed'' then Allowed else Blocked)\<rparr>)
     (filter (\<lambda>r. sn_user_id r = user) (sd_senders s))"

lemma list_senders_entries:
  "list_senders X user_id s = (Inr es, s') \<Longrightarrow> spam_id_value X user_id = Inr user \<Longrightarrow> es = entries user s"
  unfolding list_senders_def entries_def by simp (erule spam_stmt_cases, auto)

lemma on_list_entry:
  assumes "on_list (sd_senders s) user email l"
  shows "\<lparr>en_email = email, en_list = l\<rparr> \<in> set (entries user s)"
proof -
  obtain q where "q \<in> set (sd_senders s)" "sn_user_id q = user" "sn_email q = email" "sn_list q = list_text l"
    using assms by (auto simp: on_list_def)
  then show ?thesis by (cases l) (auto simp: entries_def intro!: rev_image_eqI [of q])
qed

text \<open>An address or a domain added to a list decides over the mail it matches, whatever the settings: the
  message is judged \<^verbatim>\<open>allowed\<close> when it went to the allow list or some allowed entry matches too, and
  \<^verbatim>\<open>blocked\<close> otherwise; the heuristics have no say.\<close>

theorem added_sender_decides:
  assumes "lower_idem X" "add_sender X user_id email l s = (Inr (), s1)" "list_senders X user_id s1 = (Inr senders, s2)"
    and "ev_from_email env = Some sender" "sender \<noteq> []" "sender_matches (sx_lower X) email sender"
  shows "judge_message (sx_lower X) env settings senders =
    Some (if l = Allowed \<or> (\<exists>e \<in> set senders. en_list e = Allowed \<and> sender_matches (sx_lower X) (en_email e) sender)
          then ''allowed'' else ''blocked'')"
proof -
  obtain user where u: "spam_id_value X user_id = Inr user"
    using assms(2) by (cases "spam_id_value X user_id") (auto simp: add_sender_def bindE_def)
  let ?e = "\<lparr>en_email = sx_lower X (trim email), en_list = l\<rparr>"
  have e: "?e \<in> set senders"
    using on_list_entry [OF add_sender_listed [OF assms(2) u]] list_senders_entries [OF assms(3) u] by simp
  have m: "sender_matches (sx_lower X) (en_email ?e) sender"
    using assms(6) sender_matches_normal [OF assms(1)] by simp
  have "\<exists>e \<in> set senders. en_list e = l \<and> sender_matches (sx_lower X) (en_email e) sender"
    using e m by (intro bexI [of _ ?e]) simp_all
  with assms(4,5) show ?thesis
    by (cases l) (auto simp: judge_message_def spam_verdict_def or_empty_def list_ex_iff)
qed

definition demo_spam_env :: SpamEnv where
  "demo_spam_env = \<lparr>sx_store = demo_store_env, sx_lower = (\<lambda>s. to_ascii_lowercase (filter graphic s))\<rparr>"

definition demo_spam_db :: SpamDb where
  "demo_spam_db = \<lparr>sd_db = demo_db, sd_users = [''u''], sd_settings = [], sd_senders = [], sd_tasks = []\<rparr>"


lemma graphic_lower: "graphic c \<Longrightarrow> graphic (ascii_lower c)"
  by (auto simp: graphic_def ascii_lower_def is_ascii_uppercase_def)

lemma demo_lower_idem: "lower_idem demo_spam_env"
proof -
  have t: "trim (to_ascii_lowercase (filter graphic s)) = to_ascii_lowercase (filter graphic s)" for s
  proof (cases "to_ascii_lowercase (filter graphic s) = []")
    case True
    moreover have "trim [] = []" by code_simp
    ultimately show ?thesis by simp
  next
    case False
    have "\<forall>c \<in> set (to_ascii_lowercase (filter graphic s)). graphic c"
      by (auto simp: to_ascii_lowercase_def graphic_lower)
    with False show ?thesis by (intro trim_graphic) simp_all
  qed
  have "filter graphic (to_ascii_lowercase (filter graphic s)) = to_ascii_lowercase (filter graphic s)" for s
    by (rule filter_True) (auto simp: to_ascii_lowercase_def graphic_lower)
  with t show ?thesis by (simp add: lower_idem_def demo_spam_env_def)
qed


theorem added_sender_decides_witness:
  "\<exists>senders s2. list_senders demo_spam_env ''u'' (snd (add_sender demo_spam_env ''u'' ''b.c'' Blocked demo_spam_db)) = (Inr senders, s2)
    \<and> judge_message (sx_lower demo_spam_env) \<lparr>ev_from_email = Some ''x@mail.b.c'', ev_from_name = None, ev_subject = Some ''hello''\<rparr>
        default_spam_settings senders = Some ''blocked''"
proof -
  let ?a = "add_sender demo_spam_env ''u'' ''b.c'' Blocked demo_spam_db"
  let ?env = "\<lparr>ev_from_email = Some ''x@mail.b.c'', ev_from_name = None, ev_subject = Some ''hello''\<rparr>"
  have a: "fst ?a = Inr ()" and l: "fst (list_senders demo_spam_env ''u'' (snd ?a)) = Inr [\<lparr>en_email = ''b.c'', en_list = Blocked\<rparr>]"
    and m: "sender_matches (sx_lower demo_spam_env) ''b.c'' ''x@mail.b.c''"
    by code_simp+
  obtain s1 s2 where s: "?a = (Inr (), s1)" "list_senders demo_spam_env ''u'' s1 = (Inr [\<lparr>en_email = ''b.c'', en_list = Blocked\<rparr>], s2)"
    using a l by (metis prod.collapse)
  show ?thesis
    using added_sender_decides [OF demo_lower_idem s, of ?env _ default_spam_settings] m s by simp
qed

end
