(* ===== verification/Lyra_Actions.thy ===== *)
theory Lyra_Actions
  imports Lyra_Spam Lyra_ImapSync Lyra_JmapSync
begin

text \<open>
  What a user does to a message and what the spam pass does for him (\<^verbatim>\<open>sync/http.rs\<close>): flags and labels,
  moving, copying, trash, archive, spam and back, the pass after a sync and the re-judging after an edit of
  the sender lists; with the connections they open and the \<^verbatim>\<open>Email/set\<close> requests of \<^verbatim>\<open>sync/jmap_client.rs\<close>.

  The state is the spam tables with the mail tables, the account rows, the accounts that have a cached JMAP
  session, and what is outside. The key hierarchy, OAuth, the two mail servers and the model that judges mail
  are functions of the environment; a response is the fields that depend on what happened.
\<close>

section \<open>The world of an action\<close>

record MailAccountRow =
  ma_id :: string
  ma_user_id :: string
  ma_protocol :: string
  ma_is_active :: bool
  ma_imap_host :: "string option"
  ma_imap_port :: "int option"
  ma_imap_security :: "string option"
  ma_email_address :: string
  ma_auth_type :: string
  ma_jmap_base_url :: "string option"

record 's ActWorld =
  aw_spam :: SpamDb
  aw_accounts :: "MailAccountRow list"
  aw_sessions :: "string list"
  aw_server :: 's

text \<open>\<open>ax_credential\<close> is \<^verbatim>\<open>get_user_dek_and_credential\<close>, \<open>ax_secret\<close> is \<^verbatim>\<open>resolve_mail_access_secret\<close>, whose error
  says whether decryption failed, \<open>ax_password\<close> is \<^verbatim>\<open>decrypt_account_password\<close>. \<open>ax_post\<close> posts a JMAP request
  and parses the answer. \<open>ax_ai\<close> answers whether the model is set up to judge on its own and \<open>ax_ai_judge\<close>
  what it says of a message. Times are seconds.\<close>

record 's ActEnv =
  ax_spam :: SpamEnv
  ax_imap :: "'s ImapServer"
  ax_jmap :: "'s JmapServer"
  ax_credential :: "string \<Rightarrow> string \<Rightarrow> 's \<Rightarrow> (string + string \<times> string) \<times> 's"
  ax_secret :: "string \<Rightarrow> string \<Rightarrow> string \<Rightarrow> string \<Rightarrow> string \<Rightarrow> 's \<Rightarrow> (bool \<times> string + string \<times> bool) \<times> 's"
  ax_password :: "string \<Rightarrow> string \<Rightarrow> JmapError + string"
  ax_account_id :: "'s \<Rightarrow> string"
  ax_post :: "Json \<Rightarrow> 's \<Rightarrow> (JmapError + Json) \<times> 's"
  ax_set_mailboxes :: "string \<Rightarrow> string list \<Rightarrow> 's \<Rightarrow> (JmapError + unit) \<times> 's"
  ax_destroy :: "string \<Rightarrow> 's \<Rightarrow> (JmapError + unit) \<times> 's"
  ax_ai :: "string \<Rightarrow> 's \<Rightarrow> bool \<times> 's"
  ax_ai_judge :: "string \<Rightarrow> string \<Rightarrow> string \<Rightarrow> 's \<Rightarrow> bool option \<times> 's"
  ax_rfc3339 :: "string \<Rightarrow> int option"
  ax_now :: int

abbreviation ax_store :: "'s ActEnv \<Rightarrow> StoreEnv" where
  "ax_store X \<equiv> sx_store (ax_spam X)"

abbreviation aw_db :: "'s ActWorld \<Rightarrow> MailDb" where
  "aw_db w \<equiv> sd_db (aw_spam w)"

abbreviation aw_data :: "'s ActWorld \<Rightarrow> MailData" where
  "aw_data w \<equiv> md_data (aw_db w)"

definition aspam :: "(SpamDb, 'e, 'a) eff \<Rightarrow> ('s ActWorld, 'e, 'a) eff" where
  "aspam f w = (case f (aw_spam w) of (r, s) \<Rightarrow> (r, w\<lparr>aw_spam := s\<rparr>))"

definition adb :: "(MailDb, 'e, 'a) eff \<Rightarrow> ('s ActWorld, 'e, 'a) eff" where
  "adb f w = (case f (aw_db w) of (r, d) \<Rightarrow> (r, w\<lparr>aw_spam := (aw_spam w)\<lparr>sd_db := d\<rparr>\<rparr>))"

definition aout :: "('s, 'e, 'a) eff \<Rightarrow> ('s ActWorld, 'e, 'a) eff" where
  "aout f w = (case f (aw_server w) of (r, s) \<Rightarrow> (r, w\<lparr>aw_server := s\<rparr>))"

text \<open>A query that joins the account rows.\<close>

definition aquery :: "(MailAccountRow list \<Rightarrow> MailData \<Rightarrow> 'a) \<Rightarrow> ('s ActWorld, SyncError, 'a) eff" where
  "aquery q w = adb (query (q (aw_accounts w))) w"

text \<open>An \<^verbatim>\<open>if let Err(err) = \<dots>\<close> that only logs.\<close>

definition attempt :: "('w, 'e, 'a) eff \<Rightarrow> ('w, 'f, unit) eff" where
  "attempt m w = (Inr (), snd (m w))"

section \<open>Rows\<close>

text \<open>The fields of \<^verbatim>\<open>MessageRow\<close> the actions read.\<close>

record MessageRow =
  mr_id :: string
  mr_account_id :: string
  mr_folder_id :: string
  mr_folder_name :: string
  mr_external_id :: "string option"
  mr_protocol :: string
  mr_is_read :: bool
  mr_is_starred :: bool
  mr_is_draft :: bool
  mr_folder_role :: "string option"
  mr_subject :: "string option"
  mr_from_address :: "string option"
  mr_labels :: "string option"

text \<open>\<^verbatim>\<open>message JOIN mail_account JOIN folder\<close> and \<^verbatim>\<open>COALESCE(role_override, role)\<close>.\<close>

definition join_rows :: "MailAccountRow list \<Rightarrow> MailData \<Rightarrow> (StoredMessage \<times> MailAccountRow \<times> FolderRow) list" where
  "join_rows accounts d =
     concat (map (\<lambda>m. concat (map (\<lambda>a. map (\<lambda>f. (m, a, f))
         (filter (\<lambda>f. f_id f = m_folder_id m) (dt_folders d)))
       (filter (\<lambda>a. ma_id a = m_account_id m) accounts))) (dt_messages d))"

definition role_of :: "FolderRow \<Rightarrow> string option" where
  "role_of f = coalesce (f_role_override f) (f_role f)"

text \<open>A folder without an external id cannot be read into the row, which is an error of the ORM.\<close>

definition message_row :: "StoredMessage \<times> MailAccountRow \<times> FolderRow \<Rightarrow> SyncError + MessageRow" where
  "message_row = (\<lambda>(m, a, f).
     case f_external_id f of
       None \<Rightarrow> Inl (DatabaseErr Protocol)
     | Some folder_name \<Rightarrow>
         Inr \<lparr>mr_id = m_id m, mr_account_id = m_account_id m, mr_folder_id = m_folder_id m,
              mr_folder_name = folder_name, mr_external_id = m_external_id m, mr_protocol = ma_protocol a,
              mr_is_read = m_is_read m, mr_is_starred = m_is_starred m, mr_is_draft = m_is_draft m,
              mr_folder_role = role_of f, mr_subject = m_subject m, mr_from_address = m_from m,
              mr_labels = m_labels m\<rparr>)"

definition load_message_row ::
  "'s ActEnv \<Rightarrow> string \<Rightarrow> string \<Rightarrow> ('s ActWorld, SyncError, MessageRow) eff" where
  "load_message_row X user_id message_id =
     bindE (ofE (id_value (ax_store X) message_id)) (\<lambda>msg.
     bindE (ofE (id_value (ax_store X) user_id)) (\<lambda>user.
     bindE (aquery (\<lambda>accounts d. find (\<lambda>(m, a, f). m_id m = msg \<and> ma_user_id a = user \<and> \<not> m_is_deleted m)
         (join_rows accounts d))) (\<lambda>row.
       case row of None \<Rightarrow> errE MessageNotFound | Some r \<Rightarrow> ofE (message_row r))))"

record RoleFolder =
  rf_id :: string
  rf_external_id :: "string option"
  rf_name :: string

definition role_folder :: "FolderRow \<Rightarrow> RoleFolder" where
  "role_folder f = \<lparr>rf_id = f_id f, rf_external_id = f_external_id f, rf_name = f_name f\<rparr>"

text \<open>The name a move addresses: \<^verbatim>\<open>external_id.unwrap_or(name)\<close>.\<close>

definition dest_name :: "RoleFolder \<Rightarrow> string" where
  "dest_name dest = (case rf_external_id dest of Some e \<Rightarrow> e | None \<Rightarrow> rf_name dest)"

definition find_role_folder ::
  "'s ActEnv \<Rightarrow> string \<Rightarrow> string \<Rightarrow> ('s ActWorld, SyncError, RoleFolder option) eff" where
  "find_role_folder X account_id role =
     bindE (ofE (id_value (ax_store X) account_id)) (\<lambda>account.
       adb (query (\<lambda>d. case sort_key f_sort_order
           (filter (\<lambda>f. f_account_id f = account \<and> role_of f = Some role) (dt_folders d)) of
         [] \<Rightarrow> None | f # _ \<Rightarrow> Some (role_folder f))))"

definition role_folder_for_account ::
  "'s ActEnv \<Rightarrow> string \<Rightarrow> string \<Rightarrow> ('s ActWorld, SyncError, RoleFolder) eff" where
  "role_folder_for_account X account_id role =
     bindE (find_role_folder X account_id role) (\<lambda>dest.
       case dest of
         None \<Rightarrow> errE (InvalidInput (''account has no '' @ role @ '' folder''))
       | Some d \<Rightarrow> okE d)"

section \<open>Connections\<close>

text \<open>The account row both connections read.\<close>

definition active_account ::
  "'s ActEnv \<Rightarrow> string \<Rightarrow> string \<Rightarrow> ('s ActWorld, SyncError, MailAccountRow) eff" where
  "active_account X user_id account_id =
     bindE (ofE (id_value (ax_store X) account_id)) (\<lambda>acct.
     bindE (ofE (id_value (ax_store X) user_id)) (\<lambda>user.
     bindE (aquery (\<lambda>accounts d. find (\<lambda>a. ma_id a = acct \<and> ma_user_id a = user \<and> ma_is_active a) accounts)) (\<lambda>row.
       case row of None \<Rightarrow> errE AccountNotFound | Some a \<Rightarrow> okE a)))"

definition imap_port_of :: "int option \<Rightarrow> nat" where
  "imap_port_of p =
     (let p = (case p of Some p \<Rightarrow> p | None \<Rightarrow> 993) in if 0 \<le> p \<and> p \<le> 65535 then nat p else 993)"

definition imap_security_of :: "string option \<Rightarrow> SyncError + ImapSecurity" where
  "imap_security_of security =
     (case security of
        None \<Rightarrow> Inr SecTls
      | Some s \<Rightarrow>
          (case normalize_security_mode s of
             Inl e \<Rightarrow> Inl (InvalidInput e)
           | Inr m \<Rightarrow> Inr (if m = ''starttls'' then SecStarttls else SecTls)))"

definition connect_imap_for_account ::
  "'s ActEnv \<Rightarrow> string \<Rightarrow> string \<Rightarrow> ('s ActWorld, SyncError, 's Conn) eff" where
  "connect_imap_for_account X user_id account_id =
     bindE (map_errE CryptoErr (aout (ax_credential X user_id account_id))) (\<lambda>(dek, credential).
     bindE (active_account X user_id account_id) (\<lambda>a.
     if ma_protocol a \<noteq> ''imap''
     then errE (InvalidInput ''remote flag/move ops require an IMAP account in v1'')
     else case ma_imap_host a of
            None \<Rightarrow> errE (InvalidInput ''IMAP host not configured'')
          | Some host \<Rightarrow>
              bindE (ofE (imap_security_of (ma_imap_security a))) (\<lambda>security.
              bindE (map_errE (\<lambda>(decrypt, e). if decrypt then CryptoErr e else ProtocolErr e)
                  (aout (ax_secret X account_id (ma_auth_type a) credential dek host))) (\<lambda>(secret, xoauth2).
                map_errE ImapErr (aout (connect (ax_imap X)
                  \<lparr>ic_host = host, ic_port = imap_port_of (ma_imap_port a), ic_security = security,
                   ic_username = ma_email_address a, ic_password = secret, ic_xoauth2 = xoauth2\<rparr>))))))"

definition connect_jmap_for_account ::
  "'s ActEnv \<Rightarrow> string \<Rightarrow> string \<Rightarrow> ('s ActWorld, SyncError, unit) eff" where
  "connect_jmap_for_account X user_id account_id =
     bindE (map_errE CryptoErr (aout (ax_credential X user_id account_id))) (\<lambda>(dek, credential).
     bindE (active_account X user_id account_id) (\<lambda>a.
       case ma_jmap_base_url a of
         None \<Rightarrow> errE (InvalidInput ''JMAP base URL not configured'')
       | Some base_url \<Rightarrow>
           bindE (map_errE JmapErr (ofE (ax_password X credential dek))) (\<lambda>password w.
             if account_id \<in> set (aw_sessions w) then (Inr (), w)
             else bindE (map_errE JmapErr (aout (jmap_connect (ax_jmap X) base_url (ma_email_address a)
                    password (ma_auth_type a))))
                    (\<lambda>_ w. (Inr (), w\<lparr>aw_sessions := account_id # aw_sessions w\<rparr>)) w)))"

text \<open>The commands of an action on one connection, which is dropped afterwards.\<close>

definition on_conn :: "'s Conn \<Rightarrow> ('s Conn, ImapError, 'a) eff \<Rightarrow> ('s ActWorld, SyncError, 'a) eff" where
  "on_conn conn prog w =
     (case prog (conn\<lparr>co_server := aw_server w\<rparr>) of
        (Inl e, c) \<Rightarrow> (Inl (ImapErr e), w\<lparr>aw_server := co_server c\<rparr>)
      | (Inr x, c) \<Rightarrow> (Inr x, w\<lparr>aw_server := co_server c\<rparr>))"

definition evict :: "string \<Rightarrow> 's ActWorld \<Rightarrow> 's ActWorld" where
  "evict account_id w = w\<lparr>aw_sessions := removeAll account_id (aw_sessions w)\<rparr>"

text \<open>A JMAP request of an action: a rejected session leaves the cache.\<close>

definition on_seam :: "string \<Rightarrow> ('s, JmapError, 'a) eff \<Rightarrow> ('s ActWorld, SyncError, 'a) eff" where
  "on_seam account_id prog w =
     (case aout prog w of
        (Inl e, w1) \<Rightarrow> (Inl (JmapErr e), if is_auth e then evict account_id w1 else w1)
      | (Inr x, w1) \<Rightarrow> (Inr x, w1))"

section \<open>JMAP requests\<close>

definition keyword_patch :: "bool option \<Rightarrow> bool option \<Rightarrow> (string \<times> Json) list" where
  "keyword_patch is_read is_starred =
     (let flag = (\<lambda>b. if b then JBool True else JNull);
          update = (case is_read of Some r \<Rightarrow> json_insert ''keywords/$seen'' (flag r) [] | None \<Rightarrow> [])
      in case is_starred of Some s \<Rightarrow> json_insert ''keywords/$flagged'' (flag s) update | None \<Rightarrow> update)"

text \<open>\<^verbatim>\<open>Value::pointer\<close> of \<^verbatim>\<open>serde_json\<close>.\<close>

fun unescape_token :: "string \<Rightarrow> string" where
  "unescape_token (a # b # s) =
     (if a = CHR ''~'' \<and> b = CHR ''1'' then CHR ''/'' # unescape_token s
      else if a = CHR ''~'' \<and> b = CHR ''0'' then CHR ''~'' # unescape_token s
      else a # unescape_token (b # s))"
| "unescape_token s = s"

definition parse_index :: "string \<Rightarrow> nat option" where
  "parse_index s =
     (if starts_with s ''+'' \<or> (starts_with s ''0'' \<and> length s \<noteq> 1) then None
      else case parse_u64 s of Inr n \<Rightarrow> Some (nat n) | Inl _ \<Rightarrow> None)"

fun pointer_tokens :: "string list \<Rightarrow> Json \<Rightarrow> Json option" where
  "pointer_tokens [] v = Some v"
| "pointer_tokens (t # ts) v =
     (case v of
        JObject kvs \<Rightarrow> Option.bind (map_of kvs t) (pointer_tokens ts)
      | JArray vs \<Rightarrow>
          Option.bind (parse_index t) (\<lambda>i. if i < length vs then pointer_tokens ts (vs ! i) else None)
      | _ \<Rightarrow> None)"

definition json_pointer :: "string \<Rightarrow> Json \<Rightarrow> Json option" where
  "json_pointer p v =
     (if p = [] then Some v
      else if \<not> starts_with p ''/'' then None
      else pointer_tokens (map unescape_token (tl (split_on (CHR ''/'') p))) v)"

text \<open>The texts of the two rejections are cut to their first words.\<close>

definition set_email_keywords_full ::
  "'s ActEnv \<Rightarrow> string \<Rightarrow> bool option \<Rightarrow> bool option \<Rightarrow> string list \<Rightarrow> string list \<Rightarrow> ('s, JmapError, unit) eff" where
  "set_email_keywords_full X email_id is_read is_starred label_add label_remove s =
     (let key = (\<lambda>label. ''keywords/'' @ label_keyword label);
          update1 = fold (\<lambda>label. json_insert (key label) (JBool True)) label_add (keyword_patch is_read is_starred);
          update = fold (\<lambda>label. json_insert (key label) JNull) label_remove update1
      in if update = [] then (Inr (), s)
         else let body = JObject
                [(''methodCalls'', JArray [JArray [JString ''Email/set'',
                    JObject [(''accountId'', JString (ax_account_id X s)),
                             (''update'', JObject [(email_id, JObject update)])],
                    JString ''u'']]),
                 (''using'', JArray [JString ''urn:ietf:params:jmap:core'', JString ''urn:ietf:params:jmap:mail''])]
              in bindE (ax_post X body) (\<lambda>payload.
                   let args = (case json_pointer ''/methodResponses/0/1'' payload of Some a \<Rightarrow> a | None \<Rightarrow> JNull)
                   in if json_pointer (''/notUpdated/'' @ email_id) args \<noteq> None
                      then errE (JmapInvalidResponse ''Email/set keyword patch rejected'')
                      else if json_pointer (''/updated/'' @ email_id) args = None
                      then errE (JmapInvalidResponse ''Email/set keyword patch: no updated entry'')
                      else okE ()) s)"

definition set_email_keywords ::
  "'s ActEnv \<Rightarrow> string \<Rightarrow> bool option \<Rightarrow> bool option \<Rightarrow> ('s, JmapError, unit) eff" where
  "set_email_keywords X email_id is_read is_starred = set_email_keywords_full X email_id is_read is_starred [] []"

definition set_email_mailboxes :: "'s ActEnv \<Rightarrow> string \<Rightarrow> string list \<Rightarrow> ('s, JmapError, unit) eff" where
  "set_email_mailboxes X email_id mailbox_ids =
     (if mailbox_ids = [] then errE (JmapInvalidResponse ''move requires at least one destination mailbox'')
      else ax_set_mailboxes X email_id mailbox_ids)"

definition mailbox_ids_from_json :: "Json option \<Rightarrow> string list" where
  "mailbox_ids_from_json value =
     (case value of
        Some (JObject kvs) \<Rightarrow> map fst (filter (\<lambda>(k, v). v = JBool True) kvs)
      | _ \<Rightarrow> [])"

definition add_email_mailbox :: "'s ActEnv \<Rightarrow> string \<Rightarrow> string \<Rightarrow> ('s, JmapError, unit) eff" where
  "add_email_mailbox X email_id mailbox_id =
     bindE (get_emails (ax_jmap X) [email_id]) (\<lambda>(emails, _).
       case emails of
         [] \<Rightarrow> errE (JmapInvalidResponse (''Email/get returned no email for '' @ email_id))
       | email # _ \<Rightarrow>
           (let ids = mailbox_ids_from_json (je_mailbox_ids email)
            in if mailbox_id \<in> set ids then okE ()
               else set_email_mailboxes X email_id (ids @ [mailbox_id])))"

definition destroy_email :: "'s ActEnv \<Rightarrow> string \<Rightarrow> ('s, JmapError, unit) eff" where
  "destroy_email X email_id = ax_destroy X email_id"

section \<open>Learning\<close>

text \<open>The spawned task stands in the state; \<open>run_task\<close> below runs it.\<close>

definition learn_and_rejudge :: "'s ActEnv \<Rightarrow> string \<Rightarrow> string \<Rightarrow> bool \<Rightarrow> 's ActWorld \<Rightarrow> bool \<times> 's ActWorld" where
  "learn_and_rejudge X user_id email block w =
     (case learn_sender (ax_spam X) user_id email block (aw_spam w) of
        (learned, s) \<Rightarrow>
          (learned, w\<lparr>aw_spam := if learned
             then spawn_rejudge user_id email (if block then Blocked else Allowed) s else s\<rparr>))"

definition set_spam_verdict :: "'s ActEnv \<Rightarrow> string \<Rightarrow> string \<Rightarrow> ('s ActWorld, SyncError, unit) eff" where
  "set_spam_verdict X message_id verdict =
     adb (update_message (ax_store X) message_id (\<lambda>_. True) (\<lambda>m. m\<lparr>m_spam_verdict := Some verdict\<rparr>))"

section \<open>Moving and copying\<close>

text \<open>The server half of \<^verbatim>\<open>apply_message_move\<close>, \<^verbatim>\<open>apply_message_copy\<close> and \<^verbatim>\<open>destroy_row_server_side\<close>: each is
  one program on an IMAP connection with the folder selected, or one JMAP request.\<close>

definition imap_half ::
  "'s ActEnv \<Rightarrow> string \<Rightarrow> MessageRow \<Rightarrow> (u32 \<Rightarrow> ('s Conn, ImapError, unit) eff) \<Rightarrow> ('s ActWorld, SyncError, unit) eff" where
  "imap_half X user_id row prog =
     bindE (ofE (parse_imap_uid (mr_external_id row))) (\<lambda>uid.
     bindE (connect_imap_for_account X user_id (mr_account_id row)) (\<lambda>conn.
       on_conn conn (bindE (select (ax_imap X) (mr_folder_name row)) (\<lambda>_. prog uid))))"

definition jmap_email_id :: "MessageRow \<Rightarrow> SyncError + string" where
  "jmap_email_id row =
     (case mr_external_id row of None \<Rightarrow> Inl (InvalidInput ''JMAP message has no server id'') | Some i \<Rightarrow> Inr i)"

definition jmap_mailbox_id :: "string option \<Rightarrow> SyncError + string" where
  "jmap_mailbox_id dest_external =
     (case dest_external of None \<Rightarrow> Inl (InvalidInput ''JMAP target folder has no server id'') | Some i \<Rightarrow> Inr i)"

definition jmap_half ::
  "'s ActEnv \<Rightarrow> string \<Rightarrow> MessageRow \<Rightarrow> ('s, JmapError, unit) eff \<Rightarrow> ('s ActWorld, SyncError, unit) eff" where
  "jmap_half X user_id row prog =
     bindE (connect_jmap_for_account X user_id (mr_account_id row)) (\<lambda>_. on_seam (mr_account_id row) prog)"

definition unsupported_protocol :: "string \<Rightarrow> SyncError" where
  "unsupported_protocol other = InvalidInput (''unsupported receive protocol: '' @ other)"

definition server_move ::
  "'s ActEnv \<Rightarrow> string \<Rightarrow> MessageRow \<Rightarrow> string option \<Rightarrow> string \<Rightarrow> ('s ActWorld, SyncError, unit) eff" where
  "server_move X user_id row dest_external dest =
     (if mr_protocol row = ''imap'' then imap_half X user_id row (\<lambda>uid. move_uid (ax_imap X) uid dest)
      else if mr_protocol row = ''jmap''
        then bindE (ofE (jmap_email_id row)) (\<lambda>email_id.
             bindE (ofE (jmap_mailbox_id dest_external)) (\<lambda>mailbox_id.
               jmap_half X user_id row (set_email_mailboxes X email_id [mailbox_id])))
      else errE (unsupported_protocol (mr_protocol row)))"

definition relocate :: "'s ActEnv \<Rightarrow> string \<Rightarrow> string \<Rightarrow> ('s ActWorld, SyncError, unit) eff" where
  "relocate X message_id dest_id =
     bindE (ofE (id_value (ax_store X) dest_id)) (\<lambda>dest.
       adb (update_message (ax_store X) message_id (\<lambda>_. True) (\<lambda>m. m\<lparr>m_folder_id := dest\<rparr>)))"

definition apply_message_move ::
  "'s ActEnv \<Rightarrow> string \<Rightarrow> MessageRow \<Rightarrow> string \<Rightarrow> string option \<Rightarrow> string \<Rightarrow> ('s ActWorld, SyncError, unit) eff" where
  "apply_message_move X user_id row dest_id dest_external dest =
     bindE (server_move X user_id row dest_external dest) (\<lambda>_.
     bindE (relocate X (mr_id row) dest_id) (\<lambda>_.
     bindE (adb (update_folder_counts (ax_store X) (mr_folder_id row))) (\<lambda>_.
       adb (update_folder_counts (ax_store X) dest_id))))"

definition apply_message_copy ::
  "'s ActEnv \<Rightarrow> string \<Rightarrow> MessageRow \<Rightarrow> string option \<Rightarrow> string \<Rightarrow> ('s ActWorld, SyncError, unit) eff" where
  "apply_message_copy X user_id row dest_external dest =
     (if mr_protocol row = ''imap'' then imap_half X user_id row (\<lambda>uid. copy_uid (ax_imap X) uid dest)
      else if mr_protocol row = ''jmap''
        then bindE (ofE (jmap_email_id row)) (\<lambda>email_id.
             bindE (ofE (jmap_mailbox_id dest_external)) (\<lambda>mailbox_id.
               jmap_half X user_id row (add_email_mailbox X email_id mailbox_id)))
      else errE (unsupported_protocol (mr_protocol row)))"

definition sender_of :: "'s ActEnv \<Rightarrow> MessageRow \<Rightarrow> string option" where
  "sender_of X row = from_json_email (se_json_parse (ax_store X)) (mr_from_address row)"

definition leaves_spam :: "MessageRow \<Rightarrow> string option \<Rightarrow> bool" where
  "leaves_spam row dest_role \<longleftrightarrow> mr_folder_role row = Some ''spam''
     \<and> (case dest_role of Some r \<Rightarrow> r \<noteq> ''spam'' | None \<Rightarrow> False) \<and> \<not> mr_is_draft row"

definition learned_from ::
  "'s ActEnv \<Rightarrow> string \<Rightarrow> string option \<Rightarrow> bool \<Rightarrow> ('s ActWorld, SyncError, unit) eff" where
  "learned_from X user_id sender block w =
     (case sender of
        Some from_addr \<Rightarrow> (Inr (), snd (learn_and_rejudge X user_id from_addr block w))
      | None \<Rightarrow> (Inr (), w))"

definition apply_user_move ::
  "'s ActEnv \<Rightarrow> string \<Rightarrow> MessageRow \<Rightarrow> string \<Rightarrow> string option \<Rightarrow> string \<Rightarrow> string option \<Rightarrow>
     ('s ActWorld, SyncError, unit) eff" where
  "apply_user_move X user_id row dest_id dest_external dest dest_role =
     bindE (if leaves_spam row dest_role then learned_from X user_id (sender_of X row) False else okE ()) (\<lambda>_.
       apply_message_move X user_id row dest_id dest_external dest)"

text \<open>The fields of an action's answer that vary.\<close>

record ActionResponse =
  ar_action :: string
  ar_role :: "string option"
  ar_folder_id :: "string option"

definition soft_delete :: "'s ActEnv \<Rightarrow> MessageRow \<Rightarrow> ('s ActWorld, SyncError, unit) eff" where
  "soft_delete X row =
     bindE (adb (update_message (ax_store X) (mr_id row) (\<lambda>_. True) (\<lambda>m. m\<lparr>m_is_deleted := True\<rparr>))) (\<lambda>_.
       adb (update_folder_counts (ax_store X) (mr_folder_id row)))"

definition move_message_to_role ::
  "'s ActEnv \<Rightarrow> string \<Rightarrow> string \<Rightarrow> string \<Rightarrow> ('s ActWorld, SyncError, ActionResponse) eff" where
  "move_message_to_role X message_id user_id role =
     bindE (load_message_row X user_id message_id) (\<lambda>row.
     bindE (find_role_folder X (mr_account_id row) role) (\<lambda>dest.
       case dest of
         None \<Rightarrow>
           bindE (soft_delete X row) (\<lambda>_.
             okE \<lparr>ar_action = ''soft_delete'', ar_role = Some role, ar_folder_id = None\<rparr>)
       | Some d \<Rightarrow>
           bindE (apply_user_move X user_id row (rf_id d) (rf_external_id d) (dest_name d) (Some role)) (\<lambda>_.
             okE \<lparr>ar_action = ''moved'', ar_role = Some role, ar_folder_id = Some (rf_id d)\<rparr>)))"

definition trash_message where "trash_message X message_id user_id = move_message_to_role X message_id user_id ''trash''"
definition archive_message where "archive_message X message_id user_id = move_message_to_role X message_id user_id ''archive''"

text \<open>The sender is read before the move; that the row cannot be loaded shows in the move.\<close>

definition spam_message ::
  "'s ActEnv \<Rightarrow> string \<Rightarrow> string \<Rightarrow> ('s ActWorld, SyncError, ActionResponse) eff" where
  "spam_message X message_id user_id w =
     (case load_message_row X user_id message_id w of
        (loaded, w1) \<Rightarrow>
          bindE (move_message_to_role X message_id user_id ''spam'') (\<lambda>res.
          bindE (set_spam_verdict X message_id ''blocked'') (\<lambda>_.
          bindE (learned_from X user_id (case loaded of Inl _ \<Rightarrow> None | Inr row \<Rightarrow> sender_of X row) True) (\<lambda>_.
            okE res))) w1)"

definition not_spam_message ::
  "'s ActEnv \<Rightarrow> string \<Rightarrow> string \<Rightarrow> ('s ActWorld, SyncError, ActionResponse) eff" where
  "not_spam_message X message_id user_id =
     bindE (load_message_row X user_id message_id) (\<lambda>row.
     bindE (set_spam_verdict X (mr_id row) ''allowed'') (\<lambda>_.
     if mr_folder_role row \<noteq> Some ''spam''
     then bindE (learned_from X user_id (sender_of X row) False) (\<lambda>_.
            okE \<lparr>ar_action = ''cleared'', ar_role = Some ''inbox'', ar_folder_id = None\<rparr>)
     else bindE (role_folder_for_account X (mr_account_id row) ''inbox'') (\<lambda>dest.
          bindE (apply_user_move X user_id row (rf_id dest) (rf_external_id dest) (dest_name dest) (Some ''inbox'')) (\<lambda>_.
            okE \<lparr>ar_action = ''moved'', ar_role = Some ''inbox'', ar_folder_id = Some (rf_id dest)\<rparr>))))"

text \<open>The folder \<^verbatim>\<open>move_message\<close> and \<^verbatim>\<open>copy_message\<close> are asked for.\<close>

definition chosen_folder :: "'s ActEnv \<Rightarrow> string \<Rightarrow> ('s ActWorld, SyncError, FolderRow) eff" where
  "chosen_folder X folder_id =
     bindE (ofE (id_value (ax_store X) folder_id)) (\<lambda>folder.
     bindE (adb (query (\<lambda>d. find (\<lambda>f. f_id f = folder) (dt_folders d)))) (\<lambda>dest.
       case dest of None \<Rightarrow> errE MessageNotFound | Some f \<Rightarrow> okE f))"

definition move_message ::
  "'s ActEnv \<Rightarrow> string \<Rightarrow> string \<Rightarrow> string \<Rightarrow> ('s ActWorld, SyncError, ActionResponse) eff" where
  "move_message X message_id user_id folder_id =
     bindE (load_message_row X user_id message_id) (\<lambda>row.
     bindE (chosen_folder X folder_id) (\<lambda>f.
     if f_account_id f \<noteq> mr_account_id row
     then errE (InvalidInput ''cross-account moves are not supported; pick a folder of the same account'')
     else if f_id f = mr_folder_id row
     then okE \<lparr>ar_action = ''noop'', ar_role = None, ar_folder_id = Some (f_id f)\<rparr>
     else bindE (ofE (id_value (ax_store X) folder_id)) (\<lambda>folder.
          bindE (adb (query (\<lambda>d. Option.bind (find (\<lambda>f. f_id f = folder) (dt_folders d)) role_of))) (\<lambda>dest_role.
          bindE (apply_user_move X user_id row (f_id f) (f_external_id f) (dest_name (role_folder f)) dest_role) (\<lambda>_.
            okE \<lparr>ar_action = ''moved'', ar_role = None, ar_folder_id = Some (f_id f)\<rparr>)))))"

definition copy_message ::
  "'s ActEnv \<Rightarrow> string \<Rightarrow> string \<Rightarrow> string \<Rightarrow> ('s ActWorld, SyncError, ActionResponse) eff" where
  "copy_message X message_id user_id folder_id =
     bindE (load_message_row X user_id message_id) (\<lambda>row.
     bindE (chosen_folder X folder_id) (\<lambda>f.
     if f_account_id f \<noteq> mr_account_id row
     then errE (InvalidInput ''cross-account copies are not supported; pick a folder of the same account'')
     else if f_id f = mr_folder_id row
     then okE \<lparr>ar_action = ''noop'', ar_role = None, ar_folder_id = Some (f_id f)\<rparr>
     else bindE (apply_message_copy X user_id row (f_external_id f) (dest_name (role_folder f))) (\<lambda>_.
            okE \<lparr>ar_action = ''copied'', ar_role = None, ar_folder_id = Some (f_id f)\<rparr>)))"

section \<open>Flags and labels\<close>

record PatchMessageRequest =
  pb_is_read :: "bool option"
  pb_is_starred :: "bool option"
  pb_labels :: "string list option"

text \<open>\<^verbatim>\<open>from_str::<Vec<String>>\<close>.\<close>

definition string_vec :: "Json \<Rightarrow> string list option" where
  "string_vec v = (case v of JArray vs \<Rightarrow> those (map as_str vs) | _ \<Rightarrow> None)"

definition label_patch_plan ::
  "(string \<Rightarrow> Json option) \<Rightarrow> string option \<Rightarrow> string list option \<Rightarrow> string list \<times> string list option" where
  "label_patch_plan parse row_labels_json body_labels =
     ((case Option.bind (Option.bind row_labels_json parse) string_vec of Some ls \<Rightarrow> ls | None \<Rightarrow> []),
      map_option sanitize_labels body_labels)"

definition push_flag ::
  "'s ImapServer \<Rightarrow> u32 \<Rightarrow> string \<Rightarrow> bool option \<Rightarrow> bool \<Rightarrow> ('s Conn, ImapError, unit) eff" where
  "push_flag V uid flag want now =
     (case want of
        None \<Rightarrow> okE ()
      | Some b \<Rightarrow>
          if b \<and> \<not> now then add_flags V uid [flag]
          else if \<not> b \<and> now then remove_flags V uid [flag]
          else okE ())"

fun each :: "('b \<Rightarrow> ('w, 'e, unit) eff) \<Rightarrow> 'b list \<Rightarrow> ('w, 'e, unit) eff" where
  "each f [] = okE ()"
| "each f (x # xs) = bindE (f x) (\<lambda>_. each f xs)"

definition imap_patch ::
  "'s ActEnv \<Rightarrow> MessageRow \<Rightarrow> PatchMessageRequest \<Rightarrow> (string list \<times> string list) option \<Rightarrow> u32 \<Rightarrow>
     ('s Conn, ImapError, unit) eff" where
  "imap_patch X row body diff uid =
     bindE (push_flag (ax_imap X) uid ([CHR 0x5C] @ ''Seen'') (pb_is_read body) (mr_is_read row)) (\<lambda>_.
     bindE (push_flag (ax_imap X) uid ([CHR 0x5C] @ ''Flagged'') (pb_is_starred body) (mr_is_starred row)) (\<lambda>_.
       case diff of
         None \<Rightarrow> okE ()
       | Some (add, remove) \<Rightarrow>
           bindE (each (\<lambda>keyword. attempt (add_flags (ax_imap X) uid [keyword])) add) (\<lambda>_.
             each (\<lambda>keyword. attempt (remove_flags (ax_imap X) uid [keyword])) remove)))"

definition jmap_patch ::
  "'s ActEnv \<Rightarrow> string \<Rightarrow> MessageRow \<Rightarrow> PatchMessageRequest \<Rightarrow> (string list \<times> string list) option \<Rightarrow>
     ('s ActWorld, SyncError, unit) eff" where
  "jmap_patch X user_id row body diff =
     bindE (ofE (jmap_email_id row)) (\<lambda>email_id.
     bindE (jmap_half X user_id row (set_email_keywords X email_id (pb_is_read body) (pb_is_starred body))) (\<lambda>_.
       case diff of
         None \<Rightarrow> okE ()
       | Some (add, remove) \<Rightarrow>
           attempt (on_seam (mr_account_id row) (set_email_keywords_full X email_id None None add remove))))"

definition server_patch ::
  "'s ActEnv \<Rightarrow> string \<Rightarrow> MessageRow \<Rightarrow> PatchMessageRequest \<Rightarrow> (string list \<times> string list) option \<Rightarrow>
     ('s ActWorld, SyncError, unit) eff" where
  "server_patch X user_id row body diff =
     (if pb_is_read body = None \<and> pb_is_starred body = None then okE ()
      else if mr_protocol row = ''imap'' then imap_half X user_id row (imap_patch X row body diff)
      else if mr_protocol row = ''jmap'' then jmap_patch X user_id row body diff
      else okE ())"

definition local_patch ::
  "'s ActEnv \<Rightarrow> bool \<Rightarrow> bool \<Rightarrow> string list option \<Rightarrow> StoredMessage \<Rightarrow> StoredMessage" where
  "local_patch X next_read next_star next_labels m =
     (let m1 = m\<lparr>m_is_read := next_read, m_is_starred := next_star\<rparr>
      in case next_labels of
           None \<Rightarrow> m1
         | Some ls \<Rightarrow> m1\<lparr>m_labels := opt_json_value (ax_store X) (labels_json (se_json_show (ax_store X)) ls)\<rparr>)"

text \<open>The answer is the updated row; its rendering is left out.\<close>

definition patch_message ::
  "'s ActEnv \<Rightarrow> string \<Rightarrow> string \<Rightarrow> PatchMessageRequest \<Rightarrow> ('s ActWorld, SyncError, MessageRow) eff" where
  "patch_message X message_id user_id body =
     bindE (load_message_row X user_id message_id) (\<lambda>row.
     if pb_is_read body = None \<and> pb_is_starred body = None \<and> pb_labels body = None
     then errE (InvalidInput ''provide isRead, isStarred, and/or labels'')
     else let (row_labels, next_labels) = label_patch_plan (se_json_parse (ax_store X)) (mr_labels row) (pb_labels body);
              next_read = (case pb_is_read body of Some b \<Rightarrow> b | None \<Rightarrow> mr_is_read row);
              next_star = (case pb_is_starred body of Some b \<Rightarrow> b | None \<Rightarrow> mr_is_starred row)
          in bindE (server_patch X user_id row body (map_option (label_diff row_labels) next_labels)) (\<lambda>_.
             bindE (adb (update_message (ax_store X) (mr_id row) (\<lambda>_. True)
                 (local_patch X next_read next_star next_labels))) (\<lambda>_.
             bindE (adb (update_folder_counts (ax_store X) (mr_folder_id row))) (\<lambda>_.
               okE (row\<lparr>mr_is_read := next_read, mr_is_starred := next_star,
                        mr_labels := (case next_labels of None \<Rightarrow> mr_labels row
                          | Some ls \<Rightarrow> labels_json (se_json_show (ax_store X)) ls)\<rparr>)))))"

section \<open>The spam pass\<close>

definition SPAM_PASS_BATCH :: nat where "SPAM_PASS_BATCH = 100"
definition SPAM_PURGE_DAYS :: int where "SPAM_PURGE_DAYS = 30"
definition AI_SPAM_PASS_CAP :: nat where "AI_SPAM_PASS_CAP = 10"
definition REJUDGE_MOVE_CAP :: nat where "REJUDGE_MOVE_CAP = 25"
definition REJUDGE_SCAN_LIMIT :: nat where "REJUDGE_SCAN_LIMIT = 500"

fun spam_db_err :: "SpamStoreError \<Rightarrow> SqlxError" where
  "spam_db_err (SpamDatabase e) = e"
| "spam_db_err (SpamInvalidId m) = Protocol"

record SpamCandidate =
  ca_id :: string
  ca_from_email :: "string option"
  ca_from_name :: "string option"
  ca_subject :: "string option"
  ca_date :: "string option"
  ca_verdict :: "string option"
  ca_body_head :: "string option"

text \<open>\<^verbatim>\<open>ORDER BY m.date\<close>: the stored texts order as the times do, SQLite puts the rows without a date first when
  ascending and Postgres last. Rows of equal dates keep their order.\<close>

definition by_date_asc :: "DbBackend \<Rightarrow> ('a \<Rightarrow> StoredMessage) \<Rightarrow> 'a list \<Rightarrow> 'a list" where
  "by_date_asc b k rows =
     (let dated = sort_key (\<lambda>r. or_empty (m_date (k r))) (filter (\<lambda>r. m_date (k r) \<noteq> None) rows);
          undated = filter (\<lambda>r. m_date (k r) = None) rows
      in if b = Postgres then dated @ undated else undated @ dated)"

definition by_date_desc :: "DbBackend \<Rightarrow> ('a \<Rightarrow> StoredMessage) \<Rightarrow> 'a list \<Rightarrow> 'a list" where
  "by_date_desc b k rows = rev (by_date_asc b k (rev rows))"

text \<open>The rows of a user's folders with a role.\<close>

definition in_role :: "string \<Rightarrow> string \<Rightarrow> StoredMessage \<times> MailAccountRow \<times> FolderRow \<Rightarrow> bool" where
  "in_role user role = (\<lambda>(m, a, f). ma_user_id a = user \<and> \<not> m_is_deleted m \<and> role_of f = Some role)"

definition spam_candidate :: "'s ActEnv \<Rightarrow> StoredMessage \<times> MailAccountRow \<times> FolderRow \<Rightarrow> SpamCandidate" where
  "spam_candidate X = (\<lambda>(m, _).
     \<lparr>ca_id = m_id m, ca_from_email = from_json_email (se_json_parse (ax_store X)) (m_from m),
      ca_from_name = from_json_display_name (se_json_parse (ax_store X)) (m_from m), ca_subject = m_subject m,
      ca_date = m_date m, ca_verdict = m_spam_verdict m,
      ca_body_head = map_option (take_chars 600) (m_body_text m)\<rparr>)"

definition folder_role_rows ::
  "'s ActEnv \<Rightarrow> string \<Rightarrow> string \<Rightarrow> nat \<Rightarrow> bool \<Rightarrow> ('s ActWorld, SyncError, SpamCandidate list) eff" where
  "folder_role_rows X user_id role limit only_unjudged =
     bindE (ofE (id_value (ax_store X) user_id)) (\<lambda>user.
     bindE (aquery (\<lambda>accounts d. take limit (by_date_desc (se_backend (ax_store X)) fst
         (filter (\<lambda>r. in_role user role r \<and> (only_unjudged \<longrightarrow> m_spam_verdict (fst r) = None))
           (join_rows accounts d))))) (\<lambda>rows.
       okE (map (spam_candidate X) rows)))"

definition unjudged_rows where
  "unjudged_rows X user_id role limit = folder_role_rows X user_id role limit True"

definition move_row_to_role :: "'s ActEnv \<Rightarrow> string \<Rightarrow> string \<Rightarrow> string \<Rightarrow> ('s ActWorld, SyncError, unit) eff" where
  "move_row_to_role X user_id role message_id =
     bindE (load_message_row X user_id message_id) (\<lambda>row.
     bindE (role_folder_for_account X (mr_account_id row) role) (\<lambda>dest.
       apply_message_move X user_id row (rf_id dest) (rf_external_id dest) (dest_name dest)))"

definition move_row_to_spam where "move_row_to_spam X user_id message_id = move_row_to_role X user_id ''spam'' message_id"
definition move_row_to_inbox where "move_row_to_inbox X user_id message_id = move_row_to_role X user_id ''inbox'' message_id"

text \<open>One round of the loop of \<^verbatim>\<open>judge_inbox_batch\<close>.\<close>

definition judge_row ::
  "'s ActEnv \<Rightarrow> string \<Rightarrow> SpamSettings \<Rightarrow> SenderEntry list \<Rightarrow> SpamCandidate \<Rightarrow> ('s ActWorld, SyncError, unit) eff" where
  "judge_row X user_id settings senders row =
     (case judge_message (sx_lower (ax_spam X)) \<lparr>ev_from_email = ca_from_email row, ev_from_name = ca_from_name row,
          ev_subject = ca_subject row\<rparr> settings senders of
        None \<Rightarrow> okE ()
      | Some verdict \<Rightarrow>
          bindE (set_spam_verdict X (ca_id row) verdict) (\<lambda>_.
            if verdict = ''spam'' \<or> verdict = ''blocked'' then attempt (move_row_to_spam X user_id (ca_id row))
            else okE ()))"

definition judge_inbox_batch ::
  "'s ActEnv \<Rightarrow> string \<Rightarrow> SpamSettings \<Rightarrow> SenderEntry list \<Rightarrow> ('s ActWorld, SyncError, unit) eff" where
  "judge_inbox_batch X user_id settings senders =
     bindE (unjudged_rows X user_id ''inbox'' SPAM_PASS_BATCH) (\<lambda>rows.
       each (judge_row X user_id settings senders) rows)"

text \<open>The query of \<^verbatim>\<open>spam_folder_rows\<close> selects the id alone, so no candidate has a date.\<close>

definition spam_folder_rows :: "'s ActEnv \<Rightarrow> string \<Rightarrow> ('s ActWorld, SyncError, SpamCandidate list) eff" where
  "spam_folder_rows X user_id =
     bindE (ofE (id_value (ax_store X) user_id)) (\<lambda>user.
     bindE (aquery (\<lambda>accounts d. take 200 (by_date_asc (se_backend (ax_store X)) fst
         (filter (in_role user ''spam'') (join_rows accounts d))))) (\<lambda>rows.
       okE (map (\<lambda>(m, _). \<lparr>ca_id = m_id m, ca_from_email = None, ca_from_name = None, ca_subject = None,
         ca_date = None, ca_verdict = None, ca_body_head = None\<rparr>) rows)))"

definition destroy_row_server_side ::
  "'s ActEnv \<Rightarrow> string \<Rightarrow> string \<Rightarrow> ('s ActWorld, SyncError, unit) eff" where
  "destroy_row_server_side X user_id message_id =
     bindE (load_message_row X user_id message_id) (\<lambda>row.
     bindE (if mr_protocol row = ''imap'' then imap_half X user_id row (delete_uid (ax_imap X))
            else if mr_protocol row = ''jmap''
              then bindE (ofE (jmap_email_id row)) (\<lambda>email_id.
                     jmap_half X user_id row (destroy_email X email_id))
            else errE (unsupported_protocol (mr_protocol row))) (\<lambda>_.
       soft_delete X row))"

definition purge_old_spam :: "'s ActEnv \<Rightarrow> string \<Rightarrow> ('s ActWorld, SyncError, unit) eff" where
  "purge_old_spam X user_id =
     (let cutoff = ax_now X - SPAM_PURGE_DAYS * 86400
      in bindE (spam_folder_rows X user_id) (\<lambda>rows.
           each (\<lambda>row.
             if (case Option.bind (ca_date row) (ax_rfc3339 X) of Some t \<Rightarrow> t < cutoff | None \<Rightarrow> False)
             then attempt (destroy_row_server_side X user_id (ca_id row)) else okE ()) rows))"

text \<open>The loop of \<^verbatim>\<open>ai_spam_auto_pass\<close>: the verdict is stamped before the move.\<close>

definition asked :: "('s \<Rightarrow> 'x \<times> 's) \<Rightarrow> ('x \<Rightarrow> ('s ActWorld, 'e, 'a) eff) \<Rightarrow> ('s ActWorld, 'e, 'a) eff" where
  "asked q f w = (case q (aw_server w) of (x, s) \<Rightarrow> f x (w\<lparr>aw_server := s\<rparr>))"

definition ai_file_row :: "'s ActEnv \<Rightarrow> string \<Rightarrow> string \<Rightarrow> bool option \<Rightarrow> ('s ActWorld, SyncError, unit) eff" where
  "ai_file_row X user_id i verdict =
     (case verdict of
        None \<Rightarrow> okE ()
      | Some spam \<Rightarrow>
          if spam
          then attempt (bindE (set_spam_verdict X i ''ai_spam'') (\<lambda>_. move_row_to_spam X user_id i))
          else attempt (set_spam_verdict X i ''ai_clean''))"

definition ai_judge_row :: "'s ActEnv \<Rightarrow> string \<Rightarrow> SpamCandidate \<Rightarrow> ('s ActWorld, SyncError, unit) eff" where
  "ai_judge_row X user_id row =
     (case ca_from_email row of
        None \<Rightarrow> okE ()
      | Some from_addr \<Rightarrow>
          asked (ax_ai_judge X (or_empty (ca_subject row)) from_addr (or_empty (ca_body_head row)))
            (ai_file_row X user_id (ca_id row)))"

definition ai_spam_auto_pass :: "'s ActEnv \<Rightarrow> string \<Rightarrow> ('s ActWorld, SyncError, unit) eff" where
  "ai_spam_auto_pass X user_id =
     asked (ax_ai X user_id) (\<lambda>ready.
       if \<not> ready then okE ()
       else attempt (bindE (unjudged_rows X user_id ''inbox'' AI_SPAM_PASS_CAP) (each (ai_judge_row X user_id))))"

definition spam_pass_inner :: "'s ActEnv \<Rightarrow> string \<Rightarrow> ('s ActWorld, SyncError, unit) eff" where
  "spam_pass_inner X user_id =
     bindE (map_errE (\<lambda>e. DatabaseErr (spam_db_err e)) (aspam (load_spam_settings (ax_spam X) user_id))) (\<lambda>settings.
     if \<not> st_enabled settings \<and> \<not> st_auto_delete settings then ai_spam_auto_pass X user_id
     else bindE (map_errE (\<lambda>e. DatabaseErr (spam_db_err e)) (aspam (list_senders (ax_spam X) user_id))) (\<lambda>senders.
          bindE (if st_enabled settings then judge_inbox_batch X user_id settings senders else okE ()) (\<lambda>_.
          bindE (if st_auto_delete settings then purge_old_spam X user_id else okE ()) (\<lambda>_.
            ai_spam_auto_pass X user_id))))"

definition spam_pass :: "'s ActEnv \<Rightarrow> string \<Rightarrow> 's ActWorld \<Rightarrow> 's ActWorld" where
  "spam_pass X user_id w = snd (spam_pass_inner X user_id w)"

section \<open>Edits of the sender lists\<close>

definition rejudge_ids :: "(string \<Rightarrow> string) \<Rightarrow> SpamCandidate list \<Rightarrow> string \<Rightarrow> SenderList \<Rightarrow> string list" where
  "rejudge_ids lower rows entry_email list =
     map ca_id (take REJUDGE_MOVE_CAP (filter (\<lambda>r.
       case ca_from_email r of
         None \<Rightarrow> False
       | Some from_addr \<Rightarrow>
           sender_matches lower entry_email from_addr
           \<and> (case list of
                Blocked \<Rightarrow> ca_verdict r = None \<or> ca_verdict r = Some ''clean''
              | Allowed \<Rightarrow> ca_verdict r = Some ''spam'' \<or> ca_verdict r = Some ''blocked'')) rows))"

definition rejudge_row :: "'s ActEnv \<Rightarrow> string \<Rightarrow> SenderList \<Rightarrow> string \<Rightarrow> ('s ActWorld, SyncError, unit) eff" where
  "rejudge_row X user_id list i =
     (case list of
        Blocked \<Rightarrow>
          bindE (attempt (set_spam_verdict X i ''blocked'')) (\<lambda>_. attempt (move_row_to_spam X user_id i))
      | Allowed \<Rightarrow>
          attempt (bindE (move_row_to_inbox X user_id i) (\<lambda>_. set_spam_verdict X i ''allowed'')))"

definition apply_sender_list_change ::
  "'s ActEnv \<Rightarrow> string \<Rightarrow> string \<Rightarrow> SenderList \<Rightarrow> 's ActWorld \<Rightarrow> 's ActWorld" where
  "apply_sender_list_change X user_id entry_email list w =
     (let role = (case list of Blocked \<Rightarrow> ''inbox'' | Allowed \<Rightarrow> ''spam'')
      in snd (bindE (folder_role_rows X user_id role REJUDGE_SCAN_LIMIT False) (\<lambda>rows.
           each (rejudge_row X user_id list) (rejudge_ids (sx_lower (ax_spam X)) rows entry_email list)) w))"

text \<open>A spawned task that the runtime gets to.\<close>

definition run_task :: "'s ActEnv \<Rightarrow> SpamTask \<Rightarrow> 's ActWorld \<Rightarrow> 's ActWorld" where
  "run_task X t w = apply_sender_list_change X (tk_user_id t) (tk_email t) (tk_list t)
     (w\<lparr>aw_spam := (aw_spam w)\<lparr>sd_tasks := remove1 t (sd_tasks (aw_spam w))\<rparr>\<rparr>)"

end
