(* ===== verification/Lyra_ActionLaws.thy ===== *)
theory Lyra_ActionLaws
  imports Lyra_Actions
begin

text \<open>
  What the message actions promise: what never touches the mail tables, how a row-wise relation lifts to the
  actions (the locale \<open>touch_frame\<close>), that nothing done for a user reaches the mail of another, and that an action
  the server refuses leaves the local mail as it was.
\<close>

section \<open>What leaves the tables alone\<close>

definition quiet :: "('s ActWorld, 'e, 'a) eff \<Rightarrow> bool" where
  "quiet m \<longleftrightarrow> (\<forall>w. aw_data (snd (m w)) = aw_data w \<and> aw_accounts (snd (m w)) = aw_accounts w)"

lemma quietD: "quiet m \<Longrightarrow> m w = (r, w') \<Longrightarrow> aw_data w' = aw_data w \<and> aw_accounts w' = aw_accounts w"
  unfolding quiet_def by (metis snd_conv)

lemma quiet_ret: "quiet (okE x)" "quiet (errE e)" "quiet (ofE r)" "quiet (Pair z)"
  by (simp_all add: quiet_def)

lemma quiet_bindE: "quiet m \<Longrightarrow> (\<And>x. quiet (f x)) \<Longrightarrow> quiet (bindE m f)"
  by (auto simp: quiet_def bindE_def split: prod.split sum.split) (metis snd_conv)+

lemma quiet_map_errE: "quiet m \<Longrightarrow> quiet (map_errE g m)"
  by (simp add: quiet_def snd_map_errE)

lemma quiet_attempt: "quiet m \<Longrightarrow> quiet (attempt m)"
  by (simp add: quiet_def attempt_def)

lemma quiet_aout: "quiet (aout f)"
  by (auto simp: quiet_def aout_def split: prod.split)

lemma quiet_query: "quiet (adb (query q))"
  using query_data [of q] by (auto simp: quiet_def adb_def split: prod.split) (metis snd_conv)

lemma quiet_aquery: "quiet (aquery q)"
  unfolding quiet_def aquery_def using quiet_query [unfolded quiet_def] by blast

lemma quiet_on_conn: "quiet (on_conn conn prog)"
  by (auto simp: quiet_def on_conn_def split: prod.split sum.split)

lemma quiet_on_seam: "quiet (on_seam account_id prog)"
  using quiet_aout [of prog]
  by (auto simp: quiet_def on_seam_def evict_def split: prod.split sum.split) (metis snd_conv)+

lemma quiet_if: "quiet m \<Longrightarrow> quiet n \<Longrightarrow> quiet (if b then m else n)"
  by simp

lemma quiet_option: "quiet m \<Longrightarrow> (\<And>x. quiet (f x)) \<Longrightarrow> quiet (case z of None \<Rightarrow> m | Some x \<Rightarrow> f x)"
  by (cases z) auto

lemma quiet_prod: "(\<And>x y. quiet (f x y)) \<Longrightarrow> quiet (case z of (x, y) \<Rightarrow> f x y)"
  by (cases z) auto

lemmas quiet_rules = quiet_ret quiet_bindE quiet_map_errE quiet_attempt quiet_aout quiet_query quiet_aquery quiet_on_conn
  quiet_on_seam quiet_if quiet_option quiet_prod

lemma quiet_load_message_row: "quiet (load_message_row X user_id message_id)"
  unfolding load_message_row_def by (intro quiet_rules)

lemma quiet_find_role_folder: "quiet (find_role_folder X account_id role)"
  unfolding find_role_folder_def by (intro quiet_rules)

lemma quiet_role_folder: "quiet (role_folder_for_account X account_id role)"
  unfolding role_folder_for_account_def by (intro quiet_rules quiet_find_role_folder)

lemma quiet_connect_imap: "quiet (connect_imap_for_account X user_id account_id)"
  unfolding connect_imap_for_account_def active_account_def by (intro quiet_rules)

lemma quiet_cached:
  assumes "quiet m"
  shows "quiet (\<lambda>w. if account_id \<in> set (aw_sessions w) then (Inr (), w)
    else bindE m (\<lambda>_ w. (Inr (), w\<lparr>aw_sessions := account_id # aw_sessions w\<rparr>)) w)"
proof -
  have "quiet (bindE m (\<lambda>_ w. (Inr (), w\<lparr>aw_sessions := account_id # aw_sessions w\<rparr>)))"
    using assms by (rule quiet_bindE) (simp add: quiet_def)
  then show ?thesis by (simp add: quiet_def)
qed

lemma quiet_connect_jmap: "quiet (connect_jmap_for_account X user_id account_id)"
  unfolding connect_jmap_for_account_def active_account_def by (intro quiet_rules quiet_cached)

lemma quiet_halves: "quiet (imap_half X user_id row prog)" "quiet (jmap_half X user_id row prog2)"
  unfolding imap_half_def jmap_half_def by (intro quiet_rules quiet_connect_imap quiet_connect_jmap)+

lemma quiet_server_move: "quiet (server_move X user_id row dest_external dest)"
  unfolding server_move_def by (intro quiet_rules quiet_halves)

lemma quiet_copy: "quiet (apply_message_copy X user_id row dest_external dest)"
  unfolding apply_message_copy_def by (intro quiet_rules quiet_halves)

lemma quiet_server_patch: "quiet (server_patch X user_id row body diff)"
  unfolding server_patch_def jmap_patch_def by (intro quiet_rules quiet_halves)

lemma quiet_chosen: "quiet (chosen_folder X folder_id)"
  unfolding chosen_folder_def by (intro quiet_rules)

lemma quiet_folder_role_rows: "quiet (folder_role_rows X user_id role limit only)"
  unfolding folder_role_rows_def by (intro quiet_rules)

lemma spam_stmt_data:
  assumes "\<And>s. md_data (sd_db (snd (f s))) = md_data (sd_db s)"
  shows "md_data (sd_db (snd (spam_stmt f s))) = md_data (sd_db s)"
  using assms query_data [of "\<lambda>_. ()" "sd_db s"] by (auto simp: spam_stmt_def split: prod.split sum.split)


text \<open>The spam tables stand beside the mail tables: their statements leave the mail alone.\<close>

lemma mail_bindE:
  "(\<And>s. md_data (sd_db (snd (m s))) = md_data (sd_db s)) \<Longrightarrow> (\<And>x s. md_data (sd_db (snd (f x s))) = md_data (sd_db s))
   \<Longrightarrow> md_data (sd_db (snd (bindE m f s))) = md_data (sd_db s)"
  by (auto simp: bindE_def split: prod.split sum.split) (metis snd_conv)+

lemma mail_spam_ops:
  "md_data (sd_db (snd (load_spam_settings Y u s))) = md_data (sd_db s)"
  "md_data (sd_db (snd (list_senders Y u s))) = md_data (sd_db s)"
  "md_data (sd_db (snd (add_sender Y u email l s))) = md_data (sd_db s)"
proof -
  show load: "md_data (sd_db (snd (load_spam_settings Y u s))) = md_data (sd_db s)" for s
    unfolding load_spam_settings_def by (intro mail_bindE) (auto intro: spam_stmt_data split: option.split)
  show "md_data (sd_db (snd (list_senders Y u s))) = md_data (sd_db s)"
    unfolding list_senders_def by (intro mail_bindE) (auto intro: spam_stmt_data)
  show "md_data (sd_db (snd (add_sender Y u email l s))) = md_data (sd_db s)"
    unfolding add_sender_def Let_def drop_sender_def insert_sender_def
    by (intro mail_bindE) (auto intro: spam_stmt_data simp: spam_uuid_def)
qed

lemma mail_learn: "md_data (sd_db (snd (learn_sender Y u email block s))) = md_data (sd_db s)"
  using mail_spam_ops(1) [of Y u] mail_spam_ops(3) [of Y u email]
  by (auto simp: learn_sender_def split: prod.split sum.split) (metis snd_conv)+

lemma quiet_aspam:
  assumes "\<And>s. md_data (sd_db (snd (f s))) = md_data (sd_db s)"
  shows "quiet (aspam f)"
  using assms by (auto simp: quiet_def aspam_def split: prod.split) (metis snd_conv)

lemma quiet_learned_from: "quiet (learned_from X user_id sender block)"
proof -
  have "aw_data (snd (learn_and_rejudge X user_id email block w)) = aw_data w
      \<and> aw_accounts (snd (learn_and_rejudge X user_id email block w)) = aw_accounts w" for email w
    using mail_learn [of "ax_spam X" user_id email block "aw_spam w"]
    by (auto simp: learn_and_rejudge_def spawn_rejudge_def split: prod.split)
  then show ?thesis by (auto simp: quiet_def learned_from_def split: option.split)
qed

section \<open>What touches rows\<close>

text \<open>Of a folder an action changes the counts only.\<close>

definition folder_key :: "FolderRow \<Rightarrow> FolderRow" where
  "folder_key f = f\<lparr>f_total := 0, f_unread := 0, f_updated_at := []\<rparr>"

text \<open>Only rows with an id of \<open>I\<close> change, as \<open>G\<close> allows.\<close>

definition touches ::
  "string set \<Rightarrow> (StoredMessage \<Rightarrow> StoredMessage \<Rightarrow> bool) \<Rightarrow> 's ActWorld \<Rightarrow> 's ActWorld \<Rightarrow> bool" where
  "touches I G w w' \<longleftrightarrow> aw_accounts w' = aw_accounts w
     \<and> map folder_key (dt_folders (aw_data w')) = map folder_key (dt_folders (aw_data w))
     \<and> list_all2 (\<lambda>m m'. m' = m \<or> (m_id m \<in> I \<and> m_id m' = m_id m \<and> G m m'))
         (dt_messages (aw_data w)) (dt_messages (aw_data w'))"

definition tframes ::
  "string set \<Rightarrow> (StoredMessage \<Rightarrow> StoredMessage \<Rightarrow> bool) \<Rightarrow> ('s ActWorld, 'e, 'a) eff \<Rightarrow> bool" where
  "tframes I G m \<longleftrightarrow> (\<forall>w. touches I G w (snd (m w)))"

lemma touches_same: "aw_data w' = aw_data w \<Longrightarrow> aw_accounts w' = aw_accounts w \<Longrightarrow> touches I G w w'"
  by (simp add: touches_def list_all2_refl)

lemma touches_trans:
  assumes "transp G" and "touches I G w1 w2" and "touches I G w2 w3"
  shows "touches I G w1 w3"
proof -
  let ?P = "\<lambda>m m'. m' = m \<or> (m_id m \<in> I \<and> m_id m' = m_id m \<and> G m m')"
  have P: "?P a b \<Longrightarrow> ?P b c \<Longrightarrow> ?P a c" for a b c
    using assms(1) by (auto dest: transpD)
  have "list_all2 ?P (dt_messages (aw_data w1)) (dt_messages (aw_data w3))"
    using assms(2,3) P unfolding touches_def by (blast intro: list_all2_trans [of ?P ?P ?P])
  then show ?thesis using assms(2,3) by (simp add: touches_def)
qed

text \<open>Refreshing the counts of a folder changes neither mail nor the keys of folders.\<close>

definition counts_only :: "MailData \<Rightarrow> MailData \<Rightarrow> bool" where
  "counts_only d d' \<longleftrightarrow> dt_messages d' = dt_messages d \<and> map folder_key (dt_folders d') = map folder_key (dt_folders d)"

interpretation countf: store_frame counts_only
  by unfold_locales (auto simp: counts_only_def)

lemma counts_update_folder_counts: "frames counts_only (update_folder_counts E folder_id)"
  unfolding update_folder_counts_def update_folder_counts_in_tx_def folder_count_def update_folders_def
  by (intro countf.frames_rules countf.frames_modify countf.frames_stmt)
     (auto simp: counts_only_def folder_key_def)

lemma adb_frames: "frames R m \<Longrightarrow> R (aw_data w) (aw_data (snd (adb m w))) \<and> aw_accounts (snd (adb m w)) = aw_accounts w"
  by (auto simp: frames_def adb_def split: prod.split) (metis snd_conv)

lemma update_message_data:
  "md_data (snd (update_message E i P g db)) = md_data db
   \<or> (\<exists>j. id_value E i = Inr j \<and> md_data (snd (update_message E i P g db)) = (md_data db)\<lparr>dt_messages :=
        map (\<lambda>m. if m_id m = j \<and> P m then (g m)\<lparr>m_updated_at := md_now db\<rparr> else m) (dt_messages (md_data db))\<rparr>)"
proof (cases "id_value E i")
  case (Inr j)
  let ?f = "\<lambda>now d. d\<lparr>dt_messages := map (\<lambda>m. if m_id m = j \<and> P m then (g m)\<lparr>m_updated_at := now\<rparr> else m) (dt_messages d)\<rparr>"
  have u: "update_message E i P g db = modify ?f db"
    using Inr by (simp add: update_message_def bindE_def)
  obtain r db' where "modify ?f db = (r, db')" by force
  then have "md_data db' = md_data db \<or> md_data db' = ?f (md_now db) (md_data db)"
    unfolding modify_def by (auto elim!: stmt_cases)
  then show ?thesis using Inr u \<open>modify ?f db = (r, db')\<close> by auto
qed (simp add: update_message_def bindE_def)

text \<open>The interface every relation of this kind serves: the actions are built from these steps.\<close>

locale touch_frame =
  fixes G :: "StoredMessage \<Rightarrow> StoredMessage \<Rightarrow> bool"
  assumes G_trans: "transp G"
begin

lemma tframesD: "tframes I G m \<Longrightarrow> m w = (r, w') \<Longrightarrow> touches I G w w'"
  unfolding tframes_def by (metis snd_conv)

lemma tframes_quiet: "quiet m \<Longrightarrow> tframes I G m"
  by (simp add: quiet_def tframes_def touches_same)

lemma tframes_bindE:
  assumes "tframes I G m" and "\<And>x. tframes I G (f x)"
  shows "tframes I G (bindE m f)"
  unfolding tframes_def
proof
  fix w
  show "touches I G w (snd (bindE m f w))"
  proof (cases "m w")
    case (Pair r w1)
    then show ?thesis
      using tframesD [OF assms(1) Pair] assms(2) touches_trans [OF G_trans, of I w w1]
      by (cases r) (simp_all add: tframes_def)
  qed
qed

lemma tframes_quiet_bindE:
  assumes "quiet m" and "\<And>x w w'. m w = (Inr x, w') \<Longrightarrow> touches I G w' (snd (f x w'))"
  shows "tframes I G (bindE m f)"
  unfolding tframes_def
proof
  fix w
  show "touches I G w (snd (bindE m f w))"
  proof (cases "m w")
    case (Pair r w1)
    have "touches I G w w1" using quietD [OF assms(1) Pair] by (simp add: touches_same)
    with Pair show ?thesis using assms(2) touches_trans [OF G_trans, of I w w1] by (cases r) simp_all
  qed
qed

lemma tframes_attempt: "tframes I G m \<Longrightarrow> tframes I G (attempt m)"
  by (simp add: tframes_def attempt_def)

lemma tframes_each: "(\<And>x. x \<in> set xs \<Longrightarrow> tframes I G (f x)) \<Longrightarrow> tframes I G (each f xs)"
proof (induction xs)
  case Nil
  show ?case by (simp add: tframes_quiet quiet_ret)
next
  case (Cons x xs)
  then show ?case by (simp add: tframes_bindE)
qed

lemma tframes_counts: "tframes I G (adb (update_folder_counts E folder_id))"
  using adb_frames [OF counts_update_folder_counts]
  by (auto simp: tframes_def touches_def counts_only_def list_all2_refl)

lemma tframes_update:
  assumes "\<And>j. id_value E i = Inr j \<Longrightarrow> j \<in> I"
    and "\<And>m now. P m \<Longrightarrow> m_id (g m) = m_id m \<and> G m ((g m)\<lparr>m_updated_at := now\<rparr>)"
  shows "tframes I G (adb (update_message E i P g) :: ('s ActWorld, SyncError, unit) eff)"
proof -
  let ?P = "\<lambda>m m'. m' = m \<or> (m_id m \<in> I \<and> m_id m' = m_id m \<and> G m m')"
  have "list_all2 ?P ms (map (\<lambda>m. if m_id m = j \<and> P m then (g m)\<lparr>m_updated_at := now\<rparr> else m) ms)"
    if "id_value E i = Inr j" for j ms now
    using assms that by (simp add: list.rel_map list_all2_refl)
  note upd = this
  show ?thesis
    unfolding tframes_def
  proof
    fix w :: "'s ActWorld"
    show "touches I G w (snd (adb (update_message E i P g) w))"
      using update_message_data [of E i P g "aw_db w"] upd
      by (cases "update_message E i P g (aw_db w)") (auto simp: touches_def adb_def list_all2_refl)
  qed
qed

end

section \<open>What a user can reach\<close>

definition owned_ids :: "string \<Rightarrow> 's ActWorld \<Rightarrow> string set" where
  "owned_ids user w = {m_id m | m a. m \<in> set (dt_messages (aw_data w)) \<and> a \<in> set (aw_accounts w)
     \<and> ma_id a = m_account_id m \<and> ma_user_id a = user}"

definition same_account :: "StoredMessage \<Rightarrow> StoredMessage \<Rightarrow> bool" where
  "same_account m m' \<longleftrightarrow> m_account_id m' = m_account_id m"

interpretation acct: touch_frame same_account
  by unfold_locales (auto simp: same_account_def transp_def)

lemma touches_keys:
  assumes "touches I same_account w w'"
  shows "map (\<lambda>m. (m_id m, m_account_id m)) (dt_messages (aw_data w'))
    = map (\<lambda>m. (m_id m, m_account_id m)) (dt_messages (aw_data w))"
proof -
  have "list_all2 (\<lambda>m m'. (m_id m', m_account_id m') = (m_id m, m_account_id m)) (dt_messages (aw_data w)) (dt_messages (aw_data w'))"
    using assms by (auto simp: touches_def same_account_def elim: list.rel_mono_strong)
  then show ?thesis by (simp add: list_all2_conv_all_nth list_eq_iff_nth_eq)
qed

lemma owned_ids_keys:
  "owned_ids user w = fst ` {k \<in> set (map (\<lambda>m. (m_id m, m_account_id m)) (dt_messages (aw_data w))).
     \<exists>a \<in> set (aw_accounts w). ma_id a = snd k \<and> ma_user_id a = user}"
  by (force simp: owned_ids_def)

lemma keys_owned:
  assumes "map (\<lambda>m. (m_id m, m_account_id m)) (dt_messages (aw_data w')) = map (\<lambda>m. (m_id m, m_account_id m)) (dt_messages (aw_data w))"
    and "aw_accounts w' = aw_accounts w"
  shows "owned_ids user w' = owned_ids user w"
  by (simp only: owned_ids_keys assms)

lemma good_ids_map:
  "good_ids E d \<longleftrightarrow> distinct (map m_id (dt_messages d)) \<and> (\<forall>i \<in> set (map m_id (dt_messages d)). id_value E i = Inr i)"
  by (simp add: good_ids_def)

lemma keys_good:
  assumes "map (\<lambda>m. (m_id m, m_account_id m)) (dt_messages d') = map (\<lambda>m. (m_id m, m_account_id m)) (dt_messages d)"
  shows "good_ids E d' = good_ids E d"
proof -
  have "map m_id (dt_messages d') = map m_id (dt_messages d)"
    using arg_cong [OF assms, of "map fst"] by (simp add: o_def)
  then show ?thesis by (simp only: good_ids_map)
qed

text \<open>A step of a user's action: it touches his rows only.\<close>

definition stays :: "'s ActEnv \<Rightarrow> string \<Rightarrow> 's ActWorld \<Rightarrow> 's ActWorld \<Rightarrow> bool" where
  "stays X user w w' \<longleftrightarrow> (good_ids (ax_store X) (aw_data w) \<longrightarrow> touches (owned_ids user w) same_account w w')"

lemma staysD:
  assumes "stays X user w w'" and "good_ids (ax_store X) (aw_data w)"
  shows "good_ids (ax_store X) (aw_data w')" and "owned_ids user w' = owned_ids user w"
    and "touches (owned_ids user w) same_account w w'"
proof -
  show t: "touches (owned_ids user w) same_account w w'"
    using assms by (simp add: stays_def)
  show "good_ids (ax_store X) (aw_data w')" using keys_good [OF touches_keys [OF t]] assms(2) by simp
  show "owned_ids user w' = owned_ids user w"
    using t by (intro keys_owned touches_keys [OF t]) (simp add: touches_def)
qed

lemma stays_same: "aw_data w' = aw_data w \<Longrightarrow> aw_accounts w' = aw_accounts w \<Longrightarrow> stays X user w w'"
  by (simp add: stays_def touches_same)

lemma stays_trans: "stays X user w1 w2 \<Longrightarrow> stays X user w2 w3 \<Longrightarrow> stays X user w1 w3"
  by (metis stays_def staysD touches_trans acct.G_trans)

text \<open>Ids that bind to rows of the user, if they bind; this does not depend on what his actions change.\<close>

definition reaches :: "'s ActEnv \<Rightarrow> string \<Rightarrow> string \<Rightarrow> 's ActWorld \<Rightarrow> bool" where
  "reaches X user i w \<longleftrightarrow> (good_ids (ax_store X) (aw_data w) \<longrightarrow> (\<forall>j. id_value (ax_store X) i = Inr j \<longrightarrow> j \<in> owned_ids user w))"

lemma reaches_stays: "reaches X user i w \<Longrightarrow> stays X user w w' \<Longrightarrow> good_ids (ax_store X) (aw_data w) \<Longrightarrow> reaches X user i w'"
  by (simp add: reaches_def staysD)

text \<open>Computations that stay with the user when the ids of \<open>J\<close> reach his rows.\<close>

definition sframes :: "'s ActEnv \<Rightarrow> string \<Rightarrow> string set \<Rightarrow> ('s ActWorld, 'e, 'a) eff \<Rightarrow> bool" where
  "sframes X user J m \<longleftrightarrow> (\<forall>w. (\<forall>i \<in> J. reaches X user i w) \<longrightarrow> stays X user w (snd (m w)))"

lemma sframes_mono: "sframes X user J m \<Longrightarrow> J \<subseteq> J' \<Longrightarrow> sframes X user J' m"
  unfolding sframes_def by blast

lemma sframes_quiet: "quiet m \<Longrightarrow> sframes X user J m"
  by (simp add: quiet_def sframes_def stays_same)

lemma sframes_gen_bindE:
  assumes "sframes X user J m"
    and "\<And>x w w'. m w = (Inr x, w') \<Longrightarrow> \<forall>i \<in> J. reaches X user i w' \<Longrightarrow> good_ids (ax_store X) (aw_data w) \<Longrightarrow> stays X user w w'
      \<Longrightarrow> stays X user w' (snd (f x w'))"
  shows "sframes X user J (bindE m f)"
  unfolding sframes_def
proof (intro allI impI)
  fix w
  assume J: "\<forall>i \<in> J. reaches X user i w"
  obtain r w1 where m: "m w = (r, w1)" by force
  have s: "stays X user w w1" using assms(1) J m by (metis sframes_def snd_conv)
  show "stays X user w (snd (bindE m f w))"
  proof (cases r)
    case (Inr x)
    show ?thesis
    proof (cases "good_ids (ax_store X) (aw_data w)")
      case True
      then have "\<forall>i \<in> J. reaches X user i w1" using J s reaches_stays by blast
      then have "stays X user w1 (snd (f x w1))" using assms(2) m Inr s True by blast
      with stays_trans [OF s] m Inr show ?thesis by simp
    qed (simp add: stays_def)
  qed (simp add: m s)
qed

lemma sframes_bindE: "sframes X user J m \<Longrightarrow> (\<And>x. sframes X user J (f x)) \<Longrightarrow> sframes X user J (bindE m f)"
  by (erule sframes_gen_bindE) (simp add: sframes_def)

lemma sframes_attempt: "sframes X user J m \<Longrightarrow> sframes X user J (attempt m)"
  by (simp add: sframes_def attempt_def)

lemma sframes_if: "sframes X user J m \<Longrightarrow> sframes X user J n \<Longrightarrow> sframes X user J (if b then m else n)"
  by simp

lemma sframes_option:
  "sframes X user J m \<Longrightarrow> (\<And>x. sframes X user J (f x)) \<Longrightarrow> sframes X user J (case z of None \<Rightarrow> m | Some x \<Rightarrow> f x)"
  by (cases z) auto

lemma sframes_each: "(\<And>x. x \<in> set xs \<Longrightarrow> sframes X user J (f x)) \<Longrightarrow> sframes X user J (each f xs)"
proof (induction xs)
  case Nil
  show ?case by (simp add: sframes_quiet quiet_ret)
next
  case (Cons x xs)
  then show ?case by (simp add: sframes_bindE)
qed

lemma sframes_counts: "sframes X user J (adb (update_folder_counts E folder_id))"
  by (simp add: sframes_def stays_def acct.tframes_counts [unfolded tframes_def, rule_format])

lemma sframes_update:
  assumes "\<And>m now. m_id (g m) = m_id m \<and> m_account_id (g m) = m_account_id m"
  shows "sframes (X :: 's ActEnv) user {i} (adb (update_message (ax_store X) i P g))"
  unfolding sframes_def stays_def
proof (intro allI impI)
  fix w :: "'s ActWorld"
  assume "\<forall>i' \<in> {i}. reaches X user i' w" and "good_ids (ax_store X) (aw_data w)"
  then have "tframes (owned_ids user w) same_account (adb (update_message (ax_store X) i P g) :: ('s ActWorld, SyncError, unit) eff)"
    using assms by (intro acct.tframes_update) (auto simp: reaches_def same_account_def)
  then show "touches (owned_ids user w) same_account w (snd (adb (update_message (ax_store X) i P g) w))"
    by (simp add: tframes_def)
qed

lemmas sframes_rules = sframes_bindE sframes_attempt sframes_if sframes_option sframes_counts


section \<open>The actions of a user\<close>

lemma join_rows_in: "(m, a, f) \<in> set (join_rows accounts d) \<longleftrightarrow> m \<in> set (dt_messages d) \<and> a \<in> set accounts
    \<and> f \<in> set (dt_folders d) \<and> ma_id a = m_account_id m \<and> f_id f = m_folder_id m"
  by (auto simp: join_rows_def)

lemma aquery_Inr: "aquery q w = (Inr x, w') \<Longrightarrow> x = q (aw_accounts w) (aw_data w) \<and> aw_data w' = aw_data w \<and> aw_accounts w' = aw_accounts w"
  by (auto simp: aquery_def adb_def split: prod.splits dest!: query_Inr)

lemma load_message_row_Inr:
  assumes "load_message_row X user_id message_id w = (Inr row, w')"
  obtains user m a f where "id_value (ax_store X) user_id = Inr user" "m \<in> set (dt_messages (aw_data w))"
    "a \<in> set (aw_accounts w)" "f \<in> set (dt_folders (aw_data w))" "ma_id a = m_account_id m" "f_id f = m_folder_id m"
    "ma_user_id a = user" "\<not> m_is_deleted m" "id_value (ax_store X) message_id = Inr (m_id m)"
    "message_row (m, a, f) = Inr row" "aw_data w' = aw_data w" "aw_accounts w' = aw_accounts w"
proof -
  from assms obtain msg user r where ids: "id_value (ax_store X) message_id = Inr msg" "id_value (ax_store X) user_id = Inr user"
    and r: "find (\<lambda>(m, a, f). m_id m = msg \<and> ma_user_id a = user \<and> \<not> m_is_deleted m) (join_rows (aw_accounts w) (aw_data w)) = Some r"
    "message_row r = Inr row" and w': "aw_data w' = aw_data w" "aw_accounts w' = aw_accounts w"
    unfolding load_message_row_def
    by (auto elim!: bindE_InrE dest!: aquery_Inr split: option.splits)
  obtain m a f where "r = (m, a, f)" by (metis prod_cases3)
  with r ids w' that show thesis
    by (auto simp: find_Some_iff join_rows_in [symmetric]) (metis (no_types, lifting) join_rows_in nth_mem)
qed

lemma row_fields:
  assumes "message_row (m, a, f) = Inr row"
  shows "mr_id row = m_id m" "mr_account_id row = m_account_id m" "mr_folder_id row = m_folder_id m"
    "mr_folder_role row = role_of f" "mr_from_address row = m_from m"
  using assms by (auto simp: message_row_def split: option.splits)

lemma load_reaches:
  assumes "load_message_row X user_id message_id w = (Inr row, w')" and "id_value (ax_store X) user_id = Inr user"
  shows "reaches X user (mr_id row) w' \<and> reaches X user message_id w'"
proof -
  from assms obtain m a f where m: "m \<in> set (dt_messages (aw_data w))" "a \<in> set (aw_accounts w)" "ma_id a = m_account_id m"
    "ma_user_id a = user" "id_value (ax_store X) message_id = Inr (m_id m)" "message_row (m, a, f) = Inr row"
    "aw_data w' = aw_data w" "aw_accounts w' = aw_accounts w"
    by (auto elim!: load_message_row_Inr)
  then have "m_id m \<in> owned_ids user w'" by (auto simp: owned_ids_def)
  then show ?thesis using m row_fields [OF m(6)] by (auto simp: reaches_def good_ids_def)
qed

lemma sframes_load:
  assumes "id_value (ax_store X) user_id = Inr user" and "\<And>row. sframes X user (insert (mr_id row) (insert message_id J)) (f row)"
  shows "sframes X user J (bindE (load_message_row X user_id message_id) f)"
proof (rule sframes_gen_bindE)
  show "sframes X user J (load_message_row X user_id message_id)"
    by (rule sframes_quiet) (rule quiet_load_message_row)
next
  fix row w w'
  assume "load_message_row X user_id message_id w = (Inr row, w')" and "\<forall>i \<in> J. reaches X user i w'"
  then show "stays X user w' (snd (f row w'))"
    using load_reaches [OF _ assms(1), of message_id w row w'] assms(2) [of row] by (simp add: sframes_def)
qed


lemma sframes_relocate: "sframes X user {i} (relocate X i dest)"
  unfolding relocate_def by (intro sframes_bindE sframes_update sframes_quiet quiet_ret) simp

lemma sframes_verdict: "sframes X user {i} (set_spam_verdict X i v)"
  unfolding set_spam_verdict_def by (intro sframes_update) simp

lemma sframes_soft_delete: "sframes X user {mr_id row} (soft_delete X row)"
  unfolding soft_delete_def by (intro sframes_bindE sframes_update sframes_counts) simp

lemma sframes_apply_move: "sframes X user {mr_id row} (apply_message_move X user_id row dest_id ext dest)"
  unfolding apply_message_move_def
  by (intro sframes_bindE sframes_relocate sframes_counts sframes_quiet quiet_server_move)

lemma sframes_user_move: "sframes X user {mr_id row} (apply_user_move X user_id row dest_id ext dest role)"
  unfolding apply_user_move_def
  by (intro sframes_bindE sframes_apply_move sframes_quiet quiet_if quiet_learned_from quiet_ret)

lemma sframes_any: "sframes X user {i} m \<Longrightarrow> i \<in> J \<Longrightarrow> sframes X user J m"
  by (erule sframes_mono) simp

lemma sframes_move_to_role:
  assumes "id_value (ax_store X) user_id = Inr user"
  shows "sframes X user J (move_message_to_role X message_id user_id role)"
  unfolding move_message_to_role_def
  by (intro sframes_load [OF assms] sframes_rules sframes_quiet [OF quiet_find_role_folder] sframes_quiet [OF quiet_ret(1)]
      sframes_any [OF sframes_soft_delete] sframes_any [OF sframes_user_move]) simp_all

lemma reaches_cong: "aw_data w' = aw_data w \<Longrightarrow> aw_accounts w' = aw_accounts w \<Longrightarrow> reaches X user i w' = reaches X user i w"
  by (simp add: reaches_def owned_ids_def)

lemma move_to_role_reaches:
  assumes "id_value (ax_store X) user_id = Inr user" and "move_message_to_role X message_id user_id role w = (Inr res, w')"
  shows "reaches X user message_id w"
proof -
  from assms(2) obtain row w1 where l: "load_message_row X user_id message_id w = (Inr row, w1)"
    unfolding move_message_to_role_def by (elim bindE_InrE)
  have "reaches X user message_id w1" using load_reaches [OF l assms(1)] by simp
  then show ?thesis using reaches_cong quietD [OF quiet_load_message_row l] by metis
qed

lemma sframes_spam_message:
  assumes "id_value (ax_store X) user_id = Inr user"
  shows "sframes X user J (spam_message X message_id user_id)"
  unfolding sframes_def
proof (intro allI impI)
  fix w
  assume J: "\<forall>i \<in> J. reaches X user i w"
  obtain loaded w1 where l: "load_message_row X user_id message_id w = (loaded, w1)" by force
  have s: "stays X user w w1" "\<forall>i \<in> J. reaches X user i w1"
    using quietD [OF quiet_load_message_row l] J by (auto simp: stays_same cong: reaches_cong)
  let ?stamp = "\<lambda>res. bindE (set_spam_verdict X message_id ''blocked'') (\<lambda>_.
      bindE (learned_from X user_id (case loaded of Inl _ \<Rightarrow> None | Inr row \<Rightarrow> sender_of X row) True) (\<lambda>_. okE res))"
  have st: "sframes X user {message_id} (?stamp res)" for res
    by (intro sframes_bindE sframes_verdict sframes_quiet quiet_learned_from quiet_ret)
  have "sframes X user J (bindE (move_message_to_role X message_id user_id ''spam'') ?stamp)"
  proof (rule sframes_gen_bindE [OF sframes_move_to_role [OF assms]])
    fix res v v'
    assume "move_message_to_role X message_id user_id ''spam'' v = (Inr res, v')"
      "good_ids (ax_store X) (aw_data v)" "stays X user v v'"
    then have "reaches X user message_id v'"
      using move_to_role_reaches [OF assms] reaches_stays by blast
    then show "stays X user v' (snd (?stamp res v'))" using st [of res] by (simp add: sframes_def)
  qed
  then have "stays X user w1 (snd (bindE (move_message_to_role X message_id user_id ''spam'') ?stamp w1))"
    using s by (simp add: sframes_def)
  then show "stays X user w (snd (spam_message X message_id user_id w))"
    using s l stays_trans by (auto simp: spam_message_def)
qed

lemma sframes_not_spam:
  assumes "id_value (ax_store X) user_id = Inr user"
  shows "sframes X user J (not_spam_message X message_id user_id)"
  unfolding not_spam_message_def
  by (intro sframes_load [OF assms] sframes_bindE sframes_if sframes_quiet [OF quiet_role_folder]
      sframes_quiet [OF quiet_ret(1)] sframes_quiet [OF quiet_learned_from]
      sframes_any [OF sframes_verdict] sframes_any [OF sframes_user_move]) simp_all

lemma sframes_move_message:
  assumes "id_value (ax_store X) user_id = Inr user"
  shows "sframes X user J (move_message X message_id user_id folder_id)"
  unfolding move_message_def
  by (intro sframes_load [OF assms] sframes_bindE sframes_if sframes_quiet [OF quiet_chosen]
      sframes_quiet [OF quiet_ret(1)] sframes_quiet [OF quiet_ret(2)] sframes_quiet [OF quiet_ret(3)] sframes_quiet [OF quiet_query]
      sframes_any [OF sframes_user_move]) simp_all

lemma sframes_copy_message: "sframes X user J (copy_message X message_id user_id folder_id)"
  unfolding copy_message_def
  by (intro sframes_quiet quiet_rules quiet_load_message_row quiet_chosen quiet_copy)

lemma sframes_patch_message:
  assumes "id_value (ax_store X) user_id = Inr user"
  shows "sframes X user J (patch_message X message_id user_id body)"
proof -
  have u: "sframes X user {i} (adb (update_message (ax_store X) i (\<lambda>_. True) (local_patch X r st ls)))" for i r st ls
    by (intro sframes_update) (simp add: local_patch_def Let_def split: option.split)
  show ?thesis
    unfolding patch_message_def Let_def label_patch_plan_def prod.case
    by (intro sframes_load [OF assms] sframes_bindE sframes_if sframes_quiet [OF quiet_server_patch]
        sframes_quiet [OF quiet_ret(1)] sframes_quiet [OF quiet_ret(2)] sframes_counts sframes_any [OF u]) simp_all
qed

text \<open>The candidates of the spam pass are rows of the user.\<close>

lemma by_date_set: "set (by_date_desc b k rows) = set rows" "set (by_date_asc b k rows) = set rows"
  by (auto simp: by_date_desc_def by_date_asc_def Let_def)

lemma folder_role_rows_Inr:
  assumes "folder_role_rows X user_id role limit only w = (Inr rows, w')" and "c \<in> set rows"
  obtains user m a f where "id_value (ax_store X) user_id = Inr user" "m \<in> set (dt_messages (aw_data w))"
    "a \<in> set (aw_accounts w)" "f \<in> set (dt_folders (aw_data w))" "ma_id a = m_account_id m" "f_id f = m_folder_id m"
    "ma_user_id a = user" "\<not> m_is_deleted m" "role_of f = Some role" "only \<longrightarrow> m_spam_verdict m = None"
    "c = spam_candidate X (m, a, f)"
proof -
  let ?all = "\<lambda>user. filter (\<lambda>r. in_role user role r \<and> (only \<longrightarrow> m_spam_verdict (fst r) = None)) (join_rows (aw_accounts w) (aw_data w))"
  from assms(1) obtain user where u: "id_value (ax_store X) user_id = Inr user"
    and rows: "rows = map (spam_candidate X) (take limit (by_date_desc (se_backend (ax_store X)) fst (?all user)))"
    unfolding folder_role_rows_def by (auto elim!: bindE_InrE dest!: aquery_Inr)
  from assms(2) obtain r where "c = spam_candidate X r" "r \<in> set (by_date_desc (se_backend (ax_store X)) fst (?all user))"
    unfolding rows by (auto dest: in_set_takeD)
  then show thesis using that u by (cases r) (auto simp: in_role_def join_rows_in by_date_set)
qed

lemma rows_reach:
  assumes "folder_role_rows X user_id role limit only w = (Inr rows, w')" and "c \<in> set rows"
    and "id_value (ax_store X) user_id = Inr user"
  shows "reaches X user (ca_id c) w"
proof -
  from assms obtain m a f where m: "m \<in> set (dt_messages (aw_data w))" "a \<in> set (aw_accounts w)" "ma_id a = m_account_id m"
    "ma_user_id a = user" "c = spam_candidate X (m, a, f)"
    by (auto elim!: folder_role_rows_Inr)
  then have "m_id m \<in> owned_ids user w" unfolding owned_ids_def by blast
  then show ?thesis using m by (auto simp: reaches_def good_ids_def spam_candidate_def)
qed

lemma sframes_rows:
  assumes "id_value (ax_store X) user_id = Inr user"
    and "\<And>rows. sframes X user (ca_id ` set rows) (f rows)"
  shows "sframes X user J (bindE (folder_role_rows X user_id role limit only) f)"
proof (rule sframes_gen_bindE)
  show "sframes X user J (folder_role_rows X user_id role limit only)"
    by (rule sframes_quiet) (rule quiet_folder_role_rows)
next
  fix rows w w'
  assume r: "folder_role_rows X user_id role limit only w = (Inr rows, w')"
  have "\<forall>i \<in> ca_id ` set rows. reaches X user i w'"
    using rows_reach [OF r _ assms(1)] quietD [OF quiet_folder_role_rows r] reaches_cong by blast
  then show "stays X user w' (snd (f rows w'))"
    using assms(2) by (simp add: sframes_def)
qed


lemma sframes_move_row:
  assumes "id_value (ax_store X) user_id = Inr user"
  shows "sframes X user J (move_row_to_role X user_id role i)"
  unfolding move_row_to_role_def
  by (intro sframes_load [OF assms] sframes_bindE sframes_quiet [OF quiet_role_folder] sframes_any [OF sframes_apply_move]) simp

lemma sframes_judge_row:
  assumes "id_value (ax_store X) user_id = Inr user"
  shows "sframes X user {ca_id row} (judge_row X user_id settings senders row)"
  unfolding judge_row_def move_row_to_spam_def
  by (intro sframes_option sframes_bindE sframes_if sframes_attempt sframes_verdict sframes_move_row [OF assms] sframes_quiet quiet_ret)

lemma sframes_judge_batch:
  assumes "id_value (ax_store X) user_id = Inr user"
  shows "sframes X user J (judge_inbox_batch X user_id settings senders)"
  unfolding judge_inbox_batch_def unjudged_rows_def
  by (intro sframes_rows [OF assms] sframes_each sframes_any [OF sframes_judge_row [OF assms]]) simp

lemma sframes_asked:
  assumes "\<And>x. sframes X user J (f x)"
  shows "sframes X user J (asked q f)"
  unfolding sframes_def
proof (intro allI impI)
  fix w
  assume J: "\<forall>i \<in> J. reaches X user i w"
  obtain x s where q: "q (aw_server w) = (x, s)" by force
  let ?w = "w\<lparr>aw_server := s\<rparr>"
  have "\<forall>i \<in> J. reaches X user i ?w" using J reaches_cong [of ?w w] by simp
  then have "stays X user ?w (snd (f x ?w))" using assms [of x] by (simp add: sframes_def)
  moreover have "stays X user w ?w" by (simp add: stays_same)
  ultimately show "stays X user w (snd (asked q f w))" using q stays_trans by (simp add: asked_def) blast
qed

lemma sframes_ai_row:
  assumes "id_value (ax_store X) user_id = Inr user"
  shows "sframes X user {ca_id row} (ai_judge_row X user_id row)"
  unfolding ai_judge_row_def ai_file_row_def move_row_to_spam_def
  by (intro sframes_option sframes_asked sframes_if sframes_attempt sframes_bindE sframes_verdict sframes_move_row [OF assms]
      sframes_quiet quiet_ret)

lemma sframes_ai_pass:
  assumes "id_value (ax_store X) user_id = Inr user"
  shows "sframes X user J (ai_spam_auto_pass X user_id)"
  unfolding ai_spam_auto_pass_def unjudged_rows_def
  by (intro sframes_asked sframes_if sframes_attempt sframes_rows [OF assms] sframes_each sframes_any [OF sframes_ai_row [OF assms]]
      sframes_quiet [OF quiet_ret(1)]) simp

lemma sframes_purge:
  assumes "id_value (ax_store X) user_id = Inr user"
  shows "sframes X user J (purge_old_spam X user_id)"
proof -
  have d: "sframes X user J (destroy_row_server_side X user_id i)" for i
    unfolding destroy_row_server_side_def
    by (intro sframes_load [OF assms] sframes_bindE sframes_if sframes_quiet [OF quiet_halves(1)] sframes_quiet [OF quiet_halves(2)]
        sframes_quiet [OF quiet_ret(2)] sframes_quiet [OF quiet_ret(3)] sframes_any [OF sframes_soft_delete]) simp
  have q: "quiet (spam_folder_rows X user_id)"
    unfolding spam_folder_rows_def by (intro quiet_rules)
  show ?thesis
    unfolding purge_old_spam_def Let_def
    by (intro sframes_bindE sframes_each sframes_if sframes_attempt sframes_quiet [OF quiet_ret(1)] sframes_quiet [OF q] d)
qed

lemma sframes_spam_pass:
  assumes "id_value (ax_store X) user_id = Inr user"
  shows "sframes X user J (spam_pass_inner X user_id)"
  unfolding spam_pass_inner_def
  by (intro sframes_bindE sframes_if sframes_ai_pass [OF assms] sframes_judge_batch [OF assms] sframes_purge [OF assms]
      sframes_quiet [OF quiet_ret(1)] sframes_quiet [OF quiet_map_errE] quiet_aspam mail_spam_ops)

lemma sframes_rejudge_row:
  assumes "id_value (ax_store X) user_id = Inr user"
  shows "sframes X user {i} (rejudge_row X user_id list i)"
  unfolding rejudge_row_def move_row_to_spam_def move_row_to_inbox_def
  by (cases list) (auto intro!: sframes_attempt sframes_bindE sframes_verdict sframes_move_row [OF assms])

lemma rejudge_ids_sub: "set (rejudge_ids lower rows email list) \<subseteq> ca_id ` set rows"
  by (auto simp: rejudge_ids_def dest: in_set_takeD)

lemma stays_list_change:
  assumes "id_value (ax_store X) user_id = Inr user"
  shows "stays X user w (apply_sender_list_change X user_id email list w)"
proof -
  have "sframes X user {} (bindE (folder_role_rows X user_id role REJUDGE_SCAN_LIMIT False) (\<lambda>rows.
      each (rejudge_row X user_id list) (rejudge_ids (sx_lower (ax_spam X)) rows email list)))" for role
    using rejudge_ids_sub
    by (intro sframes_rows [OF assms] sframes_each sframes_any [OF sframes_rejudge_row [OF assms]]) blast
  then show ?thesis by (simp add: sframes_def apply_sender_list_change_def Let_def)
qed

section \<open>Isolation\<close>

text \<open>Everything that happens on behalf of a user: his requests, the pass over his mail and the tasks they spawned.\<close>

inductive user_step :: "'s ActEnv \<Rightarrow> string \<Rightarrow> 's ActWorld \<Rightarrow> 's ActWorld \<Rightarrow> bool" for X user_id where
  patch: "user_step X user_id w (snd (patch_message X message_id user_id body w))"
| trash: "user_step X user_id w (snd (trash_message X message_id user_id w))"
| archive: "user_step X user_id w (snd (archive_message X message_id user_id w))"
| spam: "user_step X user_id w (snd (spam_message X message_id user_id w))"
| not_spam: "user_step X user_id w (snd (not_spam_message X message_id user_id w))"
| move: "user_step X user_id w (snd (move_message X message_id user_id folder_id w))"
| copy: "user_step X user_id w (snd (copy_message X message_id user_id folder_id w))"
| pass: "user_step X user_id w (spam_pass X user_id w)"
| task: "tk_user_id t = user_id \<Longrightarrow> user_step X user_id w (run_task X t w)"

lemma user_step_stays:
  assumes "user_step X user_id w w'" and user: "id_value (ax_store X) user_id = Inr user"
  shows "stays X user w w'"
  using assms(1)
proof cases
  case (task t)
  then show ?thesis
    using stays_trans [OF stays_same stays_list_change [OF user]] by (simp add: run_task_def)
qed (use sframes_patch_message [OF user, of "{}"] sframes_move_to_role [OF user, of "{}"] sframes_spam_message [OF user, of "{}"]
       sframes_not_spam [OF user, of "{}"] sframes_move_message [OF user, of "{}"] sframes_copy_message [of X user "{}"]
       sframes_spam_pass [OF user, of "{}"]
     in \<open>simp_all add: sframes_def trash_message_def archive_message_def spam_pass_def\<close>)

text \<open>C3: Whatever a user's requests, the spam pass over his mail and the re-judging of his senders do, in any
  order and however often the mail servers and the database fail, a message of an account that is not his stays
  exactly as it is.\<close>

theorem actions_stay_with_owner:
  assumes "(user_step X user_id)\<^sup>*\<^sup>* w w'" and "id_value (ax_store X) user_id = Inr user"
    and "good_ids (ax_store X) (aw_data w)" and "m \<in> set (dt_messages (aw_data w))"
    and "\<forall>a \<in> set (aw_accounts w). ma_id a = m_account_id m \<longrightarrow> ma_user_id a \<noteq> user"
  shows "m \<in> set (dt_messages (aw_data w'))"
proof -
  have "stays X user w w'"
    using assms(1)
  proof (induction rule: rtranclp_induct)
    case base
    show ?case by (simp add: stays_same)
  next
    case (step y z)
    then show ?case using user_step_stays assms(2) stays_trans by blast
  qed
  then have t: "touches (owned_ids user w) same_account w w'" using staysD(3) assms(3) by blast
  have "m_id m \<notin> owned_ids user w"
  proof
    assume "m_id m \<in> owned_ids user w"
    then obtain n a where n: "n \<in> set (dt_messages (aw_data w))" "m_id n = m_id m" "a \<in> set (aw_accounts w)"
      "ma_id a = m_account_id n" "ma_user_id a = user"
      by (auto simp: owned_ids_def)
    then have "n = m" using assms(3,4) by (auto simp: good_ids_def dest: eq_key_imp_eq_value inj_onD distinct_map [THEN iffD1])
    with n assms(5) show False by simp
  qed
  obtain i where "i < length (dt_messages (aw_data w))" "dt_messages (aw_data w) ! i = m"
    using assms(4) by (auto simp: in_set_conv_nth)
  with t \<open>m_id m \<notin> owned_ids user w\<close> have "i < length (dt_messages (aw_data w'))" "dt_messages (aw_data w') ! i = m"
    by (auto simp: touches_def list_all2_conv_all_nth)
  then show ?thesis by (metis nth_mem)
qed

section \<open>Actions the server refuses\<close>

text \<open>The errors that do not come from the tables and the bind of an id: a server, a connection, a credential, a
  message or account that is not there.\<close>

fun not_local :: "SyncError \<Rightarrow> bool" where
  "not_local (DatabaseErr e) = False"
| "not_local (InvalidInput e) = False"
| "not_local _ = True"

definition local_errs :: "('w, SyncError, 'a) eff \<Rightarrow> bool" where
  "local_errs m \<longleftrightarrow> (\<forall>w e w'. m w = (Inl e, w') \<longrightarrow> \<not> not_local e)"

lemma local_errs_ret: "local_errs (okE x)" "local_errs (Pair (Inr x))"
  by (simp_all add: local_errs_def)

lemma local_errs_id: "local_errs (ofE (id_value E i))"
  by (auto simp: local_errs_def id_value_def split: DbBackend.splits option.splits)

lemma bindE_InlD:
  "bindE m f w = (Inl e, w') \<Longrightarrow> m w = (Inl e, w') \<or> (\<exists>x w1. m w = (Inr x, w1) \<and> f x w1 = (Inl e, w'))"
  by (auto simp: bindE_def split: prod.splits sum.splits)

lemma local_errs_bindE: "local_errs m \<Longrightarrow> (\<And>x. local_errs (f x)) \<Longrightarrow> local_errs (bindE m f)"
  unfolding local_errs_def by (blast dest: bindE_InlD)

lemma local_errs_stmt: "(\<And>now d e d'. f now d = (Inl e, d') \<Longrightarrow> \<not> not_local e) \<Longrightarrow> local_errs (stmt f)"
  by (auto simp: local_errs_def elim!: stmt_cases)

lemma local_errs_query: "local_errs (query q)"
  unfolding query_def by (rule local_errs_stmt) simp

lemma local_errs_modify: "local_errs (modify f)"
  unfolding modify_def by (rule local_errs_stmt) simp

lemma local_errs_in_tx:
  assumes "local_errs m"
  shows "local_errs (in_tx m)"
proof -
  have b: "local_errs (bindE m (\<lambda>x. bindE (query (\<lambda>_. ())) (\<lambda>_. okE x)))"
    by (intro local_errs_bindE assms local_errs_query local_errs_ret)
  show ?thesis
    unfolding in_tx_def
    by (intro local_errs_bindE local_errs_query)
       (use b in \<open>auto simp: local_errs_def split: prod.splits sum.splits\<close>)
qed

lemma local_errs_adb: "local_errs m \<Longrightarrow> local_errs (adb m)"
  by (auto simp: local_errs_def adb_def split: prod.splits)

lemma local_errs_counts: "local_errs (update_folder_counts E folder_id)"
  unfolding update_folder_counts_def update_folder_counts_in_tx_def folder_count_def update_folders_def
  by (intro local_errs_in_tx local_errs_bindE local_errs_id local_errs_modify local_errs_stmt) auto

lemma local_errs_update: "local_errs (update_message E i P g)"
  unfolding update_message_def by (intro local_errs_bindE local_errs_id local_errs_modify)

lemmas local_errs_rules = local_errs_ret local_errs_id local_errs_bindE local_errs_adb local_errs_query
  local_errs_counts local_errs_update

text \<open>A computation that changes no mail when it ends in such an error.\<close>

definition all_or_local :: "('s ActWorld, SyncError, 'a) eff \<Rightarrow> bool" where
  "all_or_local m \<longleftrightarrow> (\<forall>w e w'. m w = (Inl e, w') \<longrightarrow> not_local e \<longrightarrow> aw_data w' = aw_data w)"

lemma all_or_local_quiet: "quiet m \<Longrightarrow> all_or_local m"
  by (auto simp: all_or_local_def dest: quietD)

lemma all_or_local_errs: "local_errs m \<Longrightarrow> all_or_local m"
  by (auto simp: all_or_local_def local_errs_def)

lemma all_or_local_quiet_bindE: "quiet m \<Longrightarrow> (\<And>x. all_or_local (f x)) \<Longrightarrow> all_or_local (bindE m f)"
  unfolding all_or_local_def by (auto dest!: bindE_InlD dest: quietD)

lemma all_or_local_bindE: "all_or_local m \<Longrightarrow> (\<And>x. local_errs (f x)) \<Longrightarrow> all_or_local (bindE m f)"
  unfolding all_or_local_def local_errs_def by (blast dest: bindE_InlD)

lemma all_or_local_if: "all_or_local m \<Longrightarrow> all_or_local n \<Longrightarrow> all_or_local (if b then m else n)"
  by simp

lemma all_or_local_option: "all_or_local m \<Longrightarrow> (\<And>x. all_or_local (f x)) \<Longrightarrow> all_or_local (case z of None \<Rightarrow> m | Some x \<Rightarrow> f x)"
  by (cases z) auto

lemma all_or_local_apply_move: "all_or_local (apply_message_move X user_id row dest_id ext dest)"
  unfolding apply_message_move_def relocate_def
  by (intro all_or_local_quiet_bindE quiet_server_move all_or_local_errs local_errs_rules)

lemma all_or_local_user_move: "all_or_local (apply_user_move X user_id row dest_id ext dest role)"
  unfolding apply_user_move_def
  by (intro all_or_local_quiet_bindE quiet_if quiet_learned_from quiet_ret all_or_local_apply_move)

lemma all_or_local_move_to_role: "all_or_local (move_message_to_role X message_id user_id role)"
  unfolding move_message_to_role_def soft_delete_def
  by (intro all_or_local_quiet_bindE quiet_load_message_row quiet_find_role_folder all_or_local_option
      all_or_local_bindE all_or_local_user_move all_or_local_errs local_errs_rules)

lemma all_or_local_move_message: "all_or_local (move_message X message_id user_id folder_id)"
  unfolding move_message_def
  by (intro all_or_local_quiet_bindE quiet_load_message_row quiet_chosen quiet_query quiet_ret all_or_local_if
      all_or_local_bindE [OF all_or_local_user_move] all_or_local_quiet [OF quiet_ret(1)] all_or_local_quiet [OF quiet_ret(2)] local_errs_ret)

lemma all_or_local_patch: "all_or_local (patch_message X message_id user_id body)"
  unfolding patch_message_def Let_def label_patch_plan_def prod.case
  by (intro all_or_local_quiet_bindE quiet_load_message_row quiet_server_patch all_or_local_if
      all_or_local_quiet [OF quiet_ret(2)] all_or_local_errs [OF local_errs_bindE] local_errs_rules)

lemma all_or_local_copy: "all_or_local (copy_message X message_id user_id folder_id)"
  unfolding copy_message_def
  by (intro all_or_local_quiet quiet_rules quiet_load_message_row quiet_chosen quiet_copy)

lemma all_or_local_spam: "all_or_local (spam_message X message_id user_id)"
proof -
  have s: "local_errs (bindE (set_spam_verdict X message_id ''blocked'') (\<lambda>_. bindE (learned_from X user_id z True) (\<lambda>_. okE res)))" for z res
    unfolding set_spam_verdict_def
    by (intro local_errs_rules) (auto simp: local_errs_def learned_from_def split: option.splits)
  have "aw_data w' = aw_data w" if "spam_message X message_id user_id w = (Inl e, w')" "not_local e" for w e w'
  proof -
    obtain loaded w1 where l: "load_message_row X user_id message_id w = (loaded, w1)" by force
    then have "aw_data w1 = aw_data w" using quietD [OF quiet_load_message_row] by blast
    with that l all_or_local_bindE [OF all_or_local_move_to_role s] show ?thesis
      by (fastforce simp: spam_message_def all_or_local_def)
  qed
  then show ?thesis by (simp add: all_or_local_def)
qed

text \<open>The requests a user sends for one message.\<close>

datatype MessageAction =
  Patch PatchMessageRequest | Trash | Archive | Spam | MoveTo string | CopyTo string

fun perform :: "'s ActEnv \<Rightarrow> string \<Rightarrow> string \<Rightarrow> MessageAction \<Rightarrow> ('s ActWorld, SyncError, unit) eff" where
  "perform X message_id user_id (Patch body) = bindE (patch_message X message_id user_id body) (\<lambda>_. okE ())"
| "perform X message_id user_id Trash = bindE (trash_message X message_id user_id) (\<lambda>_. okE ())"
| "perform X message_id user_id Archive = bindE (archive_message X message_id user_id) (\<lambda>_. okE ())"
| "perform X message_id user_id Spam = bindE (spam_message X message_id user_id) (\<lambda>_. okE ())"
| "perform X message_id user_id (MoveTo folder_id) = bindE (move_message X message_id user_id folder_id) (\<lambda>_. okE ())"
| "perform X message_id user_id (CopyTo folder_id) = bindE (copy_message X message_id user_id folder_id) (\<lambda>_. okE ())"


section \<open>A small world\<close>

definition demo_act_store :: StoreEnv where
  "demo_act_store = \<lparr>se_backend = Sqlite, se_uuid_parse = Some, se_utf7 = id, se_json_parse = (\<lambda>s. Some (JString s)),
     se_json_show = demo_lines, se_date = Some, se_clean_html = id\<rparr>"

definition demo_act_jmap :: "demo_state JmapServer" where
  "demo_act_jmap = \<lparr>js_connect_with = (\<lambda>u c. okE ()), js_refresh = okE (), js_max_calls = (\<lambda>_. None),
     js_mailboxes = okE [], js_query = (\<lambda>b pos n. okE ([], [])), js_get = (\<lambda>ids. okE ([], [])),
     js_query_and_get = (\<lambda>b pos n. okE (([], []), [], [])), js_query_changes = (\<lambda>b since n. okE ([], [], [])),
     js_changes = (\<lambda>since n. okE \<lparr>ca_updated = [], ca_destroyed = [], ca_new_state = [], ca_more = False\<rparr>),
     js_download = (\<lambda>b. okE []), js_hash_order = id\<rparr>"

text \<open>\<open>refuses\<close>: the IMAP server does not let the folder be selected.\<close>

definition demo_act_env :: "bool \<Rightarrow> demo_state ActEnv" where
  "demo_act_env refuses = \<lparr>ax_spam = \<lparr>sx_store = demo_act_store, sx_lower = to_ascii_lowercase\<rparr>,
     ax_imap = (if refuses then demo_server\<lparr>sv_select := (\<lambda>f s. (Failed ''NO'', s))\<rparr> else demo_server),
     ax_jmap = demo_act_jmap, ax_credential = (\<lambda>u a. okE (''dek'', ''cred'')),
     ax_secret = (\<lambda>a t c d h. okE (''pw'', False)), ax_password = (\<lambda>c d. Inr ''pw''), ax_account_id = (\<lambda>_. ''A''),
     ax_post = (\<lambda>b. okE JNull), ax_set_mailboxes = (\<lambda>e ms. okE ()), ax_destroy = (\<lambda>e. okE ()),
     ax_ai = (\<lambda>u s. (False, s)), ax_ai_judge = (\<lambda>a b c s. (None, s)), ax_rfc3339 = (\<lambda>_. None), ax_now = 0\<rparr>"

definition demo_account :: "string \<Rightarrow> string \<Rightarrow> MailAccountRow" where
  "demo_account i u = \<lparr>ma_id = i, ma_user_id = u, ma_protocol = ''imap'', ma_is_active = True, ma_imap_host = Some ''h'',
     ma_imap_port = None, ma_imap_security = None, ma_email_address = ''e'', ma_auth_type = ''password'', ma_jmap_base_url = None\<rparr>"

definition demo_folder :: "string \<Rightarrow> string \<Rightarrow> string \<Rightarrow> FolderRow" where
  "demo_folder i a role = fresh_folder i a role role (Some role) None []"

definition demo_stored :: "string \<Rightarrow> string \<Rightarrow> string \<Rightarrow> string option \<Rightarrow> StoredMessage" where
  "demo_stored i a f v = (hd (dt_messages (md_data demo_inbox)))\<lparr>m_id := i, m_account_id := a, m_folder_id := f,
     m_external_id := Some (f @ '':7''), m_from := Some ''x@b.c'', m_spam_verdict := v\<rparr>"

text \<open>Two users: \<open>u\<close> has new mail from a sender he blocked and an old one the engine filed, \<open>v\<close> has mail too.\<close>

definition demo_act_world :: "demo_state ActWorld" where
  "demo_act_world = \<lparr>aw_spam = \<lparr>sd_db = demo_db\<lparr>md_data := \<lparr>dt_accounts = [''acc'', ''other''],
         dt_folders = [demo_folder ''in'' ''acc'' ''inbox'', demo_folder ''sp'' ''acc'' ''spam'', demo_folder ''oi'' ''other'' ''inbox''],
         dt_messages = [demo_stored ''m1'' ''acc'' ''in'' None, demo_stored ''m2'' ''acc'' ''sp'' (Some ''spam''),
           demo_stored ''m3'' ''other'' ''oi'' None], dt_cursors = []\<rparr>\<rparr>,
       sd_users = [''u'', ''v''],
       sd_settings = [\<lparr>sr_user_id = ''u'', sr_enabled = True, sr_learn = True, sr_auto_delete = True, sr_sensitivity = ''standard''\<rparr>],
       sd_senders = [\<lparr>sn_id = ''1'', sn_user_id = ''u'', sn_list = ''blocked'', sn_email = ''b.c''\<rparr>], sd_tasks = []\<rparr>,
     aw_accounts = [demo_account ''acc'' ''u'', demo_account ''other'' ''v''], aw_sessions = [], aw_server = [(7, False)]\<rparr>"

lemma demo_good_ids: "good_ids (ax_store (demo_act_env b)) (aw_data demo_act_world)"
  by (simp add: good_ids_def demo_act_world_def demo_act_env_def demo_act_store_def id_value_def demo_stored_def)

lemma demo_user: "id_value (ax_store (demo_act_env b)) u = Inr u"
  by (simp add: id_value_def demo_act_env_def demo_act_store_def)

theorem actions_stay_with_owner_witness:
  "demo_stored ''m3'' ''other'' ''oi'' None \<in> set (dt_messages (aw_data (spam_pass (demo_act_env False) ''u''
     (snd (spam_message (demo_act_env False) ''m3'' ''u'' demo_act_world)))))"
proof (rule actions_stay_with_owner [where user = "''u''"])
  show "(user_step (demo_act_env False) ''u'')\<^sup>*\<^sup>* demo_act_world
      (spam_pass (demo_act_env False) ''u'' (snd (spam_message (demo_act_env False) ''m3'' ''u'' demo_act_world)))"
    by (meson rtranclp.intros user_step.spam user_step.pass)
  show "id_value (ax_store (demo_act_env False)) ''u'' = Inr ''u''" by (rule demo_user)
  show "good_ids (ax_store (demo_act_env False)) (aw_data demo_act_world)"
    by (rule demo_good_ids)
qed (simp_all add: demo_act_world_def demo_account_def demo_stored_def)

lemma demo_refused:
  "fst (perform (demo_act_env True) ''m1'' ''u'' Spam demo_act_world) = Inl (ImapErr (ImapImap ''NO''))"
  by code_simp


end
