(* ===== verification/Lyra_SpamPass.thy ===== *)
theory Lyra_SpamPass
  imports Lyra_ActionLaws
begin

text \<open>
  What the spam pass and the re-judging of a sender promise: which rows they may touch and what they may do to them,
  whatever the servers, the model and the database answer.
\<close>

section \<open>Moving one row\<close>

text \<open>The ids a move of a message of the account to the role can write.\<close>

definition role_targets :: "'s ActEnv \<Rightarrow> string \<Rightarrow> string \<Rightarrow> 's ActWorld \<Rightarrow> string set" where
  "role_targets X role account_id w = {d. \<exists>f \<in> set (dt_folders (aw_data w)). role_of f = Some role
     \<and> id_value (ax_store X) account_id = Inr (f_account_id f) \<and> id_value (ax_store X) (f_id f) = Inr d}"

definition moved_to :: "string set \<Rightarrow> StoredMessage \<Rightarrow> StoredMessage \<Rightarrow> bool" where
  "moved_to D m m' \<longleftrightarrow> (\<exists>d \<in> D. \<exists>t. m' = m\<lparr>m_folder_id := d, m_updated_at := t\<rparr>)"

interpretation moved: touch_frame "moved_to D" for D
proof (unfold_locales, rule transpI)
  fix x y z
  assume "moved_to D x y" "moved_to D y z"
  then obtain d e s t where "e \<in> D" "y = x\<lparr>m_folder_id := d, m_updated_at := s\<rparr>" "z = y\<lparr>m_folder_id := e, m_updated_at := t\<rparr>"
    by (auto simp: moved_to_def)
  then have "z = x\<lparr>m_folder_id := e, m_updated_at := t\<rparr>" "e \<in> D" by simp_all
  then show "moved_to D x z" unfolding moved_to_def by blast
qed

lemma role_folder_targets:
  assumes "role_folder_for_account X account_id role w = (Inr dest, w')"
  shows "\<forall>d. id_value (ax_store X) (rf_id dest) = Inr d \<longrightarrow> d \<in> role_targets X role account_id w"
proof -
  from assms obtain a f fs where "id_value (ax_store X) account_id = Inr a"
    and s: "sort_key f_sort_order (filter (\<lambda>f. f_account_id f = a \<and> role_of f = Some role) (dt_folders (aw_data w))) = f # fs"
    and "dest = role_folder f"
    unfolding role_folder_for_account_def find_role_folder_def
    by (auto elim!: bindE_InrE simp: adb_def split: prod.splits option.splits list.splits dest!: query_Inr)
  moreover have "f \<in> set (filter (\<lambda>f. f_account_id f = a \<and> role_of f = Some role) (dt_folders (aw_data w)))"
    using arg_cong [OF s, of set] by auto
  ultimately show ?thesis by (auto simp: role_targets_def role_folder_def)
qed

lemma good_unique: "good_ids E d \<Longrightarrow> m \<in> set (dt_messages d) \<Longrightarrow> n \<in> set (dt_messages d) \<Longrightarrow> m_id m = m_id n \<Longrightarrow> m = n"
  by (auto simp: good_ids_def distinct_map dest: inj_onD)

lemma relocate_tframes:
  assumes "\<And>d. id_value (ax_store X) dest_id = Inr d \<Longrightarrow> d \<in> D" and "\<And>j. id_value (ax_store X) i = Inr j \<Longrightarrow> j \<in> I"
  shows "tframes I (moved_to D) (relocate X i dest_id)"
proof (cases "id_value (ax_store X) dest_id")
  case (Inl e)
  then show ?thesis by (intro moved.tframes_quiet) (simp add: quiet_def relocate_def bindE_def)
next
  case (Inr d)
  have "tframes I (moved_to D) (adb (update_message (ax_store X) i (\<lambda>_. True) (\<lambda>m. m\<lparr>m_folder_id := d\<rparr>)))"
    using assms Inr by (intro moved.tframes_update) (auto simp: moved_to_def)
  then show ?thesis using Inr by (simp add: relocate_def bindE_def tframes_def)
qed

lemma apply_move_tframes:
  assumes "\<And>d. id_value (ax_store X) dest_id = Inr d \<Longrightarrow> d \<in> D" and "\<And>j. id_value (ax_store X) (mr_id row) = Inr j \<Longrightarrow> j \<in> I"
  shows "tframes I (moved_to D) (apply_message_move X user_id row dest_id ext dest)"
  unfolding apply_message_move_def
  by (intro moved.tframes_bindE moved.tframes_quiet quiet_server_move relocate_tframes assms moved.tframes_counts)

lemma apply_move_Inr:
  assumes "apply_message_move X user_id row dest_id ext dest w = (Inr u, w')"
  obtains d j t where "id_value (ax_store X) dest_id = Inr d" "id_value (ax_store X) (mr_id row) = Inr j"
    "dt_messages (aw_data w') = map (\<lambda>m. if m_id m = j then m\<lparr>m_folder_id := d, m_updated_at := t\<rparr> else m) (dt_messages (aw_data w))"
proof -
  from assms obtain w1 w2 w3 u1 u2 u3 where
    s: "server_move X user_id row ext dest w = (Inr u1, w1)" "relocate X (mr_id row) dest_id w1 = (Inr u2, w2)"
      "adb (update_folder_counts (ax_store X) (mr_folder_id row)) w2 = (Inr u3, w3)"
      "adb (update_folder_counts (ax_store X) dest_id) w3 = (Inr u, w')"
    unfolding apply_message_move_def by (elim bindE_InrE)
  have 1: "dt_messages (aw_data w3) = dt_messages (aw_data w2)" "dt_messages (aw_data w') = dt_messages (aw_data w3)"
    using adb_frames [OF counts_update_folder_counts [of "ax_store X" "mr_folder_id row"], where w = w2]
      adb_frames [OF counts_update_folder_counts [of "ax_store X" dest_id], where w = w3] s
    by (auto simp: counts_only_def)
  have 2: "aw_data w1 = aw_data w" using quietD [OF quiet_server_move s(1)] by simp
  from s(2) obtain d j where 3: "id_value (ax_store X) dest_id = Inr d" "id_value (ax_store X) (mr_id row) = Inr j"
    "dt_messages (aw_data w2) = map (\<lambda>m. if m_id m = j then m\<lparr>m_folder_id := d, m_updated_at := md_now (aw_db w1)\<rparr> else m) (dt_messages (aw_data w1))"
    unfolding relocate_def update_message_def
    by (auto elim!: bindE_InrE simp: adb_def split: prod.splits dest!: modify_Inr)
  show thesis by (rule that [of d j "md_now (aw_db w1)"]) (simp_all add: 1 2 3)
qed

lemma move_row_touches:
  assumes "good_ids (ax_store X) (aw_data w)" and "m \<in> set (dt_messages (aw_data w))"
  shows "touches {m_id m} (moved_to (role_targets X role (m_account_id m) w)) w (snd (move_row_to_role X user_id role (m_id m) w))"
proof (cases "load_message_row X user_id (m_id m) w")
  case (Pair l w1)
  have w1: "aw_data w1 = aw_data w" "aw_accounts w1 = aw_accounts w"
    using quietD [OF quiet_load_message_row Pair] by simp_all
  show ?thesis
  proof (cases l)
    case (Inl e)
    with Pair w1 show ?thesis by (simp add: move_row_to_role_def touches_same)
  next
    case (Inr row)
    with Pair obtain n a f where n: "n \<in> set (dt_messages (aw_data w))" "id_value (ax_store X) (m_id m) = Inr (m_id n)"
      "message_row (n, a, f) = Inr row"
      by (auto elim!: load_message_row_Inr)
    then have "n = m" using assms good_unique by (auto simp: good_ids_def)
    with n row_fields [OF n(3)] have row: "mr_id row = m_id m" "mr_account_id row = m_account_id m" by simp_all
    let ?D = "role_targets X role (m_account_id m) w"
    let ?rest = "bindE (role_folder_for_account X (mr_account_id row) role)
      (\<lambda>dest. apply_message_move X user_id row (rf_id dest) (rf_external_id dest) (dest_name dest))"
    have "touches {m_id m} (moved_to ?D) w1 (snd (?rest w1))"
    proof (cases "role_folder_for_account X (mr_account_id row) role w1")
      case (Pair r w2)
      have w2: "aw_data w2 = aw_data w1" "aw_accounts w2 = aw_accounts w1"
        using quietD [OF quiet_role_folder Pair] by simp_all
      show ?thesis
      proof (cases r)
        case (Inl e)
        with Pair w2 show ?thesis by (simp add: touches_same)
      next
        case (Inr dest)
        with Pair have "\<forall>d. id_value (ax_store X) (rf_id dest) = Inr d \<longrightarrow> d \<in> role_targets X role (mr_account_id row) w1"
          by (intro role_folder_targets) simp
        then have "tframes {m_id m} (moved_to ?D) (apply_message_move X user_id row (rf_id dest) (rf_external_id dest) (dest_name dest))"
          using assms row w1 by (intro apply_move_tframes) (auto simp: good_ids_def role_targets_def)
        then show ?thesis
          using touches_trans [OF moved.G_trans touches_same [OF w2]] Pair Inr by (simp add: tframes_def)
      qed
    qed
    then show ?thesis
      using touches_trans [OF moved.G_trans touches_same [OF w1]] Pair Inr by (simp add: move_row_to_role_def)
  qed
qed

lemma move_row_Inr:
  assumes "move_row_to_role X user_id role (m_id m) w = (Inr u, w')"
    and "good_ids (ax_store X) (aw_data w)" and "m \<in> set (dt_messages (aw_data w))"
  obtains d t where "d \<in> role_targets X role (m_account_id m) w"
    "dt_messages (aw_data w') = map (\<lambda>n. if m_id n = m_id m then n\<lparr>m_folder_id := d, m_updated_at := t\<rparr> else n) (dt_messages (aw_data w))"
proof -
  from assms(1) obtain row w1 dest w2 where l: "load_message_row X user_id (m_id m) w = (Inr row, w1)"
    and r: "role_folder_for_account X (mr_account_id row) role w1 = (Inr dest, w2)"
    and a: "apply_message_move X user_id row (rf_id dest) (rf_external_id dest) (dest_name dest) w2 = (Inr u, w')"
    unfolding move_row_to_role_def by (elim bindE_InrE)
  from l obtain n b f where n: "n \<in> set (dt_messages (aw_data w))" "id_value (ax_store X) (m_id m) = Inr (m_id n)"
    "message_row (n, b, f) = Inr row" "aw_data w1 = aw_data w"
    by (auto elim!: load_message_row_Inr)
  then have "n = m" using assms good_unique by (auto simp: good_ids_def)
  with n row_fields [OF n(3)] have row: "mr_id row = m_id m" "mr_account_id row = m_account_id m" by simp_all
  have w2: "aw_data w2 = aw_data w" using quietD [OF quiet_role_folder r] n by simp
  have "\<forall>d. id_value (ax_store X) (rf_id dest) = Inr d \<longrightarrow> d \<in> role_targets X role (m_account_id m) w"
    using role_folder_targets [OF r] row n by (simp add: role_targets_def)
  moreover have "id_value (ax_store X) (m_id m) = Inr (m_id m)" using assms by (simp add: good_ids_def)
  ultimately show thesis
    using a
  proof (elim apply_move_Inr)
    fix d j t
    assume "\<forall>d. id_value (ax_store X) (rf_id dest) = Inr d \<longrightarrow> d \<in> role_targets X role (m_account_id m) w"
      "id_value (ax_store X) (m_id m) = Inr (m_id m)" "id_value (ax_store X) (rf_id dest) = Inr d"
      "id_value (ax_store X) (mr_id row) = Inr j"
      "dt_messages (aw_data w') = map (\<lambda>m. if m_id m = j then m\<lparr>m_folder_id := d, m_updated_at := t\<rparr> else m) (dt_messages (aw_data w2))"
    then show thesis using that [of d t] row w2 by simp
  qed
qed

section \<open>Working through candidates\<close>

lemma touches_mono: "touches I G w w' \<Longrightarrow> I \<subseteq> J \<Longrightarrow> touches J G w w'"
  unfolding touches_def by (auto elim!: list.rel_mono_strong)

lemma touches_nth:
  "touches I G w w' \<longleftrightarrow> aw_accounts w' = aw_accounts w
     \<and> map folder_key (dt_folders (aw_data w')) = map folder_key (dt_folders (aw_data w))
     \<and> length (dt_messages (aw_data w')) = length (dt_messages (aw_data w))
     \<and> (\<forall>k < length (dt_messages (aw_data w)).
          let m = dt_messages (aw_data w) ! k; m' = dt_messages (aw_data w') ! k
          in m' = m \<or> (m_id m \<in> I \<and> m_id m' = m_id m \<and> G m m'))"
  by (auto simp: touches_def list_all2_conv_all_nth Let_def)

lemma touches_disjoint:
  assumes "touches I G w w1" and "touches J G w1 w2" and "I \<inter> J = {}"
  shows "touches (I \<union> J) G w w2"
  using assms unfolding touches_nth Let_def by auto (metis disjoint_iff)+

lemma touches_ids: "touches I G w w' \<Longrightarrow> map m_id (dt_messages (aw_data w')) = map m_id (dt_messages (aw_data w))"
  by (rule nth_equalityI) (auto simp: touches_nth Let_def)

lemma touches_good:
  assumes "touches I G w w'"
  shows "good_ids E (aw_data w') = good_ids E (aw_data w)"
  by (simp only: good_ids_map touches_ids [OF assms])

text \<open>Targets depend on the keys of the folders only.\<close>

lemma folder_key_set:
  assumes "map folder_key (dt_folders d') = map folder_key (dt_folders d)"
  shows "(\<exists>f \<in> set (dt_folders d'). P (folder_key f)) \<longleftrightarrow> (\<exists>f \<in> set (dt_folders d). P (folder_key f))"
proof -
  have "folder_key ` set (dt_folders d') = folder_key ` set (dt_folders d)" using assms by (metis list.set_map)
  then show ?thesis by (metis (mono_tags, lifting) imageE imageI)
qed

lemma folder_key_fields [simp]:
  "f_id (folder_key f) = f_id f" "f_account_id (folder_key f) = f_account_id f" "role_of (folder_key f) = role_of f"
  by (simp_all add: folder_key_def role_of_def)

lemma role_targets_cong:
  assumes "map folder_key (dt_folders (aw_data w')) = map folder_key (dt_folders (aw_data w))"
  shows "role_targets X role a w' = role_targets X role a w"
  using folder_key_set [OF assms, of "\<lambda>f. role_of f = Some role
      \<and> id_value (ax_store X) a = Inr (f_account_id f) \<and> id_value (ax_store X) (f_id f) = Inr d" for d]
  by (simp add: role_targets_def)

text \<open>A state like \<open>w0\<close> as far as ids and folders go.\<close>

definition like_start :: "'s ActEnv \<Rightarrow> 's ActWorld \<Rightarrow> 's ActWorld \<Rightarrow> bool" where
  "like_start X w0 w \<longleftrightarrow> good_ids (ax_store X) (aw_data w)
     \<and> map folder_key (dt_folders (aw_data w)) = map folder_key (dt_folders (aw_data w0))"

lemma like_start_touches: "like_start X w0 w \<Longrightarrow> touches I G w w' \<Longrightarrow> like_start X w0 w'"
  using touches_good [of I G w w'] by (simp add: like_start_def touches_def)

text \<open>A loop over candidates whose rounds touch their own row only.\<close>

lemma each_touches:
  assumes "\<And>x w. x \<in> set xs \<Longrightarrow> like_start X w0 w \<Longrightarrow> k x \<in> m_id ` set (dt_messages (aw_data w)) \<Longrightarrow> touches {k x} G w (snd (f x w))"
    and "distinct (map k xs)" and "like_start X w0 w" and "k ` set xs \<subseteq> m_id ` set (dt_messages (aw_data w))"
  shows "touches (k ` set xs) G w (snd (each f xs w))"
  using assms
proof (induction xs arbitrary: w)
  case Nil
  show ?case by (simp add: touches_same)
next
  case (Cons x xs)
  obtain r w1 where f: "f x w = (r, w1)" by force
  have t: "touches {k x} G w w1" using Cons.prems(1) [of x w] Cons.prems(3,4) f by simp
  have ids: "m_id ` set (dt_messages (aw_data w1)) = m_id ` set (dt_messages (aw_data w))"
    using touches_ids [OF t] by (metis list.set_map)
  have "touches (k ` set xs) G w1 (snd (each f xs w1))"
    using Cons.prems ids like_start_touches [OF Cons.prems(3) t] by (intro Cons.IH) auto
  moreover have "{k x} \<inter> k ` set xs = {}" using Cons.prems(2) by auto
  ultimately have "touches ({k x} \<union> k ` set xs) G w (snd (each f xs w1))"
    using touches_disjoint [OF t] by blast
  with f touches_mono [OF t] show ?case by (cases r) auto
qed

section \<open>Candidates are distinct\<close>

text \<open>The primary keys the joins rely on.\<close>

definition tables_ok :: "'s ActEnv \<Rightarrow> 's ActWorld \<Rightarrow> bool" where
  "tables_ok X w \<longleftrightarrow> good_ids (ax_store X) (aw_data w) \<and> distinct (map ma_id (aw_accounts w))
     \<and> distinct (map f_id (dt_folders (aw_data w)))"

lemma filter_key: "distinct (map k xs) \<Longrightarrow> filter (\<lambda>x. k x = v) xs = [] \<or> (\<exists>y. filter (\<lambda>x. k x = v) xs = [y])"
proof (induction xs)
  case (Cons x xs)
  show ?case
  proof (cases "k x = v")
    case True
    with Cons.prems have "filter (\<lambda>x. k x = v) xs = []" by (auto simp: filter_empty_conv) (metis image_eqI)
    with True show ?thesis by simp
  next
    case False
    with Cons show ?thesis by simp
  qed
qed simp

lemma join_rows_distinct:
  assumes "distinct (map m_id (dt_messages d))" and "distinct (map ma_id accounts)" and "distinct (map f_id (dt_folders d))"
  shows "distinct (map (\<lambda>r. m_id (fst r)) (join_rows accounts d))"
proof -
  let ?inner = "\<lambda>m. concat (map (\<lambda>a. map (\<lambda>f. (m, a, f)) (filter (\<lambda>f. f_id f = m_folder_id m) (dt_folders d)))
    (filter (\<lambda>a. ma_id a = m_account_id m) accounts))"
  have one: "map (\<lambda>r. m_id (fst r)) (?inner m) = [] \<or> map (\<lambda>r. m_id (fst r)) (?inner m) = [m_id m]" for m
    using filter_key [OF assms(2), of "m_account_id m"] filter_key [OF assms(3), of "m_folder_id m"]
    by (elim disjE exE) simp_all
  have "distinct (map (\<lambda>r. m_id (fst r)) (concat (map ?inner ms)))
      \<and> set (map (\<lambda>r. m_id (fst r)) (concat (map ?inner ms))) \<subseteq> m_id ` set ms" if "distinct (map m_id ms)" for ms
    using that
  proof (induction ms)
    case (Cons m ms)
    then show ?case using one [of m] by (elim disjE) (simp_all only: list.map concat.simps map_append append.simps, auto)
  qed simp
  from this [OF assms(1)] show ?thesis by (simp add: join_rows_def)
qed

lemma distinct_by_date: "distinct (map k rows) \<Longrightarrow> distinct (map k (by_date_desc b g rows))"
  by (auto simp: distinct_map by_date_set intro: inj_on_subset) (auto simp: by_date_desc_def by_date_asc_def Let_def)

lemma folder_role_rows_distinct:
  assumes "folder_role_rows X user_id role limit only w = (Inr rows, w')" and "tables_ok X w"
  shows "distinct (map ca_id rows)" and "length rows \<le> limit"
proof -
  obtain user where rows: "rows = map (spam_candidate X) (take limit (by_date_desc (se_backend (ax_store X)) fst
      (filter (\<lambda>r. in_role user role r \<and> (only \<longrightarrow> m_spam_verdict (fst r) = None)) (join_rows (aw_accounts w) (aw_data w)))))"
    using assms(1) unfolding folder_role_rows_def by (auto elim!: bindE_InrE dest!: aquery_Inr)
  then show "length rows \<le> limit" by simp
  have id: "ca_id (spam_candidate X r) = m_id (fst r)" for r
    by (cases r) (simp add: spam_candidate_def)
  have "distinct (map (\<lambda>r. m_id (fst r)) (join_rows (aw_accounts w) (aw_data w)))"
    using assms(2) by (intro join_rows_distinct) (auto simp: tables_ok_def good_ids_def)
  then have "distinct (map (\<lambda>r. m_id (fst r)) (by_date_desc (se_backend (ax_store X)) fst
      (filter (\<lambda>r. in_role user role r \<and> (only \<longrightarrow> m_spam_verdict (fst r) = None)) (join_rows (aw_accounts w) (aw_data w)))))"
    by (intro distinct_by_date) (simp add: distinct_map_filter)
  then show "distinct (map ca_id rows)"
    unfolding rows by (simp add: id o_def take_map [symmetric] del: take_map)
qed

section \<open>The spam pass\<close>

text \<open>A message the pass may judge: unjudged mail in an inbox of the user.\<close>

definition inbox_unjudged :: "string \<Rightarrow> 's ActWorld \<Rightarrow> StoredMessage \<Rightarrow> bool" where
  "inbox_unjudged user w m \<longleftrightarrow> m_spam_verdict m = None \<and> \<not> m_is_deleted m
     \<and> (\<exists>a \<in> set (aw_accounts w). ma_id a = m_account_id m \<and> ma_user_id a = user)
     \<and> (\<exists>f \<in> set (dt_folders (aw_data w)). f_id f = m_folder_id m \<and> role_of f = Some ''inbox'')"

text \<open>What it may do to it: stamp a verdict, and file it as spam when that is the verdict.\<close>

definition filed_by_pass :: "'s ActEnv \<Rightarrow> 's ActWorld \<Rightarrow> StoredMessage \<Rightarrow> StoredMessage \<Rightarrow> bool" where
  "filed_by_pass X w m m' \<longleftrightarrow> (\<exists>v d t. m' = m\<lparr>m_spam_verdict := Some v, m_folder_id := d, m_updated_at := t\<rparr>
     \<and> (d = m_folder_id m
        \<or> v \<in> {''spam'', ''blocked'', ''ai_spam''} \<and> d \<in> role_targets X ''spam'' (m_account_id m) w))"

lemma filed_cong:
  assumes "map folder_key (dt_folders (aw_data w')) = map folder_key (dt_folders (aw_data w))"
  shows "filed_by_pass X w' m m' = filed_by_pass X w m m'"
  by (simp add: filed_by_pass_def role_targets_cong [OF assms])

lemma unjudged_cong:
  assumes "map folder_key (dt_folders (aw_data w')) = map folder_key (dt_folders (aw_data w))" and "aw_accounts w' = aw_accounts w"
  shows "inbox_unjudged user w' m = inbox_unjudged user w m"
  using folder_key_set [OF assms(1), of "\<lambda>f. f_id f = m_folder_id m \<and> role_of f = Some ''inbox''"] assms(2)
  by (simp add: inbox_unjudged_def)

lemma verdict_effect:
  assumes "set_spam_verdict X (m_id m) v w = (r, w1)" and "good_ids (ax_store X) (aw_data w)" and "m \<in> set (dt_messages (aw_data w))"
  shows "aw_accounts w1 = aw_accounts w \<and> dt_folders (aw_data w1) = dt_folders (aw_data w)
    \<and> (aw_data w1 = aw_data w \<and> r \<noteq> Inr () \<or> (\<exists>t. dt_messages (aw_data w1) =
         map (\<lambda>n. if m_id n = m_id m then n\<lparr>m_spam_verdict := Some v, m_updated_at := t\<rparr> else n) (dt_messages (aw_data w))))"
proof -
  have i: "id_value (ax_store X) (m_id m) = Inr (m_id m)" using assms by (simp add: good_ids_def)
  obtain r1 d where u: "update_message (ax_store X) (m_id m) (\<lambda>_. True) (\<lambda>m. m\<lparr>m_spam_verdict := Some v\<rparr>) (aw_db w) = (r1, d)"
    by force
  then have "r1 = Inl (DatabaseErr Driver) \<and> md_data d = md_data (aw_db w)
    \<or> md_data d = (aw_data w)\<lparr>dt_messages := map (\<lambda>n. if m_id n = m_id m
        then n\<lparr>m_spam_verdict := Some v, m_updated_at := md_now (aw_db w)\<rparr> else n) (dt_messages (aw_data w))\<rparr>"
    unfolding update_message_def using i by (auto simp: bindE_def modify_def elim!: stmt_cases)
  then show ?thesis using assms(1) u by (auto simp: set_spam_verdict_def adb_def)
qed

text \<open>Stamping alone, and stamping before a move.\<close>

lemma stamp_filed:
  assumes "like_start X w0 w" and "i \<in> m_id ` set (dt_messages (aw_data w))"
  shows "touches {i} (filed_by_pass X w0) w (snd (set_spam_verdict X i v w))"
proof -
  obtain m where m: "m \<in> set (dt_messages (aw_data w))" "i = m_id m" using assms(2) by auto
  obtain r w1 where s: "set_spam_verdict X i v w = (r, w1)" by force
  have "filed_by_pass X w0 n (n\<lparr>m_spam_verdict := Some v, m_updated_at := t\<rparr>)" for n t
    unfolding filed_by_pass_def by (intro exI [of _ v] exI [of _ "m_folder_id n"] exI [of _ t]) simp
  then show ?thesis
    using verdict_effect [OF s [unfolded m(2)]] m assms(1) s
    by (auto simp: like_start_def touches_nth Let_def split: if_split_asm)
qed

text \<open>A write of one row followed by a step that touches it.\<close>

lemma touches_after_map:
  assumes "dt_messages (aw_data w1) = map g (dt_messages (aw_data w))" and "aw_accounts w1 = aw_accounts w"
    and "map folder_key (dt_folders (aw_data w1)) = map folder_key (dt_folders (aw_data w))" and "touches {i} H w1 w2"
    and g: "\<And>n. m_id n \<noteq> i \<Longrightarrow> g n = n" "\<And>n. m_id (g n) = m_id n"
    and K: "\<And>n n2. n \<in> set (dt_messages (aw_data w)) \<Longrightarrow> m_id n = i \<Longrightarrow> n2 = g n \<or> H (g n) n2 \<Longrightarrow> n2 = n \<or> K n n2"
  shows "touches {i} K w w2"
proof -
  have "let n = dt_messages (aw_data w) ! k; n2 = dt_messages (aw_data w2) ! k
      in n2 = n \<or> (m_id n \<in> {i} \<and> m_id n2 = m_id n \<and> K n n2)" if k: "k < length (dt_messages (aw_data w))" for k
  proof -
    let ?n = "dt_messages (aw_data w) ! k" and ?n2 = "dt_messages (aw_data w2) ! k"
    have n2: "?n2 = g ?n \<or> (m_id ?n = i \<and> m_id ?n2 = m_id ?n \<and> H (g ?n) ?n2)"
      using assms(1,4) k g(2) by (auto simp: touches_nth Let_def)
    show ?thesis
    proof (cases "m_id ?n = i")
      case True
      with n2 K [of ?n ?n2] k g(2) show ?thesis by (auto simp: Let_def)
    next
      case False
      with n2 g(1) show ?thesis by simp
    qed
  qed
  then show ?thesis using assms(1-4) by (simp add: touches_nth)
qed

lemma stamp_move_filed:
  assumes "like_start X w0 w" and "i \<in> m_id ` set (dt_messages (aw_data w))" and "v \<in> {''spam'', ''blocked'', ''ai_spam''}"
  shows "touches {i} (filed_by_pass X w0) w (snd (bindE (set_spam_verdict X i v) (\<lambda>_. move_row_to_role X user_id ''spam'' i) w))"
proof -
  obtain m where m: "m \<in> set (dt_messages (aw_data w))" "i = m_id m" using assms(2) by auto
  have g: "good_ids (ax_store X) (aw_data w)" using assms(1) by (simp add: like_start_def)
  obtain r w1 where s: "set_spam_verdict X i v w = (r, w1)" by force
  show ?thesis
  proof (cases r)
    case (Inl e)
    then show ?thesis using stamp_filed [OF assms(1,2), of v] s by simp
  next
    case (Inr u)
    from verdict_effect [OF s [unfolded m(2)] g m(1)] Inr obtain t where
      e: "aw_accounts w1 = aw_accounts w" "dt_folders (aw_data w1) = dt_folders (aw_data w)"
      "dt_messages (aw_data w1) = map (\<lambda>n. if m_id n = i then n\<lparr>m_spam_verdict := Some v, m_updated_at := t\<rparr> else n) (dt_messages (aw_data w))"
      by (auto simp: m(2))
    let ?m1 = "m\<lparr>m_spam_verdict := Some v, m_updated_at := t\<rparr>"
    have t1: "touches {i} (filed_by_pass X w0) w w1" using stamp_filed [OF assms(1,2), of v] s by simp
    have m1: "?m1 \<in> set (dt_messages (aw_data w1))" "m_id ?m1 = i" "m_account_id ?m1 = m_account_id m"
      using e(3) m by (auto intro!: image_eqI [of _ _ m])
    have D: "role_targets X ''spam'' (m_account_id m) w1 = role_targets X ''spam'' (m_account_id m) w0"
      using assms(1) e(2) by (intro role_targets_cong) (simp add: like_start_def)
    have t2: "touches {i} (moved_to (role_targets X ''spam'' (m_account_id m) w0)) w1 (snd (move_row_to_role X user_id ''spam'' i w1))"
      using move_row_touches [of X w1 ?m1 "''spam''" user_id] m1 g touches_good [OF t1] by (simp add: D)
    have f: "filed_by_pass X w0 n (n\<lparr>m_spam_verdict := Some v, m_updated_at := t\<rparr>)" for n
      unfolding filed_by_pass_def by (intro exI [of _ v] exI [of _ "m_folder_id n"] exI [of _ t]) simp
    have f2: "filed_by_pass X w0 m m2" if "moved_to (role_targets X ''spam'' (m_account_id m) w0) ?m1 m2" for m2
    proof -
      from that obtain d s where "d \<in> role_targets X ''spam'' (m_account_id m) w0" "m2 = ?m1\<lparr>m_folder_id := d, m_updated_at := s\<rparr>"
        by (auto simp: moved_to_def)
      then show ?thesis
        unfolding filed_by_pass_def using assms(3) by (intro exI [of _ v] exI [of _ d] exI [of _ s]) simp
    qed
    have "touches {i} (filed_by_pass X w0) w (snd (move_row_to_role X user_id ''spam'' i w1))"
      using e(3,1) arg_cong [OF e(2)] t2
    proof (rule touches_after_map)
      fix n n2
      assume n: "n \<in> set (dt_messages (aw_data w))" "m_id n = i"
      then have "n = m" using good_unique [OF g _ m(1)] m(2) by simp
      moreover assume "n2 = (if m_id n = i then n\<lparr>m_spam_verdict := Some v, m_updated_at := t\<rparr> else n)
        \<or> moved_to (role_targets X ''spam'' (m_account_id m) w0) (if m_id n = i then n\<lparr>m_spam_verdict := Some v, m_updated_at := t\<rparr> else n) n2"
      ultimately show "n2 = n \<or> filed_by_pass X w0 n n2" using n(2) f f2 by auto
    qed simp_all
    then show ?thesis using s Inr by simp
  qed
qed

definition unjudged_ids :: "string \<Rightarrow> 's ActWorld \<Rightarrow> string set" where
  "unjudged_ids user w = m_id ` {m \<in> set (dt_messages (aw_data w)). inbox_unjudged user w m}"

definition passes :: "'s ActEnv \<Rightarrow> string \<Rightarrow> 's ActWorld \<Rightarrow> 's ActWorld \<Rightarrow> bool" where
  "passes X user w w' \<longleftrightarrow> (tables_ok X w \<longrightarrow> touches (unjudged_ids user w) (filed_by_pass X w) w w')"

lemma passes_same: "aw_data w' = aw_data w \<Longrightarrow> aw_accounts w' = aw_accounts w \<Longrightarrow> passes X user w w'"
  by (simp add: passes_def touches_same)

lemma touches_tables_ok:
  assumes "touches I G w w'"
  shows "tables_ok X w' = tables_ok X w"
proof -
  have "map folder_key (dt_folders (aw_data w')) = map folder_key (dt_folders (aw_data w))"
    using assms by (simp add: touches_def)
  from arg_cong [OF this, of "map f_id"] have "map f_id (dt_folders (aw_data w')) = map f_id (dt_folders (aw_data w))"
    by (simp add: o_def)
  then show ?thesis using assms touches_good [OF assms] by (simp add: tables_ok_def touches_def)
qed

lemma filed_judged: "filed_by_pass X w m m' \<Longrightarrow> m_spam_verdict m' \<noteq> None"
  by (auto simp: filed_by_pass_def)

lemma passes_trans:
  assumes "passes X user w w1" and "passes X user w1 w2"
  shows "passes X user w w2"
  unfolding passes_def
proof
  assume ok: "tables_ok X w"
  then have t1: "touches (unjudged_ids user w) (filed_by_pass X w) w w1" using assms(1) by (simp add: passes_def)
  have keys: "map folder_key (dt_folders (aw_data w1)) = map folder_key (dt_folders (aw_data w))" "aw_accounts w1 = aw_accounts w"
    using t1 by (simp_all add: touches_def)
  have "tables_ok X w1" using touches_tables_ok [OF t1] ok by simp
  then have t2: "touches (unjudged_ids user w1) (filed_by_pass X w1) w1 w2" and g: "good_ids (ax_store X) (aw_data w1)"
    using assms(2) by (auto simp: passes_def tables_ok_def)
  have "let n = dt_messages (aw_data w) ! k; n2 = dt_messages (aw_data w2) ! k
      in n2 = n \<or> (m_id n \<in> unjudged_ids user w \<and> m_id n2 = m_id n \<and> filed_by_pass X w n n2)"
    if k: "k < length (dt_messages (aw_data w))" for k
  proof -
    let ?n = "dt_messages (aw_data w) ! k" and ?n1 = "dt_messages (aw_data w1) ! k" and ?n2 = "dt_messages (aw_data w2) ! k"
    have k1: "k < length (dt_messages (aw_data w1))" using k t1 by (simp add: touches_nth)
    have n1: "?n1 = ?n \<or> (m_id ?n \<in> unjudged_ids user w \<and> m_id ?n1 = m_id ?n \<and> filed_by_pass X w ?n ?n1)"
      using t1 k by (simp add: touches_nth Let_def)
    have n2: "?n2 = ?n1 \<or> (m_id ?n1 \<in> unjudged_ids user w1 \<and> m_id ?n2 = m_id ?n1 \<and> filed_by_pass X w1 ?n1 ?n2)"
      using t2 k1 by (simp add: touches_nth Let_def)
    show ?thesis
    proof (cases "?n2 = ?n1")
      case False
      with n2 obtain n' where "n' \<in> set (dt_messages (aw_data w1))" "m_id n' = m_id ?n1" "inbox_unjudged user w1 n'"
        by (auto simp: unjudged_ids_def)
      then have "inbox_unjudged user w1 ?n1" using good_unique [OF g] k1 by (metis nth_mem)
      then have u: "inbox_unjudged user w ?n1" using unjudged_cong [OF keys] by blast
      then have "m_spam_verdict ?n1 = None" by (simp add: inbox_unjudged_def)
      then have "?n1 = ?n" using n1 filed_judged by blast
      with u have "?n1 = ?n" and "inbox_unjudged user w ?n" by simp_all
      then show ?thesis
        using n2 k False filed_cong [OF keys(1)] by (auto simp: unjudged_ids_def Let_def)
    qed (use n1 in \<open>auto simp: Let_def\<close>)
  qed
  then show "touches (unjudged_ids user w) (filed_by_pass X w) w w2"
    using t1 t2 by (simp add: touches_nth)
qed

definition pframe :: "'s ActEnv \<Rightarrow> string \<Rightarrow> ('s ActWorld, 'e, 'a) eff \<Rightarrow> bool" where
  "pframe X user m \<longleftrightarrow> (\<forall>w. passes X user w (snd (m w)))"

lemma pframe_quiet: "quiet m \<Longrightarrow> pframe X user m"
  by (simp add: quiet_def pframe_def passes_same)

lemma pframe_bindE: 
  assumes "pframe X user m" and "\<And>x. pframe X user (f x)"
  shows "pframe X user (bindE m f)"
  unfolding pframe_def
proof
  fix w
  obtain r w1 where m: "m w = (r, w1)" by force
  then have "passes X user w w1" using assms(1) by (metis pframe_def snd_conv)
  then show "passes X user w (snd (bindE m f w))"
    using m assms(2) passes_trans [of X user w w1] by (cases r) (simp_all add: pframe_def)
qed

lemma pframe_attempt: "pframe X user m \<Longrightarrow> pframe X user (attempt m)"
  by (simp add: pframe_def attempt_def)

lemma pframe_if: "pframe X user m \<Longrightarrow> pframe X user n \<Longrightarrow> pframe X user (if b then m else n)"
  by simp

lemma pframe_asked:
  assumes "\<And>x. pframe (X :: 's ActEnv) user (f x)"
  shows "pframe X user (asked q f)"
  unfolding pframe_def
proof
  fix w :: "'s ActWorld"
  obtain x s where q: "q (aw_server w) = (x, s)" by force
  have "passes X user w (w\<lparr>aw_server := s\<rparr>)" by (simp add: passes_same)
  moreover have "passes X user (w\<lparr>aw_server := s\<rparr>) (snd (f x (w\<lparr>aw_server := s\<rparr>)))" using assms by (simp add: pframe_def)
  ultimately show "passes X user w (snd (asked q f w))" using passes_trans q by (simp add: asked_def) blast
qed

text \<open>A loop over the unjudged rows whose rounds file their own row.\<close>

lemma pframe_unjudged:
  assumes user: "id_value (ax_store X) user_id = Inr user"
    and f: "\<And>row w0 w. like_start X w0 w \<Longrightarrow> ca_id row \<in> m_id ` set (dt_messages (aw_data w)) \<Longrightarrow>
      touches {ca_id row} (filed_by_pass X w0) w (snd (f row w))"
  shows "pframe X user (bindE (unjudged_rows X user_id ''inbox'' n) (each f))"
  unfolding pframe_def passes_def
proof (intro allI impI)
  fix w
  assume ok: "tables_ok X w"
  obtain l w1 where l: "unjudged_rows X user_id ''inbox'' n w = (l, w1)" by force
  have w1: "aw_data w1 = aw_data w" "aw_accounts w1 = aw_accounts w"
    using quietD [OF quiet_folder_role_rows l [unfolded unjudged_rows_def]] by simp_all
  show "touches (unjudged_ids user w) (filed_by_pass X w) w (snd (bindE (unjudged_rows X user_id ''inbox'' n) (each f) w))"
  proof (cases l)
    case (Inr rows)
    then have r: "folder_role_rows X user_id ''inbox'' n True w = (Inr rows, w1)" using l by (simp add: unjudged_rows_def)
    have sub: "ca_id ` set rows \<subseteq> unjudged_ids user w"
    proof
      fix i assume "i \<in> ca_id ` set rows"
      then obtain c where "c \<in> set rows" "i = ca_id c" by auto
      from r this(1) obtain user' m a f where m: "id_value (ax_store X) user_id = Inr user'" "m \<in> set (dt_messages (aw_data w))"
        "a \<in> set (aw_accounts w)" "f \<in> set (dt_folders (aw_data w))" "ma_id a = m_account_id m" "f_id f = m_folder_id m"
        "ma_user_id a = user'" "\<not> m_is_deleted m" "role_of f = Some ''inbox''" "True \<longrightarrow> m_spam_verdict m = None"
        "c = spam_candidate X (m, a, f)"
        by (rule folder_role_rows_Inr)
      then have "inbox_unjudged user w m" unfolding inbox_unjudged_def using user by auto
      then show "i \<in> unjudged_ids user w" using m \<open>i = ca_id c\<close> by (auto simp: unjudged_ids_def spam_candidate_def)
    qed
    then have "ca_id ` set rows \<subseteq> m_id ` set (dt_messages (aw_data w1))" using w1 by (auto simp: unjudged_ids_def)
    moreover have "like_start X w w1" using ok w1 by (simp add: like_start_def tables_ok_def)
    ultimately have "touches (ca_id ` set rows) (filed_by_pass X w) w1 (snd (each f rows w1))"
      using f folder_role_rows_distinct [OF r ok] by (intro each_touches [where X = X and ?w0.0 = w]) auto
    then have "touches (unjudged_ids user w) (filed_by_pass X w) w1 (snd (each f rows w1))"
      using touches_mono [OF _ sub] by blast
    then have "touches (unjudged_ids user w) (filed_by_pass X w) w (snd (each f rows w1))"
      using w1 by (simp add: touches_def)
    then show ?thesis using l Inr by simp
  qed (use l w1 in \<open>simp add: touches_same\<close>)
qed


lemma judge_row_filed:
  assumes "like_start X w0 w" and "ca_id row \<in> m_id ` set (dt_messages (aw_data w))"
  shows "touches {ca_id row} (filed_by_pass X w0) w (snd (judge_row X user_id settings senders row w))"
proof -
  let ?m = "judge_message (sx_lower (ax_spam X)) \<lparr>ev_from_email = ca_from_email row, ev_from_name = ca_from_name row,
    ev_subject = ca_subject row\<rparr> settings senders"
  show ?thesis
  proof (cases ?m)
    case (Some v)
    have "snd (judge_row X user_id settings senders row w) = (if v = ''spam'' \<or> v = ''blocked''
        then snd (bindE (set_spam_verdict X (ca_id row) v) (\<lambda>_. move_row_to_role X user_id ''spam'' (ca_id row)) w)
        else snd (set_spam_verdict X (ca_id row) v w))"
      using Some by (simp add: judge_row_def move_row_to_spam_def bindE_def attempt_def split: prod.split sum.split)
    then show ?thesis
      using stamp_filed [OF assms, of v] stamp_move_filed [OF assms, of v user_id]
      by (cases "v = ''spam'' \<or> v = ''blocked''") auto
  qed (simp add: judge_row_def touches_same)
qed

lemma ai_row_filed:
  assumes "like_start X w0 w" and "ca_id row \<in> m_id ` set (dt_messages (aw_data w))"
  shows "touches {ca_id row} (filed_by_pass X w0) w (snd (ai_judge_row X user_id row w))"
proof (cases "ca_from_email row")
  case (Some from_addr)
  obtain v s where q: "ax_ai_judge X (or_empty (ca_subject row)) from_addr (or_empty (ca_body_head row)) (aw_server w) = (v, s)"
    by force
  let ?w = "w\<lparr>aw_server := s\<rparr>"
  have "like_start X w0 ?w" "ca_id row \<in> m_id ` set (dt_messages (aw_data ?w))" using assms by (simp_all add: like_start_def)
  then have "touches {ca_id row} (filed_by_pass X w0) ?w (snd (ai_file_row X user_id (ca_id row) v ?w))"
    using stamp_filed [of X w0 ?w "ca_id row"] stamp_move_filed [of X w0 ?w "ca_id row" "''ai_spam''" user_id]
    by (auto simp: ai_file_row_def attempt_def move_row_to_spam_def touches_same split: option.split)
  then have "touches {ca_id row} (filed_by_pass X w0) w (snd (ai_file_row X user_id (ca_id row) v ?w))"
    by (simp add: touches_def)
  then show ?thesis using Some q by (simp add: ai_judge_row_def asked_def)
qed (simp add: ai_judge_row_def touches_same)

text \<open>The candidates of the purge have no date, so none of them is old.\<close>

lemma each_undated:
  "\<forall>row \<in> set rows. ca_date row = None \<Longrightarrow>
   each (\<lambda>row. if (case Option.bind (ca_date row) g of Some t \<Rightarrow> t < c | None \<Rightarrow> False) then f row else okE ()) rows v = (Inr (), v)"
  by (induction rows) (simp_all add: bindE_def)

lemma purge_destroys_nothing: "quiet (purge_old_spam X user_id)"
  unfolding quiet_def
proof
  fix w
  obtain l w1 where l: "spam_folder_rows X user_id w = (l, w1)" by force
  have "quiet (spam_folder_rows X user_id)"
    unfolding spam_folder_rows_def by (intro quiet_rules)
  from quietD [OF this l] have w1: "aw_data w1 = aw_data w" "aw_accounts w1 = aw_accounts w" by simp_all
  have "\<forall>row \<in> set rows. ca_date row = None" if "l = Inr rows" for rows
    using l that unfolding spam_folder_rows_def by (auto elim!: bindE_InrE)
  then show "aw_data (snd (purge_old_spam X user_id w)) = aw_data w \<and> aw_accounts (snd (purge_old_spam X user_id w)) = aw_accounts w"
    using l w1 by (cases l) (simp_all add: purge_old_spam_def Let_def each_undated)
qed

lemma pframe_pass:
  assumes "id_value (ax_store X) user_id = Inr user"
  shows "pframe X user (spam_pass_inner X user_id)"
proof -
  have ai: "pframe X user (ai_spam_auto_pass X user_id)"
    unfolding ai_spam_auto_pass_def
    by (intro pframe_asked pframe_if pframe_attempt pframe_unjudged [OF assms ai_row_filed] pframe_quiet [OF quiet_ret(1)])
  have batch: "pframe X user (judge_inbox_batch X user_id settings senders)" for settings senders
    unfolding judge_inbox_batch_def by (rule pframe_unjudged [OF assms judge_row_filed])
  show ?thesis
    unfolding spam_pass_inner_def
    by (intro pframe_bindE pframe_if ai batch pframe_quiet [OF purge_destroys_nothing] pframe_quiet [OF quiet_ret(1)]
        pframe_quiet [OF quiet_map_errE] quiet_aspam mail_spam_ops)
qed


section \<open>Re-judging after an edit\<close>

definition role_for :: "SenderList \<Rightarrow> string" where
  "role_for list = (case list of Blocked \<Rightarrow> ''inbox'' | Allowed \<Rightarrow> ''spam'')"

text \<open>The messages an edit may reach: mail of the user in the folders of the role, from a sender the entry
  matches, and for a rescue filed by the engine itself.\<close>

definition eligible :: "'s ActEnv \<Rightarrow> string \<Rightarrow> string \<Rightarrow> SenderList \<Rightarrow> 's ActWorld \<Rightarrow> StoredMessage \<Rightarrow> bool" where
  "eligible X user email list w m \<longleftrightarrow> \<not> m_is_deleted m
     \<and> (\<exists>a \<in> set (aw_accounts w). ma_id a = m_account_id m \<and> ma_user_id a = user)
     \<and> (\<exists>f \<in> set (dt_folders (aw_data w)). f_id f = m_folder_id m \<and> role_of f = Some (role_for list))
     \<and> (\<exists>s. from_json_email (se_json_parse (ax_store X)) (m_from m) = Some s \<and> sender_matches (sx_lower (ax_spam X)) email s)
     \<and> m_spam_verdict m \<in> (case list of Blocked \<Rightarrow> {None, Some ''clean''} | Allowed \<Rightarrow> {Some ''spam'', Some ''blocked''})"

text \<open>What it may do: block and file as spam, each on its own; or bring back to an inbox and, once that is done,
  allow.\<close>

definition rejudged :: "'s ActEnv \<Rightarrow> SenderList \<Rightarrow> 's ActWorld \<Rightarrow> StoredMessage \<Rightarrow> StoredMessage \<Rightarrow> bool" where
  "rejudged X list w m m' \<longleftrightarrow> (\<exists>v d t. m' = m\<lparr>m_spam_verdict := v, m_folder_id := d, m_updated_at := t\<rparr>
     \<and> (case list of
          Blocked \<Rightarrow> v \<in> {m_spam_verdict m, Some ''blocked''}
            \<and> (d = m_folder_id m \<or> d \<in> role_targets X ''spam'' (m_account_id m) w)
        | Allowed \<Rightarrow> d \<in> role_targets X ''inbox'' (m_account_id m) w \<and> v \<in> {m_spam_verdict m, Some ''allowed''}))"

lemma rejudgedI:
  assumes "m' = m\<lparr>m_spam_verdict := v, m_folder_id := d, m_updated_at := t\<rparr>"
    and "case list of
          Blocked \<Rightarrow> v \<in> {m_spam_verdict m, Some ''blocked''}
            \<and> (d = m_folder_id m \<or> d \<in> role_targets X ''spam'' (m_account_id m) w)
        | Allowed \<Rightarrow> d \<in> role_targets X ''inbox'' (m_account_id m) w \<and> v \<in> {m_spam_verdict m, Some ''allowed''}"
  shows "rejudged X list w m m'"
  unfolding rejudged_def using assms by blast

text \<open>Stamping is a map over the rows, whether the statement fails or not.\<close>

definition stamped :: "string \<Rightarrow> StoredMessage \<Rightarrow> StoredMessage \<Rightarrow> bool" where
  "stamped v m m' \<longleftrightarrow> (\<exists>u t. u \<in> {m_spam_verdict m, Some v} \<and> m' = m\<lparr>m_spam_verdict := u, m_updated_at := t\<rparr>)"

lemma stamped_intros: "stamped v m m" "stamped v m (m\<lparr>m_spam_verdict := Some v, m_updated_at := t\<rparr>)"
proof -
  have "m = m\<lparr>m_spam_verdict := m_spam_verdict m, m_updated_at := m_updated_at m\<rparr>" by simp
  then show "stamped v m m" unfolding stamped_def by blast
  show "stamped v m (m\<lparr>m_spam_verdict := Some v, m_updated_at := t\<rparr>)" unfolding stamped_def by blast
qed

lemma stamp_map:
  assumes "set_spam_verdict X (m_id m) v w = (r, w1)" and "good_ids (ax_store X) (aw_data w)" and "m \<in> set (dt_messages (aw_data w))"
  obtains g where "dt_messages (aw_data w1) = map g (dt_messages (aw_data w))" "aw_accounts w1 = aw_accounts w"
    "dt_folders (aw_data w1) = dt_folders (aw_data w)" "\<forall>n. m_id n \<noteq> m_id m \<longrightarrow> g n = n" "\<forall>n. stamped v n (g n)"
proof -
  note e = verdict_effect [OF assms]
  from e consider "aw_data w1 = aw_data w"
    | t where "dt_messages (aw_data w1) = map (\<lambda>n. if m_id n = m_id m then n\<lparr>m_spam_verdict := Some v, m_updated_at := t\<rparr> else n) (dt_messages (aw_data w))"
    by blast
  then show thesis
  proof cases
    case 1
    with e stamped_intros show ?thesis by (intro that [of id]) auto
  next
    case (2 t)
    with e stamped_intros show ?thesis by (intro that [OF 2]) auto
  qed
qed

lemma stamped_keys: "stamped v n n' \<Longrightarrow> m_id n' = m_id n \<and> m_account_id n' = m_account_id n"
  by (auto simp: stamped_def)

lemma stamp_touches:
  assumes "good_ids (ax_store X) (aw_data w)" and "m \<in> set (dt_messages (aw_data w))"
  shows "touches {m_id m} (stamped v) w (snd (set_spam_verdict X (m_id m) v w))"
proof -
  obtain r w1 where s: "set_spam_verdict X (m_id m) v w = (r, w1)" by force
  obtain g where e: "dt_messages (aw_data w1) = map g (dt_messages (aw_data w))" "aw_accounts w1 = aw_accounts w"
      "dt_folders (aw_data w1) = dt_folders (aw_data w)"
    and g: "\<forall>n. m_id n \<noteq> m_id m \<longrightarrow> g n = n" "\<forall>n. stamped v n (g n)"
    by (rule stamp_map [OF s assms])
  have "touches {m_id m} (stamped v) w w1"
    using e g stamped_keys [OF spec [OF g(2)]] unfolding touches_nth Let_def by auto
  then show ?thesis using s by simp
qed

lemma block_row:
  assumes "like_start X w0 w" and "m \<in> set (dt_messages (aw_data w))"
  shows "touches {m_id m} (rejudged X Blocked w0) w (snd (rejudge_row X user_id Blocked (m_id m) w))"
proof -
  let ?D = "role_targets X ''spam'' (m_account_id m) w0" and ?i = "m_id m"
  have good: "good_ids (ax_store X) (aw_data w)" using assms(1) by (simp add: like_start_def)
  obtain r w1 where s: "set_spam_verdict X ?i ''blocked'' w = (r, w1)" by force
  obtain g where e: "dt_messages (aw_data w1) = map g (dt_messages (aw_data w))" "aw_accounts w1 = aw_accounts w"
      "dt_folders (aw_data w1) = dt_folders (aw_data w)"
    and g': "\<forall>n. m_id n \<noteq> ?i \<longrightarrow> g n = n" "\<forall>n. stamped ''blocked'' n (g n)"
    by (rule stamp_map [OF s good assms(2)])
  note g = g' [rule_format]
  have k: "m_id (g n) = m_id n" "m_account_id (g n) = m_account_id n" for n using stamped_keys [OF g(2)] by auto
  have gm: "g m \<in> set (dt_messages (aw_data w1))" using e(1) assms(2) by simp
  have "good_ids (ax_store X) (aw_data w1)" using good e(1) k by (simp add: good_ids_map o_def)
  moreover have "role_targets X ''spam'' (m_account_id m) w1 = ?D"
    using assms(1) e(3) by (intro role_targets_cong) (simp add: like_start_def)
  ultimately have t: "touches {?i} (moved_to ?D) w1 (snd (move_row_to_role X user_id ''spam'' ?i w1))"
    using move_row_touches [OF _ gm, of X "''spam''" user_id] by (simp add: k)
  have "touches {?i} (rejudged X Blocked w0) w (snd (move_row_to_role X user_id ''spam'' ?i w1))"
    using e(1,2) arg_cong [OF e(3)] t g(1) k(1)
  proof (rule touches_after_map)
    fix n n2
    assume n: "n \<in> set (dt_messages (aw_data w))" "m_id n = ?i" and n2: "n2 = g n \<or> moved_to ?D (g n) n2"
    then have "n = m" using good_unique [OF good _ assms(2)] by simp
    from g(2) [of n] obtain v t where v: "v \<in> {m_spam_verdict n, Some ''blocked''}" "g n = n\<lparr>m_spam_verdict := v, m_updated_at := t\<rparr>"
      by (auto simp: stamped_def)
    from n2 show "n2 = n \<or> rejudged X Blocked w0 n n2"
    proof
      assume "n2 = g n"
      then show ?thesis using v by (intro disjI2 rejudgedI [where v = v and d = "m_folder_id n" and t = t]) simp_all
    next
      assume "moved_to ?D (g n) n2"
      then obtain d t where "d \<in> ?D" "n2 = (g n)\<lparr>m_folder_id := d, m_updated_at := t\<rparr>" by (auto simp: moved_to_def)
      then show ?thesis using v \<open>n = m\<close> by (intro disjI2 rejudgedI [where v = v and d = d and t = t]) simp_all
    qed
  qed
  then show ?thesis using s by (simp add: rejudge_row_def bindE_def attempt_def move_row_to_spam_def)
qed

lemma rescue_row:
  assumes "like_start X w0 w" and "m \<in> set (dt_messages (aw_data w))"
  shows "touches {m_id m} (rejudged X Allowed w0) w (snd (rejudge_row X user_id Allowed (m_id m) w))"
proof -
  let ?D = "role_targets X ''inbox'' (m_account_id m) w0" and ?i = "m_id m"
  have good: "good_ids (ax_store X) (aw_data w)" using assms(1) by (simp add: like_start_def)
  have D: "role_targets X ''inbox'' (m_account_id m) w = ?D"
    using assms(1) by (intro role_targets_cong) (simp add: like_start_def)
  obtain r w1 where mv: "move_row_to_role X user_id ''inbox'' ?i w = (r, w1)" by force
  have t: "touches {?i} (moved_to ?D) w w1"
    using move_row_touches [OF good assms(2), of "''inbox''" user_id] mv by (simp add: D)
  show ?thesis
  proof (cases r)
    case (Inl e)
    have "rejudged X Allowed w0 m m1" if "moved_to ?D m m1" for m1
      using that by (auto simp: moved_to_def intro!: rejudgedI [where v = "m_spam_verdict m"])
    then have "touches {?i} (rejudged X Allowed w0) w w1"
      using t good_unique [OF good _ assms(2)] unfolding touches_def by (auto elim!: list.rel_mono_strong)
    then show ?thesis using mv Inl by (simp add: rejudge_row_def attempt_def move_row_to_inbox_def)
  next
    case (Inr u)
    have mv': "move_row_to_role X user_id ''inbox'' ?i w = (Inr u, w1)" using mv Inr by simp
    obtain d t where d: "d \<in> role_targets X ''inbox'' (m_account_id m) w"
      and m1: "dt_messages (aw_data w1) = map (\<lambda>n. if m_id n = ?i then n\<lparr>m_folder_id := d, m_updated_at := t\<rparr> else n) (dt_messages (aw_data w))"
      by (rule move_row_Inr [OF mv' good assms(2)])
    let ?m = "m\<lparr>m_folder_id := d, m_updated_at := t\<rparr>"
    have "?m \<in> set (dt_messages (aw_data w1))" using m1 assms(2) by (auto intro!: image_eqI [of _ _ m])
    moreover have "good_ids (ax_store X) (aw_data w1)" using good touches_good [OF t] by simp
    ultimately have st: "touches {?i} (stamped ''allowed'') w1 (snd (set_spam_verdict X ?i ''allowed'' w1))"
      using stamp_touches [of X w1 ?m] by simp
    have "touches {?i} (rejudged X Allowed w0) w (snd (set_spam_verdict X ?i ''allowed'' w1))"
      using m1 _ _ st
    proof (rule touches_after_map)
      show "aw_accounts w1 = aw_accounts w" "map folder_key (dt_folders (aw_data w1)) = map folder_key (dt_folders (aw_data w))"
        using t by (simp_all add: touches_def)
      fix n n2
      assume n: "n \<in> set (dt_messages (aw_data w))" "m_id n = ?i"
        and n2: "n2 = (if m_id n = ?i then n\<lparr>m_folder_id := d, m_updated_at := t\<rparr> else n)
          \<or> stamped ''allowed'' (if m_id n = ?i then n\<lparr>m_folder_id := d, m_updated_at := t\<rparr> else n) n2"
      have "n = m" using good_unique [OF good _ assms(2)] n by simp
      moreover from n n2 stamped_intros(1) have "stamped ''allowed'' (n\<lparr>m_folder_id := d, m_updated_at := t\<rparr>) n2" by auto
      ultimately obtain v t' where "v \<in> {m_spam_verdict m, Some ''allowed''}" "n2 = ?m\<lparr>m_spam_verdict := v, m_updated_at := t'\<rparr>"
        by (auto simp: stamped_def)
      then show "n2 = n \<or> rejudged X Allowed w0 n n2"
        using d \<open>n = m\<close> by (auto simp: D intro!: rejudgedI [where v = v and d = d and t = t'])
    qed simp_all
    then show ?thesis using mv Inr by (simp add: rejudge_row_def attempt_def move_row_to_inbox_def)
  qed
qed


lemma rejudge_row_touches:
  assumes "like_start X w0 w" and "i \<in> m_id ` set (dt_messages (aw_data w))"
  shows "touches {i} (rejudged X list w0) w (snd (rejudge_row X user_id list i w))"
  using assms block_row [of X w0 w _ user_id] rescue_row [of X w0 w _ user_id] by (cases list) auto

lemma rejudge_ids_from:
  assumes "i \<in> set (rejudge_ids lower rows email list)"
  obtains c s where "c \<in> set rows" "ca_id c = i" "ca_from_email c = Some s" "sender_matches lower email s"
    "ca_verdict c \<in> (case list of Blocked \<Rightarrow> {None, Some ''clean''} | Allowed \<Rightarrow> {Some ''spam'', Some ''blocked''})"
  using assms by (cases list) (auto simp: rejudge_ids_def dest!: in_set_takeD split: option.splits)

lemma rejudge_ids_distinct:
  assumes "distinct (map ca_id rows)"
  shows "distinct (rejudge_ids lower rows email list)"
proof -
  have "distinct (map ca_id (filter P rows))" for P using assms by (simp add: distinct_map_filter)
  then show ?thesis unfolding rejudge_ids_def take_map [symmetric] by (rule distinct_take)
qed

lemma list_change_touches:
  assumes user: "id_value (ax_store X) user_id = Inr user" and "tables_ok X w"
  obtains ids where "touches (set ids) (rejudged X list w) w (apply_sender_list_change X user_id email list w)"
    "length ids \<le> REJUDGE_MOVE_CAP" "\<forall>i \<in> set ids. \<exists>m \<in> set (dt_messages (aw_data w)). m_id m = i \<and> eligible X user email list w m"
proof -
  obtain l w1 where l: "folder_role_rows X user_id (role_for list) REJUDGE_SCAN_LIMIT False w = (l, w1)" by force
  have w1: "aw_data w1 = aw_data w" "aw_accounts w1 = aw_accounts w" using quietD [OF quiet_folder_role_rows l] by simp_all
  show thesis
  proof (cases l)
    case (Inl e)
    with l w1 show ?thesis
      by (intro that [of "[]"]) (simp_all add: apply_sender_list_change_def role_for_def Let_def touches_same)
  next
    case (Inr rows)
    let ?ids = "rejudge_ids (sx_lower (ax_spam X)) rows email list"
    have r: "folder_role_rows X user_id (role_for list) REJUDGE_SCAN_LIMIT False w = (Inr rows, w1)" using l Inr by simp
    have elig: "\<exists>m \<in> set (dt_messages (aw_data w)). m_id m = i \<and> eligible X user email list w m" if "i \<in> set ?ids" for i
    proof -
      from that obtain c s where c: "c \<in> set rows" "ca_id c = i" "ca_from_email c = Some s" "sender_matches (sx_lower (ax_spam X)) email s"
        "ca_verdict c \<in> (case list of Blocked \<Rightarrow> {None, Some ''clean''} | Allowed \<Rightarrow> {Some ''spam'', Some ''blocked''})"
        by (rule rejudge_ids_from)
      from r c(1) obtain user' m a f where m: "id_value (ax_store X) user_id = Inr user'" "m \<in> set (dt_messages (aw_data w))"
        "a \<in> set (aw_accounts w)" "f \<in> set (dt_folders (aw_data w))" "ma_id a = m_account_id m" "f_id f = m_folder_id m"
        "ma_user_id a = user'" "\<not> m_is_deleted m" "role_of f = Some (role_for list)" "False \<longrightarrow> m_spam_verdict m = None"
        "c = spam_candidate X (m, a, f)"
        by (rule folder_role_rows_Inr)
      then have "eligible X user email list w m" unfolding eligible_def using user c by (auto simp: spam_candidate_def)
      then show ?thesis using m c(2) by (auto simp: spam_candidate_def)
    qed
    have start: "like_start X w w1" using w1 assms(2) by (simp add: like_start_def tables_ok_def)
    have sub: "set ?ids \<subseteq> m_id ` set (dt_messages (aw_data w1))" using elig w1 by force
    have "distinct ?ids" using folder_role_rows_distinct [OF r assms(2)] by (intro rejudge_ids_distinct)
    then have "touches ((\<lambda>i. i) ` set ?ids) (rejudged X list w) w1 (snd (each (rejudge_row X user_id list) ?ids w1))"
      using start sub by (intro each_touches [where X = X and ?w0.0 = w] rejudge_row_touches) simp_all
    then have "touches (set ?ids) (rejudged X list w) w (snd (each (rejudge_row X user_id list) ?ids w1))"
      using w1 by (simp add: touches_def)
    moreover have "length ?ids \<le> REJUDGE_MOVE_CAP" by (simp add: rejudge_ids_def)
    ultimately show ?thesis
      using that [of ?ids] elig r by (simp add: apply_sender_list_change_def role_for_def Let_def)
  qed
qed

lemma touches_card:
  assumes "touches (set ids) G w w'" and "good_ids E (aw_data w)"
  shows "card {k. k < length (dt_messages (aw_data w)) \<and> dt_messages (aw_data w') ! k \<noteq> dt_messages (aw_data w) ! k} \<le> length ids"
    (is "card ?K \<le> _")
proof -
  let ?f = "\<lambda>k. m_id (dt_messages (aw_data w) ! k)"
  have "inj_on ?f ?K"
  proof (rule inj_onI)
    fix x y
    assume "x \<in> ?K" "y \<in> ?K" "?f x = ?f y"
    then show "x = y"
      using assms(2) nth_eq_iff_index_eq [of "map m_id (dt_messages (aw_data w))" x y] by (simp add: good_ids_def)
  qed
  moreover have "?f ` ?K \<subseteq> set ids" using assms(1) by (auto simp: touches_nth Let_def)
  ultimately have "card ?K \<le> card (set ids)" by (rule card_inj_on_le) simp
  also have "\<dots> \<le> length ids" by (rule card_length)
  finally show ?thesis .
qed

text \<open>C12: Re-judging a sender's mail after an edit of the lists changes at most 25 messages, and only mail of the
  user from that sender in the inboxes (a block) or in the spam folders (an allow); spam the server filed itself
  is never brought back, and a rescued message is marked allowed only once it stands in an inbox of its account.\<close>

theorem rejudge_only_matching:
  assumes "id_value (ax_store X) user_id = Inr user" and "tables_ok X w"
    and "w' = apply_sender_list_change X user_id email list w"
  shows "list_all2 (\<lambda>m m'. m' = m \<or> (eligible X user email list w m \<and> rejudged X list w m m'))
      (dt_messages (aw_data w)) (dt_messages (aw_data w'))
    \<and> card {k. k < length (dt_messages (aw_data w)) \<and> dt_messages (aw_data w') ! k \<noteq> dt_messages (aw_data w) ! k} \<le> 25"
proof -
  from assms(1,2) obtain ids where t: "touches (set ids) (rejudged X list w) w w'" "length ids \<le> REJUDGE_MOVE_CAP"
    and ids: "\<forall>i \<in> set ids. \<exists>m \<in> set (dt_messages (aw_data w)). m_id m = i \<and> eligible X user email list w m"
    unfolding assms(3) by (rule list_change_touches)
  have good: "good_ids (ax_store X) (aw_data w)" using assms(2) by (simp add: tables_ok_def)
  have "eligible X user email list w m" if "m \<in> set (dt_messages (aw_data w))" "m_id m \<in> set ids" for m
    using ids that good_unique [OF good] by metis
  then have "list_all2 (\<lambda>m m'. m' = m \<or> (eligible X user email list w m \<and> rejudged X list w m m'))
      (dt_messages (aw_data w)) (dt_messages (aw_data w'))"
    using t(1) unfolding touches_def by (auto elim!: list.rel_mono_strong)
  with touches_card [OF t(1) good] t(2) show ?thesis by (simp add: REJUDGE_MOVE_CAP_def)
qed

section \<open>In the small world\<close>

lemma demo_tables_ok: "tables_ok (demo_act_env b) demo_act_world"
  by (simp add: tables_ok_def good_ids_def demo_act_world_def demo_act_env_def demo_act_store_def id_value_def
      demo_account_def demo_folder_def fresh_folder_def demo_stored_def)

lemma demo_pass_files:
  "map (\<lambda>m. (m_id m, m_folder_id m, m_spam_verdict m)) (dt_messages (aw_data (spam_pass (demo_act_env False) ''u'' demo_act_world)))
   = [(''m1'', ''sp'', Some ''blocked''), (''m2'', ''sp'', Some ''spam''), (''m3'', ''oi'', None)]"
  by code_simp

lemma demo_rescue:
  "map (\<lambda>m. (m_id m, m_folder_id m, m_spam_verdict m)) (dt_messages (aw_data
     (apply_sender_list_change (demo_act_env False) ''u'' ''b.c'' Allowed demo_act_world)))
   = [(''m1'', ''in'', None), (''m2'', ''in'', Some ''allowed''), (''m3'', ''oi'', None)]"
  by code_simp


theorem rejudge_only_matching_witness:
  "\<exists>m'. rejudged (demo_act_env False) Allowed demo_act_world (demo_stored ''m2'' ''acc'' ''sp'' (Some ''spam'')) m'
     \<and> m_spam_verdict m' = Some ''allowed'' \<and> m_folder_id m' = ''in''"
proof -
  let ?w' = "apply_sender_list_change (demo_act_env False) ''u'' ''b.c'' Allowed demo_act_world"
    and ?m = "demo_stored ''m2'' ''acc'' ''sp'' (Some ''spam'')"
  have l: "list_all2 (\<lambda>m m'. m' = m \<or> (eligible (demo_act_env False) ''u'' ''b.c'' Allowed demo_act_world m
        \<and> rejudged (demo_act_env False) Allowed demo_act_world m m'))
      (dt_messages (aw_data demo_act_world)) (dt_messages (aw_data ?w'))"
    using rejudge_only_matching [OF demo_user demo_tables_ok refl, of False "''u''" "''b.c''" Allowed] by simp
  have h: "dt_messages (aw_data demo_act_world) ! 1 = ?m" "1 < length (dt_messages (aw_data demo_act_world))"
    by (simp_all add: demo_act_world_def)
  have "m_folder_id (dt_messages (aw_data ?w') ! 1) = ''in''" "m_spam_verdict (dt_messages (aw_data ?w') ! 1) = Some ''allowed''"
    using arg_cong [OF demo_rescue, of "\<lambda>xs. xs ! 1"] list_all2_lengthD [OF l] h(2) by simp_all
  moreover from this have "dt_messages (aw_data ?w') ! 1 \<noteq> ?m" by (auto simp: demo_stored_def)
  ultimately show ?thesis using list_all2_nthD [OF l h(2)] h(1) by auto
qed

end
