(* ===== verification/Lyra_Backup.thy ===== *)
theory Lyra_Backup
  imports Lyra_Jobs "HOL-Library.AList"
begin

text \<open>
  Backups over REST: the chunked import upload (\<^verbatim>\<open>backup/upload.rs\<close>), the artifact registry
  (\<^verbatim>\<open>backup/artifacts.rs\<close>) and the handlers of \<^verbatim>\<open>backup/http.rs\<close>.

  The world of a handler is the kv store, the job table, the user table and the files below the
  data directory. A file is its bytes and its modification time; a path is its text. Every
  call on the file system first consults the fault script \<open>bw_io\<close>: a head \<open>Some k\<close> makes that one
  call fail, a write after \<open>k\<close> bytes have reached the file; an empty script means no more faults. A
  theorem for every script covers every pattern of I/O errors and every write cut short. File
  modes and directories other than the staging directory are not modelled.

  UUID parsing, the JSON text of the two registries and the texts of third-party errors are fields of
  \<open>BackupEnv\<close>. A \<^verbatim>\<open>HashMap\<close> is an association list that is only read by key.
\<close>

section \<open>Data\<close>

definition CHUNK_SIZE :: nat where "CHUNK_SIZE = 8 * 1024 * 1024"
definition MAX_CHUNKS :: nat where "MAX_CHUNKS = 512"
definition STALE_UPLOAD_AGE :: nat where "STALE_UPLOAD_AGE = secs (24 * 3600)"

record UploadMeta =
  um_chunk_sizes :: "nat list"
  um_created_at :: string

record ArtifactMeta =
  am_id :: string
  am_filename :: string
  am_size_bytes :: nat
  am_created_at :: string

datatype IoError = IoNotFound | IoAlreadyExists | IoOther

datatype UploadError =
    UpNotFound | UpChunkOutOfRange nat | UpEmptyChunk | UpOversizedChunk | UpIncomplete "nat list"
  | UpIo IoError | UpBackup BackupError

type_synonym Uploads = "(string \<times> UploadMeta) list"

record StagedFile =
  f_bytes :: string
  f_mtime :: nat

record BackupEnv =
  be_jobs :: JobEnv
  be_prims :: Primitives
  be_uuid_parse :: "string \<Rightarrow> string option"
  be_uploads_json :: "Uploads \<Rightarrow> string"
  be_uploads_parse :: "string \<Rightarrow> Uploads option"
  be_artifacts_json :: "ArtifactMeta list \<Rightarrow> string"
  be_artifacts_parse :: "string \<Rightarrow> ArtifactMeta list option"
  be_json_parse :: "string \<Rightarrow> Json option"
  be_show_io :: "IoError \<Rightarrow> string"
  be_header_value :: "string \<Rightarrow> string option"

text \<open>What one request draws: with the fields of \<open>Draws\<close>, the wall clock (nanoseconds), the UUIDs
  drawn by the handler and by \<^verbatim>\<open>jobs::enqueue\<close>, and the nonce of the password envelope.\<close>

record BackupDraws = Draws +
  bd_wall :: nat
  bd_uuid :: string
  bd_job_id :: string
  bd_nonce :: string

record 's BackupWorld =
  bw_kv :: 's
  bw_db :: JobDb
  bw_users :: Db
  bw_dirs :: "string set"
  bw_files :: "(string \<times> StagedFile) list"
  bw_io :: "nat option list"

definition onkv :: "('s, 'e, 'a) eff \<Rightarrow> ('s BackupWorld, 'e, 'a) eff" where
  "onkv m w = (case m (bw_kv w) of (r, s) \<Rightarrow> (r, w\<lparr>bw_kv := s\<rparr>))"

definition ondb :: "(JobDb, 'e, 'a) eff \<Rightarrow> ('s BackupWorld, 'e, 'a) eff" where
  "ondb m w = (case m (bw_db w) of (r, db) \<Rightarrow> (r, w\<lparr>bw_db := db\<rparr>))"

definition onusers :: "(Db, 'e, 'a) eff \<Rightarrow> ('s BackupWorld, 'e, 'a) eff" where
  "onusers m w = (case m (bw_users w) of (r, us) \<Rightarrow> (r, w\<lparr>bw_users := us\<rparr>))"

fun show_kv_error :: "KvError \<Rightarrow> string" where
  "show_kv_error (KvInternal s) = ''kv internal error: '' @ s"

section \<open>The file system\<close>

text \<open>\<^verbatim>\<open>Path::join\<close>.\<close>

definition path_join :: "string \<Rightarrow> string \<Rightarrow> string" where
  "path_join p q =
     (if starts_with q ''/'' then q
      else if p = [] \<or> last p = CHR ''/'' then p @ q
      else p @ CHR ''/'' # q)"

text \<open>\<^verbatim>\<open>Path::extension\<close> of a plain file name.\<close>

definition extension :: "string \<Rightarrow> string option" where
  "extension name =
     (case rsplit_once (CHR ''.'') name of
        None \<Rightarrow> None
      | Some (stem, ext) \<Rightarrow> if stem = [] then None else Some ext)"

definition fs :: "('s BackupWorld, IoError, 'a) eff \<Rightarrow> ('s BackupWorld, IoError, 'a) eff" where
  "fs f w =
     (case bw_io w of
        [] \<Rightarrow> f w
      | None # xs \<Rightarrow> f (w\<lparr>bw_io := xs\<rparr>)
      | Some k # xs \<Rightarrow> (Inl IoOther, w\<lparr>bw_io := xs\<rparr>))"

definition put_file :: "string \<Rightarrow> StagedFile \<Rightarrow> 's BackupWorld \<Rightarrow> 's BackupWorld" where
  "put_file path f w = w\<lparr>bw_files := AList.update path f (bw_files w)\<rparr>"

definition drop_file :: "string \<Rightarrow> 's BackupWorld \<Rightarrow> 's BackupWorld" where
  "drop_file path w = w\<lparr>bw_files := AList.delete path (bw_files w)\<rparr>"

definition create_dir_all :: "string \<Rightarrow> ('s BackupWorld, IoError, unit) eff" where
  "create_dir_all dir = fs (\<lambda>w. (Inr (), w\<lparr>bw_dirs := insert dir (bw_dirs w)\<rparr>))"

definition fs_touch :: "('s BackupWorld, IoError, unit) eff" where
  "fs_touch = fs (okE ())"

definition create_new :: "nat \<Rightarrow> string \<Rightarrow> ('s BackupWorld, IoError, unit) eff" where
  "create_new wall path = fs (\<lambda>w.
     case map_of (bw_files w) path of
       Some _ \<Rightarrow> (Inl IoAlreadyExists, w)
     | None \<Rightarrow> (Inr (), put_file path \<lparr>f_bytes = [], f_mtime = wall\<rparr> w))"

definition stat :: "string \<Rightarrow> ('s BackupWorld, IoError, StagedFile) eff" where
  "stat path = fs (\<lambda>w.
     case map_of (bw_files w) path of None \<Rightarrow> (Inl IoNotFound, w) | Some f \<Rightarrow> (Inr f, w))"

definition rename :: "string \<Rightarrow> string \<Rightarrow> ('s BackupWorld, IoError, unit) eff" where
  "rename src dst = fs (\<lambda>w.
     case map_of (bw_files w) src of
       None \<Rightarrow> (Inl IoNotFound, w)
     | Some f \<Rightarrow> (Inr (), put_file dst f (drop_file src w)))"

definition remove_file :: "string \<Rightarrow> ('s BackupWorld, IoError, unit) eff" where
  "remove_file path = fs (\<lambda>w.
     case map_of (bw_files w) path of
       None \<Rightarrow> (Inl IoNotFound, w)
     | Some f \<Rightarrow> (Inr (), drop_file path w))"

text \<open>A write at an offset: a gap before it reads as zero bytes, what lies behind it stays.\<close>

definition write_at :: "nat \<Rightarrow> string \<Rightarrow> string \<Rightarrow> string" where
  "write_at off bytes old =
     (if bytes = [] then old
      else take off old @ replicate (off - length old) (CHR 0x00) @ bytes @
        drop (off + length bytes) old)"

definition write_bytes :: "nat \<Rightarrow> string \<Rightarrow> nat \<Rightarrow> string \<Rightarrow> 's BackupWorld \<Rightarrow> 's BackupWorld" where
  "write_bytes wall path off bytes w =
     (case map_of (bw_files w) path of
        None \<Rightarrow> w
      | Some f \<Rightarrow> put_file path \<lparr>f_bytes = write_at off bytes (f_bytes f), f_mtime = wall\<rparr> w)"

text \<open>\<^verbatim>\<open>write_all\<close> and the \<^verbatim>\<open>flush\<close> that makes its bytes reach the file.\<close>

definition write_flush :: "nat \<Rightarrow> string \<Rightarrow> nat \<Rightarrow> string \<Rightarrow> ('s BackupWorld, IoError, unit) eff" where
  "write_flush wall path off bytes w =
     (case bw_io w of
        Some k # xs \<Rightarrow> (Inl IoOther, write_bytes wall path off (take k bytes) (w\<lparr>bw_io := xs\<rparr>))
      | None # xs \<Rightarrow> (Inr (), write_bytes wall path off bytes (w\<lparr>bw_io := xs\<rparr>))
      | [] \<Rightarrow> (Inr (), write_bytes wall path off bytes w))"

section \<open>The upload store\<close>

definition uploads_key :: "string \<Rightarrow> string" where
  "uploads_key user_id = ''backup:uploads:'' @ user_id"

definition uploads_load ::
  "BackupEnv \<Rightarrow> 's KvStore \<Rightarrow> nat \<Rightarrow> string \<Rightarrow> ('s BackupWorld, BackupError, Uploads) eff" where
  "uploads_load E K now user_id =
     bindE (map_errE (\<lambda>e. BkInternal (show_kv_error e)) (onkv (kv_get K now (uploads_key user_id)))) (\<lambda>ov.
     case ov of
       None \<Rightarrow> okE []
     | Some raw \<Rightarrow>
         (case be_uploads_parse E raw of
            None \<Rightarrow> errE (BkJson (je_json_error (be_jobs E) raw))
          | Some m \<Rightarrow> okE m))"

definition uploads_save ::
  "BackupEnv \<Rightarrow> 's KvStore \<Rightarrow> nat \<Rightarrow> string \<Rightarrow> Uploads \<Rightarrow> ('s BackupWorld, BackupError, unit) eff" where
  "uploads_save E K now user_id m =
     map_errE (\<lambda>e. BkInternal (show_kv_error e))
       (onkv (kv_set K now (uploads_key user_id) (be_uploads_json E m) (Some (24 * 3600))))"

definition staging_dir :: "string \<Rightarrow> string" where
  "staging_dir data_dir = path_join (path_join data_dir ''backups'') ''staging''"

definition upload_path :: "BackupEnv \<Rightarrow> string \<Rightarrow> string \<Rightarrow> string \<Rightarrow> UploadError + string" where
  "upload_path E data_dir i ext =
     (case be_uuid_parse E i of
        None \<Rightarrow> Inl UpNotFound
      | Some uuid \<Rightarrow> Inr (path_join (staging_dir data_dir) (''upload-'' @ uuid @ ''.'' @ ext)))"

definition upload_start ::
  "BackupEnv \<Rightarrow> 's KvStore \<Rightarrow> BackupDraws \<Rightarrow> string \<Rightarrow> string \<Rightarrow> ('s BackupWorld, UploadError, string) eff" where
  "upload_start E K D data_dir user_id =
     bindE (map_errE UpIo (create_dir_all (staging_dir data_dir))) (\<lambda>_.
     bindE (map_errE UpIo fs_touch) (\<lambda>_.
     bindE (ofE (upload_path E data_dir (bd_uuid D) ''part'')) (\<lambda>path.
     bindE (map_errE UpIo (create_new (bd_wall D) path)) (\<lambda>_.
     bindE (map_errE UpBackup (uploads_load E K (dr_now D) user_id)) (\<lambda>m.
     bindE (map_errE UpBackup (uploads_save E K (dr_now D) user_id
       (AList.update (bd_uuid D) \<lparr>um_chunk_sizes = [], um_created_at = dr_stamp D\<rparr> m))) (\<lambda>_.
     okE (bd_uuid D)))))))"

text \<open>\<^verbatim>\<open>chunk_sizes.resize(idx + 1, 0)\<close> when it is too short, then the assignment. The length fits the
  32 bits of the entry: it is at most \<open>CHUNK_SIZE\<close>.\<close>

definition mark_received :: "nat \<Rightarrow> nat \<Rightarrow> nat list \<Rightarrow> nat list" where
  "mark_received idx len sizes =
     (if length sizes \<le> idx then sizes @ replicate (idx + 1 - length sizes) 0 else sizes)[idx := len]"

definition upload_put_chunk ::
  "BackupEnv \<Rightarrow> 's KvStore \<Rightarrow> BackupDraws \<Rightarrow> string \<Rightarrow> string \<Rightarrow> string \<Rightarrow> nat \<Rightarrow> string
    \<Rightarrow> ('s BackupWorld, UploadError, unit) eff" where
  "upload_put_chunk E K D data_dir user_id upload_id n bytes =
     (if bytes = [] then errE UpEmptyChunk
      else if CHUNK_SIZE < length bytes then errE UpOversizedChunk
      else if MAX_CHUNKS \<le> n then errE (UpChunkOutOfRange n)
      else
       bindE (map_errE UpBackup (uploads_load E K (dr_now D) user_id)) (\<lambda>m.
       case map_of m upload_id of
         None \<Rightarrow> errE UpNotFound
       | Some meta \<Rightarrow>
          bindE (ofE (upload_path E data_dir upload_id ''part'')) (\<lambda>path.
          bindE (map_errE UpIo (stat path)) (\<lambda>_.
          bindE (map_errE UpIo fs_touch) (\<lambda>_.
          bindE (map_errE UpIo (write_flush (bd_wall D) path (n * CHUNK_SIZE) bytes)) (\<lambda>_.
          map_errE UpBackup (uploads_save E K (dr_now D) user_id
            (AList.update upload_id
              (meta\<lparr>um_chunk_sizes := mark_received n (length bytes) (um_chunk_sizes meta)\<rparr>) m))))))))"

definition recorded_size :: "UploadMeta \<Rightarrow> nat \<Rightarrow> nat" where
  "recorded_size meta i =
     (if i < length (um_chunk_sizes meta) then um_chunk_sizes meta ! i else 0)"

definition bad_chunks :: "UploadMeta \<Rightarrow> nat \<Rightarrow> nat list" where
  "bad_chunks meta total_chunks = filter (\<lambda>i.
     (let size = recorded_size meta i
      in if i = total_chunks - 1 then size = 0 \<or> CHUNK_SIZE < size else size \<noteq> CHUNK_SIZE))
     [0..<total_chunks]"

definition upload_finish ::
  "BackupEnv \<Rightarrow> 's KvStore \<Rightarrow> BackupDraws \<Rightarrow> string \<Rightarrow> string \<Rightarrow> string \<Rightarrow> nat
    \<Rightarrow> ('s BackupWorld, UploadError, string) eff" where
  "upload_finish E K D data_dir user_id upload_id total_chunks =
     (if total_chunks = 0 \<or> MAX_CHUNKS < total_chunks then errE (UpChunkOutOfRange total_chunks)
      else
       bindE (map_errE UpBackup (uploads_load E K (dr_now D) user_id)) (\<lambda>m.
       case map_of m upload_id of
         None \<Rightarrow> errE UpNotFound
       | Some meta \<Rightarrow>
          if bad_chunks meta total_chunks \<noteq> [] then errE (UpIncomplete (bad_chunks meta total_chunks))
          else
           bindE (ofE (upload_path E data_dir upload_id ''part'')) (\<lambda>part.
           bindE (map_errE UpIo (stat part)) (\<lambda>f.
           if length (f_bytes f) \<noteq> sum_list (map (\<lambda>i. um_chunk_sizes meta ! i) [0..<total_chunks])
           then errE (UpIncomplete [0..<total_chunks])
           else
            bindE (ofE (upload_path E data_dir upload_id ''lyra'')) (\<lambda>final_path.
            bindE (map_errE UpIo (rename part final_path)) (\<lambda>_.
            bindE (map_errE UpBackup (uploads_save E K (dr_now D) user_id (AList.delete upload_id m))) (\<lambda>_.
            okE final_path)))))))"

text \<open>The names in a directory, and the loop of the sweep over them.\<close>

definition dir_names :: "string \<Rightarrow> (string \<times> StagedFile) list \<Rightarrow> string list" where
  "dir_names dir files = filter (\<lambda>name. CHR ''/'' \<notin> set name)
     (List.map_filter (\<lambda>(path, f). strip_prefix path (dir @ ''/'')) files)"

definition is_upload_name :: "string \<Rightarrow> bool" where
  "is_upload_name name \<longleftrightarrow> starts_with name ''upload-'' \<and>
     (case extension name of
        None \<Rightarrow> False
      | Some ext \<Rightarrow> to_ascii_lowercase ext = ''part'' \<or> to_ascii_lowercase ext = ''lyra'')"

definition stale_upload :: "nat \<Rightarrow> StagedFile \<Rightarrow> bool" where
  "stale_upload now f \<longleftrightarrow> f_mtime f \<le> now \<and> STALE_UPLOAD_AGE \<le> now - f_mtime f"

fun sweep_entries ::
  "nat \<Rightarrow> string \<Rightarrow> string list \<Rightarrow> nat \<Rightarrow> ('s BackupWorld, IoError, nat) eff" where
  "sweep_entries now dir [] removed = bindE fs_touch (\<lambda>_. okE removed)"
| "sweep_entries now dir (name # names) removed =
     bindE fs_touch (\<lambda>_.
     if \<not> is_upload_name name then sweep_entries now dir names removed
     else
      bindE (okOptE (stat (path_join dir name))) (\<lambda>m.
      case m of
        None \<Rightarrow> sweep_entries now dir names removed
      | Some f \<Rightarrow>
          if \<not> stale_upload now f then sweep_entries now dir names removed
          else
           bindE (okOptE (remove_file (path_join dir name))) (\<lambda>r.
           sweep_entries now dir names (if r = None then removed else removed + 1))))"

definition sweep_stale_uploads ::
  "BackupEnv \<Rightarrow> string \<Rightarrow> nat \<Rightarrow> ('s BackupWorld, BackupError, nat) eff" where
  "sweep_stale_uploads E data_dir now w =
     (case fs (\<lambda>w. if staging_dir data_dir \<in> bw_dirs w
                then (Inr (dir_names (staging_dir data_dir) (bw_files w)), w)
                else (Inl IoNotFound, w)) w of
        (Inl IoNotFound, w1) \<Rightarrow> (Inr 0, w1)
      | (Inl e, w1) \<Rightarrow> (Inl (BkIo (be_show_io E e)), w1)
      | (Inr names, w1) \<Rightarrow>
          map_errE (\<lambda>e. BkIo (be_show_io E e)) (sweep_entries now (staging_dir data_dir) names 0) w1)"

section \<open>The artifact registry\<close>

definition artifacts_key :: "string \<Rightarrow> string" where
  "artifacts_key user_id = ''backup:artifacts:'' @ user_id"

definition artifacts_list ::
  "BackupEnv \<Rightarrow> 's KvStore \<Rightarrow> nat \<Rightarrow> string \<Rightarrow> ('s BackupWorld, BackupError, ArtifactMeta list) eff" where
  "artifacts_list E K now user_id =
     bindE (map_errE (\<lambda>e. BkInternal (show_kv_error e)) (onkv (kv_get K now (artifacts_key user_id)))) (\<lambda>ov.
     case ov of
       None \<Rightarrow> okE []
     | Some raw \<Rightarrow>
         (case be_artifacts_parse E raw of
            None \<Rightarrow> errE (BkJson (je_json_error (be_jobs E) raw))
          | Some items \<Rightarrow> okE items))"

definition artifacts_save ::
  "BackupEnv \<Rightarrow> 's KvStore \<Rightarrow> nat \<Rightarrow> string \<Rightarrow> ArtifactMeta list \<Rightarrow> ('s BackupWorld, BackupError, unit) eff" where
  "artifacts_save E K now user_id items =
     map_errE (\<lambda>e. BkInternal (show_kv_error e))
       (onkv (kv_set K now (artifacts_key user_id) (be_artifacts_json E items) None))"

definition artifacts_add ::
  "BackupEnv \<Rightarrow> 's KvStore \<Rightarrow> nat \<Rightarrow> string \<Rightarrow> ArtifactMeta \<Rightarrow> ('s BackupWorld, BackupError, unit) eff" where
  "artifacts_add E K now user_id meta =
     bindE (artifacts_list E K now user_id) (\<lambda>items.
     artifacts_save E K now user_id (items @ [meta]))"

fun remove_first :: "('a \<Rightarrow> bool) \<Rightarrow> 'a list \<Rightarrow> ('a \<times> 'a list) option" where
  "remove_first P [] = None"
| "remove_first P (x # xs) =
     (if P x then Some (x, xs) else map_option (map_prod id ((#) x)) (remove_first P xs))"

definition artifacts_remove ::
  "BackupEnv \<Rightarrow> 's KvStore \<Rightarrow> nat \<Rightarrow> string \<Rightarrow> string \<Rightarrow> ('s BackupWorld, BackupError, ArtifactMeta option) eff" where
  "artifacts_remove E K now user_id i =
     bindE (artifacts_list E K now user_id) (\<lambda>items.
     case remove_first (\<lambda>m. am_id m = i) items of
       None \<Rightarrow> okE None
     | Some (meta, rest) \<Rightarrow>
         bindE (artifacts_save E K now user_id rest) (\<lambda>_. okE (Some meta)))"

definition artifact_path :: "BackupEnv \<Rightarrow> string \<Rightarrow> string \<Rightarrow> BackupError + string" where
  "artifact_path E data_dir i =
     (case be_uuid_parse E i of
        None \<Rightarrow> Inl (BkInternal (''invalid artifact id: '' @ i))
      | Some uuid \<Rightarrow> Inr (path_join (path_join data_dir ''backups'') (uuid @ ''.lyra'')))"

section \<open>Error answers\<close>

text \<open>Status, message and code of the answer.\<close>

fun backup_error_response :: "BackupError \<Rightarrow> nat \<times> string \<times> string option" where
  "backup_error_response BkInvalidPassword =
     (422, ''invalid backup password'', Some ''invalid_backup_password'')"
| "backup_error_response BkUnsupportedFormat =
     (422, ''unsupported backup format'', Some ''unsupported_backup_format'')"
| "backup_error_response BkCorruptArchive = (422, ''corrupt archive'', Some ''corrupt_archive'')"
| "backup_error_response BkUploadIncomplete = (400, ''upload incomplete'', Some ''upload_incomplete'')"
| "backup_error_response _ = (500, ''internal error'', Some ''internal_error'')"

definition show_u32_vec :: "nat list \<Rightarrow> string" where
  "show_u32_vec ns = ''['' @ join_with '', '' (map show_nat ns) @ '']''"

fun upload_error_response :: "BackupEnv \<Rightarrow> UploadError \<Rightarrow> nat \<times> string \<times> string option" where
  "upload_error_response E UpNotFound = (404, ''upload not found'', code_for_status 404)"
| "upload_error_response E (UpIncomplete missing) =
     (400, ''upload incomplete; missing chunks: '' @ show_u32_vec missing, Some ''upload_incomplete'')"
| "upload_error_response E (UpChunkOutOfRange n) =
     (400, ''chunk index '' @ show_nat n @ '' out of range (max '' @ show_nat MAX_CHUNKS @ '' chunks)'',
      code_for_status 400)"
| "upload_error_response E UpEmptyChunk = (400, ''empty chunk body'', code_for_status 400)"
| "upload_error_response E UpOversizedChunk =
     (400, ''chunk exceeds the 8 MiB chunk size'', code_for_status 400)"
| "upload_error_response E (UpIo e) = backup_error_response (BkIo (be_show_io E e))"
| "upload_error_response E (UpBackup err) = backup_error_response err"

datatype BackupHttpError =
    BhNotFound string | BhBadRequest string | BhBackup BackupError | BhUpload UploadError

fun backup_http_response :: "BackupEnv \<Rightarrow> BackupHttpError \<Rightarrow> nat \<times> string \<times> string option" where
  "backup_http_response E (BhNotFound m) = (404, m, code_for_status 404)"
| "backup_http_response E (BhBadRequest m) = (400, m, code_for_status 400)"
| "backup_http_response E (BhBackup e) = backup_error_response e"
| "backup_http_response E (BhUpload e) = upload_error_response E e"

section \<open>The handlers\<close>

text \<open>\<open>Lyra_Crypto.encrypt\<close> under the user's DEK; the envelope is the job's \<^verbatim>\<open>password_wrapped\<close>.\<close>

definition wrap_password ::
  "BackupEnv \<Rightarrow> BackupDraws \<Rightarrow> string \<Rightarrow> string \<Rightarrow> ('s BackupWorld, BackupError, string) eff" where
  "wrap_password E D user_id password =
     bindE (map_errE (\<lambda>e. BkCrypto (je_show_crypto (be_jobs E) e))
       (onusers (get_user_dek (be_prims E) (dr_nonces D) (dr_wrap_nonce D) (dr_fresh_dek D)
          (dr_master D) user_id))) (\<lambda>dek.
     case encrypt (be_prims E) (bd_nonce D) dek password of
       Inl e \<Rightarrow> errE (BkCrypto (je_show_crypto (be_jobs E) e))
     | Inr envelope \<Rightarrow> okE (cred_to_json (be_prims E) envelope))"

definition progress_key :: "string \<Rightarrow> string" where
  "progress_key job_id = ''backup:progress:'' @ job_id"

definition enqueue_job ::
  "BackupEnv \<Rightarrow> BackupDraws \<Rightarrow> JobPayload \<Rightarrow> ('s BackupWorld, BackupHttpError, string) eff" where
  "enqueue_job E D payload =
     map_errE (\<lambda>e. BhBackup (BkDb e))
       (ondb (enqueue (be_jobs E) (bd_job_id D) (dr_stamp D) payload (dr_stamp D)))"

text \<open>Answers 202 with the job and artifact ids.\<close>

definition start_export ::
  "BackupEnv \<Rightarrow> 's KvStore \<Rightarrow> BackupDraws \<Rightarrow> string \<Rightarrow> string
    \<Rightarrow> ('s BackupWorld, BackupHttpError, string \<times> string) eff" where
  "start_export E K D user_id password =
     (if length password < 8 then errE (BhBadRequest ''password must be at least 8 characters'')
      else
       bindE (map_errE BhBackup (wrap_password E D user_id password)) (\<lambda>password_wrapped.
       bindE (enqueue_job E D (ExportBackup user_id (bd_uuid D) password_wrapped)) (\<lambda>job_id.
       bindE (okOptE (onkv (kv_set K (dr_now D) (progress_key job_id) ''{\"phase\":\"queued\"}'' (Some 3600)))) (\<lambda>_.
       okE (job_id, bd_uuid D)))))"

definition read_kv_json ::
  "BackupEnv \<Rightarrow> 's KvStore \<Rightarrow> nat \<Rightarrow> string \<Rightarrow> ('s BackupWorld, BackupError, Json) eff" where
  "read_kv_json E K now key =
     bindE (map_errE (\<lambda>e. BkInternal (show_kv_error e)) (onkv (kv_get K now key))) (\<lambda>ov.
     okE (case Option.bind ov (be_json_parse E) of None \<Rightarrow> JNull | Some j \<Rightarrow> j))"

fun payload_owner :: "JobPayload option \<Rightarrow> string option" where
  "payload_owner (Some (ExportBackup uid _ _)) = Some uid"
| "payload_owner (Some (ImportBackup uid _ _)) = Some uid"
| "payload_owner _ = None"

definition backup_job_status ::
  "BackupEnv \<Rightarrow> 's KvStore \<Rightarrow> BackupDraws \<Rightarrow> string \<Rightarrow> string
    \<Rightarrow> ('s BackupWorld, BackupHttpError, string \<times> Json \<times> Json) eff" where
  "backup_job_status E K D user_id job_id =
     bindE (map_errE (\<lambda>e. BhBackup (BkDb e)) (ondb (job_status (be_jobs E) job_id))) (\<lambda>row.
     case row of
       None \<Rightarrow> errE (BhNotFound ''job not found'')
     | Some r \<Rightarrow>
        if payload_owner (js_payload r) \<noteq> Some user_id then errE (BhNotFound ''job not found'')
        else
         bindE (map_errE BhBackup (read_kv_json E K (dr_now D) (progress_key job_id))) (\<lambda>progress.
         bindE (map_errE BhBackup (read_kv_json E K (dr_now D) (''backup:report:'' @ job_id))) (\<lambda>report.
         okE (js_status r, progress, report))))"

definition list_artifacts ::
  "BackupEnv \<Rightarrow> 's KvStore \<Rightarrow> BackupDraws \<Rightarrow> string
    \<Rightarrow> ('s BackupWorld, BackupHttpError, ArtifactMeta list) eff" where
  "list_artifacts E K D user_id = map_errE BhBackup (artifacts_list E K (dr_now D) user_id)"

definition safe_name :: "string \<Rightarrow> string" where
  "safe_name = filter (\<lambda>c. is_ascii_alphanumeric c \<or> c \<in> set ''.-_'')"

text \<open>The body and the \<^verbatim>\<open>Content-Disposition\<close> header.\<close>

definition download_artifact ::
  "BackupEnv \<Rightarrow> 's KvStore \<Rightarrow> BackupDraws \<Rightarrow> string \<Rightarrow> string \<Rightarrow> string
    \<Rightarrow> ('s BackupWorld, BackupHttpError, string \<times> string) eff" where
  "download_artifact E K D data_dir user_id i =
     bindE (map_errE BhBackup (artifacts_list E K (dr_now D) user_id)) (\<lambda>items.
     case find (\<lambda>m. am_id m = i) items of
       None \<Rightarrow> errE (BhNotFound ''artifact not found'')
     | Some meta \<Rightarrow>
        bindE (map_errE BhBackup (ofE (artifact_path E data_dir i))) (\<lambda>path.
        bindE (map_errE (\<lambda>e. if e = IoNotFound then BhNotFound ''artifact file missing''
                          else BhBackup (BkIo (be_show_io E e))) (stat path)) (\<lambda>f.
        case be_header_value E
            (''attachment; filename=\"'' @ safe_name (am_filename meta) @ ''\"'') of
          None \<Rightarrow> errE (BhBackup (BkInternal ''failed to parse header value''))
        | Some h \<Rightarrow> okE (f_bytes f, h))))"

definition delete_artifact ::
  "BackupEnv \<Rightarrow> 's KvStore \<Rightarrow> BackupDraws \<Rightarrow> string \<Rightarrow> string \<Rightarrow> string
    \<Rightarrow> ('s BackupWorld, BackupHttpError, unit) eff" where
  "delete_artifact E K D data_dir user_id i =
     bindE (map_errE BhBackup (artifacts_remove E K (dr_now D) user_id i)) (\<lambda>r.
     case r of
       None \<Rightarrow> errE (BhNotFound ''artifact not found'')
     | Some _ \<Rightarrow>
        (case artifact_path E data_dir i of
           Inl _ \<Rightarrow> okE ()
         | Inr path \<Rightarrow> bindE (okOptE (remove_file path)) (\<lambda>_. okE ())))"

definition start_upload ::
  "BackupEnv \<Rightarrow> 's KvStore \<Rightarrow> BackupDraws \<Rightarrow> string \<Rightarrow> string \<Rightarrow> ('s BackupWorld, BackupHttpError, string) eff" where
  "start_upload E K D data_dir user_id =
     bindE (okOptE (sweep_stale_uploads E data_dir (bd_wall D))) (\<lambda>_.
     map_errE BhUpload (upload_start E K D data_dir user_id))"

definition put_chunk ::
  "BackupEnv \<Rightarrow> 's KvStore \<Rightarrow> BackupDraws \<Rightarrow> string \<Rightarrow> string \<Rightarrow> string \<Rightarrow> nat \<Rightarrow> string
    \<Rightarrow> ('s BackupWorld, BackupHttpError, unit) eff" where
  "put_chunk E K D data_dir user_id i n body =
     map_errE BhUpload (upload_put_chunk E K D data_dir user_id i n body)"

definition finish_upload ::
  "BackupEnv \<Rightarrow> 's KvStore \<Rightarrow> BackupDraws \<Rightarrow> string \<Rightarrow> string \<Rightarrow> string \<Rightarrow> string \<Rightarrow> nat
    \<Rightarrow> ('s BackupWorld, BackupHttpError, string) eff" where
  "finish_upload E K D data_dir user_id i password total_chunks =
     bindE (map_errE BhUpload (upload_finish E K D data_dir user_id i total_chunks)) (\<lambda>_.
     bindE (map_errE BhBackup (wrap_password E D user_id password)) (\<lambda>password_wrapped.
     enqueue_job E D (ImportBackup user_id i password_wrapped)))"

end
