(* ===== verification/Lyra_BackupLaws.thy ===== *)
theory Lyra_BackupLaws
  imports Lyra_Backup
begin

text \<open>
  Laws of the chunked upload: what a write at an offset does to a file, what a registry entry
  promises of the staged file, and that every request of \<open>Lyra_Backup\<close> keeps that promise, whatever
  fails in it. Most requests only make entries and \<^verbatim>\<open>.part\<close> files disappear (\<open>fading\<close>); creating and
  writing are treated apart. The locale \<open>kv_atomic\<close> is the contract of the kv store used here: a
  failed \<^verbatim>\<open>set\<close> leaves the old value or the new one.
\<close>

section \<open>Writes at an offset\<close>

lemma length_write_at:
  "length (write_at off bytes old) =
     (if bytes = [] then length old else max (length old) (off + length bytes))"
  by (auto simp: write_at_def)

lemma nth_write_at:
  assumes "p < length (write_at off bytes old)"
  shows "write_at off bytes old ! p =
    (if off \<le> p \<and> p < off + length bytes then bytes ! (p - off)
     else if p < length old then old ! p else CHR 0x00)"
proof (cases "bytes = []")
  case False
  from False assms show ?thesis
    by (auto simp: write_at_def nth_append min_def split: if_splits)
next
  case True
  with assms show ?thesis by (auto simp: write_at_def)
qed

lemma write_at_same:
  assumes "bytes \<noteq> []"
  shows "take (length bytes) (drop off (write_at off bytes old)) = bytes"
proof -
  have "drop off (write_at off bytes old) = bytes @ drop (off + length bytes) old"
    using assms by (cases "off \<le> length old") (simp_all add: write_at_def)
  then show ?thesis by simp
qed

lemma take_drop_bound:
  assumes "take (length s) (drop a xs) = s" and "s \<noteq> []"
  shows "a + length s \<le> length xs"
proof -
  from arg_cong [OF assms(1), of length] have "length s \<le> length xs - a"
    by simp
  moreover from assms(2) have "0 < length s"
    by simp
  ultimately show ?thesis by linarith
qed

lemma write_at_other:
  assumes "a + l \<le> off \<or> off + length bytes \<le> a" and "a + l \<le> length old"
  shows "take l (drop a (write_at off bytes old)) = take l (drop a old)"
proof (rule nth_equalityI)
  show "length (take l (drop a (write_at off bytes old))) = length (take l (drop a old))"
    using assms(2) by (simp add: length_write_at)
  fix j assume "j < length (take l (drop a (write_at off bytes old)))"
  with assms show "take l (drop a (write_at off bytes old)) ! j = take l (drop a old) ! j"
    by (auto simp: nth_write_at length_write_at split: if_splits)
qed

text \<open>Writing a prefix of what is there already changes nothing that is there.\<close>

lemma write_at_prefix:
  assumes "take (length s) (drop off old) = s"
  shows "take (length s) (drop off (write_at off (take k s) old)) = s"
proof (cases "s = []")
  case False
  have bound: "off + length s \<le> length old"
    by (rule take_drop_bound [OF assms False])
  have at: "old ! (off + j) = s ! j" if "j < length s" for j
    using arg_cong [OF assms, of "\<lambda>xs. xs ! j"] bound that by simp
  show ?thesis
  proof (rule nth_equalityI)
    show "length (take (length s) (drop off (write_at off (take k s) old))) = length s"
      using bound by (simp add: length_write_at)
    fix j assume "j < length (take (length s) (drop off (write_at off (take k s) old)))"
    with bound at show "take (length s) (drop off (write_at off (take k s) old)) ! j = s ! j"
      by (auto simp: nth_write_at length_write_at split: if_splits)
  qed
qed simp

section \<open>What a registry entry promises of the staged file\<close>

definition staged :: "(nat \<Rightarrow> string) \<Rightarrow> UploadMeta \<Rightarrow> string \<Rightarrow> bool" where
  "staged src meta f \<longleftrightarrow> (\<forall>n. recorded_size meta n \<noteq> 0 \<longrightarrow>
     recorded_size meta n = length (src n) \<and> length (src n) \<le> CHUNK_SIZE \<and>
     take (length (src n)) (drop (n * CHUNK_SIZE) f) = src n)"

lemma stagedD:
  assumes "staged src meta f" and "recorded_size meta n \<noteq> 0"
  shows "recorded_size meta n = length (src n)" and "length (src n) \<le> CHUNK_SIZE"
    and "take (length (src n)) (drop (n * CHUNK_SIZE) f) = src n" and "src n \<noteq> []"
  using assms unfolding staged_def by (metis list.size(3))+

lemma recorded_size_mark [simp]:
  "recorded_size (meta\<lparr>um_chunk_sizes := mark_received n l (um_chunk_sizes meta)\<rparr>) k =
     (if k = n then l else recorded_size meta k)"
  by (auto simp: recorded_size_def mark_received_def nth_append)

lemma CHUNK_SIZE_pos [simp]: "0 < CHUNK_SIZE"
  by (simp add: CHUNK_SIZE_def)

lemma other_chunk:
  assumes "n \<noteq> m" and "l \<le> CHUNK_SIZE" and "k \<le> CHUNK_SIZE"
  shows "n * CHUNK_SIZE + l \<le> m * CHUNK_SIZE \<or> m * CHUNK_SIZE + k \<le> n * CHUNK_SIZE"
proof (cases "n < m")
  case True
  then have "Suc n * CHUNK_SIZE \<le> m * CHUNK_SIZE"
    by (intro mult_le_mono1) simp
  with assms(2) show ?thesis by simp
next
  case False
  with assms(1) have "Suc m * CHUNK_SIZE \<le> n * CHUNK_SIZE"
    by (intro mult_le_mono1) simp
  with assms(3) show ?thesis by simp
qed

lemma staged_bound:
  assumes "staged src meta f" and "recorded_size meta n \<noteq> 0"
  shows "n * CHUNK_SIZE + length (src n) \<le> length f"
  by (rule take_drop_bound [OF stagedD(3) [OF assms] stagedD(4) [OF assms]])

lemma staged_other_write:
  assumes "staged src meta f" and "recorded_size meta n \<noteq> 0" and "n \<noteq> m"
    and "length bytes \<le> CHUNK_SIZE"
  shows "take (length (src n)) (drop (n * CHUNK_SIZE) (write_at (m * CHUNK_SIZE) bytes f)) = src n"
proof -
  have "take (length (src n)) (drop (n * CHUNK_SIZE) (write_at (m * CHUNK_SIZE) bytes f)) =
      take (length (src n)) (drop (n * CHUNK_SIZE) f)"
    by (intro write_at_other other_chunk staged_bound [OF assms(1,2)] stagedD(2) [OF assms(1,2)] assms)
  also have "\<dots> = src n"
    by (rule stagedD(3) [OF assms(1,2)])
  finally show ?thesis .
qed

text \<open>A write cut short keeps the promise; a whole write extends it to its chunk.\<close>

lemma staged_partial:
  assumes "staged src meta f" and "length (src m) \<le> CHUNK_SIZE"
  shows "staged src meta (write_at (m * CHUNK_SIZE) (take k (src m)) f)"
  unfolding staged_def
proof (intro allI impI conjI)
  fix n assume n: "recorded_size meta n \<noteq> 0"
  show "recorded_size meta n = length (src n)" "length (src n) \<le> CHUNK_SIZE"
    by (rule stagedD [OF assms(1) n])+
  show "take (length (src n)) (drop (n * CHUNK_SIZE) (write_at (m * CHUNK_SIZE) (take k (src m)) f)) = src n"
  proof (cases "n = m")
    case True
    with stagedD(3) [OF assms(1) n] show ?thesis
      by (auto intro: write_at_prefix)
  next
    case False
    with assms n show ?thesis
      by (intro staged_other_write) auto
  qed
qed

lemma staged_write:
  assumes "staged src meta f" and "src m \<noteq> []" and "length (src m) \<le> CHUNK_SIZE"
  shows "staged src (meta\<lparr>um_chunk_sizes := mark_received m (length (src m)) (um_chunk_sizes meta)\<rparr>)
    (write_at (m * CHUNK_SIZE) (src m) f)"
  unfolding staged_def
proof (intro allI impI conjI)
  let ?meta = "meta\<lparr>um_chunk_sizes := mark_received m (length (src m)) (um_chunk_sizes meta)\<rparr>"
  fix n assume n: "recorded_size ?meta n \<noteq> 0"
  show "recorded_size ?meta n = length (src n)" "length (src n) \<le> CHUNK_SIZE"
    using n assms(3) stagedD(1,2) [OF assms(1), of n] by (auto split: if_splits)
  show "take (length (src n)) (drop (n * CHUNK_SIZE) (write_at (m * CHUNK_SIZE) (src m) f)) = src n"
  proof (cases "n = m")
    case True
    with assms(2) show ?thesis by (simp add: write_at_same)
  next
    case False
    with assms n show ?thesis
      by (intro staged_other_write) auto
  qed
qed

lemma staged_fresh [simp]: "staged src \<lparr>um_chunk_sizes = [], um_created_at = c\<rparr> f"
  by (simp add: staged_def recorded_size_def)

text \<open>A file whose recorded chunks pass the checks of \<^verbatim>\<open>finish\<close> is the concatenation of its chunks.\<close>

lemma bad_chunks_Nil:
  "bad_chunks meta tot = [] \<longleftrightarrow>
     (\<forall>i<tot. if i = tot - 1 then recorded_size meta i \<noteq> 0 \<and> recorded_size meta i \<le> CHUNK_SIZE
        else recorded_size meta i = CHUNK_SIZE)"
  by (auto simp: bad_chunks_def filter_empty_conv Let_def not_less split: if_splits)

lemma recorded_size_nth:
  "recorded_size meta i \<noteq> 0 \<Longrightarrow> um_chunk_sizes meta ! i = recorded_size meta i"
  by (simp add: recorded_size_def split: if_splits)

lemma full_chunks_prefix:
  assumes "\<And>i. i < k \<Longrightarrow> take CHUNK_SIZE (drop (i * CHUNK_SIZE) f) = src i"
  shows "take (k * CHUNK_SIZE) f = concat (map src [0..<k])"
  using assms
proof (induction k)
  case (Suc k)
  have "take (Suc k * CHUNK_SIZE) f = take (k * CHUNK_SIZE) f @ take CHUNK_SIZE (drop (k * CHUNK_SIZE) f)"
    by (simp only: mult_Suc add.commute [of CHUNK_SIZE] take_add)
  also have "\<dots> = concat (map src [0..<Suc k])"
    using Suc by simp
  finally show ?case .
qed simp

lemma assembled:
  assumes st: "staged src meta f" and ok: "bad_chunks meta tot = []" and pos: "0 < tot"
    and len: "length f = sum_list (map (\<lambda>i. um_chunk_sizes meta ! i) [0..<tot])"
  shows "f = concat (map src [0..<tot])"
proof -
  define k where "k = tot - 1"
  have tot: "tot = Suc k" using pos by (simp add: k_def)
  have rec: "recorded_size meta i \<noteq> 0" "i < k \<Longrightarrow> recorded_size meta i = CHUNK_SIZE" if "i < tot" for i
    using ok that CHUNK_SIZE_pos unfolding bad_chunks_Nil k_def by (metis less_numeral_extra(3) nat_neq_iff)+
  have src: "um_chunk_sizes meta ! i = length (src i)"
      "take (length (src i)) (drop (i * CHUNK_SIZE) f) = src i" if "i < tot" for i
    using stagedD(1,3) [OF st rec(1) [OF that]] recorded_size_nth [OF rec(1) [OF that]] by simp_all
  have full: "length (src i) = CHUNK_SIZE" if "i < k" for i
    using rec [of i] src(1) [of i] that tot recorded_size_nth [of meta i] by simp
  have pre: "take (k * CHUNK_SIZE) f = concat (map src [0..<k])"
    by (rule full_chunks_prefix) (use full src(2) tot in \<open>metis less_SucI\<close>)
  have "length f = k * CHUNK_SIZE + length (src k)"
  proof -
    have "map (\<lambda>i. um_chunk_sizes meta ! i) [0..<k] = map (\<lambda>_. CHUNK_SIZE) [0..<k]"
      using src(1) full tot by (intro map_cong) auto
    from arg_cong [OF this, of sum_list]
    have "sum_list (map (\<lambda>i. um_chunk_sizes meta ! i) [0..<k]) = k * CHUNK_SIZE"
      by (simp only: sum_list_triv length_upt diff_zero of_nat_id)
    with src(1) [of k] show ?thesis
      by (simp add: len tot)
  qed
  then have "drop (k * CHUNK_SIZE) f = src k"
    using src(2) [of k] tot by simp
  with pre have "f = concat (map src [0..<k]) @ src k"
    by (metis append_take_drop_id)
  then show ?thesis by (simp add: tot)
qed


section \<open>The contract of the store behind the uploads\<close>

text \<open>A kv store whose failed \<open>set\<close> leaves the old value or the new one.\<close>

locale kv_atomic = kv_store +
  assumes set_fail: "kv_set K now k v ttl s = (Inl e, s') \<Longrightarrow> now \<le> t \<Longrightarrow>
    view t s' = view t s \<or>
    view t s' = (view t s)(k := if within_ttl ttl now t then Some v else None)"

interpretation mem_atomic: kv_atomic memory_kv mem_view
  by unfold_locales (simp add: mem_set_def)

text \<open>Reading back the JSON text of a registry gives the same entries, in some order.\<close>

definition registry_json :: "BackupEnv \<Rightarrow> bool" where
  "registry_json E \<longleftrightarrow>
     (\<forall>m. \<exists>m'. be_uploads_parse E (be_uploads_json E m) = Some m' \<and> map_of m' = map_of m)"

text \<open>The entry a user's registry shows for an upload id at an instant.\<close>

definition registered ::
  "BackupEnv \<Rightarrow> (nat \<Rightarrow> 's \<Rightarrow> string \<Rightarrow> string option) \<Rightarrow> nat \<Rightarrow> 's BackupWorld \<Rightarrow> string \<Rightarrow> string \<Rightarrow> UploadMeta option" where
  "registered E view t w u i =
     Option.bind (Option.bind (view t (bw_kv w) (uploads_key u)) (be_uploads_parse E)) (\<lambda>m. map_of m i)"

text \<open>From \<open>w\<close> to \<open>w'\<close> registry entries and \<open>.part\<close> files only disappear.\<close>

definition fades ::
  "BackupEnv \<Rightarrow> (nat \<Rightarrow> 's \<Rightarrow> string \<Rightarrow> string option) \<Rightarrow> nat \<Rightarrow> 's BackupWorld \<Rightarrow> 's BackupWorld \<Rightarrow> bool" where
  "fades E view now w w' \<longleftrightarrow>
     (\<forall>u i meta. registered E view now w' u i = Some meta \<longrightarrow>
        registered E view now w u i = Some meta) \<and>
     (\<forall>p f. ends_with p ''.part'' \<longrightarrow> map_of (bw_files w') p = Some f \<longrightarrow>
        map_of (bw_files w) p = Some f)"

definition fading ::
  "BackupEnv \<Rightarrow> (nat \<Rightarrow> 's \<Rightarrow> string \<Rightarrow> string option) \<Rightarrow> nat \<Rightarrow> ('s BackupWorld, 'e, 'a) eff \<Rightarrow> bool" where
  "fading E view now m \<longleftrightarrow> (\<forall>w r w'. m w = (r, w') \<longrightarrow> fades E view now w w')"

lemma fades_refl [simp]: "fades E view now w w"
  by (simp add: fades_def)

lemma fades_trans: "fades E view now w w' \<Longrightarrow> fades E view now w' w'' \<Longrightarrow> fades E view now w w''"
  unfolding fades_def by blast

lemma fadingD: "fading E view now m \<Longrightarrow> m w = (r, w') \<Longrightarrow> fades E view now w w'"
  by (simp add: fading_def)

lemma fading_okE: "fading E view now (okE x)"
  by (simp add: fading_def)

lemma fading_errE: "fading E view now (errE x)"
  by (simp add: fading_def)

lemma fading_ofE: "fading E view now (ofE x)"
  by (simp add: fading_def)

lemma fading_bindE:
  assumes "fading E view now m" and "\<And>x. fading E view now (f x)"
  shows "fading E view now (bindE m f)"
  unfolding fading_def
proof (intro allI impI)
  fix w r w'
  assume "bindE m f w = (r, w')"
  then show "fades E view now w w'"
    by (cases rule: bindE_cases) (use assms in \<open>auto dest: fadingD intro: fades_trans\<close>)
qed

lemma fading_map_errE: "fading E view now m \<Longrightarrow> fading E view now (map_errE g m)"
  unfolding fading_def map_errE_def by (auto split: prod.splits sum.splits)

lemma fading_okOptE: "fading E view now m \<Longrightarrow> fading E view now (okOptE m)"
  unfolding fading_def okOptE_def by (auto split: prod.splits sum.splits)

lemma fades_io [simp]:
  "fades E view now (w\<lparr>bw_io := xs\<rparr>) w' = fades E view now w w'"
  "fades E view now w (w'\<lparr>bw_io := xs\<rparr>) = fades E view now w w'"
  by (simp_all add: fades_def registered_def)

lemma fading_fs:
  assumes "fading E view now m"
  shows "fading E view now (fs m)"
  unfolding fading_def fs_def
  using fadingD [OF assms, of "_\<lparr>bw_io := _\<rparr>"] fadingD [OF assms]
  by (auto split: list.splits option.splits)

lemma fades_drop_file [simp]: "fades E view now w (drop_file p w)"
  by (auto simp: fades_def registered_def drop_file_def AList.delete_conv' split: if_splits)

lemma fading_stat: "fading E view now (stat p)"
  unfolding stat_def by (rule fading_fs) (simp add: fading_def split: option.splits)

lemma fading_touch: "fading E view now fs_touch"
  unfolding fs_touch_def by (intro fading_fs fading_okE)

lemma fading_remove_file: "fading E view now (remove_file p)"
  unfolding remove_file_def by (rule fading_fs) (auto simp: fading_def split: option.splits)

lemma fading_create_dir_all: "fading E view now (create_dir_all d)"
  unfolding create_dir_all_def by (rule fading_fs) (auto simp: fading_def fades_def registered_def)

lemma fading_rename:
  assumes "\<not> ends_with dst ''.part''"
  shows "fading E view now (rename src dst)"
  unfolding rename_def
  by (rule fading_fs)
    (use assms in \<open>auto simp: fading_def fades_def registered_def drop_file_def put_file_def
      AList.delete_conv' AList.update_conv' split: option.splits if_splits\<close>)

lemma fading_ondb: "fading E view now (ondb m)"
  by (auto simp: fading_def ondb_def fades_def registered_def split: prod.splits)

lemma fading_onusers: "fading E view now (onusers m)"
  by (auto simp: fading_def onusers_def fades_def registered_def split: prod.splits)

lemmas fading_intros =
  fading_okE fading_errE fading_ofE fading_bindE fading_map_errE fading_okOptE fading_stat
  fading_touch fading_remove_file fading_create_dir_all fading_ondb fading_onusers

lemma fading_sweep_entries: "fading E view now (sweep_entries wall dir names removed)"
proof (induction names arbitrary: removed)
  case (Cons name names)
  then show ?case
    by (auto intro!: fading_intros split: option.splits)
qed (simp add: fading_intros)

lemma fading_sweep:
  fixes view :: "nat \<Rightarrow> 'a \<Rightarrow> string \<Rightarrow> string option"
  shows "fading E view now (sweep_stale_uploads E' dir wall)"
  unfolding fading_def
proof (intro allI impI)
  fix w w' :: "'a BackupWorld" and r
  let ?read = "fs (\<lambda>w. if staging_dir dir \<in> bw_dirs w
                then (Inr (dir_names (staging_dir dir) (bw_files w)), w) else (Inl IoNotFound, w))"
  assume run: "sweep_stale_uploads E' dir wall w = (r, w')"
  obtain q w1 where q: "?read w = (q, w1)" by fastforce
  have "fading E view now ?read"
    by (rule fading_fs) (simp add: fading_def)
  with q have 1: "fades E view now w w1" by (simp add: fadingD)
  show "fades E view now w w'"
  proof (cases q)
    case (Inl e)
    with run q 1 show ?thesis
      by (cases e) (auto simp: sweep_stale_uploads_def)
  next
    case (Inr names)
    with run q have "map_errE (\<lambda>e. BkIo (be_show_io E' e)) (sweep_entries wall (staging_dir dir) names 0) w1 = (r, w')"
      by (simp add: sweep_stale_uploads_def)
    then have "fades E view now w1 w'"
      by (rule fadingD [OF fading_map_errE [OF fading_sweep_entries]])
    with 1 show ?thesis by (rule fades_trans)
  qed
qed

context kv_store
begin

lemma fading_get: "fading E view now (onkv (kv_get K now k))"
  using get_frame by (auto simp: fading_def onkv_def fades_def registered_def split: prod.splits)

lemma fading_load: "fading E view now (uploads_load E K now u)"
  unfolding uploads_load_def by (auto intro!: fading_intros fading_get split: option.splits)

text \<open>What \<^verbatim>\<open>load\<close> returns is what the registry shows.\<close>

lemma load_registered:
  assumes "uploads_load E K now u w = (Inr m, w')"
  shows "registered E view now w u = map_of m" and "bw_files w' = bw_files w" and "bw_io w' = bw_io w"
    and "\<And>t. now \<le> t \<Longrightarrow> view t (bw_kv w') = view t (bw_kv w)"
proof -
  from assms obtain ov s' where get: "kv_get K now (uploads_key u) (bw_kv w) = (Inr ov, s')"
    and w': "w' = w\<lparr>bw_kv := s'\<rparr>"
    and m: "m = (case ov of None \<Rightarrow> [] | Some raw \<Rightarrow> the (be_uploads_parse E raw))"
       "\<forall>raw. ov = Some raw \<longrightarrow> be_uploads_parse E raw \<noteq> None"
    by (auto simp: uploads_load_def onkv_def elim!: bindE_InrE split: prod.splits option.splits)
  from m show "registered E view now w u = map_of m"
    by (auto simp: registered_def fun_eq_iff get_result [OF get, symmetric] split: option.splits)
  from w' show "bw_files w' = bw_files w" "bw_io w' = bw_io w"
    by simp_all
  from w' get_frame [OF get] show "view t (bw_kv w') = view t (bw_kv w)" if "now \<le> t" for t
    using that by simp
qed

lemma registered_later:
  assumes "now \<le> t" and "registered E view t w u i = Some meta"
  shows "registered E view now w u i = Some meta"
  using assms view_antimono [OF assms(1)] by (auto simp: registered_def bind_eq_Some_conv)

end


section \<open>Runs\<close>

definition part_path :: "string \<Rightarrow> string \<Rightarrow> string" where
  "part_path dir i = path_join (staging_dir dir) (''upload-'' @ i @ ''.part'')"

definition lyra_path :: "string \<Rightarrow> string \<Rightarrow> string" where
  "lyra_path dir i = path_join (staging_dir dir) (''upload-'' @ i @ ''.lyra'')"

text \<open>
  The states an upload server can be in: the instant of the last request, who started which upload,
  and the world. Requests come in any order, from any user, and between two of them the fault script
  may become anything. An upload id is drawn at most once, and it is a UUID text. The user who started
  upload \<open>i\<close> always sends the bytes \<open>src i n\<close> as its chunk \<open>n\<close>; any other request carries anything.
\<close>

inductive upload_run ::
  "BackupEnv \<Rightarrow> 's KvStore \<Rightarrow> (nat \<Rightarrow> 's \<Rightarrow> string \<Rightarrow> string option) \<Rightarrow> string \<Rightarrow> (string \<Rightarrow> nat \<Rightarrow> string)
    \<Rightarrow> nat \<Rightarrow> (string \<rightharpoonup> string) \<Rightarrow> 's BackupWorld \<Rightarrow> bool"
  for E K view dir src where
  ur_init: "\<forall>u. view now (bw_kv w) (uploads_key u) = None \<Longrightarrow> upload_run E K view dir src now Map.empty w"
| ur_faults: "upload_run E K view dir src now own w \<Longrightarrow>
    upload_run E K view dir src now own (w\<lparr>bw_io := xs\<rparr>)"
| ur_start: "upload_run E K view dir src now own w \<Longrightarrow> now \<le> dr_now D \<Longrightarrow> own (bd_uuid D) = None \<Longrightarrow>
    be_uuid_parse E (bd_uuid D) = Some (bd_uuid D) \<Longrightarrow> start_upload E K D dir u w = (r, w') \<Longrightarrow>
    upload_run E K view dir src (dr_now D) (own(bd_uuid D \<mapsto> u)) w'"
| ur_put: "upload_run E K view dir src now own w \<Longrightarrow> now \<le> dr_now D \<Longrightarrow>
    own i = Some u \<longrightarrow> bytes = src i n \<Longrightarrow> put_chunk E K D dir u i n bytes w = (r, w') \<Longrightarrow>
    upload_run E K view dir src (dr_now D) own w'"
| ur_finish: "upload_run E K view dir src now own w \<Longrightarrow> now \<le> dr_now D \<Longrightarrow>
    finish_upload E K D dir u i password n w = (r, w') \<Longrightarrow>
    upload_run E K view dir src (dr_now D) own w'"
| ur_export: "upload_run E K view dir src now own w \<Longrightarrow> now \<le> dr_now D \<Longrightarrow>
    start_export E K D u password w = (r, w') \<Longrightarrow>
    upload_run E K view dir src (dr_now D) own w'"
| ur_delete: "upload_run E K view dir src now own w \<Longrightarrow> now \<le> dr_now D \<Longrightarrow>
    delete_artifact E K D dir u i w = (r, w') \<Longrightarrow>
    upload_run E K view dir src (dr_now D) own w'"

text \<open>The invariant: a registry entry belongs to the user who started the upload, and the staged file,
  as long as it exists, holds every chunk the entry records.\<close>

definition uploads_sound ::
  "BackupEnv \<Rightarrow> (nat \<Rightarrow> 's \<Rightarrow> string \<Rightarrow> string option) \<Rightarrow> string \<Rightarrow> (string \<Rightarrow> nat \<Rightarrow> string)
    \<Rightarrow> nat \<Rightarrow> (string \<rightharpoonup> string) \<Rightarrow> 's BackupWorld \<Rightarrow> bool" where
  "uploads_sound E view dir src now own w \<longleftrightarrow>
     (\<forall>i u. own i = Some u \<longrightarrow> be_uuid_parse E i = Some i) \<and>
     (\<forall>u i meta. registered E view now w u i = Some meta \<longrightarrow> own i = Some u \<and>
        (\<forall>f. map_of (bw_files w) (part_path dir i) = Some f \<longrightarrow> staged (src i) meta (f_bytes f)))"

lemma path_join_relative: "\<not> starts_with q ''/'' \<Longrightarrow> \<exists>p'. path_join p q = p' @ q \<and> (\<forall>q'. \<not> starts_with q' ''/'' \<longrightarrow> path_join p q' = p' @ q')"
  by (cases "p = [] \<or> last p = CHR ''/''") (auto simp: path_join_def)

lemma upload_paths:
  obtains pre where "\<And>i. part_path dir i = pre @ i @ ''.part''" and "\<And>i. lyra_path dir i = pre @ i @ ''.lyra''"
proof -
  obtain p' where "\<And>q'. \<not> starts_with q' ''/'' \<Longrightarrow> path_join (staging_dir dir) q' = p' @ q'"
    using path_join_relative [of "''x''" "staging_dir dir"] by auto
  then show ?thesis
    by (intro that [of "p' @ ''upload-''"]) (simp_all add: part_path_def lyra_path_def)
qed

lemma part_path_inj [simp]: "part_path dir i = part_path dir j \<longleftrightarrow> i = j"
  by (rule upload_paths [of dir]) simp

lemma part_path_ends [simp]: "ends_with (part_path dir i) ''.part''"
  by (rule upload_paths [of dir]) (simp add: ends_with_iff)

lemma lyra_path_ends [simp]: "\<not> ends_with (lyra_path dir i) ''.part''"
  by (rule upload_paths [of dir]) (auto simp: ends_with_iff dest: arg_cong [of _ _ last])

lemma upload_path_simps [simp]:
  "be_uuid_parse E i = Some i \<Longrightarrow> upload_path E dir i ''part'' = Inr (part_path dir i)"
  "be_uuid_parse E i = Some i \<Longrightarrow> upload_path E dir i ''lyra'' = Inr (lyra_path dir i)"
  by (simp_all add: upload_path_def part_path_def lyra_path_def)

lemma sound_fades:
  "uploads_sound E view dir src now own w \<Longrightarrow> fades E view now w w' \<Longrightarrow> uploads_sound E view dir src now own w'"
  unfolding uploads_sound_def fades_def by (meson part_path_ends)

lemma soundD:
  assumes "uploads_sound E view dir src now own w" and "registered E view now w u i = Some meta"
  shows "own i = Some u" and "be_uuid_parse E i = Some i"
    and "map_of (bw_files w) (part_path dir i) = Some f \<Longrightarrow> staged (src i) meta (f_bytes f)"
  using assms unfolding uploads_sound_def by blast+


lemma sound_draw:
  "uploads_sound E view dir src now own w \<Longrightarrow> own i = None \<Longrightarrow> be_uuid_parse E i = Some i \<Longrightarrow>
   uploads_sound E view dir src now (own(i \<mapsto> u)) w"
  unfolding uploads_sound_def by (metis fun_upd_apply option.discI)

lemma create_new_sound:
  assumes "uploads_sound E view dir src now own w" and "own i = None" and "be_uuid_parse E i = Some i"
    and "create_new wall (part_path dir i) w = (r, w')"
  shows "uploads_sound E view dir src now (own(i \<mapsto> u)) w'"
proof -
  have reg: "registered E view now w' = registered E view now w"
    using assms(4) by (auto simp: create_new_def fs_def put_file_def registered_def fun_eq_iff
        split: list.splits option.splits)
  have files: "map_of (bw_files w') (part_path dir j) = map_of (bw_files w) (part_path dir j)" if "j \<noteq> i" for j
    using assms(4) that by (auto simp: create_new_def fs_def put_file_def AList.update_conv'
        split: list.splits option.splits)
  from sound_draw [OF assms(1-3)] assms(1,2) show ?thesis
    unfolding uploads_sound_def reg by (metis files option.discI)
qed

text \<open>Writing a prefix of its chunk to the file of an upload.\<close>

lemma write_bytes_frame [simp]:
  "registered E view now (write_bytes wall p off bytes w) = registered E view now w"
  "registered E view now (w\<lparr>bw_io := xs\<rparr>) = registered E view now w"
  "bw_files (write_bytes wall p off bytes (w\<lparr>bw_io := xs\<rparr>)) = bw_files (write_bytes wall p off bytes w)"
  by (auto simp: registered_def fun_eq_iff write_bytes_def put_file_def split: option.splits)

lemma map_of_write_bytes:
  "map_of (bw_files (write_bytes wall p off bytes w)) q =
     (if q = p then map_option (\<lambda>f. \<lparr>f_bytes = write_at off bytes (f_bytes f), f_mtime = wall\<rparr>)
        (map_of (bw_files w) p)
      else map_of (bw_files w) q)"
  by (auto simp: write_bytes_def put_file_def AList.update_conv' split: option.splits)

lemma sound_same:
  assumes "uploads_sound E view dir src now own w"
    and "registered E view now w' = registered E view now w" and "bw_files w' = bw_files w"
  shows "uploads_sound E view dir src now own w'"
  using assms unfolding uploads_sound_def by simp

lemma write_sound:
  assumes "uploads_sound E view dir src now own w" and "length (src i n) \<le> CHUNK_SIZE"
  shows "uploads_sound E view dir src now own
    (write_bytes wall (part_path dir i) (n * CHUNK_SIZE) (take k (src i n)) w)"
  unfolding uploads_sound_def
proof (intro conjI allI impI)
  fix j u assume "own j = Some u"
  with assms(1) show "be_uuid_parse E j = Some j"
    unfolding uploads_sound_def by blast
next
  fix u j meta
  assume "registered E view now
    (write_bytes wall (part_path dir i) (n * CHUNK_SIZE) (take k (src i n)) w) u j = Some meta"
  then have reg: "registered E view now w u j = Some meta"
    by simp
  then show "own j = Some u"
    by (rule soundD(1) [OF assms(1)])
  fix f
  assume "map_of (bw_files (write_bytes wall (part_path dir i) (n * CHUNK_SIZE) (take k (src i n)) w))
    (part_path dir j) = Some f"
  then show "staged (src j) meta (f_bytes f)"
    using soundD(3) [OF assms(1) reg] staged_partial [OF soundD(3) [OF assms(1) reg], of _ n k] assms(2)
    by (auto simp: map_of_write_bytes split: if_splits)
qed

section \<open>Every request keeps the invariant\<close>

text \<open>Relative to an earlier world \<open>B\<close>.\<close>

definition fading_from ::
  "BackupEnv \<Rightarrow> (nat \<Rightarrow> 's \<Rightarrow> string \<Rightarrow> string option) \<Rightarrow> nat \<Rightarrow> 's BackupWorld \<Rightarrow> ('s BackupWorld, 'e, 'a) eff \<Rightarrow> bool" where
  "fading_from E view now B m \<longleftrightarrow>
     (\<forall>w r w'. fades E view now B w \<longrightarrow> m w = (r, w') \<longrightarrow> fades E view now B w')"

lemma fading_fromI: "fading E view now m \<Longrightarrow> fading_from E view now B m"
  unfolding fading_def fading_from_def by (blast intro: fades_trans)

lemma fading_from_bindE:
  assumes "fading_from E view now B m" and "\<And>x. fading_from E view now B (f x)"
  shows "fading_from E view now B (bindE m f)"
  unfolding fading_from_def
proof (intro allI impI)
  fix w r w'
  assume B: "fades E view now B w" and "bindE m f w = (r, w')"
  from this(2) show "fades E view now B w'"
    by (cases rule: bindE_cases) (use assms B in \<open>unfold fading_from_def, blast+\<close>)
qed

lemma bindE_fades:
  assumes "bindE m f w = (r, w')" and "fading E view now m"
    and "\<And>x w1. m w = (Inr x, w1) \<Longrightarrow> fading_from E view now w (f x)"
  shows "fades E view now w w'"
  using assms(1)
proof (cases rule: bindE_cases)
  case (2 x w1)
  with assms(2,3) show ?thesis
    unfolding fading_def fading_from_def by blast
qed (use assms(2) in \<open>simp add: fadingD\<close>)

lemma fading_from_map_errE: "fading_from E view now B m \<Longrightarrow> fading_from E view now B (map_errE g m)"
  unfolding fading_from_def map_errE_def by (auto split: prod.splits sum.splits)

context kv_atomic
begin

lemma set_atomic:
  assumes "kv_set K now k v ttl s = (r, s')" and "now \<le> t"
  shows "view t s' = view t s \<or> view t s' = (view t s)(k := if within_ttl ttl now t then Some v else None)"
  using assms set_view set_fail by (cases r) blast+

lemma fading_set:
  assumes "\<And>u. k \<noteq> uploads_key u"
  shows "fading E view now (onkv (kv_set K now k v ttl))"
  unfolding fading_def
proof (intro allI impI)
  fix w r w'
  assume "onkv (kv_set K now k v ttl) w = (r, w')"
  then obtain s' where s': "kv_set K now k v ttl (bw_kv w) = (r, s')" "w' = w\<lparr>bw_kv := s'\<rparr>"
    by (auto simp: onkv_def split: prod.splits)
  from set_atomic [OF s'(1) order_refl] have "view now s' (uploads_key u) = view now (bw_kv w) (uploads_key u)" for u
    using assms [of u] by auto
  with s'(2) show "fades E view now w w'"
    by (simp add: fades_def registered_def)
qed

lemma save_frame:
  assumes "uploads_save E K now u m w = (r, w')"
  shows "bw_files w' = bw_files w" and "bw_io w' = bw_io w"
  using assms by (auto simp: uploads_save_def map_errE_def onkv_def split: prod.splits sum.splits)

lemma save_registered:
  assumes "registry_json E" and "uploads_save E K now u m w = (r, w')"
    and "registered E view now w' u' i = Some meta"
  shows "registered E view now w u' i = Some meta \<or> u' = u \<and> map_of m i = Some meta"
proof -
  from assms(2) obtain q s' where s': "kv_set K now (uploads_key u) (be_uploads_json E m) (Some (24 * 3600)) (bw_kv w) = (q, s')"
    and w': "w' = w\<lparr>bw_kv := s'\<rparr>"
    by (auto simp: uploads_save_def map_errE_def onkv_def split: prod.splits sum.splits)
  from assms(1) obtain m' where m': "be_uploads_parse E (be_uploads_json E m) = Some m'" "map_of m' = map_of m"
    unfolding registry_json_def by blast
  from set_atomic [OF s' order_refl] show ?thesis
  proof
    assume "view now s' = view now (bw_kv w)"
    with assms(3) show ?thesis by (simp add: registered_def w')
  next
    assume "view now s' = (view now (bw_kv w))(uploads_key u := if within_ttl (Some (24 * 3600)) now now
      then Some (be_uploads_json E m) else None)"
    with assms(3) m' show ?thesis
      by (cases "u' = u") (auto simp: registered_def w' uploads_key_def split: if_splits)
  qed
qed

lemma fading_from_save:
  assumes "registry_json E" and "\<And>i meta. map_of m i = Some meta \<Longrightarrow> registered E view now B u i = Some meta"
  shows "fading_from E view now B (uploads_save E K now u m)"
  unfolding fading_from_def
proof (intro allI impI)
  fix w r w'
  assume B: "fades E view now B w" and s: "uploads_save E K now u m w = (r, w')"
  show "fades E view now B w'"
    unfolding fades_def save_frame [OF s]
    using B save_registered [OF assms(1) s] assms(2) unfolding fades_def by blast
qed

lemma sound_later:
  "uploads_sound E view dir src now own w \<Longrightarrow> now \<le> t \<Longrightarrow> uploads_sound E view dir src t own w"
  unfolding uploads_sound_def using registered_later by blast

lemma save_sound:
  assumes "registry_json E" and "uploads_sound E view dir src now own w"
    and "uploads_save E K now u m w = (r, w')"
    and "\<And>j meta. map_of m j = Some meta \<Longrightarrow> own j = Some u \<and>
      (\<forall>f. map_of (bw_files w) (part_path dir j) = Some f \<longrightarrow> staged (src j) meta (f_bytes f))"
  shows "uploads_sound E view dir src now own w'"
  unfolding uploads_sound_def save_frame [OF assms(3)]
  using assms(2,4) save_registered [OF assms(1,3)] unfolding uploads_sound_def by blast

end


lemma write_flush_cases:
  assumes "write_flush wall p off bytes w = (r, w')"
  obtains (cut) k xs where "r = Inl IoOther" and "w' = write_bytes wall p off (take k bytes) (w\<lparr>bw_io := xs\<rparr>)"
  | (all) xs where "r = Inr ()" and "w' = write_bytes wall p off bytes (w\<lparr>bw_io := xs\<rparr>)"
proof (cases "bw_io w")
  case Nil
  then have "w\<lparr>bw_io := []\<rparr> = w" by simp
  from all [of "[]", unfolded this] assms Nil show ?thesis
    by (simp add: write_flush_def)
next
  case (Cons x xs)
  with assms cut all show ?thesis
    by (cases x) (auto simp: write_flush_def)
qed

lemma upload_path_lyra: "upload_path E dir i ''lyra'' = Inr p \<Longrightarrow> \<not> ends_with p ''.part''"
  using lyra_path_ends [of dir] by (auto simp: upload_path_def lyra_path_def split: option.splits)

lemma fading_from_ofE_bind:
  assumes "\<And>x. r = Inr x \<Longrightarrow> fading_from E view now B (f x)"
  shows "fading_from E view now B (bindE (ofE r) f)"
  using assms by (cases r) (auto simp: fading_from_def bindE_def)

context kv_atomic
begin

lemma fading_finish:
  assumes "registry_json E"
  shows "fading E view (dr_now D) (upload_finish E K D dir u i n)"
  unfolding fading_def
proof (intro allI impI)
  fix w r w'
  assume run: "upload_finish E K D dir u i n w = (r, w')"
  show "fades E view (dr_now D) w w'"
  proof (cases "n = 0 \<or> MAX_CHUNKS < n")
    case True
    with run show ?thesis by (simp add: upload_finish_def)
  next
    case False
    show ?thesis
    proof (rule bindE_fades [OF run [unfolded upload_finish_def if_not_P [OF False]]], goal_cases)
      case 1
      show ?case by (intro fading_map_errE fading_load)
    next
      case (2 m w1)
      then have "registered E view (dr_now D) w u = map_of m"
        by (simp add: load_registered)
      then have save: "fading_from E view (dr_now D) w (uploads_save E K (dr_now D) u (AList.delete i m))"
        by (intro fading_from_save [OF assms]) (simp add: AList.delete_conv' split: if_splits)
      show ?case
        by (auto split: option.split intro!: fading_from_bindE fading_from_ofE_bind fading_from_map_errE save
            fading_fromI [OF fading_stat] fading_fromI [OF fading_rename] fading_fromI [OF fading_okE]
            fading_fromI [OF fading_errE] dest: upload_path_lyra)
    qed
  qed
qed


lemma write_save_sound:
  assumes json: "registry_json E" and sound: "uploads_sound E view dir src now own w"
    and regm: "registered E view now w u = map_of m" and meta: "map_of m i = Some meta"
    and len: "src i n \<noteq> []" "length (src i n) \<le> CHUNK_SIZE" and fade: "fades E view now w w3"
    and run: "bindE (map_errE UpIo (write_flush wall (part_path dir i) (n * CHUNK_SIZE) (src i n))) (\<lambda>_.
        map_errE UpBackup (uploads_save E K now u (AList.update i
          (meta\<lparr>um_chunk_sizes := mark_received n (length (src i n)) (um_chunk_sizes meta)\<rparr>) m))) w3 = (r, w')"
  shows "uploads_sound E view dir src now own w'"
proof -
  let ?written = "\<lambda>k xs. write_bytes wall (part_path dir i) (n * CHUNK_SIZE) (take k (src i n)) (w3\<lparr>bw_io := xs\<rparr>)"
  have written: "uploads_sound E view dir src now own (?written k xs)" for k xs
    by (intro write_sound sound_same [OF sound_fades [OF sound fade]] len) simp_all
  from run show ?thesis
  proof (cases rule: bindE_cases)
    case (1 e)
    then obtain e' where "write_flush wall (part_path dir i) (n * CHUNK_SIZE) (src i n) w3 = (Inl e', w')"
      by (auto simp: map_errE_def split: prod.splits sum.splits)
    then show ?thesis
      by (cases rule: write_flush_cases) (use written in auto)
  next
    case (2 x w4)
    then have "write_flush wall (part_path dir i) (n * CHUNK_SIZE) (src i n) w3 = (Inr x, w4)"
      by simp
    then obtain xs where w4: "w4 = ?written (length (src i n)) xs"
      by (cases rule: write_flush_cases) auto
    from 2(2) obtain q where save: "uploads_save E K now u (AList.update i
          (meta\<lparr>um_chunk_sizes := mark_received n (length (src i n)) (um_chunk_sizes meta)\<rparr>) m) w4 = (q, w')"
      by (auto simp: map_errE_def split: prod.splits sum.splits)
    show ?thesis
    proof (rule save_sound [OF json _ save])
      show "uploads_sound E view dir src now own w4"
        unfolding w4 by (rule written)
      fix j meta'
      assume j: "map_of (AList.update i
          (meta\<lparr>um_chunk_sizes := mark_received n (length (src i n)) (um_chunk_sizes meta)\<rparr>) m) j = Some meta'"
      then obtain old where old: "map_of m j = Some old"
        using meta by (auto simp: AList.update_conv' split: if_splits)
      with regm have reg: "registered E view now w u j = Some old" by simp
      have old_staged: "staged (src j) old (f_bytes f)" if "map_of (bw_files w3) (part_path dir j) = Some f" for f
        using that fade soundD(3) [OF sound reg] unfolding fades_def by (meson part_path_ends)
      show "own j = Some u \<and>
        (\<forall>f. map_of (bw_files w4) (part_path dir j) = Some f \<longrightarrow> staged (src j) meta' (f_bytes f))"
        using soundD(1) [OF sound reg] old_staged staged_write [of "src i" old _ n] len j old meta
        by (auto simp: w4 map_of_write_bytes AList.update_conv' split: if_splits)
    qed
  qed
qed

text \<open>From the opened file on.\<close>

lemma put_tail_sound:
  assumes json: "registry_json E" and sound: "uploads_sound E view dir src now own w"
    and regm: "registered E view now w u = map_of m" and meta: "map_of m i = Some meta"
    and len: "src i n \<noteq> []" "length (src i n) \<le> CHUNK_SIZE" and fade: "fades E view now w w1"
    and run: "bindE (map_errE UpIo (stat (part_path dir i))) (\<lambda>_. bindE (map_errE UpIo fs_touch) (\<lambda>_.
        bindE (map_errE UpIo (write_flush wall (part_path dir i) (n * CHUNK_SIZE) (src i n))) (\<lambda>_.
        map_errE UpBackup (uploads_save E K now u (AList.update i
          (meta\<lparr>um_chunk_sizes := mark_received n (length (src i n)) (um_chunk_sizes meta)\<rparr>) m))))) w1 = (r, w')"
  shows "uploads_sound E view dir src now own w'"
  using run
proof (cases rule: bindE_cases)
  case (1 e)
  then have "fades E view now w1 w'"
    by (auto dest: fadingD [OF fading_map_errE [OF fading_stat]])
  with fade sound show ?thesis by (meson fades_trans sound_fades)
next
  case (2 f w2)
  then have f2: "fades E view now w w2"
    using fade by (auto dest: fadingD [OF fading_stat] intro: fades_trans)
  from 2(2) show ?thesis
  proof (cases rule: bindE_cases)
    case (1 e)
    then have "fades E view now w2 w'"
      by (auto dest: fadingD [OF fading_map_errE [OF fading_touch]])
    with f2 sound show ?thesis by (meson fades_trans sound_fades)
  next
    case (2 x w3)
    then have "fades E view now w w3"
      using f2 by (auto dest: fadingD [OF fading_touch] intro: fades_trans)
    from write_save_sound [OF json sound regm meta len this 2(2)] show ?thesis .
  qed
qed

lemma put_sound:
  assumes json: "registry_json E" and sound: "uploads_sound E view dir src (dr_now D) own w"
    and bytes: "own i = Some u \<Longrightarrow> bytes = src i n"
    and run: "upload_put_chunk E K D dir u i n bytes w = (r, w')"
  shows "uploads_sound E view dir src (dr_now D) own w'"
proof (cases "bytes = [] \<or> CHUNK_SIZE < length bytes \<or> MAX_CHUNKS \<le> n")
  case True
  with run sound show ?thesis
    by (auto simp: upload_put_chunk_def split: if_splits)
next
  case False
  let ?now = "dr_now D"
  obtain q w1 where load: "uploads_load E K ?now u w = (q, w1)" by fastforce
  have f1: "fades E view ?now w w1" by (rule fadingD [OF fading_load load])
  show ?thesis
  proof (cases "\<exists>m meta. q = Inr m \<and> map_of m i = Some meta")
    case no: False
    then have "w' = w1"
      using run False load by (cases q) (auto simp: upload_put_chunk_def bindE_def map_errE_def split: option.splits)
    with sound_fades [OF sound f1] show ?thesis by simp
  next
    case True
    then obtain m meta where m: "q = Inr m" "map_of m i = Some meta" by blast
    have regm: "registered E view ?now w u = map_of m"
      using load m(1) by (simp add: load_registered)
    with m have reg: "registered E view ?now w u i = Some meta" by simp
    note own = soundD(1,2) [OF sound reg]
    have src: "bytes = src i n" by (rule bytes [OF own(1)])
    with False have len: "src i n \<noteq> []" "length (src i n) \<le> CHUNK_SIZE" by auto
    from run False load m own(2) show ?thesis
      unfolding src by (intro put_tail_sound [OF json sound regm m(2) len f1]) (simp add: upload_put_chunk_def)
  qed
qed

text \<open>The tail of \<^verbatim>\<open>start\<close>: the new entry is saved.\<close>

lemma register_sound:
  assumes json: "registry_json E" and sound: "uploads_sound E view dir src now own w" and own: "own i = Some u"
    and run: "bindE (map_errE UpBackup (uploads_load E K now u)) (\<lambda>m.
      bindE (map_errE UpBackup (uploads_save E K now u
        (AList.update i \<lparr>um_chunk_sizes = [], um_created_at = stamp\<rparr> m))) (\<lambda>_. okE i)) w = (r, w')"
  shows "uploads_sound E view dir src now own w'"
  using run
proof (cases rule: bindE_cases)
  case (1 e)
  with sound show ?thesis
    by (auto dest: fadingD [OF fading_map_errE [OF fading_load]] intro: sound_fades)
next
  case (2 m w1)
  then have load: "uploads_load E K now u w = (Inr m, w1)" by simp
  from 2(2) obtain q where save: "uploads_save E K now u
      (AList.update i \<lparr>um_chunk_sizes = [], um_created_at = stamp\<rparr> m) w1 = (q, w')"
    by (auto simp: map_errE_def bindE_def split: prod.splits sum.splits)
  show ?thesis
  proof (rule save_sound [OF json _ save])
    show "uploads_sound E view dir src now own w1"
      by (rule sound_fades [OF sound fadingD [OF fading_load load]])
    show "own j = Some u \<and>
        (\<forall>f. map_of (bw_files w1) (part_path dir j) = Some f \<longrightarrow> staged (src j) meta (f_bytes f))"
      if "map_of (AList.update i \<lparr>um_chunk_sizes = [], um_created_at = stamp\<rparr> m) j = Some meta" for j meta
      using that own load_registered(1,2) [OF load] soundD(1,3) [OF sound, of u j]
      by (auto simp: AList.update_conv' split: if_splits)
  qed
qed

lemma create_register_sound:
  assumes json: "registry_json E" and sound: "uploads_sound E view dir src now own w"
    and fresh: "own i = None" "be_uuid_parse E i = Some i"
    and run: "bindE (map_errE UpIo (create_new wall (part_path dir i))) (\<lambda>_.
      bindE (map_errE UpBackup (uploads_load E K now u)) (\<lambda>m.
      bindE (map_errE UpBackup (uploads_save E K now u
        (AList.update i \<lparr>um_chunk_sizes = [], um_created_at = stamp\<rparr> m))) (\<lambda>_. okE i))) w = (r, w')"
  shows "uploads_sound E view dir src now (own(i \<mapsto> u)) w'"
  using run
proof (cases rule: bindE_cases)
  case (1 e)
  then show ?thesis
    by (auto simp: map_errE_def split: prod.splits sum.splits intro: create_new_sound [OF sound fresh])
next
  case (2 x w1)
  then have "uploads_sound E view dir src now (own(i \<mapsto> u)) w1"
    using create_new_sound [OF sound fresh] by simp
  from register_sound [OF json this _ 2(2)] show ?thesis by simp
qed

lemma start_sound:
  assumes json: "registry_json E" and sound: "uploads_sound E view dir src (dr_now D) own w"
    and fresh: "own (bd_uuid D) = None" "be_uuid_parse E (bd_uuid D) = Some (bd_uuid D)"
    and run: "upload_start E K D dir u w = (r, w')"
  shows "uploads_sound E view dir src (dr_now D) (own(bd_uuid D \<mapsto> u)) w'"
proof -
  let ?now = "dr_now D" and ?i = "bd_uuid D" and ?own = "own(bd_uuid D \<mapsto> u)"
  have keep: "uploads_sound E view dir src ?now ?own w1" if "fades E view ?now w w1" for w1
    by (rule sound_draw [OF sound_fades [OF sound that] fresh])
  from run [unfolded upload_start_def] show ?thesis
  proof (cases rule: bindE_cases)
    case (1 e)
    then show ?thesis
      by (intro keep) (auto dest: fadingD [OF fading_map_errE [OF fading_create_dir_all]])
  next
    case (2 _ w1)
    then have f1: "fades E view ?now w w1"
      by (auto dest: fadingD [OF fading_create_dir_all])
    from 2(2) show ?thesis
    proof (cases rule: bindE_cases)
      case (1 e)
      with f1 show ?thesis
        by (intro keep) (auto dest: fadingD [OF fading_map_errE [OF fading_touch]] intro: fades_trans)
    next
      case (2 _ w2)
      then have f2: "fades E view ?now w w2"
        using f1 by (auto dest: fadingD [OF fading_touch] intro: fades_trans)
      from 2(2) have "bindE (map_errE UpIo (create_new (bd_wall D) (part_path dir ?i))) (\<lambda>_.
          bindE (map_errE UpBackup (uploads_load E K ?now u)) (\<lambda>m.
          bindE (map_errE UpBackup (uploads_save E K ?now u
            (AList.update ?i \<lparr>um_chunk_sizes = [], um_created_at = dr_stamp D\<rparr> m))) (\<lambda>_. okE ?i))) w2 = (r, w')"
        using fresh(2) by simp
      then show ?thesis
        by (rule create_register_sound [OF json sound_fades [OF sound f2] fresh])
    qed
  qed
qed

lemma key_distinct: "artifacts_key u \<noteq> uploads_key v" "progress_key i \<noteq> uploads_key v"
  by (simp_all add: artifacts_key_def uploads_key_def progress_key_def)

lemma fading_wrap: "fading E' view now (wrap_password E D u p)"
  unfolding wrap_password_def by (auto intro!: fading_intros split: sum.split)

lemma fading_enqueue: "fading E' view now (enqueue_job E D p)"
  unfolding enqueue_job_def by (intro fading_intros)

lemma fading_finish_upload:
  "registry_json E \<Longrightarrow> fading E view (dr_now D) (finish_upload E K D dir u i p n)"
  unfolding finish_upload_def by (intro fading_intros fading_finish fading_wrap fading_enqueue)

lemma fading_export: "fading E view (dr_now D) (start_export E K D u p)"
  unfolding start_export_def
  by (auto intro!: fading_intros fading_wrap fading_enqueue fading_set key_distinct)

lemma fading_delete: "fading E view (dr_now D) (delete_artifact E K D dir u i)"
  unfolding delete_artifact_def artifacts_remove_def artifacts_list_def artifacts_save_def
  by (auto intro!: fading_intros fading_get fading_set key_distinct split: option.split sum.split)

lemma run_sound:
  assumes "registry_json E" and "upload_run E K view dir src now own w"
  shows "uploads_sound E view dir src now own w"
  using assms(2)
proof induction
  case (ur_init now w)
  then show ?case by (simp add: uploads_sound_def registered_def)
next
  case (ur_faults now own w xs)
  then show ?case by (elim sound_same) simp_all
next
  case (ur_start now own w D u r w')
  then obtain w1 q where sweep: "okOptE (sweep_stale_uploads E dir (bd_wall D)) w = (q, w1)"
      "map_errE BhUpload (upload_start E K D dir u) w1 = (r, w')"
    unfolding start_upload_def by (auto elim!: bindE_cases simp: okOptE_def split: prod.splits sum.splits)
  then obtain q' where "upload_start E K D dir u w1 = (q', w')"
    by (auto simp: map_errE_def split: prod.splits sum.splits)
  moreover have "fades E view (dr_now D) w w1"
    by (rule fadingD [OF fading_okOptE [OF fading_sweep] sweep(1)])
  ultimately show ?case
    using ur_start by (meson assms(1) start_sound sound_fades sound_later)
next
  case (ur_put now own w D i u bytes n r w')
  then obtain q' where "upload_put_chunk E K D dir u i n bytes w = (q', w')"
    by (auto simp: put_chunk_def map_errE_def split: prod.splits sum.splits)
  with ur_put show ?case
    using put_sound [OF assms(1) sound_later] by blast
next
  case (ur_finish now own w D u i password n r w')
  then show ?case
    by (meson sound_fades sound_later fadingD [OF fading_finish_upload [OF assms(1)]])
next
  case (ur_export now own w D u password r w')
  then show ?case
    by (meson sound_fades sound_later fadingD [OF fading_export])
next
  case (ur_delete now own w D u i r w')
  then show ?case
    by (meson sound_fades sound_later fadingD [OF fading_delete])
qed


text \<open>A successful \<^verbatim>\<open>finish\<close>: what it checked, and where the bytes are.\<close>

lemma finish_Inr:
  assumes "upload_finish E K D dir u i n w = (Inr path, w')"
  obtains meta f part where "0 < n" and "registered E view (dr_now D) w u i = Some meta"
    and "bad_chunks meta n = []" and "upload_path E dir i ''part'' = Inr part"
    and "map_of (bw_files w) part = Some f"
    and "length (f_bytes f) = sum_list (map (\<lambda>k. um_chunk_sizes meta ! k) [0..<n])"
    and "upload_path E dir i ''lyra'' = Inr path" and "map_of (bw_files w') path = Some f"
proof -
  from assms have n: "0 < n" "n \<le> MAX_CHUNKS"
    by (auto simp: upload_finish_def not_less split: if_splits)
  from assms [unfolded upload_finish_def] n obtain m w1 where
      load: "uploads_load E K (dr_now D) u w = (Inr m, w1)"
    and rest: "\<exists>meta part f w2 w3 u3 w4. map_of m i = Some meta \<and> bad_chunks meta n = [] \<and>
      upload_path E dir i ''part'' = Inr part \<and> stat part w1 = (Inr f, w2) \<and>
      length (f_bytes f) = sum_list (map (\<lambda>k. um_chunk_sizes meta ! k) [0..<n]) \<and>
      upload_path E dir i ''lyra'' = Inr path \<and> rename part path w2 = (Inr u3, w3) \<and>
      uploads_save E K (dr_now D) u (AList.delete i m) w3 = (Inr w4, w')"
    by (auto simp: bindE_eq_Inr split: option.splits if_splits)
  then obtain meta part f w2 w3 u3 w4 where r: "map_of m i = Some meta" "bad_chunks meta n = []"
      "upload_path E dir i ''part'' = Inr part" "stat part w1 = (Inr f, w2)"
      "length (f_bytes f) = sum_list (map (\<lambda>k. um_chunk_sizes meta ! k) [0..<n])"
      "upload_path E dir i ''lyra'' = Inr path" "rename part path w2 = (Inr u3, w3)"
      "uploads_save E K (dr_now D) u (AList.delete i m) w3 = (Inr w4, w')"
    by blast
  from r(4) have f: "map_of (bw_files w1) part = Some f" "bw_files w2 = bw_files w1"
    by (auto simp: stat_def fs_def split: list.splits option.splits)
  with r(7) have "map_of (bw_files w3) path = Some f"
    by (auto simp: rename_def fs_def put_file_def drop_file_def AList.update_conv' split: list.splits option.splits)
  with r f n load_registered [OF load] save_frame [OF r(8)] show ?thesis
    by (intro that) simp_all
qed

lemma finish_assembles:
  assumes "registry_json E" and "upload_run E K view dir src now own w" and "now \<le> dr_now D"
    and "upload_finish E K D dir u i n w = (Inr path, w')"
  shows "own i = Some u \<and> path = lyra_path dir i \<and>
    map_option f_bytes (map_of (bw_files w') path) = Some (concat (map (src i) [0..<n]))"
  using assms(4)
proof (rule finish_Inr)
  fix meta f part
  assume n: "0 < n" and reg: "registered E view (dr_now D) w u i = Some meta"
    and ok: "bad_chunks meta n = []" and part: "upload_path E dir i ''part'' = Inr part"
    and f: "map_of (bw_files w) part = Some f"
    and len: "length (f_bytes f) = sum_list (map (\<lambda>k. um_chunk_sizes meta ! k) [0..<n])"
    and lyra: "upload_path E dir i ''lyra'' = Inr path" and f': "map_of (bw_files w') path = Some f"
  note sound = sound_later [OF run_sound [OF assms(1,2)] assms(3)]
  note own = soundD(1,2) [OF sound reg]
  with part f have "staged (src i) meta (f_bytes f)"
    using soundD(3) [OF sound reg] by simp
  with own lyra f' assembled [OF _ ok n len] show ?thesis
    by simp
qed

end

end
