(* ===== verification/Lyra_BackupLive.thy ===== *)
theory Lyra_BackupLive
  imports Lyra_BackupLaws
begin

text \<open>
  The two promises of the chunked upload: what a successful \<^verbatim>\<open>finish\<close> hands to the import, whatever
  failed before it, and that an upload without faults goes through, in whatever order its chunks are
  sent. Then what a longer chunk leaves behind, and who may touch an upload.
\<close>

section \<open>Requests without faults\<close>

definition calm :: "('s BackupWorld, 'e, 'a) eff \<Rightarrow> bool" where
  "calm m \<longleftrightarrow> (\<forall>w r w'. m w = (r, w') \<longrightarrow> bw_io w = [] \<longrightarrow> bw_io w' = [] \<and> bw_kv w' = bw_kv w)"

lemma calmD: "calm m \<Longrightarrow> m w = (r, w') \<Longrightarrow> bw_io w = [] \<Longrightarrow> bw_io w' = [] \<and> bw_kv w' = bw_kv w"
  by (simp add: calm_def)

lemma calm_okE: "calm (okE x)"
  by (simp add: calm_def)

lemma calm_bindE:
  assumes "calm m" and "\<And>x. calm (f x)"
  shows "calm (bindE m f)"
  unfolding calm_def
proof (intro allI impI)
  fix w r w'
  assume "bindE m f w = (r, w')" and io: "bw_io w = []"
  from this(1) show "bw_io w' = [] \<and> bw_kv w' = bw_kv w"
  proof (cases rule: bindE_cases)
    case (1 e)
    show ?thesis by (rule calmD [OF assms(1) 1(1) io])
  next
    case (2 x w1)
    from calmD [OF assms(1) 2(1) io] calmD [OF assms(2) 2(2)] show ?thesis by simp
  qed
qed

lemma calm_map_errE: "calm m \<Longrightarrow> calm (map_errE g m)"
  unfolding calm_def map_errE_def by (auto split: prod.splits sum.splits)

lemma calm_okOptE: "calm m \<Longrightarrow> calm (okOptE m)"
  unfolding calm_def okOptE_def by (auto split: prod.splits sum.splits)

lemma calm_fs: "calm fs_touch" "calm (stat p)" "calm (remove_file p)"
  by (auto simp: calm_def fs_touch_def stat_def remove_file_def fs_def drop_file_def split: list.splits option.splits)

lemma calm_sweep_entries: "calm (sweep_entries wall dir names removed)"
proof (induction names arbitrary: removed)
  case (Cons name names)
  then show ?case
    by (auto intro!: calm_bindE calm_okOptE calm_fs split: option.splits)
qed (simp add: calm_bindE calm_fs calm_okE)

lemma calm_sweep: "bw_io w = [] \<Longrightarrow> sweep_stale_uploads E dir wall w = (r, w') \<Longrightarrow>
    bw_io w' = [] \<and> bw_kv w' = bw_kv w"
  by (auto simp: sweep_stale_uploads_def fs_def split: if_splits
      dest: calmD [OF calm_map_errE [OF calm_sweep_entries]])

text \<open>The client's file, cut as \<^verbatim>\<open>file.slice\<close> cuts it.\<close>

definition chunk_of :: "string \<Rightarrow> nat \<Rightarrow> string" where
  "chunk_of bytes n = take CHUNK_SIZE (drop (n * CHUNK_SIZE) bytes)"

definition chunk_count :: "string \<Rightarrow> nat \<Rightarrow> bool" where
  "chunk_count bytes tot \<longleftrightarrow> 0 < tot \<and> (tot - 1) * CHUNK_SIZE < length bytes \<and> length bytes \<le> tot * CHUNK_SIZE"

text \<open>The client's loop, with the draws of each request.\<close>

fun put_all ::
  "BackupEnv \<Rightarrow> 's KvStore \<Rightarrow> string \<Rightarrow> string \<Rightarrow> string \<Rightarrow> (nat \<Rightarrow> string) \<Rightarrow> (BackupDraws \<times> nat) list
    \<Rightarrow> ('s BackupWorld, BackupHttpError, unit) eff" where
  "put_all E K dir u i src [] = okE ()"
| "put_all E K dir u i src ((D, n) # puts) =
     bindE (put_chunk E K D dir u i n (src n)) (\<lambda>_. put_all E K dir u i src puts)"

lemma chunk_of_sizes:
  assumes "chunk_count bytes tot" and "n < tot"
  shows "chunk_of bytes n \<noteq> []" and "length (chunk_of bytes n) \<le> CHUNK_SIZE"
    and "n * CHUNK_SIZE + length (chunk_of bytes n) \<le> length bytes"
    and "n \<noteq> tot - 1 \<Longrightarrow> length (chunk_of bytes n) = CHUNK_SIZE"
    and "n = tot - 1 \<Longrightarrow> n * CHUNK_SIZE + length (chunk_of bytes n) = length bytes"
proof -
  have "n * CHUNK_SIZE \<le> (tot - 1) * CHUNK_SIZE"
    using assms(2) by (intro mult_le_mono1) simp
  with assms(1) have lt: "n * CHUNK_SIZE < length bytes"
    unfolding chunk_count_def by linarith
  then show "chunk_of bytes n \<noteq> []" "length (chunk_of bytes n) \<le> CHUNK_SIZE"
      "n * CHUNK_SIZE + length (chunk_of bytes n) \<le> length bytes"
    by (simp_all add: chunk_of_def)
  show "length (chunk_of bytes n) = CHUNK_SIZE" if "n \<noteq> tot - 1"
  proof -
    have "Suc n * CHUNK_SIZE \<le> (tot - 1) * CHUNK_SIZE"
      using that assms(2) by (intro mult_le_mono1) simp
    with assms(1) have "CHUNK_SIZE \<le> length bytes - n * CHUNK_SIZE"
      unfolding chunk_count_def mult_Suc by linarith
    then show ?thesis by (simp add: chunk_of_def)
  qed
  show "n * CHUNK_SIZE + length (chunk_of bytes n) = length bytes" if "n = tot - 1"
  proof -
    have "tot = Suc n" using that assms(2) by simp
    with assms(1) lt show ?thesis by (simp add: chunk_of_def chunk_count_def)
  qed
qed

lemma concat_chunk_of:
  assumes "chunk_count bytes tot"
  shows "concat (map (chunk_of bytes) [0..<tot]) = bytes"
proof -
  have "take (tot * CHUNK_SIZE) bytes = concat (map (chunk_of bytes) [0..<tot])"
    by (rule full_chunks_prefix) (simp add: chunk_of_def)
  with assms show ?thesis by (simp add: chunk_count_def)
qed

text \<open>Midway: the chunks in \<open>S\<close> have arrived, the entry shows until \<open>T\<close> and the file is no longer than the source.\<close>

definition uploading ::
  "BackupEnv \<Rightarrow> (nat \<Rightarrow> 's \<Rightarrow> string \<Rightarrow> string option) \<Rightarrow> string \<Rightarrow> string \<Rightarrow> string \<Rightarrow> string \<Rightarrow> nat \<Rightarrow> nat
    \<Rightarrow> nat set \<Rightarrow> 's BackupWorld \<Rightarrow> bool" where
  "uploading E view dir u i bytes now T S w \<longleftrightarrow> bw_io w = [] \<and>
     (\<exists>raw m meta f. (\<forall>t. now \<le> t \<longrightarrow> t < T \<longrightarrow> view t (bw_kv w) (uploads_key u) = Some raw) \<and>
        be_uploads_parse E raw = Some m \<and> map_of m i = Some meta \<and>
        (\<forall>n. recorded_size meta n = (if n \<in> S then length (chunk_of bytes n) else 0)) \<and>
        map_of (bw_files w) (part_path dir i) = Some f \<and>
        staged (chunk_of bytes) meta (f_bytes f) \<and> length (f_bytes f) \<le> length bytes)"

lemma write_flush_calm:
  "bw_io w = [] \<Longrightarrow> write_flush wall p off bytes w = (Inr (), write_bytes wall p off bytes w)"
  by (simp add: write_flush_def)

lemma fs_calm [simp]: "bw_io w = [] \<Longrightarrow> fs m w = m w"
  by (simp add: fs_def)

context kv_reliable
begin

lemma load_ok:
  assumes "view now (bw_kv w) (uploads_key u) = Some raw" and "be_uploads_parse E raw = Some m"
  obtains w' where "uploads_load E K now u w = (Inr m, w')" and "bw_files w' = bw_files w" and "bw_io w' = bw_io w"
proof -
  obtain v s' where g: "kv_get K now (uploads_key u) (bw_kv w) = (Inr v, s')"
    using get_ok by blast
  from get_result [OF g] g assms show ?thesis
    by (intro that [of "w\<lparr>bw_kv := s'\<rparr>"]) (simp_all add: uploads_load_def onkv_def bindE_def map_errE_def)
qed

lemma save_ok:
  assumes "registry_json E"
  obtains w' m' where "uploads_save E K now u m w = (Inr (), w')" and "bw_files w' = bw_files w" and "bw_io w' = bw_io w"
    and "be_uploads_parse E (be_uploads_json E m) = Some m'" and "map_of m' = map_of m"
    and "\<And>t. now \<le> t \<Longrightarrow> t < now + secs (24 * 3600) \<Longrightarrow>
      view t (bw_kv w') (uploads_key u) = Some (be_uploads_json E m)"
proof -
  obtain s' where s: "kv_set K now (uploads_key u) (be_uploads_json E m) (Some (24 * 3600)) (bw_kv w) = (Inr (), s')"
    using set_ok by blast
  from assms obtain m' where "be_uploads_parse E (be_uploads_json E m) = Some m'" "map_of m' = map_of m"
    unfolding registry_json_def by blast
  then show ?thesis
    using set_view [OF s]
    by (intro that [of "w\<lparr>bw_kv := s'\<rparr>" m']) (simp_all add: uploads_save_def onkv_def s [simplified] map_errE_def within_ttl_def)
qed

lemma put_ok:
  assumes json: "registry_json E" and uuid: "be_uuid_parse E i = Some i"
    and count: "chunk_count bytes tot" "n < tot" "tot \<le> MAX_CHUNKS"
    and st: "uploading E view dir u i bytes now T S w"
    and time: "now \<le> dr_now D" "dr_now D < T" "T \<le> dr_now D + secs (24 * 3600)"
  obtains w' where "put_chunk E K D dir u i n (chunk_of bytes n) w = (Inr (), w')"
    and "uploading E view dir u i bytes (dr_now D) T (insert n S) w'"
proof -
  note sizes = chunk_of_sizes(1-3) [OF count(1,2)]
  from st obtain raw m meta f where io: "bw_io w = []"
    and view: "view (dr_now D) (bw_kv w) (uploads_key u) = Some raw"
    and m: "be_uploads_parse E raw = Some m" "map_of m i = Some meta"
    and rec: "\<And>k. recorded_size meta k = (if k \<in> S then length (chunk_of bytes k) else 0)"
    and f: "map_of (bw_files w) (part_path dir i) = Some f"
    and staged: "staged (chunk_of bytes) meta (f_bytes f)" and len: "length (f_bytes f) \<le> length bytes"
    using time by (auto simp: uploading_def)
  obtain w1 where load: "uploads_load E K (dr_now D) u w = (Inr m, w1)" "bw_files w1 = bw_files w" "bw_io w1 = []"
    using load_ok [OF view m(1)] io by metis
  let ?w2 = "write_bytes (bd_wall D) (part_path dir i) (n * CHUNK_SIZE) (chunk_of bytes n) w1"
  let ?meta = "meta\<lparr>um_chunk_sizes := mark_received n (length (chunk_of bytes n)) (um_chunk_sizes meta)\<rparr>"
  have io2: "bw_io ?w2 = []"
    using load(3) by (simp add: write_bytes_def put_file_def split: option.split)
  obtain w3 m' where save: "uploads_save E K (dr_now D) u (AList.update i ?meta m) ?w2 = (Inr (), w3)"
      "bw_files w3 = bw_files ?w2" "bw_io w3 = bw_io ?w2"
      "be_uploads_parse E (be_uploads_json E (AList.update i ?meta m)) = Some m'" "map_of m' = map_of (AList.update i ?meta m)"
      "\<And>t. dr_now D \<le> t \<Longrightarrow> t < dr_now D + secs (24 * 3600) \<Longrightarrow>
        view t (bw_kv w3) (uploads_key u) = Some (be_uploads_json E (AList.update i ?meta m))"
    by (rule save_ok [OF json]) (rule that)
  show ?thesis
  proof (rule that)
    show "put_chunk E K D dir u i n (chunk_of bytes n) w = (Inr (), w3)"
      using sizes count load f m uuid save(1)
      by (simp add: put_chunk_def upload_put_chunk_def stat_def fs_touch_def write_flush_calm not_le not_less)
    show "uploading E view dir u i bytes (dr_now D) T (insert n S) w3"
      unfolding uploading_def
    proof (intro conjI exI)
      show "bw_io w3 = []" using save(3) io2 by simp
      show "\<forall>t. dr_now D \<le> t \<longrightarrow> t < T \<longrightarrow> view t (bw_kv w3) (uploads_key u) =
          Some (be_uploads_json E (AList.update i ?meta m))"
        using save(6) time(3) by simp
      show "be_uploads_parse E (be_uploads_json E (AList.update i ?meta m)) = Some m'" by (rule save)
      show "map_of m' i = Some ?meta" by (simp add: save(5) AList.update_conv')
      show "\<forall>k. recorded_size ?meta k = (if k \<in> insert n S then length (chunk_of bytes k) else 0)"
        by (simp add: rec)
      show "map_of (bw_files w3) (part_path dir i) =
          Some \<lparr>f_bytes = write_at (n * CHUNK_SIZE) (chunk_of bytes n) (f_bytes f), f_mtime = bd_wall D\<rparr>"
        by (simp add: save(2) map_of_write_bytes load(2) f)
      show "staged (chunk_of bytes) ?meta
          (f_bytes \<lparr>f_bytes = write_at (n * CHUNK_SIZE) (chunk_of bytes n) (f_bytes f), f_mtime = bd_wall D\<rparr>)"
        using staged_write [OF staged sizes(1,2)] by simp
      show "length (f_bytes \<lparr>f_bytes = write_at (n * CHUNK_SIZE) (chunk_of bytes n) (f_bytes f), f_mtime = bd_wall D\<rparr>)
          \<le> length bytes"
        using sizes len by (simp add: length_write_at)
    qed
  qed
qed

lemma put_all_ok:
  assumes json: "registry_json E" and uuid: "be_uuid_parse E i = Some i"
    and count: "chunk_count bytes tot" "tot \<le> MAX_CHUNKS"
    and "uploading E view dir u i bytes now T S w" and "snd ` set puts \<subseteq> {..<tot}"
    and "sorted (now # map (dr_now \<circ> fst) puts)" and "\<forall>x\<in>set puts. dr_now (fst x) < T"
    and "T \<le> now + secs (24 * 3600)"
  shows "\<exists>w'. put_all E K dir u i (chunk_of bytes) puts w = (Inr (), w') \<and>
    uploading E view dir u i bytes (last (now # map (dr_now \<circ> fst) puts)) T (snd ` set puts \<union> S) w'"
  using assms(5-9)
proof (induction puts arbitrary: now S w)
  case (Cons x puts)
  obtain D n where x: "x = (D, n)" by fastforce
  from Cons.prems have n: "n < tot" and time: "now \<le> dr_now D" "dr_now D < T" "T \<le> dr_now D + secs (24 * 3600)"
    by (auto simp: x)
  obtain w1 where w1: "put_chunk E K D dir u i n (chunk_of bytes n) w = (Inr (), w1)"
      "uploading E view dir u i bytes (dr_now D) T (insert n S) w1"
    by (rule put_ok [OF json uuid count(1) n count(2) Cons.prems(1) time])
  from Cons.IH [OF w1(2)] Cons.prems time show ?case
    by (auto simp: x w1(1))
qed simp

lemma finish_ok:
  assumes json: "registry_json E" and uuid: "be_uuid_parse E i = Some i"
    and count: "chunk_count bytes tot" "tot \<le> MAX_CHUNKS"
    and st: "uploading E view dir u i bytes now T {..<tot} w" and time: "now \<le> dr_now D" "dr_now D < T"
  shows "\<exists>w'. upload_finish E K D dir u i tot w = (Inr (lyra_path dir i), w') \<and>
    map_option f_bytes (map_of (bw_files w') (lyra_path dir i)) = Some bytes"
proof -
  from st obtain raw m meta f where io: "bw_io w = []"
    and view: "view (dr_now D) (bw_kv w) (uploads_key u) = Some raw"
    and m: "be_uploads_parse E raw = Some m" "map_of m i = Some meta"
    and rec: "\<And>k. recorded_size meta k = (if k < tot then length (chunk_of bytes k) else 0)"
    and f: "map_of (bw_files w) (part_path dir i) = Some f"
    and staged: "staged (chunk_of bytes) meta (f_bytes f)" and len: "length (f_bytes f) \<le> length bytes"
    using time by (auto simp: uploading_def)
  have pos: "0 < tot" using count(1) by (simp add: chunk_count_def)
  note sizes = chunk_of_sizes [OF count(1)]
  have ok: "bad_chunks meta tot = []"
    unfolding bad_chunks_Nil using sizes rec by auto
  have nth: "um_chunk_sizes meta ! k = length (chunk_of bytes k)" if "k < tot" for k
    using recorded_size_nth [of meta k] rec [of k] sizes(1) [OF that] that by simp
  have "map (\<lambda>k. um_chunk_sizes meta ! k) [0..<tot] = map (length \<circ> chunk_of bytes) [0..<tot]"
    using nth by simp
  then have sum: "sum_list (map (\<lambda>k. um_chunk_sizes meta ! k) [0..<tot]) = length bytes"
    using arg_cong [OF concat_chunk_of [OF count(1)], of length]
    by (simp only: length_concat map_map)
  have "length bytes \<le> length (f_bytes f)"
    using staged_bound [OF staged, of "tot - 1"] sizes(1,5) [of "tot - 1"] rec [of "tot - 1"] pos by simp
  with len sum have flen: "length (f_bytes f) = sum_list (map (\<lambda>k. um_chunk_sizes meta ! k) [0..<tot])"
    by simp
  have fin: "f_bytes f = bytes"
    using assembled [OF staged ok pos flen] concat_chunk_of [OF count(1)] by simp
  obtain w1 where load: "uploads_load E K (dr_now D) u w = (Inr m, w1)" "bw_files w1 = bw_files w" "bw_io w1 = []"
    using load_ok [OF view m(1)] io by metis
  obtain w2 where w2: "rename (part_path dir i) (lyra_path dir i) w1 = (Inr (), w2)"
      "map_of (bw_files w2) (lyra_path dir i) = Some f"
    using load f by (simp add: rename_def put_file_def drop_file_def AList.update_conv')
  obtain w3 m' where save: "uploads_save E K (dr_now D) u (AList.delete i m) w2 = (Inr (), w3)" "bw_files w3 = bw_files w2"
    by (rule save_ok [OF json])
  have "upload_finish E K D dir u i tot w = (Inr (lyra_path dir i), w3)"
    using pos count(2) load m ok uuid f flen w2(1) save(1)
    by (simp add: upload_finish_def stat_def not_less)
  with fin w2 save show ?thesis by simp
qed

lemma start_ok:
  assumes json: "registry_json E" and uuid: "be_uuid_parse E (bd_uuid D) = Some (bd_uuid D)"
    and io: "bw_io w = []" and fresh: "map_of (bw_files w) (part_path dir (bd_uuid D)) = None"
    and reg: "\<And>raw. view (dr_now D) (bw_kv w) (uploads_key u) = Some raw \<Longrightarrow> be_uploads_parse E raw \<noteq> None"
  obtains w' where "start_upload E K D dir u w = (Inr (bd_uuid D), w')"
    and "uploading E view dir u (bd_uuid D) bytes (dr_now D) (dr_now D + secs (24 * 3600)) {} w'"
proof -
  let ?i = "bd_uuid D" and ?now = "dr_now D"
  let ?meta = "\<lparr>um_chunk_sizes = [], um_created_at = dr_stamp D\<rparr>"
  let ?f = "\<lparr>f_bytes = [], f_mtime = bd_wall D\<rparr>"
  obtain q w0 where sweep: "sweep_stale_uploads E dir (bd_wall D) w = (q, w0)" by fastforce
  note calm = calm_sweep [OF io sweep]
  have "fades E view ?now w w0" by (rule fadingD [OF fading_sweep sweep])
  with fresh have fresh0: "map_of (bw_files w0) (part_path dir ?i) = None"
    unfolding fades_def by (metis part_path_ends not_None_eq)
  let ?w1 = "put_file (part_path dir ?i) ?f (w0\<lparr>bw_dirs := insert (staging_dir dir) (bw_dirs w0)\<rparr>)"
  have w1: "bw_io ?w1 = []" "bw_kv ?w1 = bw_kv w" "map_of (bw_files ?w1) (part_path dir ?i) = Some ?f"
    using calm by (simp_all add: put_file_def AList.update_conv')
  obtain m w2 where load: "uploads_load E K ?now u ?w1 = (Inr m, w2)" "bw_files w2 = bw_files ?w1" "bw_io w2 = []"
  proof -
    obtain v s' where g: "kv_get K ?now (uploads_key u) (bw_kv w) = (Inr v, s')"
      using get_ok by blast
    from get_result [OF g, symmetric] reg obtain m where "(case v of None \<Rightarrow> Some [] | Some raw \<Rightarrow> be_uploads_parse E raw) = Some m"
      by (cases v) auto
    with g w1 show thesis
      by (intro that [of m "?w1\<lparr>bw_kv := s'\<rparr>"]) (auto simp: uploads_load_def onkv_def bindE_def map_errE_def split: option.splits)
  qed
  obtain w3 m' where save: "uploads_save E K ?now u (AList.update ?i ?meta m) w2 = (Inr (), w3)"
      "bw_files w3 = bw_files w2" "bw_io w3 = bw_io w2"
      "be_uploads_parse E (be_uploads_json E (AList.update ?i ?meta m)) = Some m'" "map_of m' = map_of (AList.update ?i ?meta m)"
      "\<And>t. ?now \<le> t \<Longrightarrow> t < ?now + secs (24 * 3600) \<Longrightarrow>
        view t (bw_kv w3) (uploads_key u) = Some (be_uploads_json E (AList.update ?i ?meta m))"
    by (rule save_ok [OF json]) (rule that)
  show ?thesis
  proof (rule that)
    have "upload_start E K D dir u w0 = (Inr ?i, w3)"
      using calm fresh0 uuid load save(1)
      by (simp add: upload_start_def create_dir_all_def fs_touch_def create_new_def put_file_def)
    moreover obtain q' where "okOptE (sweep_stale_uploads E dir (bd_wall D)) w = (Inr q' :: BackupHttpError + nat option, w0)"
      using sweep by (cases q) (simp_all add: okOptE_def)
    ultimately show "start_upload E K D dir u w = (Inr ?i, w3)"
      by (simp add: start_upload_def)
    show "uploading E view dir u ?i bytes ?now (?now + secs (24 * 3600)) {} w3"
      unfolding uploading_def
      by (intro conjI exI [of _ "be_uploads_json E (AList.update ?i ?meta m)"] exI [of _ m'] exI [of _ ?meta] exI [of _ ?f])
        (use save load w1 in \<open>simp_all add: AList.update_conv' recorded_size_def\<close>)
  qed
qed

lemma upload_completes_aux:
  assumes json: "registry_json E" and uuid: "be_uuid_parse E (bd_uuid D) = Some (bd_uuid D)"
    and io: "bw_io w = []" and fresh: "map_of (bw_files w) (part_path dir (bd_uuid D)) = None"
    and reg: "\<And>raw. view (dr_now D) (bw_kv w) (uploads_key u) = Some raw \<Longrightarrow> be_uploads_parse E raw \<noteq> None"
    and count: "chunk_count bytes tot" "tot \<le> MAX_CHUNKS" and all: "snd ` set puts = {..<tot}"
    and time: "sorted (dr_now D # map (dr_now \<circ> fst) puts @ [dr_now D'])" "dr_now D' < dr_now D + secs (24 * 3600)"
  shows "\<exists>w1 w2 w3. start_upload E K D dir u w = (Inr (bd_uuid D), w1) \<and>
    put_all E K dir u (bd_uuid D) (chunk_of bytes) puts w1 = (Inr (), w2) \<and>
    upload_finish E K D' dir u (bd_uuid D) tot w2 = (Inr (lyra_path dir (bd_uuid D)), w3) \<and>
    map_option f_bytes (map_of (bw_files w3) (lyra_path dir (bd_uuid D))) = Some bytes"
proof -
  let ?T = "dr_now D + secs (24 * 3600)"
  obtain w1 where w1: "start_upload E K D dir u w = (Inr (bd_uuid D), w1)"
      "uploading E view dir u (bd_uuid D) bytes (dr_now D) ?T {} w1"
    by (rule start_ok [OF json uuid io fresh reg])
  from time have sorted: "sorted (dr_now D # map (dr_now \<circ> fst) puts)"
      "\<forall>x\<in>set puts. dr_now (fst x) < ?T" "last (dr_now D # map (dr_now \<circ> fst) puts) \<le> dr_now D'"
    by (auto simp: sorted_append last_map)
  obtain w2 where w2: "put_all E K dir u (bd_uuid D) (chunk_of bytes) puts w1 = (Inr (), w2)"
      "uploading E view dir u (bd_uuid D) bytes (last (dr_now D # map (dr_now \<circ> fst) puts)) ?T {..<tot} w2"
    using put_all_ok [OF json uuid count w1(2) _ sorted(1,2)] all by auto
  from finish_ok [OF json uuid count w2(2) sorted(3) time(2)] w1 w2 show ?thesis
    by blast
qed

end

context kv_atomic
begin

lemma foreign_registry:
  assumes "registry_json E" and "upload_run E K view dir src now own w" and "now \<le> t" and "own i \<noteq> Some u"
  shows "registered E view t w u i = None"
  using soundD(1) [OF sound_later [OF run_sound [OF assms(1,2)] assms(3)]] assms(4)
  by (cases "registered E view t w u i") auto

lemma load_files: "uploads_load E K now u w = (r, w') \<Longrightarrow> bw_files w' = bw_files w \<and> bw_db w' = bw_db w"
  by (auto simp: uploads_load_def bindE_def map_errE_def onkv_def split: prod.splits sum.splits option.splits)

lemma unregistered_put:
  assumes "registered E view (dr_now D) w u i = None" and "put_chunk E K D dir u i n bytes w = (r, w')"
  shows "bw_files w' = bw_files w" and "isl r"
    and "uploads_load E K (dr_now D) u w = (Inr m, w1) \<Longrightarrow>
      bytes \<noteq> [] \<and> length bytes \<le> CHUNK_SIZE \<and> n < MAX_CHUNKS \<Longrightarrow> r = Inl (BhUpload UpNotFound)"
proof -
  obtain q w0 where load: "uploads_load E K (dr_now D) u w = (q, w0)" by fastforce
  have "map_of m i = None" if "q = Inr m" for m
    using load_registered(1) [of E "dr_now D" u w m w0] load that assms(1) by simp
  with assms(2) load load_files [OF load]
  show "bw_files w' = bw_files w" "isl r"
      "uploads_load E K (dr_now D) u w = (Inr m, w1) \<Longrightarrow>
      bytes \<noteq> [] \<and> length bytes \<le> CHUNK_SIZE \<and> n < MAX_CHUNKS \<Longrightarrow> r = Inl (BhUpload UpNotFound)"
    by (cases q; auto simp: put_chunk_def upload_put_chunk_def map_errE_def bindE_def split: if_splits)+
qed

lemma unregistered_finish:
  assumes "registered E view (dr_now D) w u i = None" and "finish_upload E K D dir u i password tot w = (r, w')"
  shows "bw_files w' = bw_files w" and "bw_db w' = bw_db w" and "isl r"
proof -
  obtain q w0 where load: "uploads_load E K (dr_now D) u w = (q, w0)" by fastforce
  have "map_of m i = None" if "q = Inr m" for m
    using load_registered(1) [of E "dr_now D" u w m w0] load that assms(1) by simp
  with assms(2) load load_files [OF load] show "bw_files w' = bw_files w" "bw_db w' = bw_db w" "isl r"
    by (cases q; auto simp: finish_upload_def upload_finish_def map_errE_def bindE_def split: if_splits)+
qed

end

section \<open>A concrete environment\<close>

text \<open>A registry text: numbers in unary, closed by a dot; strings and lists after their length.\<close>

definition enc_nat :: "nat \<Rightarrow> string" where
  "enc_nat n = replicate n (CHR ''1'') @ ''.''"

fun dec_nat :: "string \<Rightarrow> (nat \<times> string) option" where
  "dec_nat [] = None"
| "dec_nat (c # cs) = (if c = CHR ''1'' then map_option (map_prod Suc id) (dec_nat cs) else Some (0, cs))"

definition enc_str :: "string \<Rightarrow> string" where
  "enc_str s = enc_nat (length s) @ s"

definition dec_str :: "string \<Rightarrow> (string \<times> string) option" where
  "dec_str cs = map_option (\<lambda>(n, r). (take n r, drop n r)) (dec_nat cs)"

fun dec_items :: "(string \<Rightarrow> ('a \<times> string) option) \<Rightarrow> nat \<Rightarrow> string \<Rightarrow> ('a list \<times> string) option" where
  "dec_items d 0 cs = Some ([], cs)"
| "dec_items d (Suc n) cs = Option.bind (d cs) (\<lambda>(x, r). map_option (map_prod ((#) x) id) (dec_items d n r))"

definition enc_list :: "('a \<Rightarrow> string) \<Rightarrow> 'a list \<Rightarrow> string" where
  "enc_list e xs = enc_nat (length xs) @ concat (map e xs)"

definition dec_list :: "(string \<Rightarrow> ('a \<times> string) option) \<Rightarrow> string \<Rightarrow> ('a list \<times> string) option" where
  "dec_list d cs = Option.bind (dec_nat cs) (\<lambda>(n, r). dec_items d n r)"

definition enc_entry :: "string \<times> UploadMeta \<Rightarrow> string" where
  "enc_entry e = enc_str (fst e) @ enc_list enc_nat (um_chunk_sizes (snd e)) @ enc_str (um_created_at (snd e))"

definition dec_entry :: "string \<Rightarrow> ((string \<times> UploadMeta) \<times> string) option" where
  "dec_entry cs = Option.bind (dec_str cs) (\<lambda>(i, r1). Option.bind (dec_list dec_nat r1) (\<lambda>(ns, r2).
     map_option (\<lambda>(c, r3). ((i, \<lparr>um_chunk_sizes = ns, um_created_at = c\<rparr>), r3)) (dec_str r2)))"

lemma dec_nat_enc: "dec_nat (enc_nat n @ r) = Some (n, r)"
  by (induction n) (simp_all add: enc_nat_def)

lemma dec_str_enc: "dec_str (enc_str s @ r) = Some (s, r)"
  by (simp add: dec_str_def enc_str_def dec_nat_enc)

lemma dec_items_enc:
  assumes "\<And>x r. d (e x @ r) = Some (x, r)"
  shows "dec_items d (length xs) (concat (map e xs) @ r) = Some (xs, r)"
  by (induction xs) (simp_all add: assms)

lemma dec_list_enc: "(\<And>x r. d (e x @ r) = Some (x, r)) \<Longrightarrow> dec_list d (enc_list e xs @ r) = Some (xs, r)"
  by (simp add: dec_list_def enc_list_def dec_nat_enc dec_items_enc)

lemma dec_entry_enc: "dec_entry (enc_entry e @ r) = Some (e, r)"
  by (cases e) (simp add: dec_entry_def enc_entry_def dec_str_enc dec_list_enc dec_nat_enc)

definition demo_backup_env :: BackupEnv where
  "demo_backup_env = \<lparr>be_jobs = demo_env, be_prims = demo_prims, be_uuid_parse = Some,
     be_uploads_json = enc_list enc_entry, be_uploads_parse = (\<lambda>s. map_option fst (dec_list dec_entry s)),
     be_artifacts_json = (\<lambda>_. []), be_artifacts_parse = (\<lambda>_. None), be_json_parse = (\<lambda>_. None),
     be_show_io = (\<lambda>_. ''io''), be_header_value = Some\<rparr>"

definition demo_bd :: BackupDraws where
  "demo_bd = \<lparr>dr_nonces = (\<lambda>_. []), dr_wrap_nonce = [], dr_fresh_dek = [], dr_master = None, dr_now = 0,
     dr_stamp = ''t'', dr_after = (\<lambda>_. ''t''), bd_wall = 0, bd_uuid = ''i'', bd_job_id = ''j'', bd_nonce = []\<rparr>"

definition demo_bw :: "MemoryKv BackupWorld" where
  "demo_bw = \<lparr>bw_kv = Map.empty, bw_db = demo_jobdb [], bw_users = demo_db, bw_dirs = {}, bw_files = [], bw_io = []\<rparr>"

lemma demo_registry_json: "registry_json demo_backup_env"
  using dec_list_enc [of dec_entry enc_entry _ "[]", OF dec_entry_enc]
  by (simp add: registry_json_def demo_backup_env_def)

lemma demo_upload:
  "\<exists>w1 w2 w3. start_upload demo_backup_env memory_kv demo_bd ''d'' ''u'' demo_bw = (Inr ''i'', w1) \<and>
    put_chunk demo_backup_env memory_kv demo_bd ''d'' ''u'' ''i'' 0 ''ab'' w1 = (Inr (), w2) \<and>
    upload_finish demo_backup_env memory_kv demo_bd ''d'' ''u'' ''i'' 1 w2 = (Inr (lyra_path ''d'' ''i''), w3)"
proof -
  have "chunk_of ''ab'' 0 = ''ab''" "chunk_count ''ab'' 1"
    by (simp_all add: chunk_of_def chunk_count_def CHUNK_SIZE_def)
  then show ?thesis
    using mem.upload_completes_aux [OF demo_registry_json, of demo_bd demo_bw "''d''" "''u''" "''ab''" 1 "[(demo_bd, 0)]" demo_bd]
    by (auto simp: demo_backup_env_def demo_bd_def demo_bw_def mem_view_def MAX_CHUNKS_def secs_def bindE_eq_Inr lessThan_Suc)
qed

text \<open>The states before and after the only chunk of that upload.\<close>

lemma demo_run:
  assumes "start_upload demo_backup_env memory_kv demo_bd ''d'' ''u'' demo_bw = (r, w1)"
  shows "upload_run demo_backup_env memory_kv mem_view ''d'' (\<lambda>_ _. ''ab'') 0 [''i'' \<mapsto> ''u''] w1"
proof -
  have "upload_run demo_backup_env memory_kv mem_view ''d'' (\<lambda>_ _. ''ab'') 0 Map.empty demo_bw"
    by (rule ur_init) (simp add: demo_bw_def mem_view_def)
  from ur_start [OF this _ _ _ assms] show ?thesis
    by (simp add: demo_bd_def demo_backup_env_def)
qed

section \<open>The promises\<close>

text \<open>C9: Whatever fails in between: if every chunk \<open>n\<close> the starter of an upload sends carries the same bytes
  \<open>src i n\<close>, then in every reachable state (requests of any users in any order, re-sent and out-of-order
  chunks, I/O errors and writes cut short at any byte, failed saves of the registry, sweeps, expiry),
  a \<^verbatim>\<open>finish\<close> that succeeds is one by the user who started the upload, and the file it hands over is exactly
  the concatenation of the chunks.\<close>

theorem upload_assembles_source:
  assumes "kv_atomic K view" and "registry_json E" and "upload_run E K view dir src now own w"
    and "now \<le> dr_now D" and "upload_finish E K D dir u i n w = (Inr path, w')"
  shows "own i = Some u \<and> path = lyra_path dir i \<and>
    map_option f_bytes (map_of (bw_files w') path) = Some (concat (map (src i) [0..<n]))"
  by (rule kv_atomic.finish_assembles [OF assms])

theorem upload_assembles_source_witness:
  "\<exists>w2 w3. upload_finish demo_backup_env memory_kv demo_bd ''d'' ''u'' ''i'' 1 w2 = (Inr (lyra_path ''d'' ''i''), w3) \<and>
    map_option f_bytes (map_of (bw_files w3) (lyra_path ''d'' ''i'')) = Some ''ab''"
proof -
  obtain w1 w2 w3 where w: "start_upload demo_backup_env memory_kv demo_bd ''d'' ''u'' demo_bw = (Inr ''i'', w1)"
      "put_chunk demo_backup_env memory_kv demo_bd ''d'' ''u'' ''i'' 0 ''ab'' w1 = (Inr (), w2)"
      "upload_finish demo_backup_env memory_kv demo_bd ''d'' ''u'' ''i'' 1 w2 = (Inr (lyra_path ''d'' ''i''), w3)"
    using demo_upload by blast
  have "upload_run demo_backup_env memory_kv mem_view ''d'' (\<lambda>_ _. ''ab'') (dr_now demo_bd) [''i'' \<mapsto> ''u''] w2"
    by (rule ur_put [OF demo_run [OF w(1)] _ _ w(2)]) simp_all
  from upload_assembles_source [OF mem_atomic.kv_atomic_axioms demo_registry_json this order_refl w(3)] w(3)
  show ?thesis by auto
qed

text \<open>C13: An upload goes through: with a kv store that does not fail, no I/O fault, and all requests within the
  24 hours of the registry entry, starting, sending every chunk of the file in any order (some perhaps more
  than once) and finishing succeeds, and the staged archive is the file.\<close>

theorem upload_completes:
  assumes "kv_reliable K view" and "registry_json E" and "be_uuid_parse E (bd_uuid D) = Some (bd_uuid D)"
    and "bw_io w = []" and "map_of (bw_files w) (part_path dir (bd_uuid D)) = None"
    and "\<And>raw. view (dr_now D) (bw_kv w) (uploads_key u) = Some raw \<Longrightarrow> be_uploads_parse E raw \<noteq> None"
    and "chunk_count bytes tot" and "tot \<le> MAX_CHUNKS" and "snd ` set puts = {..<tot}"
    and "sorted (dr_now D # map (dr_now \<circ> fst) puts @ [dr_now D'])"
    and "dr_now D' < dr_now D + secs (24 * 3600)"
  shows "\<exists>w1 w2 w3. start_upload E K D dir u w = (Inr (bd_uuid D), w1) \<and>
    put_all E K dir u (bd_uuid D) (chunk_of bytes) puts w1 = (Inr (), w2) \<and>
    upload_finish E K D' dir u (bd_uuid D) tot w2 = (Inr (lyra_path dir (bd_uuid D)), w3) \<and>
    map_option f_bytes (map_of (bw_files w3) (lyra_path dir (bd_uuid D))) = Some bytes"
  by (rule kv_reliable.upload_completes_aux [OF assms])

theorem upload_completes_witness:
  "\<exists>w1 w2 w3. start_upload demo_backup_env memory_kv demo_bd ''d'' ''u'' demo_bw = (Inr ''i'', w1) \<and>
    put_all demo_backup_env memory_kv ''d'' ''u'' ''i'' (chunk_of ''ab'') [(demo_bd, 0)] w1 = (Inr (), w2) \<and>
    upload_finish demo_backup_env memory_kv demo_bd ''d'' ''u'' ''i'' 1 w2 = (Inr (lyra_path ''d'' ''i''), w3) \<and>
    map_option f_bytes (map_of (bw_files w3) (lyra_path ''d'' ''i'')) = Some ''ab''"
  using upload_completes [OF mem.kv_reliable_axioms demo_registry_json,
      of demo_bd demo_bw "''d''" "''u''" "''ab''" 1 "[(demo_bd, 0)]" demo_bd]
  by (simp add: demo_backup_env_def demo_bd_def demo_bw_def mem_view_def MAX_CHUNKS_def secs_def
      chunk_count_def CHUNK_SIZE_def lessThan_Suc)

text \<open>C14: Another user's upload cannot be touched or recognised: in every reachable state a chunk or a finish for an
  upload the caller did not start fails, leaves every file and the job table as they were, and a well-formed
  chunk is answered as if the id did not exist.\<close>

theorem foreign_upload_untouched:
  assumes "kv_atomic K view" and "registry_json E" and "upload_run E K view dir src now own w"
    and "now \<le> dr_now D" and "own i \<noteq> Some u"
    and "put_chunk E K D dir u i n bytes w = (r, w')" and "finish_upload E K D dir u i password tot w = (q, w'')"
  shows "bw_files w' = bw_files w \<and> bw_files w'' = bw_files w \<and> bw_db w'' = bw_db w \<and> isl r \<and> isl q \<and>
    (\<forall>m w1. uploads_load E K (dr_now D) u w = (Inr m, w1) \<longrightarrow>
       bytes \<noteq> [] \<and> length bytes \<le> CHUNK_SIZE \<and> n < MAX_CHUNKS \<longrightarrow> r = Inl (BhUpload UpNotFound))"
proof -
  note none = kv_atomic.foreign_registry [OF assms(1-5)]
  note kv_atomic.unregistered_put [OF assms(1) none assms(6)]
    kv_atomic.unregistered_finish [OF assms(1) none assms(7)]
  then show ?thesis by blast
qed


theorem foreign_upload_untouched_witness:
  "\<exists>w1 r w'. start_upload demo_backup_env memory_kv demo_bd ''d'' ''u'' demo_bw = (Inr ''i'', w1) \<and>
    put_chunk demo_backup_env memory_kv demo_bd ''d'' ''v'' ''i'' 0 ''x'' w1 = (r, w') \<and>
    isl r \<and> bw_files w' = bw_files w1"
proof -
  obtain w1 where w1: "start_upload demo_backup_env memory_kv demo_bd ''d'' ''u'' demo_bw = (Inr ''i'', w1)"
    using demo_upload by blast
  obtain r w' where put: "put_chunk demo_backup_env memory_kv demo_bd ''d'' ''v'' ''i'' 0 ''x'' w1 = (r, w')"
    by fastforce
  obtain q w'' where fin: "finish_upload demo_backup_env memory_kv demo_bd ''d'' ''v'' ''i'' ''p'' 1 w1 = (q, w'')"
    by fastforce
  from foreign_upload_untouched [OF mem_atomic.kv_atomic_axioms demo_registry_json demo_run [OF w1] _ _ put fin] w1 put
  show ?thesis by auto
qed

section \<open>A staged file never gets shorter\<close>

text \<open>\<^verbatim>\<open>put_chunk\<close> neither truncates nor creates the file.\<close>

definition grows :: "('s BackupWorld, 'e, 'a) eff \<Rightarrow> bool" where
  "grows m \<longleftrightarrow> (\<forall>w r w' p f. m w = (r, w') \<longrightarrow> map_of (bw_files w) p = Some f \<longrightarrow>
     (\<exists>f'. map_of (bw_files w') p = Some f' \<and> length (f_bytes f) \<le> length (f_bytes f')))"

lemma grows_same:
  assumes "\<And>w r w'. m w = (r, w') \<Longrightarrow> bw_files w' = bw_files w"
  shows "grows m"
  using assms by (auto simp: grows_def)

lemma grows_bindE:
  assumes "grows m" and "\<And>x. grows (f x)"
  shows "grows (bindE m f)"
  unfolding grows_def
proof (intro allI impI)
  fix w r w' p g
  assume "bindE m f w = (r, w')" and g: "map_of (bw_files w) p = Some g"
  from this(1) show "\<exists>f'. map_of (bw_files w') p = Some f' \<and> length (f_bytes g) \<le> length (f_bytes f')"
  proof (cases rule: bindE_cases)
    case (1 e)
    with assms(1) g show ?thesis by (simp add: grows_def)
  next
    case (2 x w1)
    from assms(1) 2(1) g obtain f1 where "map_of (bw_files w1) p = Some f1" "length (f_bytes g) \<le> length (f_bytes f1)"
      unfolding grows_def by blast
    moreover from this(1) assms(2) 2(2) obtain f2 where
        "map_of (bw_files w') p = Some f2" "length (f_bytes f1) \<le> length (f_bytes f2)"
      unfolding grows_def by blast
    ultimately show ?thesis by auto
  qed
qed

lemma grows_map_errE: "grows m \<Longrightarrow> grows (map_errE g m)"
  unfolding grows_def map_errE_def by (auto split: prod.splits sum.splits)

lemma grows_fs: "grows fs_touch" "grows (stat p)"
  by (rule grows_same; auto simp: fs_touch_def stat_def fs_def split: list.splits option.splits)+

lemma grows_kv: "grows (uploads_load E K now u)" "grows (uploads_save E K now u m)"
  by (rule grows_same; auto simp: uploads_load_def uploads_save_def bindE_def map_errE_def onkv_def
      split: prod.splits sum.splits option.splits)+

lemma grows_write: "grows (write_flush wall p off bytes)"
proof -
  have "\<exists>f'. map_of (bw_files (write_bytes wall p off bs w)) q = Some f' \<and> length (f_bytes f) \<le> length (f_bytes f')"
    if "map_of (bw_files w) q = Some f" for bs q f and w :: "'a BackupWorld"
    using that by (auto simp: map_of_write_bytes length_write_at)
  then show ?thesis
    by (auto simp: grows_def elim!: write_flush_cases)
qed

lemma put_chunk_grows: "grows (upload_put_chunk E K D dir u i n bytes)"
  unfolding upload_put_chunk_def
  by (auto intro!: grows_bindE grows_map_errE grows_fs grows_kv grows_write split: option.split)
    (auto intro: grows_same)

text \<open>When the staged file is longer than the chunks recorded, \<^verbatim>\<open>finish\<close> asks for all chunks again; by the lemma
  above sending them again does not help, since the file stays as long as it is.\<close>

lemma finish_refuses_longer_file:
  assumes "0 < n" and "n \<le> MAX_CHUNKS" and "uploads_load E K (dr_now D) u w = (Inr m, w1)" and "bw_io w1 = []"
    and "map_of m i = Some meta" and "bad_chunks meta n = []" and "upload_path E dir i ''part'' = Inr part"
    and "map_of (bw_files w1) part = Some f"
    and "sum_list (map (\<lambda>k. um_chunk_sizes meta ! k) [0..<n]) < length (f_bytes f)"
  shows "upload_finish E K D dir u i n w = (Inl (UpIncomplete [0..<n]), w1)"
  using assms by (simp add: upload_finish_def stat_def not_less)

end
