(* ===== verification/Spec2Isabelle.thy ===== *)
theory Spec2Isabelle
  imports Lyra_Sessions Lyra_Pool Lyra_Scheduler Lyra_Auth Lyra_Mbox Lyra_ImapLive Lyra_JmapLaws Lyra_SpamPass
    Lyra_BackupLive
begin

text \<open>
  \<^bold>\<open>A verification library for the Lyra backend.\<close>

  Lyra is a self-hosted, single-user mail client. Its Rust backend (\<^verbatim>\<open>src/backend/src\<close>) serves an HTTP
  API, keeps mail in a SQL database (SQLite, Postgres or MySQL), keeps volatile state in a key-value
  store (in memory or Redis), and does its mail work in a queue of jobs that a pool of workers takes
  from the \<^verbatim>\<open>jobs\<close> table. The parts and how they interact:

  \<^item> the \<^emph>\<open>key-value store\<close> holds sessions, rate-limit counters, one-time-code steps and captcha settings;
  \<^item> the \<^emph>\<open>user table\<close> holds the one user, with its session epoch and wrapped data key;
  \<^item> the \<^emph>\<open>session store\<close> combines both: a session is valid when the key under the user's current epoch
    still names the user;
  \<^item> the \<^emph>\<open>key hierarchy\<close> wraps a per-user data key under a key derived from the master key, and rotates
    secrets that were encrypted before such keys existed;
  \<^item> the \<^emph>\<open>authentication handlers\<close> are the HTTP operations over all of these, and lock the
    \<^emph>\<open>OpenGPG unlock ring\<close> on logout;
  \<^item> the \<^emph>\<open>kernel\<close> routes sync and send work to protocol plugins and carries events;
  \<^item> the \<^emph>\<open>job queue\<close> dispatches syncs, sends, backups and housekeeping to the plugins; the
    \<^emph>\<open>worker pool\<close> runs several jobs at once; the \<^emph>\<open>scheduler\<close> feeds it with periodic syncs, spaced by a
    backoff that observes the outcome of earlier syncs;
  \<^item> a \<^emph>\<open>sync pass\<close> brings the mail of an account from an IMAP or a JMAP server into the \<^emph>\<open>mail store\<close>, one
    transaction per batch, and remembers in cursors how far it came;
  \<^item> the \<^emph>\<open>message actions\<close> of the API change mail on the server first and in the store afterwards; the
    \<^emph>\<open>anti-spam engine\<close> judges new mail after a sync and re-judges old mail when the sender lists change;
  \<^item> the \<^emph>\<open>backup endpoints\<close> take an archive in chunks, stage it as a file with a registry in the key-value
    store, and hand it to the job queue;
  \<^item> the \<^emph>\<open>address and URL guards\<close> decide which hosts the server may be sent to.

  \<^bold>\<open>Theories.\<close>

  \<^item> \<^verbatim>\<open>Lyra_Prelude\<close>: computations with state and errors (\<open>eff\<close>, \<open>bindE\<close>: Rust's \<^verbatim>\<open>?\<close>), JSON values,
    strings as UTF-8 bytes, decimal printing and \<^verbatim>\<open>i64\<close>/\<^verbatim>\<open>u64\<close> parsing with their bounds.
  \<^item> \<^verbatim>\<open>Lyra_Kv\<close> (\<^verbatim>\<open>kv/mod.rs\<close>, \<^verbatim>\<open>kv/memory.rs\<close>): the \<^verbatim>\<open>KvStore\<close> trait as a record of operations and
    \<^verbatim>\<open>MemoryKv\<close> with lazy expiry. The locales \<open>kv_store\<close> and \<open>kv_reliable\<close> are its contract, stated
    over what a store shows at an instant; \<open>mem\<close> interprets them. All clients are proved over the
    locale.
  \<^item> \<^verbatim>\<open>Lyra_Users\<close> (\<^verbatim>\<open>auth/db.rs\<close>, \<^verbatim>\<open>auth/types.rs\<close>): the user table with its unique constraints and the
    error type of the API.
  \<^item> \<^verbatim>\<open>Lyra_Crypto\<close> (\<^verbatim>\<open>crypto.rs\<close>, \<^verbatim>\<open>auth/dek.rs\<close>, \<^verbatim>\<open>auth/totp.rs\<close>, \<^verbatim>\<open>auth/state.rs\<close>): key wrapping, probing of
    legacy keys and the rotation; a data key is minted once, rotation keeps every plaintext.
  \<^item> \<^verbatim>\<open>Lyra_Sessions\<close> (\<^verbatim>\<open>auth/session.rs\<close>): the life of a session, revocation by epoch over every
    reachable state, and the exact window of the failed-attempt limiter.
  \<^item> \<^verbatim>\<open>Lyra_Captcha\<close> (\<^verbatim>\<open>auth/captcha.rs\<close>): the settings round trip. \<^verbatim>\<open>Lyra_Unlock\<close>
    (\<^verbatim>\<open>opengpg/session.rs\<close>): expiry of cached passphrases.
  \<^item> \<^verbatim>\<open>Lyra_Auth\<close> (\<^verbatim>\<open>auth/handlers.rs\<close>, \<^verbatim>\<open>auth/password.rs\<close>, \<^verbatim>\<open>auth/mod.rs\<close>): every handler; password change,
    lockout, bootstrap, second factor, replay protection and logout end to end.
  \<^item> \<^verbatim>\<open>Lyra_Kernel\<close> (\<^verbatim>\<open>kernel/\<close>, \<^verbatim>\<open>protocol/mod.rs\<close>, the error types of \<^verbatim>\<open>smtp.rs\<close>, \<^verbatim>\<open>imap.rs\<close>,
    \<^verbatim>\<open>sync/types.rs\<close>): plugin registries and the mapping of errors to job categories and API answers.
  \<^item> \<^verbatim>\<open>Lyra_Jobs\<close> (\<^verbatim>\<open>jobs.rs\<close>): the table, every query, the dispatch of every payload; claiming takes the
    oldest due job, a dispatch settles its row, failed sends retry exactly as documented.
  \<^item> \<^verbatim>\<open>Lyra_Pool\<close> (\<^verbatim>\<open>spawn_workers\<close>): polls, claims, syncs and reports of concurrent workers interleaved
    as a step relation with database faults and restarts; invariants by rule induction.
  \<^item> \<^verbatim>\<open>Lyra_Scheduler\<close> (\<^verbatim>\<open>scheduler.rs\<close>, \<^verbatim>\<open>imap_idle.rs\<close>): the poll pass and the backoff.
  \<^item> \<^verbatim>\<open>Lyra_Mbox\<close> (\<^verbatim>\<open>backup/format.rs\<close> and the text side of \<^verbatim>\<open>backup/export.rs\<close>, \<^verbatim>\<open>backup/import.rs\<close>): writing and
    splitting mbox archives and rebuilding messages; the round trip, and that no stored text can forge a header.
  \<^item> \<^verbatim>\<open>Lyra_Labels\<close> (\<^verbatim>\<open>sync/labels.rs\<close>): labels and their server keywords.
  \<^item> \<^verbatim>\<open>Lyra_Store\<close> (\<^verbatim>\<open>sync/store.rs\<close>): the tables \<^verbatim>\<open>folder\<close>, \<^verbatim>\<open>message\<close> and \<^verbatim>\<open>sync_cursor\<close> with their constraints, every
    statement and transaction on them. \<^verbatim>\<open>Lyra_StoreLaws\<close>: the constraints hold in every reachable state, a batch
    is atomic and refines an abstract upsert of a finite map, a sync keeps what the user did, reconciliation
    deletes exactly what the server no longer lists. Its locale \<open>store_frame\<close> lifts a relation on the tables from
    statements to all that is built of them, and is interpreted for each of these relations.
  \<^item> \<^verbatim>\<open>Lyra_Imap\<close> (\<^verbatim>\<open>imap.rs\<close>): the commands of the client over an abstract server; UID sets denote the UIDs they were
    made of, deletion spares other mail. \<^verbatim>\<open>Lyra_ImapSync\<close> (\<^verbatim>\<open>sync/imap_loop.rs\<close>): the whole pass; it never loses
    mail. \<^verbatim>\<open>Lyra_ImapLive\<close>: a first sync of an answering server mirrors it.
  \<^item> \<^verbatim>\<open>Lyra_JmapSync\<close> (\<^verbatim>\<open>sync/jmap_loop.rs\<close>, \<^verbatim>\<open>sync/recovery.rs\<close>, \<^verbatim>\<open>blobs/mod.rs\<close>, the requests of
    \<^verbatim>\<open>sync/jmap_client.rs\<close>): the JMAP pass with attachments. \<^verbatim>\<open>Lyra_JmapLaws\<close>: it deletes only what is gone, saves a
    query state only after its mail, and returns.
  \<^item> \<^verbatim>\<open>Lyra_Netsec\<close> (\<^verbatim>\<open>netsec.rs\<close> and the guards of \<^verbatim>\<open>sync/jmap_client.rs\<close>, \<^verbatim>\<open>dav.rs\<close>, \<^verbatim>\<open>dav_protocol.rs\<close>): blocked
    addresses, domains, redirects and security modes.
  \<^item> \<^verbatim>\<open>Lyra_Spam\<close> (\<^verbatim>\<open>spam.rs\<close>): verdicts, sender lists, settings and learning; a sender is on one list at most.
  \<^item> \<^verbatim>\<open>Lyra_Actions\<close> (the message actions and the spam pass of \<^verbatim>\<open>sync/http.rs\<close>, \<^verbatim>\<open>load_message_row\<close> of
    \<^verbatim>\<open>sync/queries.rs\<close>, \<^verbatim>\<open>Email/set\<close> of \<^verbatim>\<open>sync/jmap_client.rs\<close>). \<^verbatim>\<open>Lyra_ActionLaws\<close>: no action of a user reaches the mail
    of another, an action the server refuses leaves the mail as it was; its locale \<open>touch_frame\<close> lifts relations on
    single rows. \<^verbatim>\<open>Lyra_SpamPass\<close>: which rows the pass and a re-judge may touch, and how.
  \<^item> \<^verbatim>\<open>Lyra_Backup\<close> (\<^verbatim>\<open>backup/upload.rs\<close>, \<^verbatim>\<open>backup/artifacts.rs\<close>, \<^verbatim>\<open>backup/http.rs\<close>): chunked uploads over files and their
    faults, artifacts, and the handlers. \<^verbatim>\<open>Lyra_BackupLaws\<close>: the invariant between registry and staged file, over
    the locale \<open>kv_atomic\<close>. \<^verbatim>\<open>Lyra_BackupLive\<close>: a finished upload is the concatenation of its chunks whatever failed on
    the way, an upload without faults finishes, and no one touches the upload of another.

  \<^bold>\<open>Conventions.\<close> A database call fails when the model's fault flag (or the head of a script of
  faults) says so; statements that say a call returns assume an answering database and say it.
  Instants of the kv store are nanoseconds, as a natural number; a request sees one instant.
  Random draws, clocks, AES-GCM, HKDF, Argon2, base32, the one-time-code generator, JSON codecs, UUID
  parsing, Unicode lower-casing and the mail servers are arguments of the definitions (the records
  \<open>JobEnv\<close>, \<open>StoreEnv\<close>, \<open>ImapServer\<close>, \<open>JmapServer\<close>, \<open>SpamEnv\<close>, \<open>ActEnv\<close>, \<open>BackupEnv\<close>), with the laws that are used as named hypotheses:
  \<open>aead_laws\<close>, \<open>json_laws\<close>, \<open>settings_json_laws\<close>; \<open>id_value_idem\<close> (a bound id binds to itself), \<open>rfc_deletion\<close> (what
  RFC 3501 says of \<^verbatim>\<open>\Deleted\<close> and \<^verbatim>\<open>EXPUNGE\<close>), \<open>serves\<close> (an answering IMAP server), \<open>shows_pages\<close> and
  \<open>finite_mailboxes\<close> (a JMAP query ends in a short page), \<open>lower_idem\<close> (lower-casing twice is lower-casing once), \<open>registry_json\<close>
  (a registry reads back as it was written).
  Each has a concrete instance in a witness. No definition uses fuel: loops are recursions over the rows
  they scan, retries count down the attempts the source allows, and the paged JMAP query, which a server can keep
  going for ever, is a \<^verbatim>\<open>partial_function (option)\<close> whose termination is a theorem for finite mailboxes.

  \<^bold>\<open>Not modelled\<close>: the wire protocols below the clients, SMTP delivery and message composition, the HTTP
  router and the list and search endpoints, calendars and contacts (DAV), OpenGPG operations other than
  the unlock ring, OAuth flows, AI chat, push notifications, avatars and BIMI, rendering and sanitizing of mail, SQL
  migrations, memory zeroing, logging. They are I/O around third-party code, or presentation. Drafts, snoozing
  and the archive jobs of \<^verbatim>\<open>backup/\<close> beyond the mbox text and the upload are left out as well. The handlers of one request run without
  interleaving, except in \<^verbatim>\<open>Lyra_Pool\<close>; background tasks of the spam engine run as whole steps.
\<close>

end
